(* ===== verification/Egress_Prelude.thy ===== *)
theory Egress_Prelude
  imports Complex_Main "HOL-Library.List_Lexorder" "HOL-Library.Product_Lexorder"
begin

text \<open>
  The vocabulary every component shares: Python values as the code inspects them, the
  result type of code that may raise, text and byte strings with the built-in operations the
  code calls on them, decimal numerals, and the generic lemmas about them.

  Conventions.
  \<^item> \<open>str\<close> is a list of Unicode code points (type \<open>ustr\<close>), \<open>bytes\<close> a list of octets
    (type \<open>bytes\<close>, a \<open>char list\<close>, so that \<open>''host''\<close> is the literal \<open>b"host"\<close>).
  \<^item> What CPython reads from its Unicode database for non-ASCII characters, the third-party
    package \<open>idna\<close>, the process-local HMAC and the hash are the fields of a record
    \<open>pyenv\<close> that is an argument of every definition that uses them. For ASCII characters
    the operations are written out.
  \<^item> Code that raises returns \<open>'a res\<close>: \<open>Inl\<close> the exception, \<open>Inr\<close> the value.
\<close>

named_theorems result_simps \<open>unfolding rules of the result combinators\<close>
named_theorems ascii_simps \<open>evaluation of text literals and character classes\<close>

section \<open>Exceptions and results\<close>

datatype exn =
    EgressNotAllowedError
  | ValueError string
  | TypeError string
  | OverflowError
  | OSError string
  | UnicodeDecodeError
  | UnicodeEncodeError
  | SystemExit string
  | KeyboardInterrupt
  | GeneratorExit
  | OtherException nat
  | OtherBaseException nat

type_synonym 'a res = "exn + 'a"

fun is_ValueError :: "exn \<Rightarrow> bool" where
  "is_ValueError EgressNotAllowedError = True"
| "is_ValueError (ValueError _) = True"
| "is_ValueError UnicodeDecodeError = True"
| "is_ValueError UnicodeEncodeError = True"
| "is_ValueError _ = False"

fun is_TypeError :: "exn \<Rightarrow> bool" where
  "is_TypeError (TypeError _) = True"
| "is_TypeError _ = False"

text \<open>The three exceptions the code always lets through when it masks cleanup failures, and
  the subclasses of \<open>Exception\<close> that \<open>except Exception\<close> catches.\<close>

fun is_process_control :: "exn \<Rightarrow> bool" where
  "is_process_control KeyboardInterrupt = True"
| "is_process_control (SystemExit _) = True"
| "is_process_control GeneratorExit = True"
| "is_process_control _ = False"

fun is_Exception :: "exn \<Rightarrow> bool" where
  "is_Exception KeyboardInterrupt = False"
| "is_Exception (SystemExit _) = False"
| "is_Exception GeneratorExit = False"
| "is_Exception (OtherBaseException _) = False"
| "is_Exception _ = True"

definition ebind :: "'a res \<Rightarrow> ('a \<Rightarrow> 'b res) \<Rightarrow> 'b res" where
  "ebind m f = (case m of Inl e \<Rightarrow> Inl e | Inr x \<Rightarrow> f x)"

definition ensure :: "bool \<Rightarrow> exn \<Rightarrow> unit res" where
  "ensure b e = (if b then Inr () else Inl e)"

fun emap :: "('a \<Rightarrow> 'b res) \<Rightarrow> 'a list \<Rightarrow> 'b list res" where
  "emap f [] = Inr []"
| "emap f (x # xs) = ebind (f x) (\<lambda>y. ebind (emap f xs) (\<lambda>ys. Inr (y # ys)))"

definition of_option :: "exn \<Rightarrow> 'a option \<Rightarrow> 'a res" where
  "of_option e x = (case x of None \<Rightarrow> Inl e | Some y \<Rightarrow> Inr y)"

lemma ebind_Inr [simp, result_simps]: "ebind (Inr x) f = f x"
  by (simp add: ebind_def)

lemma ebind_Inl [simp, result_simps]: "ebind (Inl e) f = Inl e"
  by (simp add: ebind_def)

lemma ebind_eq_Inr [result_simps]:
  "ebind m f = Inr y \<longleftrightarrow> (\<exists>x. m = Inr x \<and> f x = Inr y)"
  by (cases m) auto

lemma ebind_eq_Inl [result_simps]:
  "ebind m f = Inl e \<longleftrightarrow> m = Inl e \<or> (\<exists>x. m = Inr x \<and> f x = Inl e)"
  by (cases m) auto

lemma ensure_eq_Inr [result_simps]: "ensure b e = Inr x \<longleftrightarrow> b"
  by (simp add: ensure_def)

lemma ensure_eq_Inl [result_simps]: "ensure b e = Inl e' \<longleftrightarrow> \<not> b \<and> e' = e"
  by (auto simp: ensure_def)

lemma ensure_True [simp]: "ensure True e = Inr ()"
  and ensure_False [simp]: "ensure False e = Inl e"
  by (simp_all add: ensure_def)

lemma of_option_eq_Inr [result_simps]: "of_option e x = Inr y \<longleftrightarrow> x = Some y"
  by (cases x) (simp_all add: of_option_def)

lemma of_option_eq_Inl [result_simps]: "of_option e x = Inl e' \<longleftrightarrow> x = None \<and> e' = e"
  by (cases x) (auto simp: of_option_def)

lemma of_option_simps [simp]: "of_option e None = Inl e" "of_option e (Some x) = Inr x"
  by (simp_all add: of_option_def)

lemma emap_eq_Inr: "emap f xs = Inr ys \<longleftrightarrow> list_all2 (\<lambda>x y. f x = Inr y) xs ys"
  by (induction xs arbitrary: ys)
    (auto simp: result_simps list_all2_Cons1)

lemma emap_Inr_set: "emap f xs = Inr ys \<Longrightarrow> y \<in> set ys \<longleftrightarrow> (\<exists>x\<in>set xs. f x = Inr y)"
  by (induction xs arbitrary: ys) (auto simp: result_simps)

lemma emap_Inr_length: "emap f xs = Inr ys \<Longrightarrow> length ys = length xs"
  by (auto simp: emap_eq_Inr dest: list_all2_lengthD)

lemma emap_total:
  "(\<And>x. x \<in> set xs \<Longrightarrow> f x = Inr (g x)) \<Longrightarrow> emap f xs = Inr (map g xs)"
  by (induction xs) auto

lemma emap_cong [fundef_cong]:
  "xs = ys \<Longrightarrow> (\<And>x. x \<in> set ys \<Longrightarrow> f x = g x) \<Longrightarrow> emap f xs = emap g ys"
  by (induction ys arbitrary: xs) auto

section \<open>Text and bytes\<close>

type_synonym ustr = "int list"
type_synonym bytes = "char list"

definition u :: "string \<Rightarrow> ustr" where
  "u s = map of_char s"

definition octets :: "bytes \<Rightarrow> int list" where
  "octets b = map of_char b"

definition octet :: "char \<Rightarrow> int" where
  "octet c = of_char c"

lemmas u_simps [ascii_simps] = u_def

lemma octet_bounds: "0 \<le> octet c" "octet c < 256"
proof -
  have "octet c = octet c mod 256" by (simp add: octet_def)
  then show "0 \<le> octet c" "octet c < 256"
    using pos_mod_sign [of 256 "octet c"] pos_mod_bound [of 256 "octet c"] by simp_all
qed

lemma octet_inject [simp]: "octet c = octet d \<longleftrightarrow> c = d"
  by (simp add: octet_def)

lemma octets_Nil [simp]: "octets [] = []"
  and octets_Cons [simp]: "octets (c # b) = octet c # octets b"
  and octets_append [simp]: "octets (a @ b) = octets a @ octets b"
  by (simp_all add: octets_def octet_def)

lemma length_octets [simp]: "length (octets b) = length b"
  by (simp add: octets_def)

lemma octets_inject [simp]: "octets a = octets b \<longleftrightarrow> a = b"
proof -
  have "inj (of_char :: char \<Rightarrow> int)" by (rule injI) simp
  then show ?thesis by (simp add: octets_def inj_map_eq_map)
qed

text \<open>What the interpreter and third-party code supply. Each field is used only where the
  comment says, and only for arguments outside ASCII where the operation has an ASCII part.\<close>

datatype pyfloat = FFin rat | FPosInf | FNegInf | FNan

datatype pyval =
    VNone
  | VBool bool
  | VInt int
  | VIntSub int            \<comment> \<open>an instance of a subclass of \<open>int\<close> other than \<open>bool\<close>\<close>
  | VFloat pyfloat
  | VReal "pyfloat option" bool
      \<comment> \<open>another \<open>numbers.Real\<close>: what \<open>float()\<close> gives (None: it raises), and whether it is \<open><= 0\<close>\<close>
  | VStr ustr
  | VStrSub ustr           \<comment> \<open>an instance of a subclass of \<open>str\<close>\<close>
  | VBytes bytes
  | VBytesSub bytes        \<comment> \<open>an instance of a subclass of \<open>bytes\<close>\<close>
  | VTuple "pyval list"
  | VList "pyval list"
  | VSet "pyval list"      \<comment> \<open>a \<open>frozenset\<close>, in iteration order\<close>
  | VDict "(pyval \<times> pyval) list"
  | VMapping "(pyval \<times> pyval) list option"
      \<comment> \<open>another \<open>Mapping\<close>: the items \<open>dict()\<close> copies, None when copying raises\<close>
  | VObj nat               \<comment> \<open>any other object\<close>

record pyenv =
  uni_space :: "int \<Rightarrow> bool"        \<comment> \<open>\<open>str.isspace\<close> of a non-ASCII character\<close>
  uni_digit :: "int \<Rightarrow> bool"        \<comment> \<open>\<open>str.isdigit\<close> of a non-ASCII character\<close>
  uni_lower :: "ustr \<Rightarrow> ustr"       \<comment> \<open>\<open>str.lower\<close> of a text with a non-ASCII character\<close>
  uni_upper :: "ustr \<Rightarrow> ustr"       \<comment> \<open>\<open>str.upper\<close> of a text with a non-ASCII character\<close>
  uni_nfkc :: "ustr \<Rightarrow> ustr"        \<comment> \<open>\<open>unicodedata.normalize('NFKC', s)\<close>\<close>
  idna_encode :: "ustr \<Rightarrow> bytes option"
    \<comment> \<open>\<open>idna.encode(s, uts46=True, std3_rules=True)\<close>; None: \<open>IDNAError\<close> or \<open>UnicodeError\<close>\<close>
  repr_utf8 :: "pyval \<Rightarrow> bytes"     \<comment> \<open>\<open>repr(v).encode("utf-8")\<close>\<close>
  hmac_digest :: "bytes \<Rightarrow> bytes"   \<comment> \<open>HMAC-SHA256 under the process-local key\<close>
  sha256_hex :: "bytes \<Rightarrow> ustr"     \<comment> \<open>\<open>hashlib.sha256(b).hexdigest()\<close>\<close>
  float_repr :: "rat \<Rightarrow> ustr"       \<comment> \<open>\<open>repr(x)\<close> of a finite float\<close>

subsection \<open>Character classes and the string methods the code calls\<close>

definition is_ascii_c :: "int \<Rightarrow> bool" where
  "is_ascii_c c \<longleftrightarrow> 0 \<le> c \<and> c < 128"

definition py_isascii :: "ustr \<Rightarrow> bool" where
  "py_isascii s = list_all is_ascii_c s"

definition is_space_c :: "pyenv \<Rightarrow> int \<Rightarrow> bool" where
  "is_space_c E c =
     (if is_ascii_c c then (9 \<le> c \<and> c \<le> 13) \<or> (28 \<le> c \<and> c \<le> 32) else uni_space E c)"

definition is_dec_c :: "int \<Rightarrow> bool" where
  "is_dec_c c \<longleftrightarrow> 48 \<le> c \<and> c \<le> 57"

definition is_digit_c :: "pyenv \<Rightarrow> int \<Rightarrow> bool" where
  "is_digit_c E c = (if is_ascii_c c then is_dec_c c else uni_digit E c)"

definition py_isdigit :: "pyenv \<Rightarrow> ustr \<Rightarrow> bool" where
  "py_isdigit E s \<longleftrightarrow> s \<noteq> [] \<and> list_all (is_digit_c E) s"

definition lower_c :: "int \<Rightarrow> int" where
  "lower_c c = (if 65 \<le> c \<and> c \<le> 90 then c + 32 else c)"

definition upper_c :: "int \<Rightarrow> int" where
  "upper_c c = (if 97 \<le> c \<and> c \<le> 122 then c - 32 else c)"

definition py_lower :: "pyenv \<Rightarrow> ustr \<Rightarrow> ustr" where
  "py_lower E s = (if py_isascii s then map lower_c s else uni_lower E s)"

definition py_upper :: "pyenv \<Rightarrow> ustr \<Rightarrow> ustr" where
  "py_upper E s = (if py_isascii s then map upper_c s else uni_upper E s)"

definition py_strip :: "pyenv \<Rightarrow> ustr \<Rightarrow> ustr" where
  "py_strip E s = rev (dropWhile (is_space_c E) (rev (dropWhile (is_space_c E) s)))"

definition py_rstrip :: "'a \<Rightarrow> 'a list \<Rightarrow> 'a list" where
  "py_rstrip c s = rev (dropWhile (\<lambda>x. x = c) (rev s))"

definition py_lstrip :: "'a \<Rightarrow> 'a list \<Rightarrow> 'a list" where
  "py_lstrip c s = dropWhile (\<lambda>x. x = c) s"

definition py_remove :: "'a \<Rightarrow> 'a list \<Rightarrow> 'a list" where
  "py_remove c s = filter (\<lambda>x. x \<noteq> c) s"

definition starts_with :: "'a list \<Rightarrow> 'a list \<Rightarrow> bool" where
  "starts_with p s \<longleftrightarrow> take (length p) s = p"

fun py_split :: "'a \<Rightarrow> 'a list \<Rightarrow> 'a list list" where
  "py_split c [] = [[]]"
| "py_split c (x # xs) =
     (if x = c then [] # py_split c xs
      else (case py_split c xs of [] \<Rightarrow> [[x]] | y # ys \<Rightarrow> (x # y) # ys))"

fun py_join :: "'a \<Rightarrow> 'a list list \<Rightarrow> 'a list" where
  "py_join c [] = []"
| "py_join c [s] = s"
| "py_join c (s # t # ss) = s @ c # py_join c (t # ss)"

definition py_partition :: "'a \<Rightarrow> 'a list \<Rightarrow> 'a list \<times> bool \<times> 'a list" where
  "py_partition c s =
     (takeWhile (\<lambda>x. x \<noteq> c) s, c \<in> set s, drop 1 (dropWhile (\<lambda>x. x \<noteq> c) s))"

definition py_rpartition :: "'a \<Rightarrow> 'a list \<Rightarrow> 'a list \<times> bool \<times> 'a list" where
  "py_rpartition c s =
     (if c \<in> set s
      then (rev (drop 1 (dropWhile (\<lambda>x. x \<noteq> c) (rev s))), True, rev (takeWhile (\<lambda>x. x \<noteq> c) (rev s)))
      else ([], False, s))"

definition bytes_lower :: "bytes \<Rightarrow> bytes" where
  "bytes_lower b = map (\<lambda>c. if 65 \<le> octet c \<and> octet c \<le> 90 then char_of (octet c + 32) else c) b"

definition decode_ascii :: "bytes \<Rightarrow> ustr option" where
  "decode_ascii b = (if list_all is_ascii_c (octets b) then Some (octets b) else None)"

definition encode_ascii :: "ustr \<Rightarrow> bytes option" where
  "encode_ascii s = (if py_isascii s then Some (map char_of s) else None)"

lemma py_split_not_Nil [simp]: "py_split c s \<noteq> []"
  by (cases s) (auto split: list.splits)

lemma py_split_no_sep: "c \<notin> set s \<Longrightarrow> py_split c s = [s]"
  by (induction s) auto

lemma py_split_append:
  "c \<notin> set s \<Longrightarrow> py_split c (s @ c # t) = s # py_split c t"
  by (induction s) auto

lemma py_split_join:
  "ss \<noteq> [] \<Longrightarrow> (\<And>s. s \<in> set ss \<Longrightarrow> c \<notin> set s) \<Longrightarrow> py_split c (py_join c ss) = ss"
  by (induction c ss rule: py_join.induct) (simp_all add: py_split_no_sep py_split_append)

lemma py_split_parts: "p \<in> set (py_split c s) \<Longrightarrow> c \<notin> set p"
  by (induction s arbitrary: p) (auto split: list.splits if_splits)

lemma py_partition_no_sep: "c \<notin> set s \<Longrightarrow> py_partition c s = (s, False, [])"
  by (induction s) (auto simp: py_partition_def)

lemma py_partition_sep: "c \<notin> set s \<Longrightarrow> py_partition c (s @ c # t) = (s, True, t)"
  by (induction s) (auto simp: py_partition_def)

lemma py_rpartition_no_sep: "c \<notin> set s \<Longrightarrow> py_rpartition c s = ([], False, s)"
  by (simp add: py_rpartition_def)

lemma set_py_strip: "set (py_strip E s) \<subseteq> set s"
  by (auto simp: py_strip_def dest!: set_dropWhileD)

lemma py_strip_id:
  assumes "s = [] \<or> \<not> is_space_c E (hd s) \<and> \<not> is_space_c E (last s)"
  shows "py_strip E s = s"
proof (cases s)
  case Nil
  then show ?thesis by (simp add: py_strip_def)
next
  case (Cons x xs)
  with assms have hd: "\<not> is_space_c E (hd s)" and la: "\<not> is_space_c E (last s)" by auto
  from hd Cons have 1: "dropWhile (is_space_c E) s = s" by simp
  from la Cons have 2: "dropWhile (is_space_c E) (rev s) = rev s"
    by (metis dropWhile_eq_self_iff hd_rev)
  show ?thesis by (simp add: py_strip_def 1 2)
qed

lemma py_strip_ends:
  assumes "py_strip E s \<noteq> []"
  shows "\<not> is_space_c E (hd (py_strip E s)) \<and> \<not> is_space_c E (last (py_strip E s))"
proof -
  let ?d = "dropWhile (is_space_c E) s"
  let ?r = "dropWhile (is_space_c E) (rev ?d)"
  from assms have ne: "?r \<noteq> []" by (simp add: py_strip_def)
  have l: "\<not> is_space_c E (last (py_strip E s))"
    using ne hd_dropWhile [of "is_space_c E" "rev ?d"] by (simp add: py_strip_def last_rev)
  have "?d \<noteq> []" using ne by (metis dropWhile.simps(1) rev.simps(1))
  then have h: "\<not> is_space_c E (hd ?d)" by (rule hd_dropWhile)
  have "rev ?d = takeWhile (is_space_c E) (rev ?d) @ ?r" by simp
  then have "?d = rev ?r @ rev (takeWhile (is_space_c E) (rev ?d))"
    by (metis rev_append rev_rev_ident)
  then have "hd ?d = hd (rev ?r)" using ne by (metis hd_append2 rev_is_Nil_conv)
  with h l show ?thesis by (simp add: py_strip_def)
qed

lemma py_strip_idem [simp]: "py_strip E (py_strip E s) = py_strip E s"
  using py_strip_ends by (blast intro: py_strip_id)

lemma py_rstrip_idem [simp]: "py_rstrip c (py_rstrip c s) = py_rstrip c s"
  by (simp add: py_rstrip_def)

lemma set_py_rstrip: "set (py_rstrip c s) \<subseteq> set s"
  by (auto simp: py_rstrip_def dest: set_dropWhileD)

lemma lower_c_idem [simp]: "lower_c (lower_c c) = lower_c c"
  by (simp add: lower_c_def)

lemma upper_c_idem [simp]: "upper_c (upper_c c) = upper_c c"
  by (simp add: upper_c_def)

lemma is_ascii_lower_c [simp]: "is_ascii_c (lower_c c) = is_ascii_c c"
  by (auto simp: lower_c_def is_ascii_c_def)

lemma is_ascii_upper_c [simp]: "is_ascii_c (upper_c c) = is_ascii_c c"
  by (auto simp: upper_c_def is_ascii_c_def)

lemma py_isascii_map_lower [simp]: "py_isascii (map lower_c s) = py_isascii s"
  by (simp add: py_isascii_def list_all_iff)

lemma py_lower_idem: "py_isascii s \<Longrightarrow> py_lower E (py_lower E s) = py_lower E s"
  by (simp add: py_lower_def o_def)

lemma py_isascii_append [simp]: "py_isascii (s @ t) \<longleftrightarrow> py_isascii s \<and> py_isascii t"
  and py_isascii_Nil [simp]: "py_isascii []"
  and py_isascii_Cons [simp]: "py_isascii (c # s) \<longleftrightarrow> is_ascii_c c \<and> py_isascii s"
  by (simp_all add: py_isascii_def)

lemma py_isascii_subset: "py_isascii s \<Longrightarrow> set t \<subseteq> set s \<Longrightarrow> py_isascii t"
  by (auto simp: py_isascii_def list_all_iff)

section \<open>Decimal numerals\<close>

text \<open>
  \<open>int(s)\<close> and \<open>str(n)\<close> on decimal digits. CPython refuses both beyond 4300 digits
  with a \<open>ValueError\<close>.
\<close>

definition dec_value :: "ustr \<Rightarrow> int" where
  "dec_value s = foldl (\<lambda>acc c. acc * 10 + (c - 48)) 0 s"

function dec_digits :: "int \<Rightarrow> ustr" where
  "dec_digits n = (if n < 10 then [48 + n] else dec_digits (n div 10) @ [48 + n mod 10])"
  by pat_completeness auto
termination
  by (relation "measure nat") auto

declare dec_digits.simps [simp del]

definition max_str_digits :: nat where
  "max_str_digits = 4300"

definition int_limit_error :: exn where
  "int_limit_error = ValueError ''Exceeds the limit (4300 digits) for integer string conversion''"

definition py_int_dec :: "ustr \<Rightarrow> int res" where
  "py_int_dec s = (if length s > max_str_digits then Inl int_limit_error else Inr (dec_value s))"

definition py_str_nat :: "int \<Rightarrow> ustr res" where
  "py_str_nat n =
     (if length (dec_digits n) > max_str_digits then Inl int_limit_error else Inr (dec_digits n))"

definition all_dec :: "ustr \<Rightarrow> bool" where
  "all_dec s = list_all is_dec_c s"

lemma all_dec_simps [simp]:
  "all_dec []" "all_dec (c # s) \<longleftrightarrow> is_dec_c c \<and> all_dec s"
  "all_dec (s @ t) \<longleftrightarrow> all_dec s \<and> all_dec t"
  by (simp_all add: all_dec_def)

lemma dec_value_Nil [simp]: "dec_value [] = 0"
  by (simp add: dec_value_def)

lemma dec_value_snoc [simp]: "dec_value (s @ [c]) = dec_value s * 10 + (c - 48)"
  by (simp add: dec_value_def)

lemma dec_value_bounds:
  "all_dec s \<Longrightarrow> 0 \<le> dec_value s \<and> dec_value s < 10 ^ length s"
  by (induction s rule: rev_induct) (auto simp: is_dec_c_def)

lemma dec_value_Cons: "dec_value (c # s) = (c - 48) * 10 ^ length s + dec_value s"
proof (induction s rule: rev_induct)
  case Nil
  show ?case by (simp add: dec_value_def)
next
  case (snoc x xs)
  have "dec_value (c # xs @ [x]) = dec_value (c # xs) * 10 + (x - 48)"
    using dec_value_snoc [of "c # xs" x] by simp
  with snoc show ?case by (simp add: algebra_simps)
qed

lemma dec_value_append: "dec_value (s @ t) = dec_value s * 10 ^ length t + dec_value t"
proof (induction t rule: rev_induct)
  case Nil
  show ?case by simp
next
  case (snoc x xs)
  have "dec_value (s @ xs @ [x]) = dec_value (s @ xs) * 10 + (x - 48)"
    using dec_value_snoc [of "s @ xs" x] by simp
  with snoc show ?case by (simp add: algebra_simps)
qed

lemma dec_digits_all_dec: "0 \<le> n \<Longrightarrow> all_dec (dec_digits n)"
proof (induction n rule: dec_digits.induct)
  case (1 n)
  then show ?case
    by (subst dec_digits.simps) (auto simp: is_dec_c_def)
qed

lemma dec_value_digits [simp]: "0 \<le> n \<Longrightarrow> dec_value (dec_digits n) = n"
proof (induction n rule: dec_digits.induct)
  case (1 n)
  show ?case
  proof (cases "n < 10")
    case True
    then show ?thesis by (subst dec_digits.simps) (simp add: dec_value_def)
  next
    case False
    with 1 have "dec_value (dec_digits (n div 10)) = n div 10" by simp
    with False show ?thesis by (subst dec_digits.simps) simp
  qed
qed

lemma dec_digits_not_Nil [simp]: "dec_digits n \<noteq> []"
  by (subst dec_digits.simps) simp

lemma dec_digits_head: "0 < n \<Longrightarrow> hd (dec_digits n) \<noteq> 48"
proof (induction n rule: dec_digits.induct)
  case (1 n)
  then show ?case by (subst dec_digits.simps) (auto simp: hd_append)
qed

text \<open>Without leading zeros, more digits is a larger number, and among equally long digit
  strings the lexicographic order is the numeric one.\<close>

lemma dec_value_lower:
  assumes "all_dec (c # s)" "c \<noteq> 48"
  shows "10 ^ length s \<le> dec_value (c # s)"
proof -
  from assms have "1 \<le> c - 48" "0 \<le> dec_value s"
    using dec_value_bounds [of s] by (auto simp: is_dec_c_def)
  then have "1 * 10 ^ length s \<le> (c - 48) * 10 ^ length s"
    by (intro mult_right_mono) auto
  with \<open>0 \<le> dec_value s\<close> show ?thesis unfolding dec_value_Cons by linarith
qed

lemma dec_value_longer:
  assumes "all_dec s" "all_dec t" "t \<noteq> []" "hd t \<noteq> 48" "length s < length t"
  shows "dec_value s < dec_value t"
proof -
  obtain c t' where t: "t = c # t'" using assms(3) by (cases t) auto
  have "dec_value s < 10 ^ length s" using dec_value_bounds [OF assms(1)] by simp
  also have "(10::int) ^ length s \<le> 10 ^ length t'" using assms(5) t by simp
  also have "\<dots> \<le> dec_value t" using assms(2,4) t dec_value_lower [of c t'] by simp
  finally show ?thesis .
qed

lemma dec_value_lex:
  "all_dec s \<Longrightarrow> all_dec t \<Longrightarrow> length s = length t \<Longrightarrow> s < t \<longleftrightarrow> dec_value s < dec_value t"
proof (induction s arbitrary: t)
  case Nil
  then show ?case by simp
next
  case (Cons a s)
  then obtain b t' where t: "t = b # t'" and len: "length s = length t'"
    by (cases t) auto
  from Cons.prems t have d: "all_dec s" "all_dec t'" by auto
  note bs = dec_value_bounds [OF d(1)] dec_value_bounds [OF d(2)]
  have lt: "dec_value (x # p) < dec_value (y # q)"
    if "x < y" "length p = length q" "0 \<le> dec_value q" "dec_value p < 10 ^ length p" for x y p q
  proof -
    have "(x - 48 + 1) * 10 ^ length q \<le> (y - 48) * 10 ^ length q"
      using that(1) by (intro mult_right_mono) auto
    then have "(x - 48) * 10 ^ length q + 10 ^ length q \<le> (y - 48) * 10 ^ length q"
      by (simp add: algebra_simps)
    with that show ?thesis by (simp add: dec_value_Cons)
  qed
  consider "a < b" | "b < a" | "a = b" by linarith
  then show ?case
  proof cases
    case 1
    then show ?thesis using lt [of a b s t'] bs len t by simp
  next
    case 2
    then have "dec_value (b # t') < dec_value (a # s)" using lt [of b a t' s] bs len by simp
    with 2 t show ?thesis by simp
  next
    case 3
    with Cons.IH [OF d len] t len show ?thesis by (simp add: dec_value_Cons)
  qed
qed

lemma dec_value_lstrip: "dec_value (py_lstrip 48 s) = dec_value s"
  by (induction s) (simp_all add: py_lstrip_def dec_value_Cons)

lemma all_dec_lstrip: "all_dec s \<Longrightarrow> all_dec (py_lstrip 48 s)"
  by (auto simp: py_lstrip_def all_dec_def list_all_iff dest: set_dropWhileD)

lemma py_lstrip_hd: "py_lstrip c s \<noteq> [] \<Longrightarrow> hd (py_lstrip c s) \<noteq> c"
  using hd_dropWhile [of "\<lambda>x. x = c" s] by (simp add: py_lstrip_def)

lemma all_dec_isascii: "all_dec s \<Longrightarrow> py_isascii s"
  by (auto simp: all_dec_def py_isascii_def list_all_iff is_dec_c_def is_ascii_c_def)

lemma ascii_isdigit_iff:
  "py_isascii s \<Longrightarrow> py_isdigit E s \<longleftrightarrow> s \<noteq> [] \<and> all_dec s"
  by (auto simp: py_isdigit_def all_dec_def py_isascii_def list_all_iff is_digit_c_def)

text \<open>The comparison the code uses in place of \<open>int(s) > n\<close>: by length, then lexicographic.\<close>

definition exceeds_budget :: "ustr \<Rightarrow> ustr \<Rightarrow> bool" where
  "exceeds_budget sig budget \<longleftrightarrow>
     length sig > length budget \<or> (length sig = length budget \<and> sig > budget)"

theorem exceeds_budget_numeric:
  assumes "all_dec sig" "sig \<noteq> []" "hd sig \<noteq> 48" "0 < n"
  shows "exceeds_budget sig (dec_digits n) \<longleftrightarrow> n < dec_value sig"
proof -
  have b: "all_dec (dec_digits n)" "hd (dec_digits n) \<noteq> 48" "dec_value (dec_digits n) = n"
    using assms(4) by (simp_all add: dec_digits_all_dec dec_digits_head)
  consider "length sig < length (dec_digits n)" | "length (dec_digits n) < length sig"
    | "length sig = length (dec_digits n)" by linarith
  then show ?thesis
  proof cases
    case 1
    then show ?thesis
      using dec_value_longer [OF assms(1) b(1) _ b(2) 1] b(3) by (simp add: exceeds_budget_def)
  next
    case 2
    then show ?thesis
      using dec_value_longer [OF b(1) assms(1,2,3) 2] b(3) by (simp add: exceeds_budget_def)
  next
    case 3
    then show ?thesis
      using dec_value_lex [OF b(1) assms(1)] b(3) by (simp add: exceeds_budget_def)
  qed
qed

end
