(* ===== verification/Egress_Values.thy ===== *)
theory Egress_Values
  imports Egress_Prelude
begin

text \<open>
  How the code inspects a Python value: the \<open>isinstance\<close> and \<open>type(...) is\<close> tests, iteration,
  \<open>frozenset\<close>, the conversion to \<open>float\<close> with its rounding and overflow, and finiteness.
\<close>

section \<open>Type tests\<close>

fun as_str :: "pyval \<Rightarrow> ustr option" where      \<comment> \<open>\<open>isinstance(v, str)\<close>\<close>
  "as_str (VStr s) = Some s"
| "as_str (VStrSub s) = Some s"
| "as_str _ = None"

fun exact_str :: "pyval \<Rightarrow> ustr option" where   \<comment> \<open>\<open>type(v) is str\<close>\<close>
  "exact_str (VStr s) = Some s"
| "exact_str _ = None"

fun exact_bytes :: "pyval \<Rightarrow> bytes option" where \<comment> \<open>\<open>type(v) is bytes\<close>\<close>
  "exact_bytes (VBytes b) = Some b"
| "exact_bytes _ = None"

fun as_bytes :: "pyval \<Rightarrow> bytes option" where   \<comment> \<open>\<open>isinstance(v, bytes)\<close>\<close>
  "as_bytes (VBytes b) = Some b"
| "as_bytes (VBytesSub b) = Some b"
| "as_bytes _ = None"

fun exact_int :: "pyval \<Rightarrow> int option" where     \<comment> \<open>\<open>type(v) is int\<close>\<close>
  "exact_int (VInt n) = Some n"
| "exact_int _ = None"

fun is_bool :: "pyval \<Rightarrow> bool" where
  "is_bool (VBool _) = True"
| "is_bool _ = False"

text \<open>\<open>isinstance(v, int)\<close>: \<open>bool\<close> is a subclass of \<open>int\<close>.\<close>

fun as_int :: "pyval \<Rightarrow> int option" where
  "as_int (VBool b) = Some (of_bool b)"
| "as_int (VInt n) = Some n"
| "as_int (VIntSub n) = Some n"
| "as_int _ = None"

fun as_tuple :: "pyval \<Rightarrow> pyval list option" where
  "as_tuple (VTuple xs) = Some xs"
| "as_tuple _ = None"

fun is_Real :: "pyval \<Rightarrow> bool" where
  "is_Real (VBool _) = True"
| "is_Real (VInt _) = True"
| "is_Real (VIntSub _) = True"
| "is_Real (VFloat _) = True"
| "is_Real (VReal _ _) = True"
| "is_Real _ = False"

lemma exact_str_as_str: "exact_str v = Some s \<Longrightarrow> as_str v = Some s"
  by (cases v) auto

lemma exact_bytes_iff [simp]: "exact_bytes v = Some b \<longleftrightarrow> v = VBytes b"
  by (cases v) auto

lemma exact_str_iff [simp]: "exact_str v = Some s \<longleftrightarrow> v = VStr s"
  by (cases v) auto

lemma exact_int_iff [simp]: "exact_int v = Some n \<longleftrightarrow> v = VInt n"
  by (cases v) auto

section \<open>Iteration and frozenset\<close>

text \<open>\<open>iter(v)\<close>: the items in order, or a \<open>TypeError\<close>.\<close>

fun py_iter :: "pyval \<Rightarrow> pyval list res" where
  "py_iter (VTuple xs) = Inr xs"
| "py_iter (VList xs) = Inr xs"
| "py_iter (VSet xs) = Inr xs"
| "py_iter (VDict kvs) = Inr (map fst kvs)"
| "py_iter (VMapping (Some kvs)) = Inr (map fst kvs)"
| "py_iter (VStr s) = Inr (map (\<lambda>c. VStr [c]) s)"
| "py_iter (VStrSub s) = Inr (map (\<lambda>c. VStr [c]) s)"
| "py_iter (VBytes b) = Inr (map (\<lambda>c. VInt (octet c)) b)"
| "py_iter (VBytesSub b) = Inr (map (\<lambda>c. VInt (octet c)) b)"
| "py_iter _ = Inl (TypeError ''object is not iterable'')"

text \<open>\<open>value.split(",") if isinstance(value, str) else value\<close>, the code's way to accept a
  comma-separated text in place of an iterable.\<close>

definition comma_items :: "pyval \<Rightarrow> pyval list res" where
  "comma_items v = (case as_str v of
       Some s \<Rightarrow> Inr (map VStr (py_split 44 s))
     | None \<Rightarrow> py_iter v)"

fun numeric_key :: "pyval \<Rightarrow> pyfloat option" where
  "numeric_key (VBool b) = Some (FFin (of_bool b))"
| "numeric_key (VInt n) = Some (FFin (of_int n))"
| "numeric_key (VIntSub n) = Some (FFin (of_int n))"
| "numeric_key (VFloat f) = (if f = FNan then None else Some f)"
| "numeric_key _ = None"

text \<open>Equality of hashable values as a \<open>frozenset\<close> uses it: numbers compare by value across
  \<open>bool\<close>, \<open>int\<close> and \<open>float\<close>, texts and bytes by content, tuples element by element.\<close>

fun py_eq :: "pyval \<Rightarrow> pyval \<Rightarrow> bool" and py_eqs :: "pyval list \<Rightarrow> pyval list \<Rightarrow> bool" where
  "py_eq (VTuple xs) w = (case w of VTuple ys \<Rightarrow> py_eqs xs ys | _ \<Rightarrow> False)"
| "py_eq v w =
     ((numeric_key v \<noteq> None \<and> numeric_key v = numeric_key w)
      \<or> (as_str v \<noteq> None \<and> as_str v = as_str w)
      \<or> (as_bytes v \<noteq> None \<and> as_bytes v = as_bytes w)
      \<or> v = w)"
| "py_eqs [] ys = (ys = [])"
| "py_eqs (x # xs) ys = (case ys of [] \<Rightarrow> False | y # ys' \<Rightarrow> py_eq x y \<and> py_eqs xs ys')"

fun py_hashable :: "pyval \<Rightarrow> bool" where
  "py_hashable (VList _) = False"
| "py_hashable (VDict _) = False"
| "py_hashable (VTuple xs) = list_all py_hashable xs"
| "py_hashable _ = True"

fun dedup :: "pyval list \<Rightarrow> pyval list \<Rightarrow> pyval list" where
  "dedup seen [] = []"
| "dedup seen (x # xs) =
     (if list_ex (\<lambda>y. py_eq y x) seen then dedup seen xs else x # dedup (x # seen) xs)"

definition py_frozenset :: "pyval list \<Rightarrow> pyval res" where
  "py_frozenset xs =
     (if list_all py_hashable xs then Inr (VSet (dedup [] xs))
      else Inl (TypeError ''unhashable type''))"

lemma set_dedup: "set (dedup seen xs) \<subseteq> set xs"
  by (induction xs arbitrary: seen) auto

lemma py_eq_VStr [simp]: "py_eq (VStr s) (VStr t) \<longleftrightarrow> s = t"
  and py_eq_VInt [simp]: "py_eq (VInt m) (VInt n) \<longleftrightarrow> m = n"
  by simp_all

lemma dedup_VStr:
  "set (dedup (map VStr seen) (map VStr xs)) = VStr ` (set xs - set seen)"
proof (induction xs arbitrary: seen)
  case Nil
  show ?case by simp
next
  case (Cons x xs)
  have ex: "list_ex (\<lambda>y. py_eq y (VStr x)) (map VStr seen) \<longleftrightarrow> x \<in> set seen"
    by (auto simp: list_ex_iff)
  show ?case
    using Cons.IH [of seen] Cons.IH [of "x # seen"] by (auto simp: ex)
qed

lemma dedup_VInt:
  "set (dedup (map VInt seen) (map VInt xs)) = VInt ` (set xs - set seen)"
proof (induction xs arbitrary: seen)
  case Nil
  show ?case by simp
next
  case (Cons x xs)
  have ex: "list_ex (\<lambda>y. py_eq y (VInt x)) (map VInt seen) \<longleftrightarrow> x \<in> set seen"
    by (auto simp: list_ex_iff)
  show ?case
    using Cons.IH [of seen] Cons.IH [of "x # seen"] by (auto simp: ex)
qed

lemma frozenset_VStr:
  "\<exists>ys. py_frozenset (map VStr xs) = Inr (VSet (map VStr ys)) \<and> set ys = set xs"
proof -
  have s: "set (dedup [] (map VStr xs)) = VStr ` set xs"
    using dedup_VStr [of "[]" xs] by simp
  then have "\<forall>v \<in> set (dedup [] (map VStr xs)). \<exists>y. v = VStr y" by auto
  then obtain ys where ys: "dedup [] (map VStr xs) = map VStr ys"
    using ex_map_conv [of "dedup [] (map VStr xs)" VStr] by blast
  have "inj VStr" by (rule injI) simp
  moreover from s ys have "VStr ` set ys = VStr ` set xs" by simp
  ultimately have "set ys = set xs" by (simp add: inj_image_eq_iff)
  with ys show ?thesis by (auto simp: py_frozenset_def list_all_iff)
qed

section \<open>Floats\<close>

text \<open>
  \<open>float(n)\<close> of an integer rounds to 53 significant bits, ties to even, and raises
  \<open>OverflowError\<close> from \<open>2 ^ 1024\<close> on.
\<close>

function bit_length :: "int \<Rightarrow> nat" where
  "bit_length n = (if n \<le> 0 then 0 else Suc (bit_length (n div 2)))"
  by pat_completeness auto
termination
  by (relation "measure nat") auto

declare bit_length.simps [simp del]

definition round_to_double :: "int \<Rightarrow> int" where
  "round_to_double n =
     (let k = bit_length n - 53; m = 2 ^ k; q = n div m; r = n mod m
      in if n < 2 ^ 53 then n
         else (if 2 * r > m \<or> (2 * r = m \<and> odd q) then q + 1 else q) * m)"

definition float_of_int :: "int \<Rightarrow> pyfloat res" where
  "float_of_int n =
     (let a = round_to_double (abs n)
      in if a < 2 ^ 1024 then Inr (FFin (of_int (sgn n * a))) else Inl OverflowError)"

text \<open>\<open>float(v)\<close> for a \<open>numbers.Real\<close>. Another \<open>Real\<close> may raise any exception;
  \<open>OtherException 0\<close> stands for it.\<close>

fun py_float :: "pyval \<Rightarrow> pyfloat res" where
  "py_float (VBool b) = Inr (FFin (of_bool b))"
| "py_float (VInt n) = float_of_int n"
| "py_float (VIntSub n) = float_of_int n"
| "py_float (VFloat f) = Inr f"
| "py_float (VReal r _) = of_option (OtherException 0) r"
| "py_float _ = Inl (TypeError ''float() argument must be a string or a real number'')"

fun is_finite :: "pyfloat \<Rightarrow> bool" where
  "is_finite (FFin _) = True"
| "is_finite _ = False"

fun the_fin :: "pyfloat \<Rightarrow> rat" where
  "the_fin (FFin q) = q"
| "the_fin _ = 0"

text \<open>\<open>v <= 0\<close> on the original value, before any conversion.\<close>

fun float_le_zero :: "pyfloat \<Rightarrow> bool" where
  "float_le_zero (FFin q) = (q \<le> 0)"
| "float_le_zero FNegInf = True"
| "float_le_zero _ = False"

fun py_le_zero :: "pyval \<Rightarrow> bool" where
  "py_le_zero (VBool b) = (\<not> b)"
| "py_le_zero (VInt n) = (n \<le> 0)"
| "py_le_zero (VIntSub n) = (n \<le> 0)"
| "py_le_zero (VFloat f) = float_le_zero f"
| "py_le_zero (VReal _ b) = b"
| "py_le_zero _ = False"

lemma is_finite_iff: "is_finite f \<longleftrightarrow> (\<exists>q. f = FFin q)"
  by (cases f) auto

lemma round_to_double_small: "n < 2 ^ 53 \<Longrightarrow> round_to_double n = n"
  by (simp add: round_to_double_def Let_def)

lemma round_to_double_pos:
  assumes "0 < n"
  shows "0 < round_to_double n"
proof (cases "n < 2 ^ 53")
  case True
  with assms show ?thesis by (simp add: round_to_double_small)
next
  case False
  have lower: "0 < m \<Longrightarrow> 2 ^ (bit_length m - 1) \<le> m" for m :: int
  proof (induction m rule: bit_length.induct)
    case (1 m)
    show ?case
    proof (cases "m div 2 \<le> 0")
      case True
      with "1.prems" have "m = 1" by auto
      then show ?thesis by (simp add: bit_length.simps)
    next
      case False
      with "1" have IH: "2 ^ (bit_length (m div 2) - 1) \<le> m div 2" by simp
      have pos: "bit_length (m div 2) \<noteq> 0"
        using False by (subst bit_length.simps) simp
      have "(2::int) ^ (bit_length m - 1) = 2 ^ bit_length (m div 2)"
        using "1.prems" by (subst bit_length.simps) simp
      also have "\<dots> = 2 * 2 ^ (bit_length (m div 2) - 1)"
        using pos by (metis power_eq_if)
      also have "\<dots> \<le> 2 * (m div 2)" using IH by simp
      also have "\<dots> \<le> m" by simp
      finally show ?thesis .
    qed
  qed
  let ?k = "bit_length n - 53"
  have "(2::int) ^ ?k \<le> 2 ^ (bit_length n - 1)" by (rule power_increasing) auto
  also have "\<dots> \<le> n" by (rule lower [OF assms])
  finally have "1 \<le> n div 2 ^ ?k"
    by (simp add: pos_imp_zdiv_pos_iff int_one_le_iff_zero_less)
  then have "0 < n div 2 ^ ?k" by simp
  with False show ?thesis
    by (simp add: round_to_double_def Let_def)
qed

lemma float_of_int_positive:
  "float_of_int n = Inr f \<Longrightarrow> 0 < n \<Longrightarrow> \<exists>q > 0. f = FFin q"
  using round_to_double_pos [of n] by (auto simp: float_of_int_def Let_def split: if_splits)

lemma float_of_int_finite: "float_of_int n = Inr f \<Longrightarrow> is_finite f"
  by (auto simp: float_of_int_def Let_def split: if_splits)

end
