(* ===== verification/Ip_Address.thy ===== *)
theory Ip_Address
  imports Egress_Prelude "HOL-Library.Word"
begin

text \<open>
  The part of Python's standard library module \<open>ipaddress\<close> that the validation layer calls:
  \<open>ip_address(text)\<close>, \<open>str(address)\<close>, membership in a network and the classification
  properties, as CPython 3.11 has them (its special-purpose registries included). An IPv4
  address is a 32-bit word; an IPv6 address a 128-bit word and an optional scope id.
\<close>

section \<open>Parsing and printing\<close>

datatype ip_addr = IPv4 "32 word" | IPv6 "128 word" "ustr option"

definition parse_octet :: "ustr \<Rightarrow> int option" where
  "parse_octet s =
     (if s = [] \<or> \<not> all_dec s then None
      else if length s > 3 then None
      else if s \<noteq> [48] \<and> hd s = 48 then None
      else if dec_value s > 255 then None
      else Some (dec_value s))"

fun opt_map :: "('a \<Rightarrow> 'b option) \<Rightarrow> 'a list \<Rightarrow> 'b list option" where
  "opt_map f [] = Some []"
| "opt_map f (x # xs) =
     (case f x of None \<Rightarrow> None
      | Some y \<Rightarrow> (case opt_map f xs of None \<Rightarrow> None | Some ys \<Rightarrow> Some (y # ys)))"

definition from_digits :: "int \<Rightarrow> int list \<Rightarrow> int" where
  "from_digits base ds = foldl (\<lambda>acc d. acc * base + d) 0 ds"

definition ipv4_of_text :: "ustr \<Rightarrow> 32 word option" where
  "ipv4_of_text s =
     (if 47 \<in> set s \<or> s = [] then None
      else let octs = py_split 46 s in
        if length octs \<noteq> 4 then None
        else map_option (\<lambda>ds. word_of_int (from_digits 256 ds)) (opt_map parse_octet octs))"

definition v4_octets :: "int \<Rightarrow> int list" where
  "v4_octets n = [n div 16777216 mod 256, n div 65536 mod 256, n div 256 mod 256, n mod 256]"

definition text_of_ipv4 :: "32 word \<Rightarrow> ustr" where
  "text_of_ipv4 w = py_join 46 (map dec_digits (v4_octets (uint w)))"

definition is_hex_c :: "int \<Rightarrow> bool" where
  "is_hex_c c \<longleftrightarrow> (48 \<le> c \<and> c \<le> 57) \<or> (65 \<le> c \<and> c \<le> 70) \<or> (97 \<le> c \<and> c \<le> 102)"

definition hex_digit_value :: "int \<Rightarrow> int" where
  "hex_digit_value c = (if c \<le> 57 then c - 48 else if c \<le> 70 then c - 55 else c - 87)"

definition parse_hextet :: "ustr \<Rightarrow> int option" where
  "parse_hextet s =
     (if \<not> list_all is_hex_c s then None
      else if length s > 4 then None
      else if s = [] then None
      else Some (from_digits 16 (map hex_digit_value s)))"

definition hex_digit :: "int \<Rightarrow> int" where
  "hex_digit d = (if d < 10 then 48 + d else 87 + d)"

text \<open>\<open>'%x' % h\<close> for \<open>0 <= h < 65536\<close>.\<close>

definition hex_text :: "int \<Rightarrow> ustr" where
  "hex_text h =
     (if h < 16 then [hex_digit h]
      else if h < 256 then [hex_digit (h div 16), hex_digit (h mod 16)]
      else if h < 4096 then
        [hex_digit (h div 256), hex_digit (h div 16 mod 16), hex_digit (h mod 16)]
      else [hex_digit (h div 4096), hex_digit (h div 256 mod 16),
            hex_digit (h div 16 mod 16), hex_digit (h mod 16)])"

definition split_scope_id :: "ustr \<Rightarrow> (ustr \<times> ustr option) option" where
  "split_scope_id s =
     (case py_partition 37 s of (addr, sep, scope) \<Rightarrow>
        if \<not> sep then Some (addr, None)
        else if scope = [] \<or> 37 \<in> set scope then None
        else Some (addr, Some scope))"

definition v6_parts :: "ustr \<Rightarrow> ustr list option" where
  "v6_parts s =
     (let parts = py_split 58 s in
      if length parts < 3 then None
      else if 46 \<in> set (last parts) then
        (case ipv4_of_text (last parts) of
           None \<Rightarrow> None
         | Some w \<Rightarrow> Some (butlast parts @
             [hex_text (uint w div 65536), hex_text (uint w mod 65536)]))
      else Some parts)"

text \<open>\<open>IPv6Address._ip_int_from_string\<close> from the list of parts on: the place of the \<open>::\<close>,
  the parts before and after it, and the eight 16-bit groups.\<close>

definition v6_layout :: "ustr list \<Rightarrow> (ustr list \<times> nat \<times> ustr list) option" where
  "v6_layout parts =
     (if length parts > 9 then None
      else case filter (\<lambda>i. parts ! i = []) [1..<length parts - 1] of
        [] \<Rightarrow> (if length parts \<noteq> 8 \<or> hd parts = [] \<or> last parts = [] then None
               else Some (parts, 0, []))
      | [skip] \<Rightarrow>
          (let hi = take skip parts; lo = drop (Suc skip) parts in
           if hd parts = [] \<and> length hi \<noteq> 1 then None
           else if last parts = [] \<and> length lo \<noteq> 1 then None
           else let hi' = (if hd parts = [] then [] else hi);
                    lo' = (if last parts = [] then [] else lo) in
             if length hi' + length lo' > 7 then None
             else Some (hi', 8 - (length hi' + length lo'), lo'))
      | _ \<Rightarrow> None)"

definition v6_int_of_text :: "ustr \<Rightarrow> int option" where
  "v6_int_of_text s =
     (if s = [] then None
      else case v6_parts s of
        None \<Rightarrow> None
      | Some parts \<Rightarrow>
        (case v6_layout parts of
          None \<Rightarrow> None
        | Some (hi, skipped, lo) \<Rightarrow>
            (case opt_map parse_hextet hi of
              None \<Rightarrow> None
            | Some his \<Rightarrow>
              (case opt_map parse_hextet lo of
                None \<Rightarrow> None
              | Some los \<Rightarrow> Some (from_digits 65536 (his @ replicate skipped 0 @ los))))))"

definition ipv6_of_text :: "ustr \<Rightarrow> (128 word \<times> ustr option) option" where
  "ipv6_of_text s =
     (if 47 \<in> set s then None
      else case split_scope_id s of
        None \<Rightarrow> None
      | Some (addr, scope) \<Rightarrow>
          map_option (\<lambda>n. (word_of_int n, scope)) (v6_int_of_text addr))"

definition v6_hextets :: "int \<Rightarrow> int list" where
  "v6_hextets n = map (\<lambda>k. n div 65536 ^ k mod 65536) [7, 6, 5, 4, 3, 2, 1, 0]"

text \<open>\<open>_compress_hextets\<close>: the loop that finds the first longest run of zero groups, then
  the replacement of that run by an empty part.\<close>

record zero_run =
  best_start :: int
  best_len :: nat
  cur_start :: int
  cur_len :: nat

fun scan_zero_runs :: "nat \<Rightarrow> int list \<Rightarrow> zero_run \<Rightarrow> zero_run" where
  "scan_zero_runs i [] r = r"
| "scan_zero_runs i (h # hs) r =
     scan_zero_runs (Suc i) hs
       (if h = 0 then
          (let len = Suc (cur_len r); start = (if cur_start r = -1 then int i else cur_start r) in
           if len > best_len r
           then r\<lparr>best_start := start, best_len := len, cur_start := start, cur_len := len\<rparr>
           else r\<lparr>cur_start := start, cur_len := len\<rparr>)
        else r\<lparr>cur_start := -1, cur_len := 0\<rparr>)"

definition compress_hextets :: "int list \<Rightarrow> ustr list" where
  "compress_hextets hs =
     (let r = scan_zero_runs 0 hs \<lparr>best_start = -1, best_len = 0, cur_start = -1, cur_len = 0\<rparr>;
          texts = map hex_text hs;
          s = nat (best_start r); e = s + best_len r in
      if best_len r > 1 then
        (if best_start r = 0 then [[]] else []) @ take s texts @ [[]] @ drop e texts
        @ (if e = length hs then [[]] else [])
      else texts)"

definition text_of_ipv6 :: "128 word \<Rightarrow> ustr option \<Rightarrow> ustr" where
  "text_of_ipv6 w scope =
     py_join 58 (compress_hextets (v6_hextets (uint w)))
     @ (case scope of None \<Rightarrow> [] | Some sc \<Rightarrow> 37 # sc)"

definition ip_of_text :: "ustr \<Rightarrow> ip_addr option" where   \<comment> \<open>\<open>ip_address(s)\<close>; None: \<open>ValueError\<close>\<close>
  "ip_of_text s =
     (case ipv4_of_text s of
        Some w \<Rightarrow> Some (IPv4 w)
      | None \<Rightarrow> map_option (\<lambda>(w, scope). IPv6 w scope) (ipv6_of_text s))"

fun text_of_ip :: "ip_addr \<Rightarrow> ustr" where                  \<comment> \<open>\<open>str(address)\<close>\<close>
  "text_of_ip (IPv4 w) = text_of_ipv4 w"
| "text_of_ip (IPv6 w scope) = text_of_ipv6 w scope"

fun ip_version :: "ip_addr \<Rightarrow> int" where
  "ip_version (IPv4 _) = 4"
| "ip_version (IPv6 _ _) = 6"

section \<open>Networks and classification\<close>

datatype ip_net = Net4 "32 word" nat | Net6 "128 word" nat

fun ip_in :: "ip_addr \<Rightarrow> ip_net \<Rightarrow> bool" where
  "ip_in (IPv4 a) (Net4 n p) = (drop_bit (32 - p) a = drop_bit (32 - p) n)"
| "ip_in (IPv6 a _) (Net6 n p) = (drop_bit (128 - p) a = drop_bit (128 - p) n)"
| "ip_in _ _ = False"

definition private_networks4 :: "ip_net list" where
  "private_networks4 =
     [Net4 0x00000000 8, Net4 0x0A000000 8, Net4 0x7F000000 8, Net4 0xA9FE0000 16,
      Net4 0xAC100000 12, Net4 0xC0000000 24, Net4 0xC00000AA 31, Net4 0xC0000200 24,
      Net4 0xC0A80000 16, Net4 0xC6120000 15, Net4 0xC6336400 24, Net4 0xCB007100 24,
      Net4 0xF0000000 4, Net4 0xFFFFFFFF 32]"

definition private_exceptions4 :: "ip_net list" where
  "private_exceptions4 = [Net4 0xC0000009 32, Net4 0xC000000A 32]"

definition private_networks6 :: "ip_net list" where
  "private_networks6 =
     [Net6 1 128, Net6 0 128, Net6 0xFFFF00000000 96,
      Net6 0x0064FF9B000100000000000000000000 48, Net6 0x01000000000000000000000000000000 64,
      Net6 0x20010000000000000000000000000000 23, Net6 0x20010DB8000000000000000000000000 32,
      Net6 0x20020000000000000000000000000000 16, Net6 0xFC000000000000000000000000000000 7,
      Net6 0xFE800000000000000000000000000000 10]"

definition private_exceptions6 :: "ip_net list" where
  "private_exceptions6 =
     [Net6 0x20010001000000000000000000000001 128, Net6 0x20010001000000000000000000000002 128,
      Net6 0x20010003000000000000000000000000 32, Net6 0x20010004011200000000000000000000 48,
      Net6 0x20010020000000000000000000000000 28, Net6 0x20010030000000000000000000000000 28]"

definition reserved_networks6 :: "ip_net list" where
  "reserved_networks6 =
     [Net6 0x00000000000000000000000000000000 8, Net6 0x01000000000000000000000000000000 8,
      Net6 0x02000000000000000000000000000000 7, Net6 0x04000000000000000000000000000000 6,
      Net6 0x08000000000000000000000000000000 5, Net6 0x10000000000000000000000000000000 4,
      Net6 0x40000000000000000000000000000000 3, Net6 0x60000000000000000000000000000000 3,
      Net6 0x80000000000000000000000000000000 3, Net6 0xA0000000000000000000000000000000 3,
      Net6 0xC0000000000000000000000000000000 3, Net6 0xE0000000000000000000000000000000 4,
      Net6 0xF0000000000000000000000000000000 5, Net6 0xF8000000000000000000000000000000 6,
      Net6 0xFE000000000000000000000000000000 9]"

definition in_any :: "ip_addr \<Rightarrow> ip_net list \<Rightarrow> bool" where
  "in_any a ns = list_ex (ip_in a) ns"

fun ipv4_mapped :: "ip_addr \<Rightarrow> ip_addr option" where
  "ipv4_mapped (IPv4 _) = None"
| "ipv4_mapped (IPv6 a _) =
     (if drop_bit 32 a = 0xFFFF then Some (IPv4 (ucast a)) else None)"

definition is_private4 :: "ip_addr \<Rightarrow> bool" where
  "is_private4 a \<longleftrightarrow> in_any a private_networks4 \<and> \<not> in_any a private_exceptions4"

fun is_private :: "ip_addr \<Rightarrow> bool" where
  "is_private (IPv4 a) = is_private4 (IPv4 a)"
| "is_private (IPv6 a sc) =
     (case ipv4_mapped (IPv6 a sc) of
        Some m \<Rightarrow> is_private4 m
      | None \<Rightarrow> in_any (IPv6 a sc) private_networks6 \<and> \<not> in_any (IPv6 a sc) private_exceptions6)"

fun is_global :: "ip_addr \<Rightarrow> bool" where
  "is_global (IPv4 a) \<longleftrightarrow> \<not> ip_in (IPv4 a) (Net4 0x64400000 10) \<and> \<not> is_private (IPv4 a)"
| "is_global (IPv6 a sc) \<longleftrightarrow> \<not> is_private (IPv6 a sc)"

fun is_loopback :: "ip_addr \<Rightarrow> bool" where
  "is_loopback (IPv4 a) = ip_in (IPv4 a) (Net4 0x7F000000 8)"
| "is_loopback (IPv6 a _) = (a = 1)"

fun is_link_local :: "ip_addr \<Rightarrow> bool" where
  "is_link_local (IPv4 a) = ip_in (IPv4 a) (Net4 0xA9FE0000 16)"
| "is_link_local (IPv6 a sc) = ip_in (IPv6 a sc) (Net6 0xFE800000000000000000000000000000 10)"

fun is_reserved :: "ip_addr \<Rightarrow> bool" where
  "is_reserved (IPv4 a) = ip_in (IPv4 a) (Net4 0xF0000000 4)"
| "is_reserved (IPv6 a sc) = in_any (IPv6 a sc) reserved_networks6"

fun is_unspecified :: "ip_addr \<Rightarrow> bool" where
  "is_unspecified (IPv4 a) = (a = 0)"
| "is_unspecified (IPv6 a _) = (a = 0)"

fun is_multicast :: "ip_addr \<Rightarrow> bool" where
  "is_multicast (IPv4 a) = ip_in (IPv4 a) (Net4 0xE0000000 4)"
| "is_multicast (IPv6 a sc) = ip_in (IPv6 a sc) (Net6 0xFF000000000000000000000000000000 8)"

lemmas network_tables = private_networks4_def private_exceptions4_def private_networks6_def
  private_exceptions6_def reserved_networks6_def in_any_def

section \<open>Networks as sets of addresses\<close>

text \<open>Inclusion and disjointness of two networks, decided on their prefixes.\<close>

fun net_within :: "ip_net \<Rightarrow> ip_net \<Rightarrow> bool" where
  "net_within (Net4 n p) (Net4 m q) \<longleftrightarrow> q \<le> p \<and> drop_bit (32 - q) n = drop_bit (32 - q) m"
| "net_within (Net6 n p) (Net6 m q) \<longleftrightarrow> q \<le> p \<and> drop_bit (128 - q) n = drop_bit (128 - q) m"
| "net_within _ _ = False"

fun net_disjoint :: "ip_net \<Rightarrow> ip_net \<Rightarrow> bool" where
  "net_disjoint (Net4 n p) (Net4 m q) \<longleftrightarrow>
     drop_bit (32 - min p q) n \<noteq> drop_bit (32 - min p q) m"
| "net_disjoint (Net6 n p) (Net6 m q) \<longleftrightarrow>
     drop_bit (128 - min p q) n \<noteq> drop_bit (128 - min p q) m"
| "net_disjoint _ _ = True"

lemma drop_bit_coarser:
  fixes a b :: "'a :: len word"
  assumes "drop_bit k a = drop_bit k b" "k \<le> j"
  shows "drop_bit j a = drop_bit j b"
proof -
  have split: "drop_bit j x = drop_bit (j - k) (drop_bit k x)" for x :: "'a word"
    using assms(2) by (simp add: drop_bit_drop_bit)
  show ?thesis unfolding split [of a] split [of b] assms(1) ..
qed

lemma net_within_in: "net_within n m \<Longrightarrow> ip_in a n \<Longrightarrow> ip_in a m"
  by (cases n; cases m; cases a) (auto intro: trans [OF drop_bit_coarser])

lemma net_disjoint_in: "net_disjoint n m \<Longrightarrow> ip_in a n \<Longrightarrow> \<not> ip_in a m"
proof (cases n; cases m; cases a)
  fix x p y q b
  assume d: "net_disjoint n m" "ip_in a n" and eq: "n = Net4 x p" "m = Net4 y q" "a = IPv4 b"
  show ?thesis
  proof
    assume "ip_in a m"
    with d(2) eq have "drop_bit (32 - min p q) b = drop_bit (32 - min p q) x"
      "drop_bit (32 - min p q) b = drop_bit (32 - min p q) y"
      by (auto intro: drop_bit_coarser)
    with d(1) eq show False by simp
  qed
next
  fix x p y q b sc
  assume d: "net_disjoint n m" "ip_in a n" and eq: "n = Net6 x p" "m = Net6 y q" "a = IPv6 b sc"
  show ?thesis
  proof
    assume "ip_in a m"
    with d(2) eq have "drop_bit (128 - min p q) b = drop_bit (128 - min p q) x"
      "drop_bit (128 - min p q) b = drop_bit (128 - min p q) y"
      by (auto intro: drop_bit_coarser)
    with d(1) eq show False by simp
  qed
qed auto

section \<open>Printing an address and parsing it again\<close>

lemma dec_digits_short:
  assumes "0 \<le> d" "d \<le> 255"
  shows "length (dec_digits d) \<le> 3"
proof -
  have "d div 10 < 100" "d div 10 div 10 < 10" using assms by auto
  then show ?thesis
    by (subst dec_digits.simps, subst dec_digits.simps, subst dec_digits.simps) auto
qed

lemma parse_octet_digits:
  assumes "0 \<le> d" "d \<le> 255"
  shows "parse_octet (dec_digits d) = Some d"
proof -
  have "dec_digits d \<noteq> [48] \<Longrightarrow> hd (dec_digits d) \<noteq> 48"
    using assms(1) dec_digits_head [of d] by (cases "d = 0") (auto simp: dec_digits.simps)
  then show ?thesis
    using assms dec_digits_short [OF assms] dec_digits_all_dec [OF assms(1)]
    by (auto simp: parse_octet_def)
qed

lemma dec_digits_chars: "0 \<le> n \<Longrightarrow> c \<in> set (dec_digits n) \<Longrightarrow> 48 \<le> c \<and> c \<le> 57"
  using dec_digits_all_dec [of n] by (auto simp: all_dec_def list_all_iff is_dec_c_def)

lemma set_py_join: "set (py_join c ss) \<subseteq> insert c (\<Union> (set ` set ss))"
  by (induction c ss rule: py_join.induct) auto

lemma v4_octets_range: "d \<in> set (v4_octets n) \<Longrightarrow> 0 \<le> d \<and> d \<le> 255"
  by (auto simp: v4_octets_def)

lemma text_of_ipv4_chars:
  assumes "c \<in> set (text_of_ipv4 w)"
  shows "c = 46 \<or> (48 \<le> c \<and> c \<le> 57)"
proof (cases "c = 46")
  case False
  with assms set_py_join [of 46 "map dec_digits (v4_octets (uint w))"]
  obtain d where "d \<in> set (v4_octets (uint w))" "c \<in> set (dec_digits d)"
    unfolding text_of_ipv4_def by auto
  then show ?thesis using v4_octets_range [of d "uint w"] dec_digits_chars [of d c] by simp
qed simp

text \<open>One step of the positional expansion of a number.\<close>

lemma div_step:
  fixes n :: int
  assumes "0 \<le> b" "a * b = c"
  shows "n div a = n div c * b + n div a mod b"
  using div_mult_mod_eq [of "n div a" b] zdiv_zmult2_eq [OF assms(1), of n a] assms(2) by simp

lemma v4_octets_value:
  assumes "0 \<le> n" "n < 2 ^ 32"
  shows "from_digits 256 (v4_octets n) = n"
proof -
  have "n div 16777216 < 256" using assms by (simp add: div_less_iff_less_mult)
  then have "n div 16777216 mod 256 = n div 16777216"
    using assms by (intro mod_pos_pos_trivial) (simp_all add: pos_imp_zdiv_nonneg_iff)
  note top = this
  have steps: "n div 16777216 * 256 + n div 65536 mod 256 = n div 65536"
    "n div 65536 * 256 + n div 256 mod 256 = n div 256" "n div 256 * 256 + n mod 256 = n"
    using div_step [of 256 65536 16777216 n] div_step [of 256 256 65536 n] by simp_all
  have "from_digits 256 (v4_octets n)
      = ((n div 16777216 * 256 + n div 65536 mod 256) * 256 + n div 256 mod 256) * 256 + n mod 256"
    by (simp add: from_digits_def v4_octets_def top)
  then show ?thesis unfolding steps .
qed

lemma map_dec_digits_clean: "\<forall>d \<in> set ds. 0 \<le> d \<Longrightarrow> t \<in> set (map dec_digits ds) \<Longrightarrow> 46 \<notin> set t"
  using dec_digits_chars by fastforce

lemma ipv4_roundtrip: "ipv4_of_text (text_of_ipv4 w) = Some w"
proof -
  let ?parts = "map dec_digits (v4_octets (uint w))"
  have "py_split 46 (text_of_ipv4 w) = ?parts"
    unfolding text_of_ipv4_def
  proof (rule py_split_join)
    show "?parts \<noteq> []" by (simp add: v4_octets_def)
    show "46 \<notin> set t" if "t \<in> set ?parts" for t
      using that v4_octets_range by (intro map_dec_digits_clean) auto
  qed
  moreover have "47 \<notin> set (text_of_ipv4 w)" using text_of_ipv4_chars by fastforce
  moreover have "text_of_ipv4 w \<noteq> []" by (simp add: text_of_ipv4_def v4_octets_def)
  moreover have "opt_map parse_octet ?parts = Some (v4_octets (uint w))"
    by (simp add: v4_octets_def parse_octet_digits)
  moreover have "length ?parts = 4" by (simp add: v4_octets_def)
  moreover have "from_digits 256 (v4_octets (uint w)) = uint w"
    using uint_bounded [of w] by (intro v4_octets_value) auto
  ultimately show ?thesis by (simp add: ipv4_of_text_def Let_def)
qed

subsection \<open>IPv6\<close>

lemma hex_digit_facts:
  assumes "0 \<le> d" "d < 16"
  shows "is_hex_c (hex_digit d)" "hex_digit_value (hex_digit d) = d"
  using assms by (auto simp: hex_digit_def is_hex_c_def hex_digit_value_def)

lemma hex_text_digits:
  assumes "0 \<le> h" "h < 65536"
  obtains ds where "hex_text h = map hex_digit ds" "ds \<noteq> []" "length ds \<le> 4"
    "\<forall>d \<in> set ds. 0 \<le> d \<and> d < 16" "from_digits 16 ds = h"
proof -
  have s: "h div 16 div 16 = h div 256" "h div 256 div 16 = h div 4096"
    by (simp_all add: zdiv_zmult2_eq [symmetric])
  have steps: "h div 16 * 16 + h mod 16 = h" "h div 256 * 16 + h div 16 mod 16 = h div 16"
    "h div 4096 * 16 + h div 256 mod 16 = h div 256"
    using div_step [of 16 16 256 h] div_step [of 16 256 4096 h] by simp_all
  consider "h < 16" | "16 \<le> h" "h < 256" | "256 \<le> h" "h < 4096" | "4096 \<le> h" by linarith
  then show thesis
  proof cases
    case 1
    with assms show thesis by (intro that [of "[h]"]) (auto simp: hex_text_def from_digits_def)
  next
    case 2
    with steps show thesis
      by (intro that [of "[h div 16, h mod 16]"]) (auto simp: hex_text_def from_digits_def)
  next
    case 3
    have "from_digits 16 [h div 256, h div 16 mod 16, h mod 16]
        = (h div 256 * 16 + h div 16 mod 16) * 16 + h mod 16" by (simp add: from_digits_def)
    with 3 show thesis unfolding steps
      by (intro that [of "[h div 256, h div 16 mod 16, h mod 16]"]) (auto simp: hex_text_def)
  next
    case 4
    let ?ds = "[h div 4096, h div 256 mod 16, h div 16 mod 16, h mod 16]"
    have val: "from_digits 16 ?ds
        = ((h div 4096 * 16 + h div 256 mod 16) * 16 + h div 16 mod 16) * 16 + h mod 16"
      by (simp add: from_digits_def)
    have top: "0 \<le> h div 4096" "h div 4096 < 16"
      using assms by (simp_all add: pos_imp_zdiv_nonneg_iff div_less_iff_less_mult)
    show thesis
    proof (rule that)
      show "hex_text h = map hex_digit ?ds" using 4 by (simp add: hex_text_def)
      show "\<forall>d \<in> set ?ds. 0 \<le> d \<and> d < 16" using top by simp
      show "from_digits 16 ?ds = h" unfolding val steps ..
    qed simp_all
  qed
qed

lemma hex_text_facts:
  assumes "0 \<le> h" "h < 65536"
  shows "hex_text h \<noteq> []" "parse_hextet (hex_text h) = Some h" "list_all is_hex_c (hex_text h)"
proof -
  obtain ds where ds: "hex_text h = map hex_digit ds" "ds \<noteq> []" "length ds \<le> 4"
    "\<forall>d \<in> set ds. 0 \<le> d \<and> d < 16" "from_digits 16 ds = h" using hex_text_digits [OF assms] .
  then show "hex_text h \<noteq> []" and hex: "list_all is_hex_c (hex_text h)"
    by (auto simp: list_all_iff hex_digit_facts)
  from ds(4) have "map hex_digit_value (map hex_digit ds) = ds"
    by (auto intro!: map_idI simp: hex_digit_facts)
  then have "map hex_digit_value (hex_text h) = ds" by (simp only: ds(1))
  with ds hex show "parse_hextet (hex_text h) = Some h"
    unfolding parse_hextet_def by simp
qed

lemma is_hex_c_clean: "is_hex_c c \<Longrightarrow> c \<notin> {37, 46, 47, 58}"
  by (auto simp: is_hex_c_def)

text \<open>The run the scan keeps is a run of zero groups inside the list.\<close>

definition zero_run_ok :: "int list \<Rightarrow> nat \<Rightarrow> zero_run \<Rightarrow> bool" where
  "zero_run_ok hs i r \<longleftrightarrow>
     (best_len r = 0 \<or>
       (\<exists>s. best_start r = int s \<and> s + best_len r \<le> i
            \<and> (\<forall>k. s \<le> k \<and> k < s + best_len r \<longrightarrow> hs ! k = 0)))
     \<and> (cur_len r = 0 \<and> cur_start r = -1 \<or>
       (\<exists>s. cur_start r = int s \<and> s + cur_len r = i
            \<and> (\<forall>k. s \<le> k \<and> k < i \<longrightarrow> hs ! k = 0)))"

lemma zero_run_ok_step:
  assumes "zero_run_ok hs i r" "hs ! i = 0"
    and "len = Suc (cur_len r)" "start = (if cur_start r = -1 then int i else cur_start r)"
  shows "zero_run_ok hs (Suc i)
    (if len > best_len r
     then r\<lparr>best_start := start, best_len := len, cur_start := start, cur_len := len\<rparr>
     else r\<lparr>cur_start := start, cur_len := len\<rparr>)"
proof -
  obtain s where s: "start = int s" "s + len = Suc i" "\<forall>k. s \<le> k \<and> k < Suc i \<longrightarrow> hs ! k = 0"
    using assms by (fastforce simp: zero_run_ok_def less_Suc_eq)
  with assms(1) show ?thesis by (fastforce simp: zero_run_ok_def)
qed

lemma scan_zero_runs_ok:
  "zero_run_ok hs i r \<Longrightarrow> i \<le> length hs \<Longrightarrow>
    zero_run_ok hs (length hs) (scan_zero_runs i (drop i hs) r)"
proof (induction "length hs - i" arbitrary: i r)
  case 0
  then show ?case by simp
next
  case (Suc n)
  then have i: "i < length hs" by simp
  have non: "hs ! i \<noteq> 0 \<Longrightarrow> zero_run_ok hs (Suc i) (r\<lparr>cur_start := -1, cur_len := 0\<rparr>)"
    using Suc.prems(1) by (fastforce simp: zero_run_ok_def)
  have IH: "zero_run_ok hs (Suc i) r' \<Longrightarrow>
      zero_run_ok hs (length hs) (scan_zero_runs (Suc i) (drop (Suc i) hs) r')" for r'
    using Suc.hyps i by simp
  have "drop i hs = hs ! i # drop (Suc i) hs" using i by (simp add: Cons_nth_drop_Suc)
  then show ?case
    using IH [OF zero_run_ok_step [OF Suc.prems(1) _ refl refl]] IH [OF non]
    by (simp add: Let_def)
qed

text \<open>The parts printed around a run are laid out again as the groups before it, its length
  and the groups after it.\<close>

lemma v6_layout_run:
  assumes "t0 \<noteq> []" "t1 \<noteq> []" "t2 \<noteq> []" "t3 \<noteq> []" "t4 \<noteq> []" "t5 \<noteq> []" "t6 \<noteq> []" "t7 \<noteq> []"
    and "ts = [t0, t1, t2, t3, t4, t5, t6, t7]" "1 < l" "s + l \<le> 8"
  shows "v6_layout ((if s = 0 then [[]] else []) @ take s ts @ [[]] @ drop (s + l) ts
      @ (if s + l = 8 then [[]] else [])) = Some (take s ts, l, drop (s + l) ts)"
proof -
  have "s \<in> {0, 1, 2, 3, 4, 5, 6}" "l \<in> {2, 3, 4, 5, 6, 7, 8}" using assms(10,11) by auto
  then show ?thesis
    using assms by (elim insertE emptyE) (simp_all add: v6_layout_def Let_def upt_rec)
qed

text \<open>The eight groups without a run are laid out as they are.\<close>

lemma v6_layout_plain:
  assumes "t0 \<noteq> []" "t1 \<noteq> []" "t2 \<noteq> []" "t3 \<noteq> []" "t4 \<noteq> []" "t5 \<noteq> []" "t6 \<noteq> []" "t7 \<noteq> []"
  shows "v6_layout [t0, t1, t2, t3, t4, t5, t6, t7] = Some ([t0, t1, t2, t3, t4, t5, t6, t7], 0, [])"
  using assms by (simp add: v6_layout_def upt_rec)

lemma opt_map_hextets:
  "\<forall>h \<in> set hs. 0 \<le> h \<and> h < 65536 \<Longrightarrow> opt_map parse_hextet (map hex_text hs) = Some hs"
  by (induction hs) (simp_all add: hex_text_facts)

lemma zero_run_replicate:
  assumes "length hs = 8" "s + l \<le> 8" "\<forall>k. s \<le> k \<and> k < s + l \<longrightarrow> hs ! k = (0::int)"
  shows "take s hs @ replicate l 0 @ drop (s + l) hs = hs"
proof -
  have "take l (drop s hs) = replicate l 0"
    using assms by (intro nth_equalityI) auto
  moreover have "take s hs @ take l (drop s hs) @ drop (s + l) hs = hs"
    by (metis append_take_drop_id drop_drop add.commute append.assoc)
  ultimately show ?thesis by simp
qed

text \<open>The layout of the printed parts, in one form for both cases.\<close>

lemma compress_hextets_layout:
  assumes len: "length hs = 8" and range: "\<forall>h \<in> set hs. 0 \<le> h \<and> h < 65536"
  obtains a l b where "v6_layout (compress_hextets hs) = Some (map hex_text a, l, map hex_text b)"
    "a @ replicate l 0 @ b = hs" "3 \<le> length (compress_hextets hs)"
    "\<forall>t \<in> set (compress_hextets hs). list_all is_hex_c t"
proof -
  define r where "r = scan_zero_runs 0 hs \<lparr>best_start = -1, best_len = 0, cur_start = -1, cur_len = 0\<rparr>"
  have "zero_run_ok hs 0 \<lparr>best_start = -1, best_len = 0, cur_start = -1, cur_len = 0\<rparr>"
    by (simp add: zero_run_ok_def)
  then have ok: "zero_run_ok hs 8 r"
    using scan_zero_runs_ok [of hs 0] len by (simp add: r_def)
  obtain h0 h1 h2 h3 h4 h5 h6 h7 where hs: "hs = [h0, h1, h2, h3, h4, h5, h6, h7]"
    using len by (auto simp: numeral_eq_Suc length_Suc_conv)
  have ne: "hex_text h0 \<noteq> []" "hex_text h1 \<noteq> []" "hex_text h2 \<noteq> []" "hex_text h3 \<noteq> []"
    "hex_text h4 \<noteq> []" "hex_text h5 \<noteq> []" "hex_text h6 \<noteq> []" "hex_text h7 \<noteq> []"
    using range by (simp_all add: hs hex_text_facts)
  have hex: "\<forall>t \<in> set (map hex_text hs). list_all is_hex_c t" using range by (simp add: hex_text_facts)
  show thesis
  proof (cases "best_len r > 1")
    case True
    with ok obtain s where s: "best_start r = int s" "s + best_len r \<le> 8"
      "\<forall>k. s \<le> k \<and> k < s + best_len r \<longrightarrow> hs ! k = 0"
      by (auto simp: zero_run_ok_def)
    let ?ts = "map hex_text hs" and ?l = "best_len r"
    have c: "compress_hextets hs = (if s = 0 then [[]] else []) @ take s ?ts @ [[]] @ drop (s + ?l) ?ts
        @ (if s + ?l = 8 then [[]] else [])"
      using True s(1) len by (simp add: compress_hextets_def Let_def r_def [symmetric])
    have "v6_layout (compress_hextets hs) = Some (map hex_text (take s hs), ?l, map hex_text (drop (s + ?l) hs))"
      unfolding c take_map [symmetric] drop_map [symmetric]
      using ne hs True s(2) by (intro v6_layout_run) simp_all
    moreover have "3 \<le> length (compress_hextets hs)"
      using True s(2) len unfolding c by (cases "s = 0"; cases "s + ?l = 8") auto
    moreover have "\<forall>t \<in> set (compress_hextets hs). list_all is_hex_c t"
      using hex set_take_subset [of s ?ts] set_drop_subset [of "s + ?l" ?ts] unfolding c
      by (cases "s = 0"; cases "s + ?l = 8") auto
    ultimately show thesis using zero_run_replicate [OF len s(2,3)] by (intro that)
  next
    case False
    then have c: "compress_hextets hs = map hex_text hs"
      by (simp add: compress_hextets_def Let_def r_def [symmetric])
    have "v6_layout (compress_hextets hs) = Some (map hex_text hs, 0, map hex_text [])"
      unfolding c using ne v6_layout_plain hs by simp
    then show thesis using hex by (intro that [of hs 0 "[]"]) (simp_all add: c len)
  qed
qed

lemma v6_hextets_range: "\<forall>h \<in> set (v6_hextets n). 0 \<le> h \<and> h < 65536"
  by (simp add: v6_hextets_def)

lemma foldl_positional:
  "foldl (\<lambda>acc d. acc * 65536 + d) (n div 65536 ^ j) (map (\<lambda>k. n div 65536 ^ k mod 65536) (rev [0..<j]))
    = (n::int)"
proof (induction j)
  case 0
  show ?case by simp
next
  case (Suc j)
  have "n div 65536 ^ Suc j * 65536 + n div 65536 ^ j mod 65536 = n div 65536 ^ j"
    by (rule div_step [symmetric]) auto
  with Suc show ?case by (simp del: power_Suc)
qed

lemma v6_hextets_value:
  assumes "0 \<le> n" "n < 2 ^ 128"
  shows "from_digits 65536 (v6_hextets n) = n"
proof -
  have r: "rev [0..<8] = [7, 6, 5, 4, 3, 2, 1, 0::nat]" by (simp add: upt_rec)
  have z: "n div 65536 ^ 8 = 0" using assms by (intro div_pos_pos_trivial) auto
  show ?thesis
    using foldl_positional [of n 8] unfolding from_digits_def v6_hextets_def r z .
qed

lemma py_join_sep:
  assumes "3 \<le> length ps"
  shows "c \<in> set (py_join c ps)"
proof -
  obtain p q qs where "ps = p # q # qs"
    using assms by (auto simp: numeral_eq_Suc Suc_le_length_iff)
  then show ?thesis by simp
qed

lemma v6_int_roundtrip:
  assumes "0 \<le> n" "n < 2 ^ 128"
  shows "v6_int_of_text (py_join 58 (compress_hextets (v6_hextets n))) = Some n"
proof -
  let ?parts = "compress_hextets (v6_hextets n)"
  have len: "length (v6_hextets n) = 8" by (simp add: v6_hextets_def)
  obtain a l b where lay: "v6_layout ?parts = Some (map hex_text a, l, map hex_text b)"
    and eq: "a @ replicate l 0 @ b = v6_hextets n" and l3: "3 \<le> length ?parts"
    and hex: "\<forall>t \<in> set ?parts. list_all is_hex_c t"
    using compress_hextets_layout [OF len v6_hextets_range] .
  from l3 have ne: "?parts \<noteq> []" by auto
  have clean: "c \<notin> set t" if "t \<in> set ?parts" "c \<in> {46, 58}" for t c
    using that hex is_hex_c_clean by (fastforce simp: list_all_iff)
  have split: "py_split 58 (py_join 58 ?parts) = ?parts"
    using ne clean by (intro py_split_join) auto
  have parts: "v6_parts (py_join 58 ?parts) = Some ?parts"
    using l3 clean [OF last_in_set [OF ne], of 46] by (simp add: v6_parts_def split Let_def)
  have "set a \<subseteq> set (v6_hextets n)" "set b \<subseteq> set (v6_hextets n)"
    by (auto simp: eq [symmetric])
  then have "opt_map parse_hextet (map hex_text a) = Some a" "opt_map parse_hextet (map hex_text b) = Some b"
    using v6_hextets_range by (blast intro: opt_map_hextets)+
  moreover have "py_join 58 ?parts \<noteq> []"
    using py_join_sep [OF l3, of 58] by auto
  ultimately show ?thesis
    using parts lay eq v6_hextets_value [OF assms] by (simp add: v6_int_of_text_def)
qed

lemma ipv4_of_text_colon:
  assumes "58 \<in> set s"
  shows "ipv4_of_text s = None"
proof -
  have "\<exists>p \<in> set (py_split 46 s). 58 \<in> set p"
    using assms by (induction s) (auto split: list.splits)
  then obtain p where p: "p \<in> set (py_split 46 s)" "58 \<in> set p" by blast
  then have "\<not> all_dec p" by (force simp: all_dec_def list_all_iff is_dec_c_def)
  then have "parse_octet p = None" by (simp add: parse_octet_def)
  moreover have "x \<in> set xs \<Longrightarrow> f x = None \<Longrightarrow> opt_map f xs = None" for f :: "ustr \<Rightarrow> int option" and x xs
    by (induction xs) (auto split: option.splits)
  ultimately have "opt_map parse_octet (py_split 46 s) = None" using p(1) by blast
  then show ?thesis by (simp add: ipv4_of_text_def Let_def)
qed

text \<open>The scope ids that parsing produces.\<close>

definition scope_ok :: "ustr option \<Rightarrow> bool" where
  "scope_ok scope = (case scope of None \<Rightarrow> True | Some sc \<Rightarrow> sc \<noteq> [] \<and> 37 \<notin> set sc \<and> 47 \<notin> set sc)"

fun ip_ok :: "ip_addr \<Rightarrow> bool" where
  "ip_ok (IPv4 _) = True"
| "ip_ok (IPv6 _ scope) = scope_ok scope"

lemma text_of_ipv6_int_chars:
  assumes "c \<in> set (py_join 58 (compress_hextets (v6_hextets n)))"
  shows "c = 58 \<or> is_hex_c c"
proof -
  have "length (v6_hextets n) = 8" by (simp add: v6_hextets_def)
  from compress_hextets_layout [OF this v6_hextets_range]
  have "\<forall>t \<in> set (compress_hextets (v6_hextets n)). list_all is_hex_c t" by metis
  with assms set_py_join [of 58 "compress_hextets (v6_hextets n)"] show ?thesis
    by (fastforce simp: list_all_iff)
qed

lemma ip_of_text_ok:
  assumes "ip_of_text s = Some a"
  shows "ip_ok a"
proof -
  have "set (drop (Suc 0) (dropWhile (\<lambda>x. x \<noteq> 37) s)) \<subseteq> set s"
    by (meson in_set_dropD set_dropWhileD subsetI)
  with assms show ?thesis
    by (auto simp: ip_of_text_def ipv6_of_text_def split_scope_id_def scope_ok_def py_partition_def
        split: option.splits if_splits)
qed

text \<open>\<open>ip_address(str(a)) == a\<close> for every address that parsing produces.\<close>

lemma ip_text_roundtrip:
  assumes "ip_ok a"
  shows "ip_of_text (text_of_ip a) = Some a"
proof (cases a)
  case (IPv4 w)
  then show ?thesis by (simp add: ip_of_text_def ipv4_roundtrip)
next
  case (IPv6 w scope)
  let ?main = "py_join 58 (compress_hextets (v6_hextets (uint w)))"
  have "length (v6_hextets (uint w)) = 8" by (simp add: v6_hextets_def)
  from compress_hextets_layout [OF this v6_hextets_range]
  have colon: "58 \<in> set ?main" using py_join_sep by metis
  have clean: "c \<notin> set ?main" if "c \<in> {37, 47}" for c
    using that text_of_ipv6_int_chars is_hex_c_clean by fastforce
  have n: "v6_int_of_text ?main = Some (uint w)"
    using uint_bounded [of w] by (intro v6_int_roundtrip) auto
  have v4: "ipv4_of_text (text_of_ip a) = None"
    using colon by (intro ipv4_of_text_colon) (simp add: IPv6 text_of_ipv6_def)
  have split: "split_scope_id (text_of_ip a) = Some (?main, scope)"
    using assms clean
    by (auto simp: IPv6 text_of_ipv6_def split_scope_id_def scope_ok_def py_partition_no_sep
        py_partition_sep split: option.splits)
  have "47 \<notin> set (text_of_ip a)"
    using assms clean by (auto simp: IPv6 text_of_ipv6_def scope_ok_def split: option.splits)
  with v4 split n show ?thesis
    by (simp add: ip_of_text_def ipv6_of_text_def IPv6 del: text_of_ip.simps)
qed

lemma ip_of_text_canonical:
  "ip_of_text s = Some a \<Longrightarrow> ip_of_text (text_of_ip a) = Some a"
  using ip_of_text_ok ip_text_roundtrip by blast

end
