(* ===== verification/Policy_Normalization.thy ===== *)
theory Policy_Normalization
  imports Egress_Values Ip_Address
begin

text \<open>
  Model of \<open>src/egressweave/_policy_normalization.py\<close>: the pure functions that canonicalize
  one host, port, authority, method or resource budget of the trusted policy
  configuration, or raise.
\<close>

section \<open>Constants\<close>

definition DEFAULT_MAX_RESOLVED_ADDRESSES :: int where
  "DEFAULT_MAX_RESOLVED_ADDRESSES = 16"

definition DEFAULT_MAX_REQUEST_BYTES :: int where
  "DEFAULT_MAX_REQUEST_BYTES = 16 * 1024 * 1024"

definition DEFAULT_MAX_REQUEST_HEADER_FIELDS :: int where
  "DEFAULT_MAX_REQUEST_HEADER_FIELDS = 100"

definition DEFAULT_MAX_REQUEST_HEADER_BYTES :: int where
  "DEFAULT_MAX_REQUEST_HEADER_BYTES = 64 * 1024"

definition DEFAULT_MAX_REQUEST_TARGET_BYTES :: int where
  "DEFAULT_MAX_REQUEST_TARGET_BYTES = 8 * 1024"

definition DEFAULT_MAX_RESPONSE_BYTES :: int where
  "DEFAULT_MAX_RESPONSE_BYTES = 16 * 1024 * 1024"

definition DEFAULT_MAX_RESPONSE_HEADER_FIELDS :: int where
  "DEFAULT_MAX_RESPONSE_HEADER_FIELDS = 100"

definition DEFAULT_MAX_RESPONSE_HEADER_BYTES :: int where
  "DEFAULT_MAX_RESPONSE_HEADER_BYTES = 64 * 1024"

definition DEFAULT_DNS_RESOLUTION_TIMEOUT_SECONDS :: pyfloat where
  "DEFAULT_DNS_RESOLUTION_TIMEOUT_SECONDS = FFin 5"

definition DEFAULT_ALLOWED_EGRESS_PORTS :: pyval where
  "DEFAULT_ALLOWED_EGRESS_PORTS = VSet [VInt 443]"

definition DEFAULT_ALLOWED_HTTP_METHODS :: pyval where
  "DEFAULT_ALLOWED_HTTP_METHODS = VSet (map (\<lambda>m. VStr (u m))
     [''GET'', ''HEAD'', ''POST'', ''PUT'', ''PATCH'', ''DELETE'', ''OPTIONS''])"

definition INVALID_HOST_DELIMITERS :: ustr where
  "INVALID_HOST_DELIMITERS = [42, 47, 92, 64, 63, 58, 35, 37]"  \<comment> \<open>\<open>*/\@?:#%\<close>\<close>

definition ALLOWED_HOST_CONFIGURATION_ERROR :: string where
  "ALLOWED_HOST_CONFIGURATION_ERROR =
     ''allowed_hosts entries must be exact hostnames without wildcards, URL syntax, ''
     @ ''invalid IDNA labels, or IP literals''"

text \<open>The characters of \<open>_HTTP_METHOD_TOKEN_CHARACTERS\<close>, as code points.\<close>

definition is_token_c :: "int \<Rightarrow> bool" where
  "is_token_c c \<longleftrightarrow>
     c \<in> {33, 35, 36, 37, 38, 39, 42, 43, 45, 46, 94, 95, 96, 124, 126}
     \<or> (48 \<le> c \<and> c \<le> 57) \<or> (65 \<le> c \<and> c \<le> 90) \<or> (97 \<le> c \<and> c \<le> 122)"

section \<open>Hosts\<close>

definition canonicalize_host :: "pyenv \<Rightarrow> ustr \<Rightarrow> ustr res" where
  "canonicalize_host E value =
     (case idna_encode E (py_strip E value) of
        None \<Rightarrow> Inl (ValueError ''hostname is not valid under IDNA'')
      | Some encoded \<Rightarrow>
          (case decode_ascii encoded of
             None \<Rightarrow> Inl UnicodeDecodeError
           | Some t \<Rightarrow> Inr (py_rstrip 46 (py_lower E t))))"

definition normalize_host :: "pyenv \<Rightarrow> ustr \<Rightarrow> ustr" where
  "normalize_host E value =
     (case canonicalize_host E value of
        Inr h \<Rightarrow> h
      | Inl _ \<Rightarrow> py_rstrip 46 (py_lower E (py_strip E value)))"

definition policy_looks_like_ip_literal :: "pyenv \<Rightarrow> ustr \<Rightarrow> bool" where
  "policy_looks_like_ip_literal E candidate =
     (case ip_of_text candidate of
        Some _ \<Rightarrow> True
      | None \<Rightarrow>
          (let compact_candidate = py_lower E (py_remove 46 candidate)
           in py_isdigit E compact_candidate \<or> starts_with (u ''0x'') compact_candidate))"

definition normalize_allowed_host :: "pyenv \<Rightarrow> pyval \<Rightarrow> ustr option res" where
  "normalize_allowed_host E value =
     (case as_str value of
        None \<Rightarrow> Inl (TypeError ''allowed_hosts entries must be exact hostname strings'')
      | Some s \<Rightarrow>
          (let stripped = py_strip E s in
           if stripped = [] then Inr None
           else if list_ex (\<lambda>c. is_space_c E c \<or> c < 32 \<or> c = 127) stripped
                 \<or> list_ex (\<lambda>d. d \<in> set stripped) INVALID_HOST_DELIMITERS
           then Inl (ValueError ALLOWED_HOST_CONFIGURATION_ERROR)
           else (case canonicalize_host E stripped of
                   Inl _ \<Rightarrow> Inl (ValueError ALLOWED_HOST_CONFIGURATION_ERROR)
                 | Inr normalized \<Rightarrow>
                     if policy_looks_like_ip_literal E normalized
                     then Inl (ValueError ALLOWED_HOST_CONFIGURATION_ERROR)
                     else Inr (Some normalized))))"

section \<open>Ports and authorities\<close>

definition normalize_allowed_port :: "pyenv \<Rightarrow> pyval \<Rightarrow> int option res" where
  "normalize_allowed_port E value =
     (let range_check = (\<lambda>port. if 1 \<le> port \<and> port \<le> 65535 then Inr (Some port)
            else Inl (ValueError ''allowed_ports entries must be between 1 and 65535'')) in
      case as_str value of
        Some s \<Rightarrow>
          (let normalized = py_strip E s in
           if normalized = [] then Inr None
           else if \<not> py_isascii normalized \<or> \<not> py_isdigit E normalized
           then Inl (ValueError ''allowed_ports entries must be decimal port numbers'')
           else ebind (py_int_dec normalized) range_check)
      | None \<Rightarrow>
          (case exact_int value of
             None \<Rightarrow> Inl (TypeError ''allowed_ports entries must be integer port numbers'')
           | Some port \<Rightarrow> range_check port))"

definition normalize_allowed_authority :: "pyenv \<Rightarrow> pyval \<Rightarrow> (ustr \<times> int) res" where
  "normalize_allowed_authority E value =
     (case as_tuple value of
        Some [h, p] \<Rightarrow>
          ebind (normalize_allowed_host E h) (\<lambda>hostname.
          ebind (of_option (ValueError ''allowed_authorities hostnames must not be empty'')
                   hostname) (\<lambda>hostname.
          ebind (normalize_allowed_port E p) (\<lambda>port.
          ebind (of_option (ValueError ''allowed_authorities ports must not be empty'')
                   port) (\<lambda>port.
          Inr (hostname, port)))))
      | _ \<Rightarrow> Inl (TypeError ''allowed_authorities entries must be (hostname, port) tuples''))"

section \<open>Methods\<close>

definition normalize_allowed_method :: "pyenv \<Rightarrow> pyval \<Rightarrow> ustr res" where
  "normalize_allowed_method E value =
     (case as_str value of
        None \<Rightarrow> Inl (TypeError ''allowed_methods entries must be HTTP method strings'')
      | Some s \<Rightarrow>
          (let normalized = py_upper E (py_strip E s) in
           if normalized = [] \<or> list_ex (\<lambda>c. \<not> is_token_c c) normalized
           then Inl (ValueError ''allowed_methods entries must be valid HTTP method tokens'')
           else if normalized = u ''CONNECT''
           then Inl (ValueError ''CONNECT cannot be authorized by an egress policy'')
           else Inr normalized))"

section \<open>Resource budgets\<close>

definition normalize_max_resolved_addresses :: "pyenv \<Rightarrow> pyval \<Rightarrow> int res" where
  "normalize_max_resolved_addresses E value =
     (let positive = (\<lambda>address_count. if address_count \<le> 0
            then Inl (ValueError ''max_resolved_addresses must be greater than zero'')
            else Inr address_count) in
      case as_str value of
        Some s \<Rightarrow>
          (let normalized = py_strip E s in
           if normalized = [] \<or> \<not> py_isascii normalized \<or> \<not> py_isdigit E normalized
           then Inl (ValueError ''max_resolved_addresses must be a positive decimal count'')
           else ebind (py_int_dec normalized) positive)
      | None \<Rightarrow>
          (case exact_int value of
             None \<Rightarrow> Inl (TypeError ''max_resolved_addresses must be an integer count'')
           | Some n \<Rightarrow> positive n))"

definition normalize_positive_count :: "pyenv \<Rightarrow> pyval \<Rightarrow> string \<Rightarrow> int res" where
  "normalize_positive_count E value field_name =
     (let positive = (\<lambda>item_count. if item_count \<le> 0
            then Inl (ValueError (field_name @ '' must be greater than zero''))
            else Inr item_count) in
      case as_str value of
        Some s \<Rightarrow>
          (let normalized = py_strip E s in
           if normalized = [] \<or> \<not> py_isascii normalized \<or> \<not> py_isdigit E normalized
           then Inl (ValueError (field_name @ '' must be a positive decimal count''))
           else ebind (py_int_dec normalized) positive)
      | None \<Rightarrow>
          (case exact_int value of
             None \<Rightarrow> Inl (TypeError (field_name @ '' must be an integer count''))
           | Some n \<Rightarrow> positive n))"

definition normalize_positive_byte_count :: "pyenv \<Rightarrow> pyval \<Rightarrow> string \<Rightarrow> int res" where
  "normalize_positive_byte_count E value field_name =
     (let positive = (\<lambda>byte_count. if byte_count \<le> 0
            then Inl (ValueError (field_name @ '' must be greater than zero''))
            else Inr byte_count) in
      case as_str value of
        Some s \<Rightarrow>
          (let normalized = py_strip E s in
           if normalized = [] \<or> \<not> py_isascii normalized \<or> \<not> py_isdigit E normalized
           then Inl (ValueError (field_name @ '' must be a positive decimal byte count''))
           else ebind (py_int_dec normalized) positive)
      | None \<Rightarrow>
          (case exact_int value of
             None \<Rightarrow> Inl (TypeError (field_name @ '' must be an integer byte count''))
           | Some n \<Rightarrow> positive n))"

definition normalize_max_request_bytes :: "pyenv \<Rightarrow> pyval \<Rightarrow> int res" where
  "normalize_max_request_bytes E value = normalize_positive_byte_count E value ''max_request_bytes''"

definition normalize_max_request_header_fields :: "pyenv \<Rightarrow> pyval \<Rightarrow> int res" where
  "normalize_max_request_header_fields E value =
     normalize_positive_count E value ''max_request_header_fields''"

definition normalize_max_request_header_bytes :: "pyenv \<Rightarrow> pyval \<Rightarrow> int res" where
  "normalize_max_request_header_bytes E value =
     normalize_positive_byte_count E value ''max_request_header_bytes''"

definition normalize_max_request_target_bytes :: "pyenv \<Rightarrow> pyval \<Rightarrow> int res" where
  "normalize_max_request_target_bytes E value =
     normalize_positive_byte_count E value ''max_request_target_bytes''"

definition normalize_max_response_bytes :: "pyenv \<Rightarrow> pyval \<Rightarrow> int res" where
  "normalize_max_response_bytes E value =
     normalize_positive_byte_count E value ''max_response_bytes''"

definition normalize_max_response_header_fields :: "pyenv \<Rightarrow> pyval \<Rightarrow> int res" where
  "normalize_max_response_header_fields E value =
     normalize_positive_count E value ''max_response_header_fields''"

definition normalize_max_response_header_bytes :: "pyenv \<Rightarrow> pyval \<Rightarrow> int res" where
  "normalize_max_response_header_bytes E value =
     normalize_positive_byte_count E value ''max_response_header_bytes''"

lemmas budget_defs = normalize_max_request_bytes_def normalize_max_request_header_fields_def
  normalize_max_request_header_bytes_def normalize_max_request_target_bytes_def
  normalize_max_response_bytes_def normalize_max_response_header_fields_def
  normalize_max_response_header_bytes_def

section \<open>What a successful normalization guarantees\<close>

text \<open>The canonical form of a host of a policy, of a port and of a method.\<close>

definition canonical_host :: "pyenv \<Rightarrow> ustr \<Rightarrow> bool" where
  "canonical_host E h \<longleftrightarrow>
     py_isascii h \<and> \<not> policy_looks_like_ip_literal E h
     \<and> (\<exists>s. canonicalize_host E s = Inr h)"

definition valid_port :: "int \<Rightarrow> bool" where
  "valid_port p \<longleftrightarrow> 1 \<le> p \<and> p \<le> 65535"

definition canonical_method :: "pyenv \<Rightarrow> ustr \<Rightarrow> bool" where
  "canonical_method E m \<longleftrightarrow>
     m \<noteq> [] \<and> list_all is_token_c m \<and> m \<noteq> u ''CONNECT'' \<and> (\<exists>s. m = py_upper E s)"

lemma canonicalize_host_ascii:
  assumes "canonicalize_host E s = Inr h"
  shows "py_isascii h"
proof -
  from assms obtain b where b: "list_all is_ascii_c (octets b)"
    and h: "h = py_rstrip 46 (py_lower E (octets b))"
    by (auto simp: canonicalize_host_def decode_ascii_def split: option.splits if_splits)
  then have "py_isascii (py_lower E (octets b))"
    by (simp add: py_lower_def py_isascii_def list_all_iff)
  then show ?thesis unfolding h by (rule py_isascii_subset) (rule set_py_rstrip)
qed

lemma canonicalize_host_strip [simp]: "canonicalize_host E (py_strip E s) = canonicalize_host E s"
  by (simp add: canonicalize_host_def)

lemma canonicalize_host_error:
  "canonicalize_host E s = Inl e \<Longrightarrow> is_ValueError e"
  by (auto simp: canonicalize_host_def split: option.splits if_splits)

lemma canonicalize_host_lower:
  assumes "canonicalize_host E s = Inr h"
  shows "map lower_c h = h"
proof -
  from assms obtain b where b: "list_all is_ascii_c (octets b)"
    and h: "h = py_rstrip 46 (py_lower E (octets b))"
    by (auto simp: canonicalize_host_def decode_ascii_def split: option.splits if_splits)
  have "lower_c c = c" if "c \<in> set h" for c
    using that h b set_py_rstrip [of 46 "py_lower E (octets b)"]
    by (auto simp: py_lower_def py_isascii_def split: if_splits)
  then show ?thesis by (simp add: map_idI)
qed

lemma normalize_allowed_host_Some:
  assumes "normalize_allowed_host E v = Inr (Some h)"
  shows "canonical_host E h"
  using assms canonicalize_host_ascii
  by (auto simp: normalize_allowed_host_def canonical_host_def Let_def
      split: option.splits sum.splits if_splits)

lemma normalize_allowed_port_Some:
  "normalize_allowed_port E v = Inr (Some p) \<Longrightarrow> valid_port p"
  by (auto simp: normalize_allowed_port_def valid_port_def Let_def result_simps
      split: option.splits if_splits)

lemma normalize_allowed_authority_Inr:
  assumes "normalize_allowed_authority E v = Inr (h, p)"
  shows "canonical_host E h \<and> valid_port p"
  using assms normalize_allowed_host_Some normalize_allowed_port_Some
  by (auto simp: normalize_allowed_authority_def result_simps
      split: option.splits list.splits)

lemma normalize_allowed_method_Inr:
  "normalize_allowed_method E v = Inr m \<Longrightarrow> canonical_method E m"
  by (auto simp: normalize_allowed_method_def canonical_method_def Let_def list_ex_iff list_all_iff
      split: option.splits if_splits)

lemma normalize_positive_byte_count_pos:
  "normalize_positive_byte_count E v f = Inr n \<Longrightarrow> 0 < n"
  by (auto simp: normalize_positive_byte_count_def Let_def result_simps
      split: option.splits if_splits)

lemma normalize_positive_count_pos:
  "normalize_positive_count E v f = Inr n \<Longrightarrow> 0 < n"
  by (auto simp: normalize_positive_count_def Let_def result_simps
      split: option.splits if_splits)

lemma normalize_max_resolved_addresses_pos:
  "normalize_max_resolved_addresses E v = Inr n \<Longrightarrow> 0 < n"
  by (auto simp: normalize_max_resolved_addresses_def Let_def result_simps
      split: option.splits if_splits)

text \<open>A method token is ASCII, so normalizing a canonical method again changes nothing.\<close>

lemma token_ascii: "is_token_c c \<Longrightarrow> is_ascii_c c"
  by (auto simp: is_token_c_def is_ascii_c_def)

lemma token_not_space: "is_token_c c \<Longrightarrow> \<not> is_space_c E c"
  by (auto simp: is_token_c_def is_space_c_def is_ascii_c_def)

lemma token_strip: "list_all is_token_c m \<Longrightarrow> py_strip E m = m"
  by (intro py_strip_id) (auto simp: list_all_iff dest: token_not_space intro: hd_in_set last_in_set)

text \<open>Bytes budgets given as decimal text denote the number the text spells.\<close>

lemma normalize_positive_byte_count_text:
  assumes "as_str v = Some s" "normalize_positive_byte_count E v f = Inr n"
  shows "all_dec (py_strip E s) \<and> n = dec_value (py_strip E s)"
  using assms
  by (auto simp: normalize_positive_byte_count_def Let_def result_simps py_int_dec_def
      ascii_isdigit_iff split: if_splits)

section \<open>The documented behaviour of the \<open>idna\<close> package\<close>

text \<open>
  What the code relies on in \<open>idna.encode(s, uts46=True, std3_rules=True)\<close> and in
  \<open>str.lower\<close>: the encoding consists of letters, digits, hyphens and dots; an ASCII name
  is only lower-cased; the empty name is refused; and the lower-case name without its root
  dot is accepted again. The properties that need it name it as a hypothesis.
\<close>

definition is_ldh_dot_c :: "int \<Rightarrow> bool" where
  "is_ldh_dot_c c \<longleftrightarrow>
     (48 \<le> c \<and> c \<le> 57) \<or> (65 \<le> c \<and> c \<le> 90) \<or> (97 \<le> c \<and> c \<le> 122) \<or> c = 45 \<or> c = 46"

definition idna_contract :: "pyenv \<Rightarrow> bool" where
  "idna_contract E \<longleftrightarrow>
     idna_encode E [] = None
     \<and> (\<forall>s b. idna_encode E s = Some b \<longrightarrow>
          list_all is_ldh_dot_c (octets b)
          \<and> (py_isascii s \<longrightarrow> octets b = map lower_c s)
          \<and> idna_encode E (py_rstrip 46 (map lower_c (octets b))) \<noteq> None)"

lemma ldh_dot_facts:
  assumes "is_ldh_dot_c c"
  shows "is_ascii_c c" "\<not> is_space_c E c" "32 < c" "c \<noteq> 127" "c \<notin> set INVALID_HOST_DELIMITERS"
    "is_ldh_dot_c (lower_c c)" "c \<notin> {47, 63, 35, 64, 58, 91, 93, 92, 37}"
  using assms
  by (auto simp: is_ldh_dot_c_def is_ascii_c_def is_space_c_def INVALID_HOST_DELIMITERS_def lower_c_def)

lemma ldh_strip: "list_all is_ldh_dot_c s \<Longrightarrow> py_strip E s = s"
  by (intro py_strip_id) (auto simp: list_all_iff dest: ldh_dot_facts(2) intro: hd_in_set last_in_set)

lemma canonicalize_host_Inr:
  assumes "idna_contract E" "canonicalize_host E s = Inr h"
  obtains b where "idna_encode E (py_strip E s) = Some b" "h = py_rstrip 46 (map lower_c (octets b))"
    "list_all is_ldh_dot_c h" "h \<noteq> []" "map lower_c h = h"
proof -
  from assms(2) obtain b where b: "idna_encode E (py_strip E s) = Some b" "list_all is_ascii_c (octets b)"
    and h: "h = py_rstrip 46 (py_lower E (octets b))"
    by (auto simp: canonicalize_host_def decode_ascii_def split: option.splits if_splits)
  have h': "h = py_rstrip 46 (map lower_c (octets b))"
    using b(2) by (simp add: h py_lower_def py_isascii_def)
  have "list_all is_ldh_dot_c (octets b)" using assms(1) b(1) by (auto simp: idna_contract_def)
  then have "list_all is_ldh_dot_c (map lower_c (octets b))"
    by (auto simp: list_all_iff intro: ldh_dot_facts(6))
  then have l: "list_all is_ldh_dot_c h"
    using set_py_rstrip [of 46 "map lower_c (octets b)"] by (auto simp: h' list_all_iff)
  have "h \<noteq> []" using assms(1) b(1) h' unfolding idna_contract_def by metis
  with b(1) h' l that show thesis using canonicalize_host_lower [OF assms(2)] by blast
qed

lemma canonicalize_host_idem:
  assumes "idna_contract E" "canonicalize_host E s = Inr h"
  shows "canonicalize_host E h = Inr h"
proof -
  obtain b where b: "idna_encode E (py_strip E s) = Some b" "h = py_rstrip 46 (map lower_c (octets b))"
    and l: "list_all is_ldh_dot_c h" and low: "map lower_c h = h"
    using canonicalize_host_Inr [OF assms] by blast
  obtain b' where b': "idna_encode E h = Some b'"
    using assms(1) b unfolding idna_contract_def by fastforce
  have ascii: "py_isascii h" using l by (auto simp: py_isascii_def list_all_iff dest: ldh_dot_facts(1))
  then have o: "octets b' = h" using assms(1) b' low by (simp add: idna_contract_def)
  then have "decode_ascii b' = Some h" using ascii by (simp add: decode_ascii_def py_isascii_def)
  moreover have "py_rstrip 46 h = h" using b(2) by simp
  ultimately show ?thesis
    using b' ascii low by (simp add: canonicalize_host_def ldh_strip [OF l] py_lower_def)
qed

lemma normalize_host_canonical:
  "canonicalize_host E s = Inr h \<Longrightarrow> normalize_host E s = h"
  by (simp add: normalize_host_def)

lemma normalize_allowed_host_canonical:
  assumes "idna_contract E" "canonical_host E h"
  shows "normalize_allowed_host E (VStr h) = Inr (Some h)"
proof -
  from assms(2) obtain s where s: "canonicalize_host E s = Inr h"
    and lit: "\<not> policy_looks_like_ip_literal E h"
    by (auto simp: canonical_host_def)
  from canonicalize_host_Inr [OF assms(1) s]
  have l: "list_all is_ldh_dot_c h" and ne: "h \<noteq> []" by blast+
  have "\<not> list_ex (\<lambda>c. is_space_c E c \<or> c < 32 \<or> c = 127) h"
    using l by (force simp: list_ex_iff list_all_iff dest: ldh_dot_facts(2,3,4))
  moreover have "\<not> list_ex (\<lambda>d. d \<in> set h) INVALID_HOST_DELIMITERS"
    using l by (auto simp: list_ex_iff list_all_iff dest: ldh_dot_facts(5))
  ultimately show ?thesis
    using ne lit canonicalize_host_idem [OF assms(1) s]
    by (simp add: normalize_allowed_host_def ldh_strip [OF l] Let_def)
qed

lemma normalize_allowed_port_valid: "valid_port n \<Longrightarrow> normalize_allowed_port E (VInt n) = Inr (Some n)"
  by (simp add: normalize_allowed_port_def valid_port_def Let_def)

lemma normalize_allowed_authority_canonical:
  assumes "idna_contract E" "canonical_host E h" "valid_port n"
  shows "normalize_allowed_authority E (VTuple [VStr h, VInt n]) = Inr (h, n)"
  using normalize_allowed_host_canonical [OF assms(1,2)] normalize_allowed_port_valid [OF assms(3)]
  by (simp add: normalize_allowed_authority_def of_option_def)

section \<open>A concrete environment\<close>

text \<open>
  An interpreter that knows no character outside ASCII, with an \<open>idna.encode\<close> that
  lower-cases a dotted sequence of non-empty letter-digit-hyphen labels and refuses
  everything else. The examples evaluate the definitions in it; it satisfies
  \<open>idna_contract\<close>.
\<close>

definition ascii_idna :: "ustr \<Rightarrow> bytes option" where
  "ascii_idna s =
     (let t = map lower_c s; labels = (if t \<noteq> [] \<and> last t = 46 then butlast t else t) in
      if list_all is_ldh_dot_c t \<and> [] \<notin> set (py_split 46 labels) then Some (map char_of t) else None)"

fun plain_repr :: "pyval \<Rightarrow> bytes" where
  "plain_repr (VStr s) = [CHR 0x27] @ map char_of s @ [CHR 0x27]"
| "plain_repr (VInt n) = (if n < 0 then [CHR ''-''] else []) @ map char_of (dec_digits (abs n))"
| "plain_repr (VTuple vs) = ''('' @ concat (map (\<lambda>v. plain_repr v @ '', '') vs) @ '')''"
| "plain_repr _ = ''?''"

definition ascii_env :: pyenv where
  "ascii_env =
     \<lparr>uni_space = (\<lambda>_. False), uni_digit = (\<lambda>_. False), uni_lower = map lower_c,
      uni_upper = map upper_c, uni_nfkc = (\<lambda>s. s), idna_encode = ascii_idna,
      repr_utf8 = plain_repr, hmac_digest = (\<lambda>b. ''k'' @ b), sha256_hex = octets,
      float_repr = (\<lambda>q. dec_digits \<lfloor>q\<rfloor>)\<rparr>"

lemma py_split_snoc: "py_split c (s @ [c]) = py_split c s @ [[]]"
  by (induction s) (auto split: list.splits)

lemma py_split_last:
  assumes "[] \<notin> set (py_split c s)"
  shows "s \<noteq> [] \<and> last s \<noteq> c"
proof -
  have "s \<noteq> []" using assms by auto
  moreover have "last s \<noteq> c"
  proof
    assume "last s = c"
    with \<open>s \<noteq> []\<close> have "s = butlast s @ [c]" by (metis append_butlast_last_id)
    then show False using assms py_split_snoc [of c "butlast s"] by simp
  qed
  ultimately show ?thesis by simp
qed

lemma octets_char_of: "list_all is_ascii_c s \<Longrightarrow> octets (map char_of s) = s"
  by (induction s) (auto simp: octets_def octet_def is_ascii_c_def)

lemma py_rstrip_last: "s \<noteq> [] \<Longrightarrow> last s \<noteq> c \<Longrightarrow> py_rstrip c s = s"
  by (cases s rule: rev_cases) (auto simp: py_rstrip_def)

text \<open>The name without its root dot.\<close>

lemma root_dot_removed:
  assumes "labels = (if t \<noteq> [] \<and> last t = 46 then butlast t else t)" "[] \<notin> set (py_split 46 labels)"
  shows "py_rstrip 46 t = labels"
proof (cases "t \<noteq> [] \<and> last t = 46")
  case True
  with assms(1) have "t = labels @ [46]" by (metis append_butlast_last_id)
  then have "py_rstrip 46 t = py_rstrip 46 labels" by (simp add: py_rstrip_def)
  with py_split_last [OF assms(2)] show ?thesis by (simp add: py_rstrip_last)
next
  case False
  with assms have "t = labels" by (simp only: if_False)
  with py_split_last [OF assms(2)] show ?thesis by (simp add: py_rstrip_last)
qed

lemma ascii_idna_Some:
  assumes "ascii_idna s = Some b"
  obtains labels where "octets b = map lower_c s" "list_all is_ldh_dot_c (map lower_c s)"
    "py_rstrip 46 (map lower_c s) = labels" "ascii_idna labels \<noteq> None"
proof -
  define t where "t = map lower_c s"
  define labels where "labels = (if t \<noteq> [] \<and> last t = 46 then butlast t else t)"
  from assms have l: "list_all is_ldh_dot_c t" and ne: "[] \<notin> set (py_split 46 labels)"
    and bt: "b = map char_of t"
    unfolding ascii_idna_def Let_def t_def [symmetric] labels_def [symmetric]
    by (simp_all split: if_splits)
  have "list_all is_ascii_c t" using l ldh_dot_facts(1) by (force simp: list_all_iff)
  with bt have o: "octets b = t" by (simp only: octets_char_of)
  have sub: "set labels \<subseteq> set t" by (auto simp: labels_def dest: in_set_butlastD)
  then have "map lower_c labels = labels" by (intro map_idI) (auto simp: t_def)
  moreover have "list_all is_ldh_dot_c labels" using l sub by (auto simp: list_all_iff)
  ultimately have "ascii_idna labels \<noteq> None"
    using ne py_split_last [OF ne] by (simp add: ascii_idna_def Let_def)
  with o l root_dot_removed [OF labels_def ne] that show thesis by (simp add: t_def)
qed

lemma ascii_env_idna_contract: "idna_contract ascii_env"
proof -
  have clause: "list_all is_ldh_dot_c (octets b) \<and> (py_isascii s \<longrightarrow> octets b = map lower_c s)
      \<and> ascii_idna (py_rstrip 46 (map lower_c (octets b))) \<noteq> None"
    if b: "ascii_idna s = Some b" for s b
    by (rule ascii_idna_Some [OF b]) (simp add: o_def)
  have "ascii_idna [] = None" by (simp add: ascii_idna_def)
  with clause show ?thesis unfolding idna_contract_def by (simp add: ascii_env_def)
qed

end
