(* ===== verification/Tls.thy ===== *)
theory Tls
  imports Egress_Values Policy_Normalization
begin

text \<open>
  Model of \<open>src/egressweave/tls.py\<close>: the immutable TLS configuration, its validating
  constructor, and the construction of a fresh client context from it. The \<open>ssl\<close> module and
  HTTPX's context factory are arguments: the contexts they start from and the exceptions of
  the calls that load files. A context is modelled by the settings the code makes.
\<close>

section \<open>Configuration\<close>

datatype tls_version =
  MINIMUM_SUPPORTED | SSLv3 | TLSv1 | TLSv1_1 | TLSv1_2 | TLSv1_3 | MAXIMUM_SUPPORTED

definition TLS_PROTOCOL_FLOORS :: "tls_version list" where
  "TLS_PROTOCOL_FLOORS = [TLSv1_2, TLSv1_3]"

definition TLS12_FORWARD_SECRET_CIPHERS :: string where
  "TLS12_FORWARD_SECRET_CIPHERS =
     ''ECDHE-ECDSA-AES128-GCM-SHA256:'' @ ''ECDHE-ECDSA-AES256-GCM-SHA384:''
     @ ''ECDHE-ECDSA-CHACHA20-POLY1305:'' @ ''ECDHE-RSA-AES128-GCM-SHA256:''
     @ ''ECDHE-RSA-AES256-GCM-SHA384:'' @ ''ECDHE-RSA-CHACHA20-POLY1305''"

text \<open>A path argument: a plain value, or a path-like object with what its \<open>__fspath__\<close> gives.\<close>

datatype path_value = PlainPath pyval | PathLike "pyval res"

definition fspath_type_error :: exn where
  "fspath_type_error = TypeError ''expected str, bytes or os.PathLike object''"

fun os_fspath :: "path_value \<Rightarrow> pyval res" where
  "os_fspath (PlainPath v) =
     (if as_str v \<noteq> None \<or> as_bytes v \<noteq> None then Inr v else Inl fspath_type_error)"
| "os_fspath (PathLike r) =
     ebind r (\<lambda>v. if as_str v \<noteq> None \<or> as_bytes v \<noteq> None then Inr v else Inl fspath_type_error)"

definition normalize_path :: "pyenv \<Rightarrow> string \<Rightarrow> path_value \<Rightarrow> ustr option res" where
  "normalize_path E field_name v =
     (if v = PlainPath VNone then Inr None
      else case os_fspath v of
        Inl e \<Rightarrow> Inl (if is_TypeError e
                      then TypeError (field_name @ '' must be a string or path-like object'') else e)
      | Inr normalized \<Rightarrow>
          (case as_str normalized of
             None \<Rightarrow> Inl (TypeError (field_name @ '' must resolve to a text path''))
           | Some s \<Rightarrow>
               if py_strip E s = [] then Inl (ValueError (field_name @ '' must not be empty''))
               else Inr (Some s)))"

datatype ca_data = CaText ustr | CaBytes bytes

definition normalize_ca_data :: "pyenv \<Rightarrow> pyval \<Rightarrow> ca_data option res" where
  "normalize_ca_data E v =
     (if v = VNone then Inr None
      else case as_str v of
        Some s \<Rightarrow> if py_strip E s = [] then Inl (ValueError ''ca_data must not be empty'')
                  else Inr (Some (CaText s))
      | None \<Rightarrow>
          (case as_bytes v of
             Some b \<Rightarrow> if b = [] then Inl (ValueError ''ca_data must not be empty'')
                       else Inr (Some (CaBytes b))
           | None \<Rightarrow> Inl (TypeError ''ca_data must be PEM text or DER bytes'')))"

datatype tls_password =
    NoPassword | TextPassword ustr | BytesPassword bytes | BytearrayPassword bytes
  | CallablePassword nat | OtherPassword nat

definition validate_private_key_password :: "tls_password \<Rightarrow> unit res" where
  "validate_private_key_password password =
     (case password of
        OtherPassword _ \<Rightarrow>
          Inl (TypeError ''client_private_key_password must be text, bytes, or a callable'')
      | _ \<Rightarrow> Inr ())"

record tls_args =
  ta_minimum_version :: "tls_version option"   \<comment> \<open>None: no \<open>ssl.TLSVersion\<close> member\<close>
  ta_include_default_trust_store :: pyval
  ta_ca_file :: path_value
  ta_ca_path :: path_value
  ta_ca_data :: pyval
  ta_client_certificate_file :: path_value
  ta_client_private_key_file :: path_value
  ta_client_private_key_password :: tls_password

record TLSConfiguration =
  minimum_version :: tls_version
  include_default_trust_store :: bool
  ca_file :: "ustr option"
  ca_path :: "ustr option"
  ca_data :: "ca_data option"
  client_certificate_file :: "ustr option"
  client_private_key_file :: "ustr option"
  client_private_key_password :: tls_password

definition default_tls_args :: tls_args where
  "default_tls_args =
     \<lparr>ta_minimum_version = Some TLSv1_3, ta_include_default_trust_store = VBool True,
      ta_ca_file = PlainPath VNone, ta_ca_path = PlainPath VNone, ta_ca_data = VNone,
      ta_client_certificate_file = PlainPath VNone, ta_client_private_key_file = PlainPath VNone,
      ta_client_private_key_password = NoPassword\<rparr>"

definition make_tls_configuration :: "pyenv \<Rightarrow> tls_args \<Rightarrow> TLSConfiguration res" where
  "make_tls_configuration E a =
     ebind (of_option (TypeError ''minimum_version must be an ssl.TLSVersion member'')
              (ta_minimum_version a)) (\<lambda>version.
     ebind (ensure (version \<in> set TLS_PROTOCOL_FLOORS)
              (ValueError ''minimum_version must be TLS 1.2 or TLS 1.3'')) (\<lambda>_.
     ebind (case ta_include_default_trust_store a of
              VBool b \<Rightarrow> Inr b
            | _ \<Rightarrow> Inl (TypeError ''include_default_trust_store must be a boolean'')) (\<lambda>default_store.
     ebind (normalize_path E ''ca_file'' (ta_ca_file a)) (\<lambda>cafile.
     ebind (normalize_path E ''ca_path'' (ta_ca_path a)) (\<lambda>capath.
     ebind (normalize_path E ''client_certificate_file'' (ta_client_certificate_file a)) (\<lambda>cert.
     ebind (normalize_path E ''client_private_key_file'' (ta_client_private_key_file a)) (\<lambda>key.
     ebind (normalize_ca_data E (ta_ca_data a)) (\<lambda>cadata.
     ebind (validate_private_key_password (ta_client_private_key_password a)) (\<lambda>_.
     let password = (case ta_client_private_key_password a of
                       BytearrayPassword b \<Rightarrow> BytesPassword b | p \<Rightarrow> p) in
     ebind (ensure (default_store \<or> cafile \<noteq> None \<or> capath \<noteq> None \<or> cadata \<noteq> None)
              (ValueError ''custom-only trust requires at least one custom CA source'')) (\<lambda>_.
     ebind (ensure (cert \<noteq> None \<or> key = None)
              (ValueError ''client_private_key_file requires client_certificate_file'')) (\<lambda>_.
     ebind (ensure (cert \<noteq> None \<or> password = NoPassword)
              (ValueError ''client_private_key_password requires client_certificate_file'')) (\<lambda>_.
     Inr \<lparr>minimum_version = version, include_default_trust_store = default_store,
          ca_file = cafile, ca_path = capath, ca_data = cadata, client_certificate_file = cert,
          client_private_key_file = key, client_private_key_password = password\<rparr>))))))))))))"

section \<open>Contexts\<close>

datatype verify_mode = CERT_NONE | CERT_OPTIONAL | CERT_REQUIRED

type_synonym ca_location = "ustr option \<times> ustr option \<times> ca_data option"

record ssl_context =
  cx_minimum_version :: tls_version
  cx_check_hostname :: bool
  cx_verify_mode :: verify_mode
  cx_ciphers :: "string option"               \<comment> \<open>None: the library's own list\<close>
  cx_locations :: "ca_location list"          \<comment> \<open>loaded in addition to what it started from\<close>
  cx_identity :: "(ustr \<times> ustr option \<times> tls_password) option"

record ssl_library =
  lib_httpx_context :: "ssl_context res"
  lib_default_context :: "ca_location \<Rightarrow> ssl_context res"
  lib_set_ciphers :: "exn option"
  lib_load_verify_locations :: "ca_location \<Rightarrow> exn option"
  lib_load_cert_chain :: "ustr \<times> ustr option \<times> tls_password \<Rightarrow> exn option"

definition raising :: "exn option \<Rightarrow> unit res" where
  "raising failure = (case failure of None \<Rightarrow> Inr () | Some e \<Rightarrow> Inl e)"

definition custom_location :: "TLSConfiguration \<Rightarrow> ca_location" where
  "custom_location c = (ca_file c, ca_path c, ca_data c)"

definition load_client_identity ::
  "ssl_library \<Rightarrow> ssl_context \<Rightarrow> ustr \<Rightarrow> ustr option \<Rightarrow> tls_password \<Rightarrow> ssl_context res" where
  "load_client_identity lib context certificate_file private_key_file password =
     ebind (raising (lib_load_cert_chain lib (certificate_file, private_key_file, password))) (\<lambda>_.
     Inr (context\<lparr>cx_identity := Some (certificate_file, private_key_file, password)\<rparr>))"

definition create_ssl_context :: "ssl_library \<Rightarrow> TLSConfiguration \<Rightarrow> ssl_context res" where
  "create_ssl_context lib c =
     ebind (if include_default_trust_store c then lib_httpx_context lib
            else lib_default_context lib (custom_location c)) (\<lambda>context0.
     let context = context0\<lparr>cx_minimum_version := minimum_version c, cx_check_hostname := True,
                            cx_verify_mode := CERT_REQUIRED\<rparr> in
     ebind (if minimum_version c = TLSv1_2
            then ebind (raising (lib_set_ciphers lib)) (\<lambda>_.
                   Inr (context\<lparr>cx_ciphers := Some TLS12_FORWARD_SECRET_CIPHERS\<rparr>))
            else Inr context) (\<lambda>context.
     ebind (if include_default_trust_store c \<and> custom_location c \<noteq> (None, None, None)
            then ebind (raising (lib_load_verify_locations lib (custom_location c))) (\<lambda>_.
                   Inr (context\<lparr>cx_locations := cx_locations context @ [custom_location c]\<rparr>))
            else Inr context) (\<lambda>context.
     case client_certificate_file c of
       None \<Rightarrow> Inr context
     | Some cert \<Rightarrow>
         load_client_identity lib context cert (client_private_key_file c)
           (client_private_key_password c))))"

datatype tls_configuration_arg = NoConfiguration | Configuration TLSConfiguration | OtherConfiguration

definition create_egress_ssl_context :: "ssl_library \<Rightarrow> tls_configuration_arg \<Rightarrow> ssl_context res" where
  "create_egress_ssl_context lib configuration =
     (case configuration of
        NoConfiguration \<Rightarrow> lib_httpx_context lib
      | OtherConfiguration \<Rightarrow> Inl (TypeError ''tls_configuration must be TLSConfiguration or None'')
      | Configuration c \<Rightarrow> create_ssl_context lib c)"

section \<open>Properties\<close>

lemma normalize_path_Some:
  "normalize_path E f v = Inr (Some s) \<Longrightarrow> py_strip E s \<noteq> []"
  by (auto simp: normalize_path_def split: if_splits sum.splits option.splits)

text \<open>A TLS configuration that its constructor accepts has a floor of TLS 1.2 or 1.3 and
  no blank path; trusts the default store or names a custom authority; has a private key
  or a password only with a client certificate; and holds no mutable password.\<close>

theorem tls_configuration_sound:
  assumes "make_tls_configuration E a = Inr c"
  shows "minimum_version c \<in> {TLSv1_2, TLSv1_3}
    \<and> (include_default_trust_store c \<or> ca_file c \<noteq> None \<or> ca_path c \<noteq> None \<or> ca_data c \<noteq> None)
    \<and> (client_certificate_file c = None \<longrightarrow>
         client_private_key_file c = None \<and> client_private_key_password c = NoPassword)
    \<and> (\<forall>s. Some s \<in> {ca_file c, ca_path c, client_certificate_file c, client_private_key_file c}
         \<longrightarrow> py_strip E s \<noteq> [])
    \<and> (\<forall>b n. client_private_key_password c \<noteq> BytearrayPassword b
         \<and> client_private_key_password c \<noteq> OtherPassword n)"
proof -
  from assms obtain version default_store cafile capath cert key cadata xu where
    v: "version \<in> set TLS_PROTOCOL_FLOORS"
    and paths: "normalize_path E ''ca_file'' (ta_ca_file a) = Inr cafile"
      "normalize_path E ''ca_path'' (ta_ca_path a) = Inr capath"
      "normalize_path E ''client_certificate_file'' (ta_client_certificate_file a) = Inr cert"
      "normalize_path E ''client_private_key_file'' (ta_client_private_key_file a) = Inr key"
    and pw: "validate_private_key_password (ta_client_private_key_password a) = Inr xu"
    and c': "(Inr \<lparr>minimum_version = version, include_default_trust_store = default_store,
          ca_file = cafile, ca_path = capath, ca_data = cadata, client_certificate_file = cert,
          client_private_key_file = key, client_private_key_password =
            (case ta_client_private_key_password a of BytearrayPassword b \<Rightarrow> BytesPassword b | p \<Rightarrow> p)\<rparr> :: TLSConfiguration res) = Inr c"
    and rules: "default_store \<or> cafile \<noteq> None \<or> capath \<noteq> None \<or> cadata \<noteq> None" "cert \<noteq> None \<or> key = None"
      "cert \<noteq> None \<or> (case ta_client_private_key_password a of BytearrayPassword b \<Rightarrow> BytesPassword b | p \<Rightarrow> p)
          = NoPassword"
    unfolding make_tls_configuration_def Let_def ebind_eq_Inr ensure_eq_Inr
    by (elim exE conjE) (rule that, assumption+)
  note c = c' [simplified, symmetric]
  have "py_strip E s \<noteq> []" if "Some s \<in> {cafile, capath, cert, key}" for s
    using that paths normalize_path_Some by auto
  moreover have "(case ta_client_private_key_password a of BytearrayPassword b \<Rightarrow> BytesPassword b | p \<Rightarrow> p)
      \<noteq> BytearrayPassword b
    \<and> (case ta_client_private_key_password a of BytearrayPassword b \<Rightarrow> BytesPassword b | p \<Rightarrow> p) \<noteq> OtherPassword n"
    for b n
    using pw by (auto simp: validate_private_key_password_def split: tls_password.splits)
  ultimately show ?thesis
    using v rules by (simp add: c TLS_PROTOCOL_FLOORS_def) blast
qed

definition example_tls_args :: tls_args where
  "example_tls_args = default_tls_args\<lparr>ta_minimum_version := Some TLSv1_2,
     ta_ca_file := PathLike (Inr (VStr (u ''/etc/ca.pem''))),
     ta_client_certificate_file := PlainPath (VStr (u ''/etc/client.pem'')),
     ta_client_private_key_password := BytearrayPassword ''secret''\<rparr>"

definition example_tls :: TLSConfiguration where
  "example_tls = \<lparr>minimum_version = TLSv1_2, include_default_trust_store = True,
     ca_file = Some (u ''/etc/ca.pem''), ca_path = None, ca_data = None,
     client_certificate_file = Some (u ''/etc/client.pem''), client_private_key_file = None,
     client_private_key_password = BytesPassword ''secret''\<rparr>"

lemma example_make_tls: "make_tls_configuration ascii_env example_tls_args = Inr example_tls"
  by code_simp

lemma tls_configuration_sound_witness:
  "minimum_version example_tls \<in> {TLSv1_2, TLSv1_3}"
  using tls_configuration_sound [OF example_make_tls] by blast

text \<open>C13: whatever context the libraries hand out, the one the code returns for a
  configuration checks the host name, requires a verified certificate and has the configured
  protocol floor; at TLS 1.2 it offers exactly the forward-secret suites; a client certificate
  that is configured is loaded; and anything but a configuration is refused.\<close>

theorem tls_context_hardened:
  "(create_ssl_context lib c = Inr cx \<longrightarrow>
      cx_check_hostname cx \<and> cx_verify_mode cx = CERT_REQUIRED
      \<and> cx_minimum_version cx = minimum_version c
      \<and> (minimum_version c = TLSv1_2 \<longrightarrow> cx_ciphers cx = Some TLS12_FORWARD_SECRET_CIPHERS)
      \<and> (\<forall>cert. client_certificate_file c = Some cert \<longrightarrow>
           cx_identity cx = Some (cert, client_private_key_file c, client_private_key_password c))
      \<and> (include_default_trust_store c \<and> ca_file c \<noteq> None \<longrightarrow> custom_location c \<in> set (cx_locations cx)))
    \<and> create_egress_ssl_context lib (Configuration c) = create_ssl_context lib c
    \<and> (\<exists>m. create_egress_ssl_context lib OtherConfiguration = Inl (TypeError m))"
proof (intro conjI)
  show "create_ssl_context lib c = Inr cx \<longrightarrow>
      cx_check_hostname cx \<and> cx_verify_mode cx = CERT_REQUIRED
      \<and> cx_minimum_version cx = minimum_version c
      \<and> (minimum_version c = TLSv1_2 \<longrightarrow> cx_ciphers cx = Some TLS12_FORWARD_SECRET_CIPHERS)
      \<and> (\<forall>cert. client_certificate_file c = Some cert \<longrightarrow>
           cx_identity cx = Some (cert, client_private_key_file c, client_private_key_password c))
      \<and> (include_default_trust_store c \<and> ca_file c \<noteq> None \<longrightarrow> custom_location c \<in> set (cx_locations cx))"
    by (cases "minimum_version c = TLSv1_2"; cases "include_default_trust_store c";
        cases "custom_location c = (None, None, None)"; cases "client_certificate_file c")
      (auto simp: create_ssl_context_def load_client_identity_def result_simps Let_def custom_location_def)
qed (simp_all add: create_egress_ssl_context_def)

definition weak_library :: ssl_library where
  "weak_library =
     (let weak = \<lparr>cx_minimum_version = TLSv1, cx_check_hostname = False, cx_verify_mode = CERT_NONE,
        cx_ciphers = None, cx_locations = [], cx_identity = None\<rparr> in
      \<lparr>lib_httpx_context = Inr weak, lib_default_context = (\<lambda>_. Inr weak), lib_set_ciphers = None,
       lib_load_verify_locations = (\<lambda>_. None), lib_load_cert_chain = (\<lambda>_. None)\<rparr>)"

lemma tls_context_hardened_witness:
  "\<exists>cx. create_ssl_context weak_library example_tls = Inr cx \<and> cx_check_hostname cx
     \<and> cx_verify_mode cx = CERT_REQUIRED \<and> cx_minimum_version cx = TLSv1_2"
proof -
  have "case create_ssl_context weak_library example_tls of Inr _ \<Rightarrow> True | Inl _ \<Rightarrow> False" by code_simp
  then obtain cx where cx: "create_ssl_context weak_library example_tls = Inr cx"
    by (cases "create_ssl_context weak_library example_tls") auto
  with tls_context_hardened [of weak_library example_tls cx] show ?thesis
    by (auto simp: example_tls_def)
qed

end
