(* ===== verification/Limit_Policies.thy ===== *)
theory Limit_Policies
  imports Egress_Values
begin

text \<open>
  Model of \<open>src/egressweave/timeout_policy.py\<close> and
  \<open>src/egressweave/connection_pool_policy.py\<close>: the two immutable value objects of finite
  limits, their validating constructors and their projections.
\<close>

section \<open>Timeout ceilings\<close>

definition normalize_timeout_seconds :: "string \<Rightarrow> pyval \<Rightarrow> rat res" where
  "normalize_timeout_seconds field_name value =
     (if is_bool value \<or> \<not> is_Real value
      then Inl (TypeError (field_name @ '' must be a real number of seconds''))
      else ebind (py_float value) (\<lambda>normalized.
        if \<not> is_finite normalized \<or> float_le_zero normalized
        then Inl (ValueError (field_name @ '' must be finite and greater than zero''))
        else Inr (the_fin normalized)))"

record EgressTimeoutPolicy =
  connect_timeout_seconds :: rat
  read_timeout_seconds :: rat
  write_timeout_seconds :: rat
  pool_timeout_seconds :: rat

definition make_timeout_policy ::
  "pyval \<Rightarrow> pyval \<Rightarrow> pyval \<Rightarrow> pyval \<Rightarrow> EgressTimeoutPolicy res" where
  "make_timeout_policy connect read write pool =
     ebind (normalize_timeout_seconds ''connect_timeout_seconds'' connect) (\<lambda>c.
     ebind (normalize_timeout_seconds ''read_timeout_seconds'' read) (\<lambda>r.
     ebind (normalize_timeout_seconds ''write_timeout_seconds'' write) (\<lambda>w.
     ebind (normalize_timeout_seconds ''pool_timeout_seconds'' pool) (\<lambda>p.
     Inr \<lparr>connect_timeout_seconds = c, read_timeout_seconds = r,
          write_timeout_seconds = w, pool_timeout_seconds = p\<rparr>))))"

definition as_httpcore_timeout :: "EgressTimeoutPolicy \<Rightarrow> (string \<times> rat) list" where
  "as_httpcore_timeout t =
     [(''connect'', connect_timeout_seconds t), (''read'', read_timeout_seconds t),
      (''write'', write_timeout_seconds t), (''pool'', pool_timeout_seconds t)]"

definition DEFAULT_EGRESS_TIMEOUT_POLICY :: EgressTimeoutPolicy where
  "DEFAULT_EGRESS_TIMEOUT_POLICY =
     \<lparr>connect_timeout_seconds = 5, read_timeout_seconds = 5,
      write_timeout_seconds = 5, pool_timeout_seconds = 5\<rparr>"

definition timeout_policy_ok :: "EgressTimeoutPolicy \<Rightarrow> bool" where
  "timeout_policy_ok t \<longleftrightarrow> list_all (\<lambda>(_, q). 0 < q) (as_httpcore_timeout t)"

lemma normalize_timeout_seconds_pos:
  "normalize_timeout_seconds f v = Inr q \<Longrightarrow> 0 < q"
  by (auto simp: normalize_timeout_seconds_def result_simps is_finite_iff split: if_splits)

lemma make_timeout_policy_ok:
  "make_timeout_policy c r w p = Inr t \<Longrightarrow> timeout_policy_ok t"
  by (auto simp: make_timeout_policy_def result_simps timeout_policy_ok_def
      as_httpcore_timeout_def dest: normalize_timeout_seconds_pos)

lemma timeout_policy_ok_keys:
  "map fst (as_httpcore_timeout t) = [''connect'', ''read'', ''write'', ''pool'']"
  by (simp add: as_httpcore_timeout_def)

lemma DEFAULT_timeout_policy_made:
  "make_timeout_policy (VFloat (FFin 5)) (VFloat (FFin 5)) (VFloat (FFin 5)) (VFloat (FFin 5))
   = Inr DEFAULT_EGRESS_TIMEOUT_POLICY"
  by (simp add: make_timeout_policy_def normalize_timeout_seconds_def DEFAULT_EGRESS_TIMEOUT_POLICY_def)

section \<open>Connection-pool limits\<close>

definition normalize_connection_count :: "string \<Rightarrow> pyval \<Rightarrow> bool \<Rightarrow> int res" where
  "normalize_connection_count field_name value allow_zero =
     ebind
       (if is_bool value
        then Inl (TypeError (field_name @ '' must be an integer or ASCII decimal string''))
        else case as_int value of
          Some n \<Rightarrow> Inr n
        | None \<Rightarrow>
            (case as_str value of
               Some s \<Rightarrow>
                 (if s = [] \<or> \<not> py_isascii s \<or> \<not> all_dec s
                  then Inl (ValueError (field_name @ '' must be an ASCII decimal string''))
                  else py_int_dec s)
             | None \<Rightarrow>
                 Inl (TypeError (field_name @ '' must be an integer or ASCII decimal string''))))
       (\<lambda>normalized.
          if normalized < (if allow_zero then 0 else 1)
          then Inl (ValueError (field_name @ '' must be ''
                 @ (if allow_zero then ''zero or greater'' else ''greater than zero'')))
          else Inr normalized)"

definition normalize_keepalive_expiry_seconds :: "pyval \<Rightarrow> rat res" where
  "normalize_keepalive_expiry_seconds value =
     (if is_bool value \<or> \<not> is_Real value
      then Inl (TypeError ''keepalive_expiry_seconds must be a real number of seconds'')
      else ebind (py_float value) (\<lambda>normalized.
        if \<not> is_finite normalized \<or> the_fin normalized < 0
        then Inl (ValueError ''keepalive_expiry_seconds must be finite and zero or greater'')
        else Inr (the_fin normalized)))"

record EgressConnectionPoolPolicy =
  max_connections :: int
  max_keepalive_connections :: int
  keepalive_expiry_seconds :: rat

definition make_connection_pool_policy ::
  "pyval \<Rightarrow> pyval \<Rightarrow> pyval \<Rightarrow> EgressConnectionPoolPolicy res" where
  "make_connection_pool_policy raw_max_connections raw_max_keepalive raw_expiry =
     ebind (normalize_connection_count ''max_connections'' raw_max_connections False) (\<lambda>mc.
     ebind (normalize_connection_count ''max_keepalive_connections'' raw_max_keepalive True) (\<lambda>mk.
     ebind (ensure (\<not> mk > mc)
              (ValueError ''max_keepalive_connections must not exceed max_connections'')) (\<lambda>_.
     ebind (normalize_keepalive_expiry_seconds raw_expiry) (\<lambda>ke.
     Inr \<lparr>max_connections = mc, max_keepalive_connections = mk,
          keepalive_expiry_seconds = ke\<rparr>))))"

definition pool_as_dict :: "EgressConnectionPoolPolicy \<Rightarrow> (string \<times> pyval) list" where
  "pool_as_dict p =
     [(''max_connections'', VInt (max_connections p)),
      (''max_keepalive_connections'', VInt (max_keepalive_connections p)),
      (''keepalive_expiry_seconds'', VFloat (FFin (keepalive_expiry_seconds p)))]"

definition DEFAULT_EGRESS_CONNECTION_POOL_POLICY :: EgressConnectionPoolPolicy where
  "DEFAULT_EGRESS_CONNECTION_POOL_POLICY =
     \<lparr>max_connections = 100, max_keepalive_connections = 20, keepalive_expiry_seconds = 5\<rparr>"

definition pool_policy_ok :: "EgressConnectionPoolPolicy \<Rightarrow> bool" where
  "pool_policy_ok p \<longleftrightarrow>
     1 \<le> max_connections p \<and> 0 \<le> max_keepalive_connections p
     \<and> max_keepalive_connections p \<le> max_connections p \<and> 0 \<le> keepalive_expiry_seconds p"

lemma normalize_connection_count_min:
  "normalize_connection_count f v z = Inr n \<Longrightarrow> (if z then 0 else 1) \<le> n"
  by (auto simp: normalize_connection_count_def result_simps split: if_splits)

lemma normalize_keepalive_nonneg:
  "normalize_keepalive_expiry_seconds v = Inr q \<Longrightarrow> 0 \<le> q"
  by (auto simp: normalize_keepalive_expiry_seconds_def result_simps split: if_splits)

lemma make_connection_pool_policy_ok:
  assumes "make_connection_pool_policy a b c = Inr p"
  shows "pool_policy_ok p"
  using assms normalize_connection_count_min [of _ a False] normalize_connection_count_min [of _ b True]
    normalize_keepalive_nonneg [of c]
  by (auto simp: make_connection_pool_policy_def result_simps pool_policy_ok_def)

lemma DEFAULT_pool_policy_made:
  "make_connection_pool_policy (VInt 100) (VInt 20) (VFloat (FFin 5))
   = Inr DEFAULT_EGRESS_CONNECTION_POOL_POLICY"
  by (simp add: make_connection_pool_policy_def normalize_connection_count_def
      normalize_keepalive_expiry_seconds_def DEFAULT_EGRESS_CONNECTION_POOL_POLICY_def)

text \<open>Rebuilding a policy from its own projection gives the same policy.\<close>

lemma pool_policy_roundtrip:
  assumes "pool_policy_ok p"
  shows "make_connection_pool_policy (snd (pool_as_dict p ! 0)) (snd (pool_as_dict p ! 1))
      (snd (pool_as_dict p ! 2)) = Inr p"
  using assms
  by (simp add: pool_policy_ok_def pool_as_dict_def make_connection_pool_policy_def
      normalize_connection_count_def normalize_keepalive_expiry_seconds_def)

section \<open>Properties\<close>

text \<open>A timeout policy that its constructor accepts bounds each of the four phases HTTPCore
  knows by a positive finite number of seconds.\<close>

lemma timeout_policy_bounds_every_phase:
  assumes "make_timeout_policy c r w p = Inr t"
  shows "map fst (as_httpcore_timeout t) = [''connect'', ''read'', ''write'', ''pool'']
    \<and> (\<forall>(phase, seconds) \<in> set (as_httpcore_timeout t). 0 < seconds)"
  using make_timeout_policy_ok [OF assms] timeout_policy_ok_keys
  by (simp add: timeout_policy_ok_def list_all_iff)

lemma timeout_policy_bounds_every_phase_witness:
  "list_all (\<lambda>(phase, seconds). 0 < seconds) (as_httpcore_timeout DEFAULT_EGRESS_TIMEOUT_POLICY)"
  using timeout_policy_bounds_every_phase [OF DEFAULT_timeout_policy_made] by (simp add: list_all_iff)

text \<open>A pool policy that its constructor accepts admits at least one connection, keeps no
  more idle ones than it admits, and is rebuilt unchanged from its own projection.\<close>

lemma pool_policy_sound:
  assumes "make_connection_pool_policy a b c = Inr p"
  shows "1 \<le> max_connections p \<and> 0 \<le> max_keepalive_connections p
    \<and> max_keepalive_connections p \<le> max_connections p \<and> 0 \<le> keepalive_expiry_seconds p
    \<and> make_connection_pool_policy (snd (pool_as_dict p ! 0)) (snd (pool_as_dict p ! 1))
        (snd (pool_as_dict p ! 2)) = Inr p"
proof -
  have ok: "pool_policy_ok p" by (rule make_connection_pool_policy_ok [OF assms])
  with pool_policy_roundtrip [OF ok] show ?thesis by (simp add: pool_policy_ok_def)
qed

lemma pool_policy_sound_witness:
  "\<exists>p. make_connection_pool_policy (VStr (u ''7'')) (VInt 0) (VInt 3) = Inr p
     \<and> max_connections p = 7 \<and> 1 \<le> max_connections p"
proof -
  have "make_connection_pool_policy (VStr (u ''7'')) (VInt 0) (VInt 3)
    = Inr \<lparr>max_connections = 7, max_keepalive_connections = 0, keepalive_expiry_seconds = 3\<rparr>"
    by code_simp
  from pool_policy_sound [OF this] this show ?thesis by auto
qed

end
