(* ===== verification/Egress_Policy.thy ===== *)
theory Egress_Policy
  imports Policy_Normalization Limit_Policies
begin

text \<open>
  Model of \<open>src/egressweave/policy.py\<close>: the immutable \<open>EgressPolicy\<close>, its validating
  constructor \<open>__post_init__\<close>, the two class methods that build it and the queries the
  runtime asks. Constructor arguments are untyped Python values; a constructed policy has
  typed fields.
\<close>

record policy_args =
  arg_allowed_hosts :: pyval
  arg_allow_local :: pyval
  arg_dns_timeout_seconds :: pyval
  arg_allowed_ports :: pyval
  arg_allowed_methods :: pyval
  arg_max_response_bytes :: pyval
  arg_allowed_authorities :: pyval
  arg_max_request_bytes :: pyval
  arg_max_resolved_addresses :: pyval
  arg_request_timeout_policy :: "EgressTimeoutPolicy option"
    \<comment> \<open>None: an object that is no \<open>EgressTimeoutPolicy\<close>\<close>
  arg_max_response_header_fields :: pyval
  arg_max_response_header_bytes :: pyval
  arg_max_request_header_fields :: pyval
  arg_max_request_header_bytes :: pyval
  arg_max_request_target_bytes :: pyval
  arg_connection_pool_policy :: "EgressConnectionPoolPolicy option"

record EgressPolicy =
  allowed_hosts :: "ustr set"
  allow_local :: bool
  dns_timeout_seconds :: rat
  allowed_ports :: "int set"
  allowed_methods :: "ustr set"
  max_response_bytes :: int
  allowed_authorities :: "(ustr \<times> int) set"
  max_request_bytes :: int
  max_resolved_addresses :: int
  request_timeout_policy :: EgressTimeoutPolicy
  max_response_header_fields :: int
  max_response_header_bytes :: int
  max_request_header_fields :: int
  max_request_header_bytes :: int
  max_request_target_bytes :: int
  connection_pool_policy :: EgressConnectionPoolPolicy

definition default_policy_args :: policy_args where
  "default_policy_args =
     \<lparr>arg_allowed_hosts = VSet [], arg_allow_local = VBool False,
      arg_dns_timeout_seconds = VFloat DEFAULT_DNS_RESOLUTION_TIMEOUT_SECONDS,
      arg_allowed_ports = DEFAULT_ALLOWED_EGRESS_PORTS,
      arg_allowed_methods = DEFAULT_ALLOWED_HTTP_METHODS,
      arg_max_response_bytes = VInt DEFAULT_MAX_RESPONSE_BYTES,
      arg_allowed_authorities = VNone,
      arg_max_request_bytes = VInt DEFAULT_MAX_REQUEST_BYTES,
      arg_max_resolved_addresses = VInt DEFAULT_MAX_RESOLVED_ADDRESSES,
      arg_request_timeout_policy = Some DEFAULT_EGRESS_TIMEOUT_POLICY,
      arg_max_response_header_fields = VInt DEFAULT_MAX_RESPONSE_HEADER_FIELDS,
      arg_max_response_header_bytes = VInt DEFAULT_MAX_RESPONSE_HEADER_BYTES,
      arg_max_request_header_fields = VInt DEFAULT_MAX_REQUEST_HEADER_FIELDS,
      arg_max_request_header_bytes = VInt DEFAULT_MAX_REQUEST_HEADER_BYTES,
      arg_max_request_target_bytes = VInt DEFAULT_MAX_REQUEST_TARGET_BYTES,
      arg_connection_pool_policy = Some DEFAULT_EGRESS_CONNECTION_POOL_POLICY\<rparr>"

section \<open>Construction\<close>

definition check_dns_timeout :: "pyval \<Rightarrow> rat res" where
  "check_dns_timeout timeout =
     (let bad = ValueError ''dns_timeout_seconds must be a finite positive number'' in
      if is_bool timeout \<or> \<not> is_Real timeout then Inl bad
      else ebind (py_float timeout) (\<lambda>f.
        if \<not> is_finite f \<or> py_le_zero timeout then Inl bad else Inr (the_fin f)))"

definition normalized_hosts :: "pyenv \<Rightarrow> pyval \<Rightarrow> ustr set res" where
  "normalized_hosts E hosts =
     ebind (comma_items hosts) (\<lambda>items.
     ebind (emap (normalize_allowed_host E) items) (\<lambda>hs.
     Inr (set (List.map_filter (\<lambda>h. h) hs))))"

definition normalized_ports :: "pyenv \<Rightarrow> pyval \<Rightarrow> int set res" where
  "normalized_ports E ports =
     ebind (comma_items ports) (\<lambda>items.
     ebind (emap (normalize_allowed_port E) items) (\<lambda>ps.
     Inr (set (List.map_filter (\<lambda>p. p) ps))))"

definition normalized_authorities ::
  "pyenv \<Rightarrow> pyval \<Rightarrow> ustr set \<Rightarrow> int set \<Rightarrow> (ustr \<times> int) set res" where
  "normalized_authorities E authorities hosts ports =
     (if authorities = VNone then
        (if card hosts > 1 \<and> card ports > 1
         then Inl (ValueError (''multiple hosts and ports require exact authority pairs via ''
                @ ''EgressPolicy.from_authorities''))
         else Inr (hosts \<times> ports))
      else
        ebind (py_iter authorities) (\<lambda>items.
        ebind (emap (normalize_allowed_authority E) items) (\<lambda>pairs.
          if fst ` set pairs \<noteq> hosts \<or> snd ` set pairs \<noteq> ports
          then Inl (ValueError (''allowed_authorities must match allowed_hosts and ''
                 @ ''allowed_ports projections''))
          else Inr (set pairs))))"

definition normalized_methods :: "pyenv \<Rightarrow> pyval \<Rightarrow> ustr set res" where
  "normalized_methods E methods =
     ebind (comma_items methods) (\<lambda>items.
     ebind (emap (normalize_allowed_method E) items) (\<lambda>ms. Inr (set ms)))"

definition post_init :: "pyenv \<Rightarrow> policy_args \<Rightarrow> EgressPolicy res" where
  "post_init E a =
     ebind (case arg_allow_local a of
              VBool b \<Rightarrow> Inr b
            | _ \<Rightarrow> Inl (TypeError ''allow_local must be a boolean'')) (\<lambda>local.
     ebind (of_option (TypeError ''request_timeout_policy must be an EgressTimeoutPolicy'')
              (arg_request_timeout_policy a)) (\<lambda>timeouts.
     ebind (of_option (TypeError ''connection_pool_policy must be an EgressConnectionPoolPolicy'')
              (arg_connection_pool_policy a)) (\<lambda>pool.
     ebind (check_dns_timeout (arg_dns_timeout_seconds a)) (\<lambda>timeout.
     ebind (normalized_hosts E (arg_allowed_hosts a)) (\<lambda>hosts.
     ebind (normalized_ports E (arg_allowed_ports a)) (\<lambda>ports.
     ebind (normalized_authorities E (arg_allowed_authorities a) hosts ports) (\<lambda>auths.
     ebind (normalized_methods E (arg_allowed_methods a)) (\<lambda>methods.
     ebind (normalize_max_resolved_addresses E (arg_max_resolved_addresses a)) (\<lambda>addresses.
     ebind (normalize_max_request_bytes E (arg_max_request_bytes a)) (\<lambda>request_bytes.
     ebind (normalize_max_response_bytes E (arg_max_response_bytes a)) (\<lambda>response_bytes.
     ebind (normalize_max_response_header_fields E (arg_max_response_header_fields a)) (\<lambda>rs_fields.
     ebind (normalize_max_response_header_bytes E (arg_max_response_header_bytes a)) (\<lambda>rs_bytes.
     ebind (normalize_max_request_header_fields E (arg_max_request_header_fields a)) (\<lambda>rq_fields.
     ebind (normalize_max_request_header_bytes E (arg_max_request_header_bytes a)) (\<lambda>rq_bytes.
     ebind (normalize_max_request_target_bytes E (arg_max_request_target_bytes a)) (\<lambda>rq_target.
     Inr \<lparr>allowed_hosts = hosts, allow_local = local, dns_timeout_seconds = timeout,
          allowed_ports = ports, allowed_methods = methods,
          max_response_bytes = response_bytes, allowed_authorities = auths,
          max_request_bytes = request_bytes, max_resolved_addresses = addresses,
          request_timeout_policy = timeouts,
          max_response_header_fields = rs_fields, max_response_header_bytes = rs_bytes,
          max_request_header_fields = rq_fields, max_request_header_bytes = rq_bytes,
          max_request_target_bytes = rq_target, connection_pool_policy = pool\<rparr>))))))))))))))))"

text \<open>The class methods take the same keyword arguments; \<open>arg_allowed_hosts\<close> carries
  \<open>hosts\<close> and \<open>arg_allowed_authorities\<close> carries \<open>authorities\<close>.\<close>

definition from_hosts :: "pyenv \<Rightarrow> policy_args \<Rightarrow> EgressPolicy res" where
  "from_hosts E a =
     ebind (ebind (comma_items (arg_allowed_hosts a)) py_frozenset) (\<lambda>hosts.
     ebind (ebind (comma_items (arg_allowed_ports a)) py_frozenset) (\<lambda>ports.
     ebind (ebind (comma_items (arg_allowed_methods a)) py_frozenset) (\<lambda>methods.
     post_init E (a\<lparr>arg_allowed_hosts := hosts, arg_allowed_ports := ports,
                    arg_allowed_methods := methods, arg_allowed_authorities := VNone\<rparr>))))"

definition authority_value :: "ustr \<times> int \<Rightarrow> pyval" where
  "authority_value a = VTuple [VStr (fst a), VInt (snd a)]"

definition from_authorities :: "pyenv \<Rightarrow> policy_args \<Rightarrow> EgressPolicy res" where
  "from_authorities E a =
     ebind (py_iter (arg_allowed_authorities a)) (\<lambda>items.
     ebind (emap (normalize_allowed_authority E) items) (\<lambda>pairs.
     let auths = remdups pairs in
     ebind (ebind (comma_items (arg_allowed_methods a)) py_frozenset) (\<lambda>methods.
     post_init E (a\<lparr>arg_allowed_hosts := VSet (map VStr (remdups (map fst auths))),
                    arg_allowed_ports := VSet (map VInt (remdups (map snd auths))),
                    arg_allowed_methods := methods,
                    arg_allowed_authorities := VSet (map authority_value auths)\<rparr>))))"

section \<open>Queries\<close>

definition is_allowlisted_local_host :: "pyenv \<Rightarrow> EgressPolicy \<Rightarrow> ustr \<Rightarrow> bool" where
  "is_allowlisted_local_host E p hostname =
     (let normalized = normalize_host E hostname in
      allow_local p \<and> normalized \<in> allowed_hosts p \<and> 46 \<notin> set normalized)"

definition allows_port :: "EgressPolicy \<Rightarrow> pyval \<Rightarrow> bool" where
  "allows_port p port =
     (case as_int port of
        None \<Rightarrow> False
      | Some n \<Rightarrow> \<not> is_bool port \<and> n \<in> allowed_ports p)"

definition allows_authority :: "pyenv \<Rightarrow> EgressPolicy \<Rightarrow> pyval \<Rightarrow> pyval \<Rightarrow> bool" where
  "allows_authority E p hostname port =
     (case (as_str hostname, as_int port) of
        (Some h, Some n) \<Rightarrow> \<not> is_bool port \<and> (normalize_host E h, n) \<in> allowed_authorities p
      | _ \<Rightarrow> False)"

definition allows_http_method :: "pyenv \<Rightarrow> EgressPolicy \<Rightarrow> pyval \<Rightarrow> bool" where
  "allows_http_method E p method =
     (case normalize_allowed_method E method of
        Inl _ \<Rightarrow> False
      | Inr normalized \<Rightarrow> normalized \<in> allowed_methods p)"

section \<open>The invariant of a constructed policy\<close>

definition policy_ok :: "pyenv \<Rightarrow> EgressPolicy \<Rightarrow> bool" where
  "policy_ok E p \<longleftrightarrow>
     (\<forall>h \<in> allowed_hosts p. canonical_host E h)
     \<and> (\<forall>n \<in> allowed_ports p. valid_port n)
     \<and> (\<forall>m \<in> allowed_methods p. canonical_method E m)
     \<and> allowed_authorities p \<subseteq> allowed_hosts p \<times> allowed_ports p
     \<and> finite (allowed_authorities p)
     \<and> 0 < max_response_bytes p \<and> 0 < max_request_bytes p \<and> 0 < max_resolved_addresses p
     \<and> 0 < max_response_header_fields p \<and> 0 < max_response_header_bytes p
     \<and> 0 < max_request_header_fields p \<and> 0 < max_request_header_bytes p
     \<and> 0 < max_request_target_bytes p"

lemma normalized_hosts_canonical:
  assumes "normalized_hosts E v = Inr H" "h \<in> H"
  shows "canonical_host E h"
proof -
  from assms obtain items hs where hs: "emap (normalize_allowed_host E) items = Inr hs"
    and "Some h \<in> set hs"
    by (auto simp: normalized_hosts_def result_simps List.map_filter_def)
  then show ?thesis
    using emap_Inr_set [OF hs, of "Some h"] normalize_allowed_host_Some by blast
qed

lemma normalized_ports_valid:
  assumes "normalized_ports E v = Inr P" "n \<in> P"
  shows "valid_port n"
proof -
  from assms obtain items ps where ps: "emap (normalize_allowed_port E) items = Inr ps"
    and "Some n \<in> set ps"
    by (auto simp: normalized_ports_def result_simps List.map_filter_def)
  then show ?thesis
    using emap_Inr_set [OF ps, of "Some n"] normalize_allowed_port_Some by blast
qed

lemma normalized_methods_canonical:
  assumes "normalized_methods E v = Inr M" "m \<in> M"
  shows "canonical_method E m"
proof -
  from assms obtain items ms where ms: "emap (normalize_allowed_method E) items = Inr ms"
    and "m \<in> set ms"
    by (auto simp: normalized_methods_def result_simps)
  then show ?thesis
    using emap_Inr_set [OF ms, of m] normalize_allowed_method_Inr by blast
qed

lemma normalized_sets_finite:
  "normalized_hosts E v = Inr H \<Longrightarrow> finite H"
  "normalized_ports E v = Inr P \<Longrightarrow> finite P"
  by (auto simp: normalized_hosts_def normalized_ports_def result_simps)

lemma normalized_authorities_subset:
  assumes "normalized_authorities E v H P = Inr A" "finite H" "finite P"
  shows "A \<subseteq> H \<times> P \<and> finite A"
  using assms by (force simp: normalized_authorities_def result_simps split: if_splits)

text \<open>Every budget normalizer is one positive-valued function of the argument; the constructor
  only relies on that.\<close>

locale positive_budget =
  fixes norm :: "pyval \<Rightarrow> int res"
  assumes positive: "norm v = Inr n \<Longrightarrow> 0 < n"
begin

lemma never_disabled: "norm v = Inr n \<Longrightarrow> n \<noteq> 0"
  using positive by fastforce

lemma within_budget_nonempty: "norm v = Inr n \<Longrightarrow> \<exists>k::nat. int k \<le> n \<and> 0 < k"
  using positive [of v n] by (intro exI [of _ 1]) simp

end

interpretation budget_addresses: positive_budget "normalize_max_resolved_addresses E" for E
  by unfold_locales (rule normalize_max_resolved_addresses_pos)

interpretation budget_request_bytes: positive_budget "normalize_max_request_bytes E" for E
  by unfold_locales (auto simp: budget_defs dest: normalize_positive_byte_count_pos)

interpretation budget_response_bytes: positive_budget "normalize_max_response_bytes E" for E
  by unfold_locales (auto simp: budget_defs dest: normalize_positive_byte_count_pos)

interpretation budget_response_fields: positive_budget "normalize_max_response_header_fields E" for E
  by unfold_locales (auto simp: budget_defs dest: normalize_positive_count_pos)

interpretation budget_response_header_bytes: positive_budget "normalize_max_response_header_bytes E" for E
  by unfold_locales (auto simp: budget_defs dest: normalize_positive_byte_count_pos)

interpretation budget_request_fields: positive_budget "normalize_max_request_header_fields E" for E
  by unfold_locales (auto simp: budget_defs dest: normalize_positive_count_pos)

interpretation budget_request_header_bytes: positive_budget "normalize_max_request_header_bytes E" for E
  by unfold_locales (auto simp: budget_defs dest: normalize_positive_byte_count_pos)

interpretation budget_request_target: positive_budget "normalize_max_request_target_bytes E" for E
  by unfold_locales (auto simp: budget_defs dest: normalize_positive_byte_count_pos)

lemmas budgets_positive = budget_addresses.positive budget_request_bytes.positive
  budget_response_bytes.positive budget_response_fields.positive
  budget_response_header_bytes.positive budget_request_fields.positive
  budget_request_header_bytes.positive budget_request_target.positive

lemma post_init_fields:
  assumes "post_init E a = Inr p"
  shows "normalized_hosts E (arg_allowed_hosts a) = Inr (allowed_hosts p)"
    and "normalized_ports E (arg_allowed_ports a) = Inr (allowed_ports p)"
    and "normalized_authorities E (arg_allowed_authorities a) (allowed_hosts p) (allowed_ports p)
         = Inr (allowed_authorities p)"
    and "normalized_methods E (arg_allowed_methods a) = Inr (allowed_methods p)"
    and "check_dns_timeout (arg_dns_timeout_seconds a) = Inr (dns_timeout_seconds p)"
    and "arg_allow_local a = VBool (allow_local p)"
    and "arg_request_timeout_policy a = Some (request_timeout_policy p)"
    and "arg_connection_pool_policy a = Some (connection_pool_policy p)"
  using assms by (auto simp: post_init_def result_simps split: pyval.splits)

lemma post_init_budgets:
  assumes "post_init E a = Inr p"
  shows "0 < max_response_bytes p \<and> 0 < max_request_bytes p \<and> 0 < max_resolved_addresses p
     \<and> 0 < max_response_header_fields p \<and> 0 < max_response_header_bytes p
     \<and> 0 < max_request_header_fields p \<and> 0 < max_request_header_bytes p
     \<and> 0 < max_request_target_bytes p"
  using assms
  by (auto simp: post_init_def result_simps intro: budgets_positive split: pyval.splits)

lemma post_init_policy_ok:
  assumes "post_init E a = Inr p"
  shows "policy_ok E p"
proof -
  note f = post_init_fields [OF assms]
  have "allowed_authorities p \<subseteq> allowed_hosts p \<times> allowed_ports p \<and> finite (allowed_authorities p)"
    using normalized_authorities_subset [OF f(3)] normalized_sets_finite(1) [OF f(1)]
      normalized_sets_finite(2) [OF f(2)] by blast
  then show ?thesis
    using f normalized_hosts_canonical normalized_ports_valid normalized_methods_canonical
      post_init_budgets [OF assms]
    unfolding policy_ok_def by blast
qed

lemma from_hosts_post_init:
  "from_hosts E a = Inr p \<Longrightarrow> \<exists>a'. post_init E a' = Inr p \<and> arg_allowed_authorities a' = VNone"
  by (auto simp: from_hosts_def result_simps)

lemma from_authorities_post_init:
  "from_authorities E a = Inr p \<Longrightarrow> \<exists>a'. post_init E a' = Inr p"
  by (auto simp: from_authorities_def result_simps Let_def)

text \<open>Normalizing the pairs that were normalized before changes nothing, so the validating
  constructor keeps exactly the pairs \<open>from_authorities\<close> was given.\<close>

lemma emap_canonical_authorities:
  assumes "idna_contract E" "\<And>h n. (h, n) \<in> set auths \<Longrightarrow> canonical_host E h \<and> valid_port n"
  shows "emap (normalize_allowed_authority E) (map authority_value auths) = Inr auths"
proof -
  have "emap (normalize_allowed_authority E) (map authority_value auths)
      = Inr (map (\<lambda>v. (case v of VTuple [VStr h, VInt n] \<Rightarrow> (h, n) | _ \<Rightarrow> ([], 0)))
               (map authority_value auths))"
    using assms(2) normalize_allowed_authority_canonical [OF assms(1)]
    by (intro emap_total) (auto simp: authority_value_def)
  also have "\<dots> = Inr auths" by (simp add: o_def authority_value_def)
  finally show ?thesis .
qed

lemma from_authorities_Inr:
  assumes "from_authorities E a = Inr p"
  shows "\<exists>items pairs methods. py_iter (arg_allowed_authorities a) = Inr items
    \<and> emap (normalize_allowed_authority E) items = Inr pairs
    \<and> post_init E (a\<lparr>arg_allowed_hosts := VSet (map VStr (remdups (map fst (remdups pairs)))),
        arg_allowed_ports := VSet (map VInt (remdups (map snd (remdups pairs)))),
        arg_allowed_methods := methods,
        arg_allowed_authorities := VSet (map authority_value (remdups pairs))\<rparr>) = Inr p"
  using assms unfolding from_authorities_def Let_def ebind_eq_Inr
  by - (elim exE conjE, intro exI conjI, assumption+)

lemma from_authorities_pairs:
  assumes "idna_contract E" "from_authorities E a = Inr p"
  obtains items pairs where "py_iter (arg_allowed_authorities a) = Inr items"
    "emap (normalize_allowed_authority E) items = Inr pairs"
    "allowed_authorities p = set pairs"
    "allowed_hosts p = fst ` set pairs" "allowed_ports p = snd ` set pairs"
proof -
  from assms(2) obtain items pairs methods where it: "py_iter (arg_allowed_authorities a) = Inr items"
    and em: "emap (normalize_allowed_authority E) items = Inr pairs"
    and init: "post_init E (a\<lparr>arg_allowed_hosts := VSet (map VStr (remdups (map fst (remdups pairs)))),
        arg_allowed_ports := VSet (map VInt (remdups (map snd (remdups pairs)))),
        arg_allowed_methods := methods,
        arg_allowed_authorities := VSet (map authority_value (remdups pairs))\<rparr>) = Inr p"
    by - (insert from_authorities_Inr [OF assms(2)], elim exE conjE, rule that)
  have "\<And>h n. (h, n) \<in> set (remdups pairs) \<Longrightarrow> canonical_host E h \<and> valid_port n"
    using emap_Inr_set [OF em] normalize_allowed_authority_Inr by fastforce
  from emap_canonical_authorities [OF assms(1) this]
  have can: "emap (normalize_allowed_authority E) (map authority_value (remdups pairs))
      = Inr (remdups pairs)" by blast
  from post_init_fields(3) [OF init]
  have "normalized_authorities E (VSet (map authority_value (remdups pairs))) (allowed_hosts p)
      (allowed_ports p) = Inr (allowed_authorities p)" by simp
  with can
  have "allowed_authorities p = set pairs \<and> fst ` set pairs = allowed_hosts p
      \<and> snd ` set pairs = allowed_ports p"
    by (auto simp: normalized_authorities_def split: if_splits)
  then show thesis by (intro that [OF it em]) simp_all
qed

section \<open>A concrete policy\<close>

text \<open>The policy the examples use: one remote host, one local development name and one
  single-label container name, each with its own port.\<close>

definition example_args :: policy_args where
  "example_args = default_policy_args\<lparr>arg_allow_local := VBool True,
     arg_allowed_authorities := VList
       [VTuple [VStr (u ''API.example.com.''), VStr (u '' 443 '')],
        VTuple [VStr (u ''localhost''), VInt 8080], VTuple [VStr (u ''db''), VInt 5432]]\<rparr>"

definition example_policy :: EgressPolicy where
  "example_policy =
     \<lparr>allowed_hosts = {u ''api.example.com'', u ''localhost'', u ''db''}, allow_local = True,
      dns_timeout_seconds = 5, allowed_ports = {443, 8080, 5432},
      allowed_methods = set (map u [''GET'', ''HEAD'', ''POST'', ''PUT'', ''PATCH'', ''DELETE'', ''OPTIONS'']),
      max_response_bytes = DEFAULT_MAX_RESPONSE_BYTES,
      allowed_authorities = {(u ''api.example.com'', 443), (u ''localhost'', 8080), (u ''db'', 5432)},
      max_request_bytes = DEFAULT_MAX_REQUEST_BYTES,
      max_resolved_addresses = DEFAULT_MAX_RESOLVED_ADDRESSES,
      request_timeout_policy = DEFAULT_EGRESS_TIMEOUT_POLICY,
      max_response_header_fields = DEFAULT_MAX_RESPONSE_HEADER_FIELDS,
      max_response_header_bytes = DEFAULT_MAX_RESPONSE_HEADER_BYTES,
      max_request_header_fields = DEFAULT_MAX_REQUEST_HEADER_FIELDS,
      max_request_header_bytes = DEFAULT_MAX_REQUEST_HEADER_BYTES,
      max_request_target_bytes = DEFAULT_MAX_REQUEST_TARGET_BYTES,
      connection_pool_policy = DEFAULT_EGRESS_CONNECTION_POOL_POLICY\<rparr>"

definition example_init_args :: policy_args where
  "example_init_args = example_args\<lparr>
     arg_allowed_hosts := VStr (u ''API.example.com., localhost ,,db''),
     arg_allowed_ports := VList [VInt 443, VStr (u ''8080''), VInt 5432]\<rparr>"

lemma example_from_authorities: "from_authorities ascii_env example_args = Inr example_policy"
  by code_simp

lemma example_post_init: "post_init ascii_env example_init_args = Inr example_policy"
  by code_simp

lemma example_policy_ok: "policy_ok ascii_env example_policy"
  by (rule post_init_policy_ok [OF example_post_init])

section \<open>Properties\<close>

text \<open>C9: whatever the arguments, a policy that its constructor accepts has only
  canonical hosts that are no IP literals, ports between 1 and 65535, method tokens other
  than CONNECT, positive budgets, and authority pairs over its hosts and ports.\<close>

theorem construction_establishes_policy_ok:
  "post_init E a = Inr p \<Longrightarrow> policy_ok E p"
  by (rule post_init_policy_ok)

lemma construction_establishes_policy_ok_witness: "policy_ok ascii_env example_policy"
  by (rule construction_establishes_policy_ok [OF example_post_init])

text \<open>A policy built from separate hosts and ports never widens to an accidental
  Cartesian product: it authorizes the pairs of its hosts and ports, and then one of the two
  sets has at most one element.\<close>

lemma from_hosts_no_cartesian_product:
  assumes "from_hosts E a = Inr p"
  shows "allowed_authorities p = allowed_hosts p \<times> allowed_ports p
    \<and> (card (allowed_hosts p) \<le> 1 \<or> card (allowed_ports p) \<le> 1)"
proof -
  from from_hosts_post_init [OF assms] obtain a'
    where "post_init E a' = Inr p" "arg_allowed_authorities a' = VNone" by blast
  with post_init_fields(3) [of E a' p] show ?thesis
    by (auto simp: normalized_authorities_def split: if_splits)
qed

lemma from_hosts_no_cartesian_product_witness:
  "case from_hosts ascii_env (default_policy_args\<lparr>arg_allowed_hosts := VStr (u ''a.example,b.example'')\<rparr>) of
     Inr p \<Rightarrow> allowed_authorities p = allowed_hosts p \<times> allowed_ports p \<and> card (allowed_hosts p) = 2
       \<and> (card (allowed_hosts p) \<le> 1 \<or> card (allowed_ports p) \<le> 1)
   | Inl _ \<Rightarrow> False"
proof -
  let ?r = "from_hosts ascii_env
    (default_policy_args\<lparr>arg_allowed_hosts := VStr (u ''a.example,b.example'')\<rparr>)"
  have c: "case ?r of Inr p \<Rightarrow> card (allowed_hosts p) = 2 | Inl _ \<Rightarrow> False" by code_simp
  then obtain p where "?r = Inr p" by (cases ?r) auto
  with from_hosts_no_cartesian_product [OF this] c show ?thesis by simp
qed

text \<open>\<open>from_authorities\<close> authorizes exactly the normalized pairs it is given, and its
  hosts and ports are their projections.\<close>

theorem from_authorities_exact:
  assumes "idna_contract E" "from_authorities E a = Inr p"
  shows "\<exists>items pairs. py_iter (arg_allowed_authorities a) = Inr items
    \<and> emap (normalize_allowed_authority E) items = Inr pairs
    \<and> allowed_authorities p = set pairs
    \<and> allowed_hosts p = fst ` set pairs \<and> allowed_ports p = snd ` set pairs"
  by (rule from_authorities_pairs [OF assms]) metis

lemma from_authorities_exact_witness:
  "\<exists>items pairs. py_iter (arg_allowed_authorities example_args) = Inr items
    \<and> emap (normalize_allowed_authority ascii_env) items = Inr pairs
    \<and> allowed_authorities example_policy = set pairs
    \<and> allowed_hosts example_policy = fst ` set pairs \<and> allowed_ports example_policy = snd ` set pairs"
  by (rule from_authorities_exact [OF ascii_env_idna_contract example_from_authorities])

text \<open>No policy, however obtained, lets a CONNECT request through, in whatever case or with
  whatever surrounding white space the method is written, and every method it allows is an
  HTTP token.\<close>

lemma connect_never_allowed:
  assumes "allows_http_method E p (VStr m)"
  shows "py_upper E (py_strip E m) \<noteq> u ''CONNECT'' \<and> py_upper E (py_strip E m) \<in> allowed_methods p
    \<and> list_all is_token_c (py_upper E (py_strip E m))"
  using assms
  by (auto simp: allows_http_method_def normalize_allowed_method_def Let_def list_ex_iff list_all_iff
      split: if_splits sum.splits)

lemma connect_never_allowed_witness:
  "py_upper ascii_env (py_strip ascii_env (u '' post'')) \<noteq> u ''CONNECT''
   \<and> py_upper ascii_env (py_strip ascii_env (u '' post'')) \<in> allowed_methods example_policy
   \<and> list_all is_token_c (py_upper ascii_env (py_strip ascii_env (u '' post'')))"
  by (rule connect_never_allowed) code_simp

text \<open>A host of the policy is authorized at exactly the ports it is paired with: the
  query on a canonical pair is membership in the pairs, and a boolean is never a port.\<close>

lemma allows_authority_exact:
  assumes "idna_contract E" "post_init E a = Inr p" "h \<in> allowed_hosts p"
  shows "(allows_authority E p (VStr h) (VInt n) \<longleftrightarrow> (h, n) \<in> allowed_authorities p)
    \<and> \<not> allows_authority E p (VStr h) (VBool b)"
proof -
  from post_init_policy_ok [OF assms(2)] assms(3) obtain s where "canonicalize_host E s = Inr h"
    by (auto simp: policy_ok_def canonical_host_def)
  then have "normalize_host E h = h"
    using canonicalize_host_idem [OF assms(1)] by (simp add: normalize_host_canonical)
  then show ?thesis by (simp add: allows_authority_def)
qed

lemma allows_authority_exact_witness:
  "allows_authority ascii_env example_policy (VStr (u ''db'')) (VInt 5432)
   \<and> \<not> allows_authority ascii_env example_policy (VStr (u ''db'')) (VInt 443)
   \<and> \<not> allows_authority ascii_env example_policy (VStr (u ''db'')) (VBool True)"
proof -
  have db: "u ''db'' \<in> allowed_hosts example_policy" by (simp add: example_policy_def)
  note ex = allows_authority_exact [OF ascii_env_idna_contract example_post_init db]
  have "(u ''db'', 5432) \<in> allowed_authorities example_policy"
    "(u ''db'', 443) \<notin> allowed_authorities example_policy"
    by code_simp+
  with ex show ?thesis by blast
qed

text \<open>A positive \<open>Real\<close> too small for a float passes the test on the original value and is
  stored as zero.\<close>

lemma tiny_dns_timeout_stored_as_zero:
  "check_dns_timeout (VReal (Some (FFin 0)) False) = Inr 0"
  by (simp add: check_dns_timeout_def Let_def)

end
