(* ===== verification/Url_Split.thy ===== *)
theory Url_Split
  imports Ip_Address
begin

text \<open>
  The part of the standard library module \<open>urllib.parse\<close> that the code calls: \<open>urlsplit\<close>,
  the derived attributes of its result and \<open>urlunsplit\<close>, as CPython 3.11 has them.
\<close>

record split_result =
  us_scheme :: ustr
  us_netloc :: ustr
  us_path :: ustr
  us_query :: ustr
  us_fragment :: ustr

definition is_alpha_c :: "int \<Rightarrow> bool" where
  "is_alpha_c c \<longleftrightarrow> (65 \<le> c \<and> c \<le> 90) \<or> (97 \<le> c \<and> c \<le> 122)"

definition is_scheme_c :: "int \<Rightarrow> bool" where
  "is_scheme_c c \<longleftrightarrow> is_alpha_c c \<or> is_dec_c c \<or> c = 43 \<or> c = 45 \<or> c = 46"

definition is_netloc_end :: "int \<Rightarrow> bool" where
  "is_netloc_end c \<longleftrightarrow> c = 47 \<or> c = 63 \<or> c = 35"

definition url_error :: exn where
  "url_error = ValueError ''invalid URL''"

definition split_scheme :: "ustr \<Rightarrow> ustr \<times> ustr" where
  "split_scheme url =
     (case py_partition 58 url of (pre, found, rest) \<Rightarrow>
        if found \<and> pre \<noteq> [] \<and> is_alpha_c (hd pre) \<and> list_all is_scheme_c pre
        then (map lower_c pre, rest) else ([], url))"

definition is_ipvfuture :: "ustr \<Rightarrow> bool" where
  "is_ipvfuture h =
     (case py_partition 46 (drop 1 h) of (hex, found, rest) \<Rightarrow>
        found \<and> hex \<noteq> [] \<and> list_all is_hex_c hex \<and> rest \<noteq> [])"

definition check_bracketed_host :: "ustr \<Rightarrow> unit res" where
  "check_bracketed_host h =
     (if starts_with (u ''v'') h then ensure (is_ipvfuture h) url_error
      else (case ip_of_text h of
              Some (IPv6 _ _) \<Rightarrow> Inr ()
            | _ \<Rightarrow> Inl url_error))"

definition check_brackets :: "ustr \<Rightarrow> unit res" where
  "check_brackets netloc =
     (if (91 \<in> set netloc) \<noteq> (93 \<in> set netloc) then Inl url_error
      else if 91 \<in> set netloc
      then check_bracketed_host (fst (py_partition 93 (snd (snd (py_partition 91 netloc)))))
      else Inr ())"

definition check_netloc :: "pyenv \<Rightarrow> ustr \<Rightarrow> unit res" where
  "check_netloc E netloc =
     (if py_isascii netloc then Inr ()
      else let n = filter (\<lambda>c. c \<notin> {64, 58, 35, 63}) netloc; n2 = uni_nfkc E n in
        ensure (n = n2 \<or> list_all (\<lambda>c. c \<notin> {47, 63, 35, 64, 58}) n2) url_error)"

definition urlsplit :: "pyenv \<Rightarrow> ustr \<Rightarrow> split_result res" where
  "urlsplit E url0 =
     (let url1 = filter (\<lambda>c. c \<notin> {9, 13, 10}) (dropWhile (\<lambda>c. 0 \<le> c \<and> c \<le> 32) url0);
          (scheme, url2) = split_scheme url1;
          has_netloc = starts_with [47, 47] url2;
          netloc = (if has_netloc then takeWhile (\<lambda>c. \<not> is_netloc_end c) (drop 2 url2) else []);
          url3 = (if has_netloc then dropWhile (\<lambda>c. \<not> is_netloc_end c) (drop 2 url2) else url2);
          (url4, _, fragment) = py_partition 35 url3;
          (path, _, query) = py_partition 63 url4
      in ebind (if has_netloc then check_brackets netloc else Inr ()) (\<lambda>_.
         ebind (check_netloc E netloc) (\<lambda>_.
         Inr \<lparr>us_scheme = scheme, us_netloc = netloc, us_path = path,
              us_query = query, us_fragment = fragment\<rparr>)))"

definition us_userinfo :: "split_result \<Rightarrow> ustr option \<times> ustr option" where
  "us_userinfo r =
     (case py_rpartition 64 (us_netloc r) of (userinfo, have_info, _) \<Rightarrow>
        if have_info then
          (case py_partition 58 userinfo of (username, have_password, password) \<Rightarrow>
             (Some username, if have_password then Some password else None))
        else (None, None))"

definition us_username :: "split_result \<Rightarrow> ustr option" where
  "us_username r = fst (us_userinfo r)"

definition us_password :: "split_result \<Rightarrow> ustr option" where
  "us_password r = snd (us_userinfo r)"

definition us_hostinfo :: "split_result \<Rightarrow> ustr \<times> ustr option" where
  "us_hostinfo r =
     (let hostinfo = snd (snd (py_rpartition 64 (us_netloc r)));
          (_, open_br, bracketed) = py_partition 91 hostinfo;
          (hostname, port) =
            (if open_br then
               (case py_partition 93 bracketed of (h, _, p) \<Rightarrow> (h, snd (snd (py_partition 58 p))))
             else (case py_partition 58 hostinfo of (h, _, p) \<Rightarrow> (h, p)))
      in (hostname, if port = [] then None else Some port))"

definition us_hostname :: "pyenv \<Rightarrow> split_result \<Rightarrow> ustr option" where
  "us_hostname E r =
     (let h = fst (us_hostinfo r) in
      if h = [] then None
      else (case py_partition 37 h of (name, percent, zone) \<Rightarrow>
              Some (py_lower E name @ (if percent then 37 # zone else []))))"

definition us_port :: "pyenv \<Rightarrow> split_result \<Rightarrow> int option res" where
  "us_port E r =
     (case snd (us_hostinfo r) of
        None \<Rightarrow> Inr None
      | Some p \<Rightarrow>
          if py_isdigit E p \<and> py_isascii p
          then ebind (py_int_dec p) (\<lambda>n. if n \<le> 65535 then Inr (Some n) else Inl url_error)
          else Inl url_error)"

definition uses_netloc :: "ustr set" where
  "uses_netloc = set (map u
     [''ftp'', ''http'', ''gopher'', ''nntp'', ''telnet'', ''imap'', ''wais'', ''file'', ''mms'',
      ''https'', ''shttp'', ''snews'', ''prospero'', ''rtsp'', ''rtsps'', ''rtspu'', ''rsync'',
      ''svn'', ''svn+ssh'', ''sftp'', ''nfs'', ''git'', ''git+ssh'', ''ws'', ''wss''])"

definition urlunsplit :: "ustr \<Rightarrow> ustr \<Rightarrow> ustr \<Rightarrow> ustr \<Rightarrow> ustr \<Rightarrow> ustr" where
  "urlunsplit scheme netloc path query fragment =
     (let url1 =
            (if netloc \<noteq> [] \<or> (scheme \<noteq> [] \<and> scheme \<in> uses_netloc) \<or> starts_with [47, 47] path
             then [47, 47] @ netloc @ (if path \<noteq> [] \<and> hd path \<noteq> 47 then 47 # path else path)
             else path);
          url2 = (if scheme \<noteq> [] then scheme @ 58 # url1 else url1);
          url3 = (if query \<noteq> [] then url2 @ 63 # query else url2)
      in if fragment \<noteq> [] then url3 @ 35 # fragment else url3)"

section \<open>Facts about split results\<close>

lemma us_userinfo_None_iff:
  "us_username r = None \<and> us_password r = None \<longleftrightarrow> 64 \<notin> set (us_netloc r)"
  by (auto simp: us_username_def us_password_def us_userinfo_def py_rpartition_def
      split: prod.splits)

text \<open>A netloc without \<open>@\<close> or brackets splits at its first colon.\<close>

lemma us_hostinfo_plain:
  assumes "64 \<notin> set (us_netloc r)" "91 \<notin> set (us_netloc r)"
  shows "us_hostinfo r =
    (fst (py_partition 58 (us_netloc r)),
     let p = snd (snd (py_partition 58 (us_netloc r))) in if p = [] then None else Some p)"
  using assms
  by (auto simp: us_hostinfo_def py_rpartition_no_sep py_partition_no_sep Let_def
      split: prod.splits)

lemma us_port_range:
  "us_port E r = Inr (Some n) \<Longrightarrow> 0 \<le> n \<and> n \<le> 65535"
  using dec_value_bounds
  by (auto simp: us_port_def result_simps py_int_dec_def ascii_isdigit_iff
      split: option.splits if_splits)

lemma takeWhile_append_stop:
  "(\<And>x. x \<in> set xs \<Longrightarrow> P x) \<Longrightarrow> ys = [] \<or> \<not> P (hd ys) \<Longrightarrow> takeWhile P (xs @ ys) = xs"
  by (cases ys) (auto simp: takeWhile_append)

lemma dropWhile_append_stop:
  "(\<And>x. x \<in> set xs \<Longrightarrow> P x) \<Longrightarrow> ys = [] \<or> \<not> P (hd ys) \<Longrightarrow> dropWhile P (xs @ ys) = ys"
  by (cases ys) (auto simp: dropWhile_append)

text \<open>\<open>urlsplit\<close> inverts \<open>urlunsplit\<close> on a clean \<open>scheme://netloc/path\<close>.\<close>

lemma urlsplit_urlunsplit:
  assumes scheme: "scheme \<noteq> []" "is_alpha_c (hd scheme)" "list_all is_scheme_c scheme"
      "map lower_c scheme = scheme"
    and netloc: "netloc \<noteq> []" "py_isascii netloc" "\<forall>c \<in> set netloc. \<not> is_netloc_end c"
      "91 \<notin> set netloc" "93 \<notin> set netloc"
    and path: "path = [] \<or> hd path = 47" "35 \<notin> set path" "63 \<notin> set path"
    and ctl: "\<forall>c \<in> set netloc \<union> set path. c \<notin> {9, 13, 10}"
  shows "urlsplit E (urlunsplit scheme netloc path [] []) =
    Inr \<lparr>us_scheme = scheme, us_netloc = netloc, us_path = path, us_query = [], us_fragment = []\<rparr>"
proof -
  let ?url = "scheme @ 58 # 47 # 47 # netloc @ path"
  have unsplit: "urlunsplit scheme netloc path [] [] = ?url"
    using scheme(1) netloc(1) path(1) by (auto simp: urlunsplit_def Let_def)
  obtain c cs where sc: "scheme = c # cs" using scheme(1) by (cases scheme) auto
  have "dropWhile (\<lambda>c. 0 \<le> c \<and> c \<le> 32) ?url = ?url"
    using scheme(2) sc by (auto simp: is_alpha_c_def)
  moreover have "filter (\<lambda>c. c \<notin> {9, 13, 10}) ?url = ?url"
  proof -
    have "c \<notin> {9, 13, 10}" if "c \<in> set scheme" for c
      using that scheme(3)
      by (auto simp: list_all_iff is_scheme_c_def is_alpha_c_def is_dec_c_def)
    with ctl show ?thesis by (auto intro!: filter_True)
  qed
  moreover have "split_scheme ?url = (scheme, 47 # 47 # netloc @ path)"
  proof -
    have "58 \<notin> set scheme"
      using scheme(3) by (auto simp: list_all_iff is_scheme_c_def is_alpha_c_def is_dec_c_def)
    then show ?thesis
      using scheme by (simp add: split_scheme_def py_partition_sep)
  qed
  moreover have stop: "path = [] \<or> is_netloc_end (hd path)"
    using path(1) by (auto simp: is_netloc_end_def)
  have "takeWhile (\<lambda>c. \<not> is_netloc_end c) (netloc @ path) = netloc"
    using netloc(3) stop by (intro takeWhile_append_stop) auto
  moreover have "dropWhile (\<lambda>c. \<not> is_netloc_end c) (netloc @ path) = path"
    using netloc(3) stop by (intro dropWhile_append_stop) auto
  moreover have "check_brackets netloc = Inr ()" "check_netloc E netloc = Inr ()"
    using netloc by (simp_all add: check_brackets_def check_netloc_def)
  ultimately show ?thesis
    using path by (simp add: unsplit urlsplit_def Let_def starts_with_def py_partition_no_sep)
qed

text \<open>What a successful split guarantees about its parts.\<close>

lemma split_scheme_facts:
  assumes "split_scheme url = (scheme, rest)"
  shows "set rest \<subseteq> set url" "map lower_c scheme = scheme" "list_all is_scheme_c scheme"
    "scheme \<noteq> [] \<Longrightarrow> is_alpha_c (hd scheme)"
proof -
  have sc: "is_scheme_c (lower_c c) = is_scheme_c c" for c
    by (auto simp: is_scheme_c_def is_alpha_c_def is_dec_c_def lower_c_def)
  have al: "is_alpha_c (lower_c c) = is_alpha_c c" for c
    by (auto simp: is_alpha_c_def lower_c_def)
  show "set rest \<subseteq> set url"
    using assms by (auto simp: split_scheme_def py_partition_def split: if_splits
        dest!: in_set_dropD set_dropWhileD)
  show "map lower_c scheme = scheme" "list_all is_scheme_c scheme"
    using assms
    by (auto simp: split_scheme_def py_partition_def list_all_iff sc split: if_splits)
  show "scheme \<noteq> [] \<Longrightarrow> is_alpha_c (hd scheme)"
    using assms
    by (auto simp: split_scheme_def py_partition_def al hd_map split: if_splits)
qed

lemma partition_facts:
  assumes "py_partition c s = (pre, found, post)"
  shows "set pre \<subseteq> set s" "c \<notin> set pre" "set post \<subseteq> set s" "pre = [] \<or> hd pre = hd s"
    "pre = [] \<longrightarrow> s = [] \<or> hd s = c"
proof -
  from assms have pre: "pre = takeWhile (\<lambda>x. x \<noteq> c) s"
    and post: "post = drop 1 (dropWhile (\<lambda>x. x \<noteq> c) s)"
    by (auto simp: py_partition_def)
  show "set pre \<subseteq> set s" "c \<notin> set pre" by (auto simp: pre dest: set_takeWhileD)
  show "set post \<subseteq> set s" unfolding post by (meson in_set_dropD set_dropWhileD subsetI)
  show "pre = [] \<or> hd pre = hd s" "pre = [] \<longrightarrow> s = [] \<or> hd s = c"
    by (cases s; auto simp: pre)+
qed

lemma urlsplit_Inr:
  assumes "urlsplit E url = Inr r"
  shows "set (us_path r) \<subseteq> set url" "35 \<notin> set (us_path r)" "63 \<notin> set (us_path r)"
    "us_netloc r \<noteq> [] \<Longrightarrow> us_path r = [] \<or> hd (us_path r) = 47"
    "map lower_c (us_scheme r) = us_scheme r" "list_all is_scheme_c (us_scheme r)"
    "us_scheme r \<noteq> [] \<Longrightarrow> is_alpha_c (hd (us_scheme r))"
proof -
  define url1 where "url1 = filter (\<lambda>c. c \<notin> {9, 13, 10}) (dropWhile (\<lambda>c. 0 \<le> c \<and> c \<le> 32) url)"
  obtain scheme url2 where sch: "split_scheme url1 = (scheme, url2)" by fastforce
  define url3 where "url3 = (if starts_with [47, 47] url2
    then dropWhile (\<lambda>c. \<not> is_netloc_end c) (drop 2 url2) else url2)"
  obtain url4 b1 frag where p1: "py_partition 35 url3 = (url4, b1, frag)" by (metis prod_cases3)
  obtain path b2 query where p2: "py_partition 63 url4 = (path, b2, query)" by (metis prod_cases3)
  from assms have r: "us_scheme r = scheme" "us_path r = path"
    and net: "us_netloc r = (if starts_with [47, 47] url2
      then takeWhile (\<lambda>c. \<not> is_netloc_end c) (drop 2 url2) else [])"
    unfolding urlsplit_def Let_def url1_def [symmetric] sch prod.case url3_def [symmetric] p1 p2
    by (auto simp: result_simps split: if_splits)
  have "set url3 \<subseteq> set url2"
    unfolding url3_def by (auto dest!: set_dropWhileD in_set_dropD)
  moreover have "set url1 \<subseteq> set url" unfolding url1_def by (auto dest: set_dropWhileD)
  ultimately have "set url3 \<subseteq> set url" using split_scheme_facts(1) [OF sch] by blast
  then show "set (us_path r) \<subseteq> set url"
    using partition_facts(1) [OF p1] partition_facts(1) [OF p2] unfolding r by blast
  show "35 \<notin> set (us_path r)" "63 \<notin> set (us_path r)"
    using partition_facts [OF p1] partition_facts [OF p2] unfolding r by blast+
  show "us_netloc r \<noteq> [] \<Longrightarrow> us_path r = [] \<or> hd (us_path r) = 47"
  proof -
    assume "us_netloc r \<noteq> []"
    with net have sw: "starts_with [47, 47] url2" by (auto split: if_splits)
    have "url3 = [] \<or> is_netloc_end (hd url3)"
      using sw hd_dropWhile [of "\<lambda>c. \<not> is_netloc_end c" "drop 2 url2"] by (auto simp: url3_def)
    moreover have "path = [] \<or> hd path = hd url3"
      using partition_facts(4) [OF p1] partition_facts(1,4) [OF p2] by (cases "url4 = []") auto
    moreover have "path \<noteq> [] \<Longrightarrow> hd path \<noteq> 35 \<and> hd path \<noteq> 63"
      using \<open>35 \<notin> set (us_path r)\<close> \<open>63 \<notin> set (us_path r)\<close> unfolding r by (metis hd_in_set)
    moreover have "path \<noteq> [] \<Longrightarrow> url3 \<noteq> []"
      using partition_facts(1) [OF p1] partition_facts(1) [OF p2] by auto
    ultimately show ?thesis unfolding r is_netloc_end_def by metis
  qed
  show "map lower_c (us_scheme r) = us_scheme r" "list_all is_scheme_c (us_scheme r)"
    "us_scheme r \<noteq> [] \<Longrightarrow> is_alpha_c (hd (us_scheme r))"
    using split_scheme_facts [OF sch] unfolding r by blast+
qed

lemma check_brackets_error: "check_brackets netloc = Inl e \<Longrightarrow> is_ValueError e"
  by (auto simp: check_brackets_def check_bracketed_host_def url_error_def ensure_def
      split: if_splits option.splits ip_addr.splits)

lemma urlsplit_error: "urlsplit E url = Inl e \<Longrightarrow> is_ValueError e"
  using check_brackets_error
  by (auto simp: urlsplit_def Let_def result_simps check_netloc_def url_error_def
      split: prod.splits if_splits)

lemma us_port_error: "us_port E r = Inl e \<Longrightarrow> is_ValueError e"
  by (auto simp: us_port_def result_simps py_int_dec_def int_limit_error_def url_error_def
      split: option.splits if_splits)

end
