(* ===== verification/Egress_Validation.thy ===== *)
theory Egress_Validation
  imports Egress_Policy Url_Split
begin

text \<open>
  Model of \<open>src/egressweave/validation.py\<close> apart from the resolver threads, which are in
  \<open>Dns_Resolver\<close>: the signed result type, the classification of host names and
  addresses, the parsing and policy check of a candidate URL and the re-validation of a
  result a caller hands back. The names DNS returned for a host are an argument.
\<close>

section \<open>The validation result and its signature\<close>

record ValidatedEgressURL =
  vu_normalized_url :: ustr
  vu_hostname :: ustr
  vu_port :: int
  vu_addresses :: "ustr list"
  vu_integrity_signature :: bytes

text \<open>What a caller may hand back: an object of another type, or an instance of
  \<open>ValidatedEgressURL\<close> whose attributes hold any value or (None) were never set.\<close>

record candidate_fields =
  cf_signature :: "pyval option"
  cf_normalized_url :: "pyval option"
  cf_hostname :: "pyval option"
  cf_port :: "pyval option"
  cf_addresses :: "pyval option"

datatype candidate = OtherObject pyval | ResultObject candidate_fields

definition AttributeError :: exn where
  "AttributeError = OtherException 1"

definition validated_egress_url_signature ::
  "pyenv \<Rightarrow> pyval \<Rightarrow> pyval \<Rightarrow> pyval \<Rightarrow> pyval list \<Rightarrow> bytes" where
  "validated_egress_url_signature E normalized_url hostname port addresses =
     hmac_digest E (repr_utf8 E (VTuple [normalized_url, hostname, port, VTuple addresses]))"

text \<open>\<open>ValidatedEgressURL.__init__\<close>: direct construction always raises.\<close>

definition ValidatedEgressURL_init ::
  "pyval \<Rightarrow> pyval \<Rightarrow> pyval \<Rightarrow> pyval \<Rightarrow> ValidatedEgressURL res" where
  "ValidatedEgressURL_init normalized_url hostname port addresses =
     Inl (TypeError ''ValidatedEgressURL objects must come from a validation function'')"

definition make_validated_egress_url ::
  "pyenv \<Rightarrow> ustr \<Rightarrow> ustr \<Rightarrow> int \<Rightarrow> ustr list \<Rightarrow> ValidatedEgressURL" where
  "make_validated_egress_url E normalized_url hostname port addresses =
     \<lparr>vu_normalized_url = normalized_url, vu_hostname = hostname, vu_port = port,
      vu_addresses = addresses,
      vu_integrity_signature =
        validated_egress_url_signature E (VStr normalized_url) (VStr hostname) (VInt port)
          (map VStr addresses)\<rparr>"

definition as_candidate :: "ValidatedEgressURL \<Rightarrow> candidate" where
  "as_candidate v =
     ResultObject \<lparr>cf_signature = Some (VBytes (vu_integrity_signature v)),
       cf_normalized_url = Some (VStr (vu_normalized_url v)),
       cf_hostname = Some (VStr (vu_hostname v)), cf_port = Some (VInt (vu_port v)),
       cf_addresses = Some (VTuple (map VStr (vu_addresses v)))\<rparr>"

section \<open>Host names\<close>

definition has_url_control_character :: "ustr \<Rightarrow> bool" where
  "has_url_control_character s = list_ex (\<lambda>c. c < 32 \<or> c = 127) s"

definition is_ip_literal :: "ustr \<Rightarrow> bool" where
  "is_ip_literal s \<longleftrightarrow> ip_of_text s \<noteq> None"

definition looks_like_ip_literal :: "pyenv \<Rightarrow> ustr \<Rightarrow> bool" where
  "looks_like_ip_literal E s =
     (let compact_candidate = py_lower E (py_remove 46 s) in
      58 \<in> set s \<or> py_isdigit E compact_candidate \<or> starts_with (u ''0x'') compact_candidate)"

definition LOCAL_DEV_HOSTNAMES :: "ustr list" where
  "LOCAL_DEV_HOSTNAMES = [u ''localhost'', u ''localhost.localdomain'']"

definition is_local_dev_host :: "pyenv \<Rightarrow> ustr \<Rightarrow> bool" where
  "is_local_dev_host E hostname \<longleftrightarrow> normalize_host E hostname \<in> set LOCAL_DEV_HOSTNAMES"

definition validation_is_allowlisted_local_host :: "pyenv \<Rightarrow> ustr \<Rightarrow> EgressPolicy \<Rightarrow> bool" where
  "validation_is_allowlisted_local_host E hostname p =
     (let normalized_hostname = normalize_host E hostname in
      is_allowlisted_local_host E p hostname
      \<and> \<not> is_ip_literal normalized_hostname
      \<and> \<not> looks_like_ip_literal E normalized_hostname)"

section \<open>Addresses\<close>

definition PRIVATE_LOCAL_NETWORKS :: "ip_net list" where
  "PRIVATE_LOCAL_NETWORKS =
     [Net4 0x0A000000 8, Net4 0xAC100000 12, Net4 0xC0A80000 16,
      Net6 0xFC000000000000000000000000000000 7]"

definition is_private_local_address :: "ip_addr \<Rightarrow> bool" where
  "is_private_local_address a = list_ex (ip_in a) PRIVATE_LOCAL_NETWORKS"

definition format_normalized_netloc :: "ustr \<Rightarrow> int \<Rightarrow> bool \<Rightarrow> ustr" where
  "format_normalized_netloc hostname port explicit_port =
     (let host_part = (if 58 \<in> set hostname then [91] @ hostname @ [93] else hostname) in
      if \<not> explicit_port then host_part else host_part @ [58] @ dec_digits port)"

definition validate_global_address ::
  "pyenv \<Rightarrow> ustr \<Rightarrow> EgressPolicy \<Rightarrow> ustr option \<Rightarrow> ustr res" where
  "validate_global_address E address p hostname =
     (case ip_of_text address of
        None \<Rightarrow> Inl EgressNotAllowedError
      | Some a \<Rightarrow>
          (let h = (case hostname of None \<Rightarrow> [] | Some h \<Rightarrow> h) in
           if h \<noteq> [] \<and> is_local_dev_host E h then
             (if \<not> allow_local p \<or> \<not> is_loopback a then Inl EgressNotAllowedError
              else Inr (text_of_ip a))
           else if h \<noteq> [] \<and> validation_is_allowlisted_local_host E h p then
             (if \<not> (is_loopback a \<or> is_private_local_address a) then Inl EgressNotAllowedError
              else Inr (text_of_ip a))
           else if is_private a \<or> is_loopback a \<or> is_link_local a \<or> is_reserved a
                   \<or> is_unspecified a \<or> is_multicast a \<or> \<not> is_global a
           then Inl EgressNotAllowedError
           else Inr (text_of_ip a)))"

fun bounded_unique_loop ::
  "pyenv \<Rightarrow> EgressPolicy \<Rightarrow> ustr \<Rightarrow> ustr list \<Rightarrow> ustr list \<Rightarrow> ustr list res" where
  "bounded_unique_loop E p hostname validated [] = Inr validated"
| "bounded_unique_loop E p hostname validated (candidate # rest) =
     ebind (validate_global_address E candidate p (Some hostname)) (\<lambda>address.
       if address \<in> set validated then bounded_unique_loop E p hostname validated rest
       else if int (length validated) \<ge> max_resolved_addresses p then Inl EgressNotAllowedError
       else bounded_unique_loop E p hostname (validated @ [address]) rest)"

definition validate_bounded_unique_addresses ::
  "pyenv \<Rightarrow> ustr list \<Rightarrow> EgressPolicy \<Rightarrow> ustr \<Rightarrow> ustr list res" where
  "validate_bounded_unique_addresses E addresses p hostname =
     bounded_unique_loop E p hostname [] addresses"

section \<open>Candidate URLs\<close>

definition masked :: "'a res \<Rightarrow> 'a res" where   \<comment> \<open>\<open>except ValueError\<close> raising the generic error\<close>
  "masked r = (case r of
      Inl e \<Rightarrow> Inl (if is_ValueError e then EgressNotAllowedError else e) | Inr x \<Rightarrow> Inr x)"

definition parse_and_validate_candidate_url ::
  "pyenv \<Rightarrow> ustr option \<Rightarrow> (split_result \<times> int) option res" where
  "parse_and_validate_candidate_url E value =
     (case value of
        None \<Rightarrow> Inr None
      | Some v \<Rightarrow>
          (let candidate = py_strip E v in
           if candidate = [] then Inr None
           else if 92 \<in> set candidate \<or> has_url_control_character candidate
           then Inl EgressNotAllowedError
           else masked
             (ebind (urlsplit E candidate) (\<lambda>parsed.
              let default_port = (if py_lower E (us_scheme parsed) = u ''https'' then 443 else 80) in
              ebind (us_port E parsed) (\<lambda>parsed_port.
              Inr (Some (parsed, case parsed_port of Some n \<Rightarrow> n | None \<Rightarrow> default_port)))))))"

definition validate_url_components ::
  "pyenv \<Rightarrow> split_result \<Rightarrow> ustr \<Rightarrow> bool \<Rightarrow> EgressPolicy \<Rightarrow> unit res" where
  "validate_url_components E parsed hostname local_dev p =
     (let scheme = py_lower E (us_scheme parsed) in
      if scheme \<noteq> u ''http'' \<and> scheme \<noteq> u ''https'' then Inl EgressNotAllowedError
      else if local_dev \<and> \<not> allow_local p then Inl EgressNotAllowedError
      else if scheme = u ''http'' \<and> \<not> local_dev
              \<and> \<not> validation_is_allowlisted_local_host E hostname p
      then Inl EgressNotAllowedError
      else if hostname = [] \<or> us_username parsed \<noteq> None \<or> us_password parsed \<noteq> None
              \<or> us_query parsed \<noteq> [] \<or> us_fragment parsed \<noteq> []
      then Inl EgressNotAllowedError
      else Inr ())"

definition validate_remote_authority_is_allowed ::
  "pyenv \<Rightarrow> ustr \<Rightarrow> int \<Rightarrow> EgressPolicy \<Rightarrow> unit res" where
  "validate_remote_authority_is_allowed E hostname port p =
     (if allowed_authorities p = {} \<or> \<not> allows_authority E p (VStr hostname) (VInt port)
      then Inl EgressNotAllowedError
      else if is_ip_literal hostname \<or> looks_like_ip_literal E hostname
      then Inl EgressNotAllowedError
      else Inr ())"

definition normalize_egress_url ::
  "pyenv \<Rightarrow> ustr option \<Rightarrow> EgressPolicy \<Rightarrow> (ustr \<times> ustr \<times> int) option res" where
  "normalize_egress_url E value p =
     ebind (parse_and_validate_candidate_url E value) (\<lambda>r.
     case r of
       None \<Rightarrow> Inr None
     | Some (parsed, port) \<Rightarrow>
         (let hostname = normalize_host E (case us_hostname E parsed of None \<Rightarrow> [] | Some h \<Rightarrow> h);
              local_dev = is_local_dev_host E hostname in
          ebind (validate_url_components E parsed hostname local_dev p) (\<lambda>_.
          ebind (validate_remote_authority_is_allowed E hostname port p) (\<lambda>_.
          let netloc = format_normalized_netloc hostname port (us_port E parsed \<noteq> Inr None) in
          Inr (Some (urlunsplit (py_lower E (us_scheme parsed)) netloc (us_path parsed) [] [],
                     hostname, port))))))"

section \<open>Re-validation of a handed-back result\<close>

definition get_attribute :: "pyval option \<Rightarrow> pyval res" where
  "get_attribute v = of_option AttributeError v"

definition is_proper_int :: "pyval \<Rightarrow> bool" where
  "is_proper_int v \<longleftrightarrow> as_int v \<noteq> None \<and> \<not> is_bool v"

text \<open>The type checks in the order of the condition. The attributes are read one by one, so a
  missing one raises where the condition reaches it.\<close>

definition checked_fields ::
  "candidate_fields \<Rightarrow> (bytes \<times> pyval \<times> ustr \<times> pyval \<times> ustr \<times> pyval \<times> int \<times> pyval list \<times> ustr list) res"
where
  "checked_fields c =
     ebind (of_option EgressNotAllowedError
              (case cf_signature c of None \<Rightarrow> None | Some v \<Rightarrow> as_bytes v)) (\<lambda>signature.
     ebind (get_attribute (cf_normalized_url c)) (\<lambda>url_value.
     ebind (of_option EgressNotAllowedError (as_str url_value)) (\<lambda>url.
     ebind (get_attribute (cf_hostname c)) (\<lambda>host_value.
     ebind (of_option EgressNotAllowedError (as_str host_value)) (\<lambda>host.
     ebind (get_attribute (cf_port c)) (\<lambda>port_value.
     ebind (ensure (is_proper_int port_value) EgressNotAllowedError) (\<lambda>_.
     ebind (of_option EgressNotAllowedError (as_int port_value)) (\<lambda>port.
     ebind (get_attribute (cf_addresses c)) (\<lambda>addresses_value.
     ebind (of_option EgressNotAllowedError (as_tuple addresses_value)) (\<lambda>address_values.
     ebind (ensure (address_values \<noteq> []) EgressNotAllowedError) (\<lambda>_.
     ebind (emap (\<lambda>a. of_option EgressNotAllowedError (as_str a)) address_values) (\<lambda>addresses.
     Inr (signature, url_value, url, host_value, host, port_value, port,
          address_values, addresses)))))))))))))"

definition revalidate_pinned_egress_url ::
  "pyenv \<Rightarrow> candidate \<Rightarrow> EgressPolicy \<Rightarrow> ValidatedEgressURL res" where
  "revalidate_pinned_egress_url E validated p =
     (case validated of
        OtherObject _ \<Rightarrow> Inl EgressNotAllowedError
      | ResultObject c \<Rightarrow>
          ebind (checked_fields c)
            (\<lambda>(signature, url_value, url, host_value, host, port_value, port, address_values, addresses).
          let expected = validated_egress_url_signature E url_value host_value port_value address_values in
          if signature \<noteq> expected then Inl EgressNotAllowedError
          else ebind (normalize_egress_url E (Some url) p) (\<lambda>r.
            case r of
              None \<Rightarrow> Inl EgressNotAllowedError
            | Some (normalized_url, hostname, effective_port) \<Rightarrow>
                if normalized_url \<noteq> url \<or> hostname \<noteq> host \<or> effective_port \<noteq> port
                then Inl EgressNotAllowedError
                else ebind (validate_bounded_unique_addresses E addresses p hostname) (\<lambda>addrs.
                  Inr (make_validated_egress_url E normalized_url hostname effective_port addrs)))))"

section \<open>Facts about address validation\<close>

definition remote_host :: "pyenv \<Rightarrow> EgressPolicy \<Rightarrow> ustr \<Rightarrow> bool" where
  "remote_host E p h \<longleftrightarrow> \<not> is_local_dev_host E h \<and> \<not> validation_is_allowlisted_local_host E h p"

text \<open>The verdict on a parsed address, by the kind of host it was resolved for.\<close>

definition acceptable_address :: "pyenv \<Rightarrow> EgressPolicy \<Rightarrow> ustr \<Rightarrow> ip_addr \<Rightarrow> bool" where
  "acceptable_address E p h a =
     (if h \<noteq> [] \<and> is_local_dev_host E h then allow_local p \<and> is_loopback a
      else if h \<noteq> [] \<and> validation_is_allowlisted_local_host E h p
      then is_loopback a \<or> is_private_local_address a
      else \<not> is_private a \<and> \<not> is_loopback a \<and> \<not> is_link_local a \<and> \<not> is_reserved a
           \<and> \<not> is_unspecified a \<and> \<not> is_multicast a \<and> is_global a)"

lemma validate_global_address_eq:
  "validate_global_address E s p (Some h) =
     (case ip_of_text s of
        Some a \<Rightarrow> if acceptable_address E p h a then Inr (text_of_ip a) else Inl EgressNotAllowedError
      | None \<Rightarrow> Inl EgressNotAllowedError)"
  by (auto simp: validate_global_address_def acceptable_address_def Let_def split: option.splits)

lemma validate_global_address_Inr:
  "validate_global_address E s p (Some h) = Inr t \<longleftrightarrow>
     (\<exists>a. ip_of_text s = Some a \<and> acceptable_address E p h a \<and> t = text_of_ip a)"
  by (auto simp: validate_global_address_eq split: option.splits)

lemma validate_global_address_Inl:
  "validate_global_address E s p (Some h) = Inl e \<Longrightarrow> e = EgressNotAllowedError"
  by (auto simp: validate_global_address_eq split: option.splits if_splits)

lemma validate_global_address_idem:
  "validate_global_address E s p (Some h) = Inr t \<Longrightarrow> validate_global_address E t p (Some h) = Inr t"
  using ip_of_text_canonical by (auto simp: validate_global_address_Inr)

text \<open>A text that names an acceptable address canonically.\<close>

definition validated_address :: "pyenv \<Rightarrow> EgressPolicy \<Rightarrow> ustr \<Rightarrow> ustr \<Rightarrow> bool" where
  "validated_address E p h t =
     (case ip_of_text t of
        Some a \<Rightarrow> acceptable_address E p h a \<and> t = text_of_ip a
      | None \<Rightarrow> False)"

lemma validated_address_iff:
  "validated_address E p h t \<longleftrightarrow> validate_global_address E t p (Some h) = Inr t"
  by (auto simp: validated_address_def validate_global_address_Inr split: option.splits)

lemma validate_global_address_validated:
  "validate_global_address E s p (Some h) = Inr t \<Longrightarrow> validated_address E p h t"
  using validate_global_address_idem by (simp add: validated_address_iff)

text \<open>The loop is the reference computation: validate everything, keep first occurrences,
  refuse more of them than the policy permits.\<close>

definition first_occurrences :: "'a list \<Rightarrow> 'a list" where
  "first_occurrences xs = rev (remdups (rev xs))"

lemma first_occurrences_facts [simp]:
  "set (first_occurrences xs) = set xs" "distinct (first_occurrences xs)"
  "length (first_occurrences xs) = card (set xs)"
  by (simp_all add: first_occurrences_def length_remdups_card_conv)

lemma first_occurrences_distinct: "distinct xs \<Longrightarrow> first_occurrences xs = xs"
  by (simp add: first_occurrences_def distinct_remdups_id)

lemma remdups_insert_left: "x \<in> set ys \<Longrightarrow> remdups (zs @ x # ys) = remdups (zs @ ys)"
  by (induction zs) auto

lemma first_occurrences_skip:
  "x \<in> set acc \<Longrightarrow> first_occurrences (acc @ x # xs) = first_occurrences (acc @ xs)"
  by (simp add: first_occurrences_def remdups_insert_left)

lemma bounded_unique_loop_eq:
  assumes "distinct acc" "int (length acc) \<le> max_resolved_addresses p"
    "emap (\<lambda>c. validate_global_address E c p (Some h)) cs = Inr xs"
  shows "bounded_unique_loop E p h acc cs =
    (if int (card (set (acc @ xs))) \<le> max_resolved_addresses p
     then Inr (first_occurrences (acc @ xs)) else Inl EgressNotAllowedError)"
  using assms
proof (induction cs arbitrary: acc xs)
  case Nil
  then show ?case by (simp add: first_occurrences_distinct distinct_card)
next
  case (Cons c cs)
  from Cons.prems(3) obtain x ys where x: "validate_global_address E c p (Some h) = Inr x"
    and ys: "emap (\<lambda>c. validate_global_address E c p (Some h)) cs = Inr ys" and xs: "xs = x # ys"
    by (auto simp: result_simps)
  have card_acc: "card (set acc) = length acc" using Cons.prems(1) by (simp add: distinct_card)
  consider "x \<in> set acc" | "x \<notin> set acc" "int (length acc) \<ge> max_resolved_addresses p"
    | "x \<notin> set acc" "int (length acc) < max_resolved_addresses p" by linarith
  then show ?case
  proof cases
    case 1
    then have "set (acc @ xs) = set (acc @ ys)" using xs by auto
    with 1 x xs Cons.IH [OF Cons.prems(1,2) ys] show ?thesis
      by (simp add: first_occurrences_skip)
  next
    case 2
    have "card (set (acc @ [x])) \<le> card (set (acc @ xs))" using xs by (intro card_mono) auto
    with 2 card_acc have "\<not> int (card (set (acc @ xs))) \<le> max_resolved_addresses p" by simp
    with 2 x show ?thesis by simp
  next
    case 3
    with Cons.IH [of "acc @ [x]" ys] Cons.prems(1) ys x xs show ?thesis by simp
  qed
qed

lemma bounded_unique_loop_rejects:
  assumes "\<exists>c \<in> set cs. \<exists>e. validate_global_address E c p (Some h) = Inl e"
  shows "bounded_unique_loop E p h acc cs = Inl EgressNotAllowedError"
  using assms
proof (induction cs arbitrary: acc)
  case Nil
  then show ?case by simp
next
  case (Cons c cs)
  then show ?case
    by (cases "validate_global_address E c p (Some h)") (auto dest: validate_global_address_Inl)
qed

lemma emap_Inl_ex: "emap f xs = Inl e \<Longrightarrow> \<exists>x \<in> set xs. f x = Inl e"
  by (induction xs) (auto simp: result_simps)

lemma bounded_unique_reference:
  assumes "0 < max_resolved_addresses p"
  shows "validate_bounded_unique_addresses E cs p h =
    (case emap (\<lambda>c. validate_global_address E c p (Some h)) cs of
       Inl _ \<Rightarrow> Inl EgressNotAllowedError
     | Inr xs \<Rightarrow> if int (card (set xs)) \<le> max_resolved_addresses p
                then Inr (first_occurrences xs) else Inl EgressNotAllowedError)"
proof (cases "emap (\<lambda>c. validate_global_address E c p (Some h)) cs")
  case (Inl e)
  then show ?thesis
    using emap_Inl_ex [OF Inl] bounded_unique_loop_rejects
    unfolding validate_bounded_unique_addresses_def by fastforce
next
  case (Inr xs)
  with assms bounded_unique_loop_eq [of "[]" p E h cs xs] show ?thesis
    by (simp add: validate_bounded_unique_addresses_def)
qed

lemma bounded_unique_error:
  "bounded_unique_loop E p h acc cs = Inl e \<Longrightarrow> e = EgressNotAllowedError"
  by (induction cs arbitrary: acc)
    (auto simp: result_simps dest: validate_global_address_Inl split: if_splits)

text \<open>What a returned address list guarantees, whatever was resolved.\<close>

lemma bounded_unique_loop_sound:
  assumes "bounded_unique_loop E p h acc cs = Inr out" "distinct acc"
    "int (length acc) \<le> max_resolved_addresses p"
    "\<forall>t \<in> set acc. validated_address E p h t"
  shows "distinct out \<and> int (length out) \<le> max_resolved_addresses p
    \<and> (\<forall>t \<in> set out. validated_address E p h t)"
  using assms
proof (induction cs arbitrary: acc)
  case Nil
  then show ?case by simp
next
  case (Cons c cs)
  from Cons.prems(1) obtain x where x: "validate_global_address E c p (Some h) = Inr x"
    and rest: "(if x \<in> set acc then bounded_unique_loop E p h acc cs
      else if int (length acc) \<ge> max_resolved_addresses p then Inl EgressNotAllowedError
      else bounded_unique_loop E p h (acc @ [x]) cs) = Inr out"
    by (auto simp: result_simps)
  note ok = validate_global_address_validated [OF x]
  show ?case
  proof (cases "x \<in> set acc")
    case True
    with rest Cons.IH [of acc] Cons.prems show ?thesis by simp
  next
    case False
    with rest have "int (length acc) < max_resolved_addresses p"
      "bounded_unique_loop E p h (acc @ [x]) cs = Inr out" by (auto split: if_splits)
    moreover have "distinct (acc @ [x])" using False Cons.prems(2) by simp
    moreover have "\<forall>t \<in> set (acc @ [x]). validated_address E p h t" using ok Cons.prems(4) by simp
    ultimately show ?thesis by (intro Cons.IH [of "acc @ [x]"]) simp_all
  qed
qed

lemma bounded_unique_idem:
  assumes "0 < max_resolved_addresses p" "validate_bounded_unique_addresses E cs p h = Inr out"
  shows "validate_bounded_unique_addresses E out p h = Inr out"
proof -
  have sound: "distinct out" "int (length out) \<le> max_resolved_addresses p"
    "\<forall>t \<in> set out. validated_address E p h t"
    using bounded_unique_loop_sound [of E p h "[]" cs out] assms
    by (simp_all add: validate_bounded_unique_addresses_def)
  then have "emap (\<lambda>c. validate_global_address E c p (Some h)) out = Inr (map (\<lambda>t. t) out)"
    by (intro emap_total) (auto simp: validated_address_iff)
  with sound assms(1) show ?thesis
    by (simp add: bounded_unique_reference distinct_card first_occurrences_distinct)
qed

section \<open>Facts about URL normalization\<close>

definition url_host :: "pyenv \<Rightarrow> split_result \<Rightarrow> ustr" where
  "url_host E r = (case us_hostname E r of None \<Rightarrow> [] | Some h \<Rightarrow> h)"

lemma masked_Inr: "masked r = Inr x \<longleftrightarrow> r = Inr x"
  by (simp add: masked_def split: sum.splits)

lemma masked_Inl: "masked r = Inl e \<Longrightarrow> (\<And>e'. r = Inl e' \<Longrightarrow> is_ValueError e') \<Longrightarrow> e = EgressNotAllowedError"
  by (auto simp: masked_def split: sum.splits)

definition split_and_port :: "pyenv \<Rightarrow> ustr \<Rightarrow> (split_result \<times> int) option res" where
  "split_and_port E candidate =
     ebind (urlsplit E candidate) (\<lambda>parsed.
     let default_port = (if py_lower E (us_scheme parsed) = u ''https'' then 443 else 80) in
     ebind (us_port E parsed) (\<lambda>parsed_port.
     Inr (Some (parsed, case parsed_port of Some n \<Rightarrow> n | None \<Rightarrow> default_port))))"

lemma parse_and_validate_eq:
  "parse_and_validate_candidate_url E (Some v) =
    (if py_strip E v = [] then Inr None
     else if 92 \<in> set (py_strip E v) \<or> has_url_control_character (py_strip E v)
     then Inl EgressNotAllowedError else masked (split_and_port E (py_strip E v)))"
  by (simp add: parse_and_validate_candidate_url_def split_and_port_def Let_def)

lemma split_and_port_error: "split_and_port E s = Inl e \<Longrightarrow> is_ValueError e"
  using urlsplit_error us_port_error by (auto simp: split_and_port_def Let_def result_simps)

lemma parse_and_validate_error:
  "parse_and_validate_candidate_url E v = Inl e \<Longrightarrow> e = EgressNotAllowedError"
proof (cases v)
  case None
  then show "parse_and_validate_candidate_url E v = Inl e \<Longrightarrow> ?thesis"
    by (simp add: parse_and_validate_candidate_url_def)
next
  case (Some s)
  assume "parse_and_validate_candidate_url E v = Inl e"
  then show ?thesis
    using masked_Inl [OF _ split_and_port_error] unfolding Some parse_and_validate_eq
    by (auto split: if_splits)
qed

lemma normalize_egress_url_error:
  assumes "normalize_egress_url E v p = Inl e"
  shows "e = EgressNotAllowedError"
proof (cases "parse_and_validate_candidate_url E v")
  case (Inl e')
  with assms parse_and_validate_error [OF Inl] show ?thesis
    by (simp add: normalize_egress_url_def)
next
  case (Inr r)
  with assms show ?thesis
    by (auto simp: normalize_egress_url_def validate_url_components_def
        validate_remote_authority_is_allowed_def result_simps Let_def
        split: option.splits if_splits)
qed

text \<open>Everything the code established when it returns a URL.\<close>

definition url_verdict ::
  "pyenv \<Rightarrow> EgressPolicy \<Rightarrow> ustr \<Rightarrow> split_result \<Rightarrow> int option \<Rightarrow> ustr \<Rightarrow> int \<Rightarrow> bool" where
  "url_verdict E p s parsed mp h n \<longleftrightarrow>
     \<not> has_url_control_character s \<and> 92 \<notin> set s \<and> s \<noteq> []
     \<and> urlsplit E s = Inr parsed \<and> us_port E parsed = Inr mp
     \<and> n = (case mp of Some m \<Rightarrow> m | None \<Rightarrow> if us_scheme parsed = u ''https'' then 443 else 80)
     \<and> h = normalize_host E (url_host E parsed) \<and> h \<noteq> []
     \<and> (us_scheme parsed = u ''https'' \<or> us_scheme parsed = u ''http'' \<and> \<not> remote_host E p h)
     \<and> (is_local_dev_host E h \<longrightarrow> allow_local p)
     \<and> us_username parsed = None \<and> us_password parsed = None
     \<and> us_query parsed = [] \<and> us_fragment parsed = []
     \<and> (normalize_host E h, n) \<in> allowed_authorities p
     \<and> \<not> is_ip_literal h \<and> \<not> looks_like_ip_literal E h"

lemma scheme_lower_id:
  assumes "urlsplit E s = Inr parsed"
  shows "py_lower E (us_scheme parsed) = us_scheme parsed"
proof -
  have "py_isascii (us_scheme parsed)"
    using urlsplit_Inr(6) [OF assms]
    by (auto simp: py_isascii_def list_all_iff is_scheme_c_def is_alpha_c_def is_dec_c_def is_ascii_c_def)
  then show ?thesis using urlsplit_Inr(5) [OF assms] by (simp add: py_lower_def)
qed

lemma parse_candidate_Some:
  "parse_and_validate_candidate_url E v = Inr (Some (parsed, port)) \<longleftrightarrow>
    (\<exists>s mp. v = Some s \<and> py_strip E s \<noteq> [] \<and> 92 \<notin> set (py_strip E s)
      \<and> \<not> has_url_control_character (py_strip E s)
      \<and> urlsplit E (py_strip E s) = Inr parsed \<and> us_port E parsed = Inr mp
      \<and> port = (case mp of Some m \<Rightarrow> m | None \<Rightarrow> if us_scheme parsed = u ''https'' then 443 else 80))"
proof (cases v)
  case None
  then show ?thesis by (simp add: parse_and_validate_candidate_url_def)
next
  case (Some s)
  have split: "split_and_port E t = Inr (Some (parsed, port)) \<longleftrightarrow>
      (\<exists>mp. urlsplit E t = Inr parsed \<and> us_port E parsed = Inr mp
      \<and> port = (case mp of Some m \<Rightarrow> m | None \<Rightarrow> if us_scheme parsed = u ''https'' then 443 else 80))" for t
  proof (cases "urlsplit E t")
    case (Inr r)
    note low = scheme_lower_id [OF Inr]
    show ?thesis by (cases "us_port E r") (auto simp: split_and_port_def Inr low Let_def)
  qed (simp add: split_and_port_def)
  show ?thesis unfolding Some parse_and_validate_eq by (auto simp: masked_Inr split)
qed

lemma validate_url_components_Inr:
  assumes "py_lower E (us_scheme parsed) = us_scheme parsed"
  shows "validate_url_components E parsed h local p = Inr () \<longleftrightarrow>
    (us_scheme parsed = u ''http'' \<or> us_scheme parsed = u ''https'')
    \<and> (local \<longrightarrow> allow_local p)
    \<and> (us_scheme parsed = u ''http'' \<longrightarrow> local \<or> validation_is_allowlisted_local_host E h p)
    \<and> h \<noteq> [] \<and> us_username parsed = None \<and> us_password parsed = None
    \<and> us_query parsed = [] \<and> us_fragment parsed = []"
  using assms by (auto simp: validate_url_components_def Let_def)

lemma validate_remote_authority_Inr:
  "validate_remote_authority_is_allowed E h n p = Inr () \<longleftrightarrow>
    (normalize_host E h, n) \<in> allowed_authorities p \<and> \<not> is_ip_literal h \<and> \<not> looks_like_ip_literal E h"
  by (auto simp: validate_remote_authority_is_allowed_def allows_authority_def)

lemma http_not_https: "u ''http'' \<noteq> u ''https''"
  by (simp add: u_def)

lemma normalize_egress_url_Some:
  "normalize_egress_url E v p = Inr (Some (url, h, n)) \<longleftrightarrow>
    (\<exists>s parsed mp. v = Some s \<and> url_verdict E p (py_strip E s) parsed mp h n
      \<and> url = urlunsplit (us_scheme parsed) (format_normalized_netloc h n (mp \<noteq> None))
                (us_path parsed) [] [])"
proof -
  have "normalize_egress_url E v p = Inr (Some (url, h, n)) \<longleftrightarrow>
    (\<exists>parsed. parse_and_validate_candidate_url E v = Inr (Some (parsed, n))
      \<and> h = normalize_host E (url_host E parsed)
      \<and> validate_url_components E parsed h (is_local_dev_host E h) p = Inr ()
      \<and> validate_remote_authority_is_allowed E h n p = Inr ()
      \<and> url = urlunsplit (py_lower E (us_scheme parsed))
                (format_normalized_netloc h n (us_port E parsed \<noteq> Inr None)) (us_path parsed) [] [])"
    by (auto simp: normalize_egress_url_def url_host_def [symmetric] result_simps Let_def
        split: option.splits)
  also have "\<dots> \<longleftrightarrow> (\<exists>s parsed mp. v = Some s \<and> url_verdict E p (py_strip E s) parsed mp h n
      \<and> url = urlunsplit (us_scheme parsed) (format_normalized_netloc h n (mp \<noteq> None))
                (us_path parsed) [] [])" (is "?L \<longleftrightarrow> ?R")
  proof
    assume ?L
    then obtain parsed s mp where facts: "v = Some s" "py_strip E s \<noteq> []" "92 \<notin> set (py_strip E s)"
      "\<not> has_url_control_character (py_strip E s)" "us_port E parsed = Inr mp"
      "n = (case mp of Some m \<Rightarrow> m | None \<Rightarrow> if us_scheme parsed = u ''https'' then 443 else 80)"
      "h = normalize_host E (url_host E parsed)"
      "validate_remote_authority_is_allowed E h n p = Inr ()"
      and split: "urlsplit E (py_strip E s) = Inr parsed"
      and comp: "validate_url_components E parsed h (is_local_dev_host E h) p = Inr ()"
      and url: "url = urlunsplit (py_lower E (us_scheme parsed))
                (format_normalized_netloc h n (us_port E parsed \<noteq> Inr None)) (us_path parsed) [] []"
      unfolding parse_candidate_Some by blast
    note low = scheme_lower_id [OF split]
    have "url_verdict E p (py_strip E s) parsed mp h n"
      using facts split comp http_not_https
      unfolding url_verdict_def remote_host_def validate_url_components_Inr [OF low]
        validate_remote_authority_Inr by blast
    with facts(1,5) url low show ?R by (intro exI [of _ s] exI [of _ parsed] exI [of _ mp]) simp
  next
    assume ?R
    then obtain s parsed mp where v: "v = Some s" and ver: "url_verdict E p (py_strip E s) parsed mp h n"
      and url: "url = urlunsplit (us_scheme parsed) (format_normalized_netloc h n (mp \<noteq> None))
                (us_path parsed) [] []" by blast
    then have split: "urlsplit E (py_strip E s) = Inr parsed" and port: "us_port E parsed = Inr mp"
      by (simp_all add: url_verdict_def)
    note low = scheme_lower_id [OF split]
    have "validate_url_components E parsed h (is_local_dev_host E h) p = Inr ()"
      "validate_remote_authority_is_allowed E h n p = Inr ()"
      using ver http_not_https
      unfolding url_verdict_def remote_host_def validate_url_components_Inr [OF low]
        validate_remote_authority_Inr by metis+
    moreover have "parse_and_validate_candidate_url E v = Inr (Some (parsed, n))"
      unfolding parse_candidate_Some using v ver unfolding url_verdict_def by blast
    moreover have "h = normalize_host E (url_host E parsed)" using ver by (simp add: url_verdict_def)
    ultimately show ?L using url port low by (intro exI [of _ parsed]) simp
  qed
  finally show ?thesis .
qed

lemma url_verdict_no_colon: "url_verdict E p s parsed mp h n \<Longrightarrow> 58 \<notin> set h"
  by (auto simp: url_verdict_def looks_like_ip_literal_def Let_def)

lemma format_normalized_netloc_plain:
  "58 \<notin> set h \<Longrightarrow> format_normalized_netloc h n b = (if b then h @ 58 # dec_digits n else h)"
  by (simp add: format_normalized_netloc_def Let_def)

text \<open>The text of a normalized URL.\<close>

lemma normalized_url_text:
  assumes "normalize_egress_url E v p = Inr (Some (url, h, n))"
  obtains scheme port_text path where
    "url = scheme @ u ''://'' @ h @ port_text @ path"
    "scheme = u ''https'' \<or> scheme = u ''http'' \<and> \<not> remote_host E p h"
    "port_text = 58 # dec_digits n \<or> port_text = [] \<and> n = (if scheme = u ''https'' then 443 else 80)"
    "path = [] \<or> hd path = 47" "63 \<notin> set path" "35 \<notin> set path" "92 \<notin> set path"
    "\<not> has_url_control_character path"
proof -
  from assms obtain s parsed mp where ver: "url_verdict E p (py_strip E s) parsed mp h n"
    and url: "url = urlunsplit (us_scheme parsed) (format_normalized_netloc h n (mp \<noteq> None))
                (us_path parsed) [] []"
    unfolding normalize_egress_url_Some by blast
  let ?scheme = "us_scheme parsed"
  define port_text where "port_text = (if mp \<noteq> None then 58 # dec_digits n else [])"
  define path where "path = (if us_path parsed \<noteq> [] \<and> hd (us_path parsed) \<noteq> 47
    then 47 # us_path parsed else us_path parsed)"
  have split: "urlsplit E (py_strip E s) = Inr parsed" and h: "h \<noteq> []" "58 \<notin> set h"
    and scheme: "?scheme = u ''https'' \<or> ?scheme = u ''http'' \<and> \<not> remote_host E p h"
    and clean: "\<not> has_url_control_character (py_strip E s)" "92 \<notin> set (py_strip E s)"
    using ver url_verdict_no_colon [OF ver] unfolding url_verdict_def by blast+
  from scheme have "?scheme \<noteq> []" by (auto simp: u_def)
  then have "url = ?scheme @ u ''://'' @ h @ port_text @ path"
    using h by (auto simp: url urlunsplit_def format_normalized_netloc_plain port_text_def path_def
        Let_def u_def)
  moreover have "port_text = 58 # dec_digits n \<or> port_text = []
      \<and> n = (if ?scheme = u ''https'' then 443 else 80)"
    using ver by (auto simp: port_text_def url_verdict_def)
  moreover have "path = [] \<or> hd path = 47" by (auto simp: path_def)
  moreover have "63 \<notin> set path" "35 \<notin> set path" "92 \<notin> set path" "\<not> has_url_control_character path"
    using urlsplit_Inr(1,2,3) [OF split] clean
    by (auto simp: path_def has_url_control_character_def list_ex_iff)
  ultimately show thesis using scheme that by blast
qed

text \<open>The parts of a canonical authority text.\<close>

lemma canonical_netloc:
  fixes h n b
  defines "netloc \<equiv> if b then h @ 58 # dec_digits n else h"
  assumes "list_all is_ldh_dot_c h" "h \<noteq> []" "map lower_c h = h" "0 \<le> n" "n \<le> 65535"
    and r: "us_netloc r = netloc"
  shows "netloc \<noteq> []" "py_isascii netloc" "\<forall>c \<in> set netloc. \<not> is_netloc_end c \<and> c \<notin> {9, 13, 10, 64, 91, 92, 93}
      \<and> \<not> c < 32 \<and> c \<noteq> 127"
    and "us_username r = None" "us_password r = None" "url_host E r = h"
    and "us_port E r = Inr (if b then Some n else None)"
proof -
  have hc: "\<And>c. c \<in> set h \<Longrightarrow> is_ldh_dot_c c" using assms(2) by (simp add: list_all_iff)
  have dc: "\<And>c. c \<in> set (dec_digits n) \<Longrightarrow> 48 \<le> c \<and> c \<le> 57"
    using assms(5) dec_digits_chars by blast
  have cs: "c \<in> set netloc \<Longrightarrow> is_ldh_dot_c c \<or> c = 58" for c
    using hc dc by (fastforce simp: netloc_def is_ldh_dot_c_def split: if_splits)
  show "netloc \<noteq> []" using assms(3) by (simp add: netloc_def)
  show "py_isascii netloc" unfolding py_isascii_def list_all_iff
    using cs ldh_dot_facts(1) by (fastforce simp: is_ascii_c_def)
  show all: "\<forall>c \<in> set netloc. \<not> is_netloc_end c \<and> c \<notin> {9, 13, 10, 64, 91, 92, 93} \<and> \<not> c < 32 \<and> c \<noteq> 127"
    using cs by (fastforce simp: is_netloc_end_def is_ldh_dot_c_def)
  have nh: "58 \<notin> set h" using hc [of 58] by (auto simp: is_ldh_dot_c_def)
  have asc: "py_isascii h" using hc ldh_dot_facts(1) by (auto simp: py_isascii_def list_all_iff)
  have "64 \<notin> set (us_netloc r)" "91 \<notin> set (us_netloc r)" using all by (auto simp: r)
  then have info: "us_hostinfo r = (h, if b then Some (dec_digits n) else None)"
    and "us_username r = None \<and> us_password r = None"
    using us_hostinfo_plain [of r] us_userinfo_None_iff [of r] nh
    by (simp_all add: r netloc_def py_partition_sep py_partition_no_sep Let_def)
  then show "us_username r = None" "us_password r = None" by simp_all
  have "37 \<notin> set h" using hc [of 37] by (auto simp: is_ldh_dot_c_def)
  then show "url_host E r = h"
    using assms(3,4) asc info
    by (simp add: url_host_def us_hostname_def py_partition_no_sep Let_def py_lower_def)
  have ad: "all_dec (dec_digits n)" using assms(5) by (rule dec_digits_all_dec)
  have "length (dec_digits n) \<le> max_str_digits"
  proof (rule ccontr)
    assume "\<not> ?thesis"
    then have big: "length (dec_digits 65536) < length (dec_digits n)"
      by (simp add: max_str_digits_def dec_digits.simps)
    have "hd (dec_digits n) \<noteq> 48"
    proof (cases "n = 0")
      case True
      with big show ?thesis by (simp add: dec_digits.simps)
    next
      case False
      with assms(5) show ?thesis by (intro dec_digits_head) simp
    qed
    from dec_value_longer [OF dec_digits_all_dec ad _ this big] assms(5,6) show False by simp
  qed
  then show "us_port E r = Inr (if b then Some n else None)"
    using info ad assms(5,6)
    by (simp add: us_port_def ascii_isdigit_iff all_dec_isascii py_int_dec_def)
qed

text \<open>A URL without authority has no host.\<close>

lemma empty_netloc_host:
  assumes "idna_contract E" "us_netloc parsed = []"
  shows "normalize_host E (url_host E parsed) = []"
proof -
  have "url_host E parsed = []"
    using assms(2)
    by (simp add: url_host_def us_hostname_def us_hostinfo_def py_rpartition_def py_partition_def Let_def)
  with assms(1) show ?thesis
    by (simp add: normalize_host_def canonicalize_host_def idna_contract_def py_strip_def
        py_lower_def py_rstrip_def)
qed

text \<open>Splitting a normalized URL of a canonical host gives back its parts.\<close>

lemma normalized_url_split:
  assumes E: "idna_contract E" and norm: "normalize_egress_url E v p = Inr (Some (url, h, n))"
    and canon: "canonicalize_host E g = Inr h"
  obtains parsed mp where "urlsplit E url = Inr parsed" "us_port E parsed = Inr mp"
    "us_netloc parsed = (if mp \<noteq> None then h @ 58 # dec_digits n else h)"
    "py_isascii (us_netloc parsed)" "url_host E parsed = h"
    "us_username parsed = None" "us_password parsed = None"
    "us_query parsed = []" "us_fragment parsed = []"
    "us_scheme parsed = u ''https'' \<or> us_scheme parsed = u ''http'' \<and> \<not> remote_host E p h"
    "n = (case mp of Some m \<Rightarrow> m | None \<Rightarrow> if us_scheme parsed = u ''https'' then 443 else 80)"
    "url = urlunsplit (us_scheme parsed) (format_normalized_netloc h n (mp \<noteq> None)) (us_path parsed) [] []"
    "\<not> has_url_control_character url" "92 \<notin> set url" "url \<noteq> []"
proof -
  from norm obtain s parsed mp where ver: "url_verdict E p (py_strip E s) parsed mp h n"
    and url: "url = urlunsplit (us_scheme parsed) (format_normalized_netloc h n (mp \<noteq> None))
                (us_path parsed) [] []"
    unfolding normalize_egress_url_Some by blast
  define netloc where "netloc = (if mp \<noteq> None then h @ 58 # dec_digits n else h)"
  define parsed' where "parsed' = \<lparr>us_scheme = us_scheme parsed, us_netloc = netloc,
    us_path = us_path parsed, us_query = [], us_fragment = []\<rparr>"
  have split: "urlsplit E (py_strip E s) = Inr parsed" and ne: "h \<noteq> []"
    and port: "us_port E parsed = Inr mp"
    and scheme: "us_scheme parsed = u ''https'' \<or> us_scheme parsed = u ''http'' \<and> \<not> remote_host E p h"
    and clean: "\<not> has_url_control_character (py_strip E s)" "92 \<notin> set (py_strip E s)"
    and h: "h = normalize_host E (url_host E parsed)"
    and neq: "n = (case mp of Some m \<Rightarrow> m | None \<Rightarrow> if us_scheme parsed = u ''https'' then 443 else 80)"
    using ver unfolding url_verdict_def by blast+
  note sp = urlsplit_Inr [OF split]
  have ldh: "list_all is_ldh_dot_c h" "map lower_c h = h"
    using canonicalize_host_Inr [OF E canon] by blast+
  have range: "0 \<le> n \<and> n \<le> 65535"
    using neq us_port_range [of E parsed n] port by (cases mp) auto
  have r: "us_netloc parsed' = (if mp \<noteq> None then h @ 58 # dec_digits n else h)"
    by (simp add: parsed'_def netloc_def)
  note cn = canonical_netloc [OF ldh(1) ne ldh(2) conjunct1 [OF range] conjunct2 [OF range] r,
    folded netloc_def]
  have fmt: "url = urlunsplit (us_scheme parsed) netloc (us_path parsed) [] []"
    unfolding url netloc_def using url_verdict_no_colon [OF ver] by (simp add: format_normalized_netloc_plain)
  have snil: "us_scheme parsed \<noteq> []" using scheme by (auto simp: u_def)
  have "us_netloc parsed \<noteq> []" using empty_netloc_host [OF E] h ne by metis
  then have path: "us_path parsed = [] \<or> hd (us_path parsed) = 47" by (rule sp(4))
  have pclean: "\<And>c. c \<in> set (us_path parsed) \<Longrightarrow> \<not> c < 32 \<and> c \<noteq> 127 \<and> c \<noteq> 92"
    using sp(1) clean by (auto simp: has_url_control_character_def list_ex_iff)
  have sclean: "\<And>c. c \<in> set (us_scheme parsed) \<Longrightarrow> \<not> c < 32 \<and> c \<noteq> 127 \<and> c \<noteq> 92"
    using scheme by (auto simp: u_def)
  have split': "urlsplit E url = Inr parsed'"
    unfolding fmt parsed'_def
  proof (rule urlsplit_urlunsplit [OF snil sp(7) [OF snil] sp(6) sp(5) cn(1,2)])
    show "\<forall>c \<in> set netloc. \<not> is_netloc_end c" "91 \<notin> set netloc" "93 \<notin> set netloc" using cn(3) by blast+
    show "\<forall>c \<in> set netloc \<union> set (us_path parsed). c \<notin> {9, 13, 10}" using cn(3) pclean by fastforce
  qed (use path sp(2,3) in blast)+
  have urltext: "url = us_scheme parsed @ 58 # 47 # 47 # netloc @ us_path parsed"
    using snil path cn(1) by (auto simp: fmt urlunsplit_def Let_def)
  have "\<not> has_url_control_character url" "92 \<notin> set url" "url \<noteq> []"
    using cn(3) pclean sclean by (auto simp: urltext has_url_control_character_def list_ex_iff)
  moreover have "us_port E parsed' = Inr mp" unfolding cn(7) using neq by (cases mp) auto
  moreover have "us_scheme parsed' = us_scheme parsed" "us_query parsed' = []" "us_fragment parsed' = []"
    "us_path parsed' = us_path parsed" "us_netloc parsed' = netloc"
    by (simp_all add: parsed'_def)
  ultimately have "us_scheme parsed' = us_scheme parsed" "us_path parsed' = us_path parsed"
    and rest: "us_port E parsed' = Inr mp" "us_query parsed' = []" "us_fragment parsed' = []"
      "py_isascii (us_netloc parsed')" "\<not> has_url_control_character url" "92 \<notin> set url" "url \<noteq> []"
    using cn(2) by simp_all
  with scheme neq url show thesis
    by (intro that [OF split' rest(1) r rest(4) cn(6,4,5) rest(2,3) _ _ _ rest(5,6,7)]) (simp_all only:)
qed

text \<open>Normalizing a normalized URL of a canonical host changes nothing, provided the text does
  not end in white space.\<close>

lemma normalize_egress_url_fixpoint:
  assumes E: "idna_contract E" and norm: "normalize_egress_url E v p = Inr (Some (url, h, n))"
    and canon: "canonicalize_host E g = Inr h" and trimmed: "py_strip E url = url"
  shows "normalize_egress_url E (Some url) p = Inr (Some (url, h, n))"
proof -
  obtain s parsed0 mp0 where ver: "url_verdict E p (py_strip E s) parsed0 mp0 h n"
    using norm unfolding normalize_egress_url_Some by blast
  have nh: "normalize_host E h = h"
    using canonicalize_host_idem [OF E canon] by (rule normalize_host_canonical)
  obtain parsed mp where facts: "urlsplit E url = Inr parsed" "us_port E parsed = Inr mp"
    "url_host E parsed = h" "us_username parsed = None" "us_password parsed = None"
    "us_query parsed = []" "us_fragment parsed = []"
    "us_scheme parsed = u ''https'' \<or> us_scheme parsed = u ''http'' \<and> \<not> remote_host E p h"
    "n = (case mp of Some m \<Rightarrow> m | None \<Rightarrow> if us_scheme parsed = u ''https'' then 443 else 80)"
    "\<not> has_url_control_character url" "92 \<notin> set url" "url \<noteq> []"
    and url: "url = urlunsplit (us_scheme parsed) (format_normalized_netloc h n (mp \<noteq> None)) (us_path parsed) [] []"
    by (rule normalized_url_split [OF E norm canon])
  have "url_verdict E p url parsed mp h n"
    using ver facts nh unfolding url_verdict_def by (elim conjE, intro conjI) (assumption | simp only:)+
  then have "url_verdict E p (py_strip E url) parsed mp h n" unfolding trimmed .
  then show ?thesis
    unfolding normalize_egress_url_Some using url by blast
qed

end
