(* ===== verification/Dns_Resolver.thy ===== *)
theory Dns_Resolver
  imports Egress_Validation
begin

text \<open>
  The bounded resolver of \<open>src/egressweave/validation.py\<close> and the public validation functions
  built on it. First the code of one call as a function of what the call observes (the
  clock, the semaphore, the thread start, the answer in time). Then the whole process as a
  step relation: any number of calls and their worker threads interleave on one bounded
  semaphore of 32 slots. The two are related in the properties: every result of the step
  relation is a result of the function.

  The operating system's \<open>getaddrinfo\<close> is an argument: for a host and a port the address
  texts it lists, or the exception it raises.
\<close>

type_synonym getaddrinfo = "ustr \<Rightarrow> int \<Rightarrow> ustr list res"

section \<open>One call\<close>

definition MAX_CONCURRENT_DNS_RESOLUTIONS :: int where
  "MAX_CONCURRENT_DNS_RESOLUTIONS = 32"

fun is_OSError_or_UnicodeError :: "exn \<Rightarrow> bool" where
  "is_OSError_or_UnicodeError (OSError _) = True"
| "is_OSError_or_UnicodeError UnicodeDecodeError = True"
| "is_OSError_or_UnicodeError UnicodeEncodeError = True"
| "is_OSError_or_UnicodeError _ = False"

definition resolve_all_global_addresses_blocking ::
  "pyenv \<Rightarrow> getaddrinfo \<Rightarrow> ustr \<Rightarrow> int \<Rightarrow> EgressPolicy \<Rightarrow> ustr list res" where
  "resolve_all_global_addresses_blocking E getaddrinfo hostname port p =
     (case getaddrinfo hostname port of
        Inl e \<Rightarrow> Inl (if is_OSError_or_UnicodeError e then EgressNotAllowedError else e)
      | Inr address_infos \<Rightarrow>
          if address_infos = [] then Inl EgressNotAllowedError
          else validate_bounded_unique_addresses E address_infos p hostname)"

text \<open>What the worker thread puts into the one-place queue: a value, or a caught
  \<open>Exception\<close>; nothing when another \<open>BaseException\<close> ends the thread.\<close>

type_synonym queue_item = "ustr list option \<times> exn option"

definition worker_item :: "ustr list res \<Rightarrow> queue_item option" where
  "worker_item r = (case r of
      Inr addresses \<Rightarrow> Some (Some addresses, None)
    | Inl e \<Rightarrow> if is_Exception e then Some (None, Some e) else None)"

text \<open>What the caller makes of the queue: None is \<open>queue.Empty\<close>.\<close>

definition await_resolution :: "queue_item option \<Rightarrow> ustr list res" where
  "await_resolution item = (case item of
      None \<Rightarrow> Inl EgressNotAllowedError
    | Some (addresses, error) \<Rightarrow>
        (case error of
           Some e \<Rightarrow> if e = EgressNotAllowedError then Inl e else Inl EgressNotAllowedError
         | None \<Rightarrow> of_option EgressNotAllowedError addresses))"

record resolver_run =
  slot_acquired :: bool        \<comment> \<open>\<open>acquire\<close> obtained a slot within the timeout\<close>
  clock_start :: rat           \<comment> \<open>\<open>time.monotonic()\<close> on entry\<close>
  clock_acquired :: rat        \<comment> \<open>\<open>time.monotonic()\<close> with the slot held\<close>
  worker_starts :: bool        \<comment> \<open>\<open>worker.start()\<close> raises no \<open>RuntimeError\<close>\<close>
  answered_in_time :: bool     \<comment> \<open>the queue had an item before the remaining time was over\<close>

definition resolve_all_global_addresses ::
  "pyenv \<Rightarrow> getaddrinfo \<Rightarrow> resolver_run \<Rightarrow> ustr \<Rightarrow> int \<Rightarrow> EgressPolicy \<Rightarrow> ustr list res" where
  "resolve_all_global_addresses E getaddrinfo run hostname port p =
     (let deadline = clock_start run + dns_timeout_seconds p in
      if \<not> slot_acquired run then Inl EgressNotAllowedError
      else if deadline - clock_acquired run \<le> 0 then Inl EgressNotAllowedError
      else if \<not> worker_starts run then Inl EgressNotAllowedError
      else (let outcome = resolve_all_global_addresses_blocking E getaddrinfo hostname port p in
        await_resolution (if answered_in_time run then worker_item outcome else None)))"

definition resolve_all_global_addresses_async ::
  "pyenv \<Rightarrow> getaddrinfo \<Rightarrow> resolver_run \<Rightarrow> ustr \<Rightarrow> int \<Rightarrow> EgressPolicy \<Rightarrow> ustr list res" where
  "resolve_all_global_addresses_async E getaddrinfo run hostname port p =
     resolve_all_global_addresses E getaddrinfo run hostname port p"

section \<open>The public validation functions\<close>

definition validate_egress_url_details ::
  "pyenv \<Rightarrow> getaddrinfo \<Rightarrow> resolver_run \<Rightarrow> ustr option \<Rightarrow> EgressPolicy \<Rightarrow> ValidatedEgressURL option res"
where
  "validate_egress_url_details E getaddrinfo run value p =
     ebind (normalize_egress_url E value p) (\<lambda>r.
     case r of
       None \<Rightarrow> Inr None
     | Some (normalized_url, hostname, port) \<Rightarrow>
         ebind (resolve_all_global_addresses E getaddrinfo run hostname port p) (\<lambda>addresses.
         Inr (Some (make_validated_egress_url E normalized_url hostname port addresses))))"

definition validate_egress_url ::
  "pyenv \<Rightarrow> getaddrinfo \<Rightarrow> resolver_run \<Rightarrow> ustr option \<Rightarrow> EgressPolicy \<Rightarrow> ustr option res" where
  "validate_egress_url E getaddrinfo run value p =
     ebind (validate_egress_url_details E getaddrinfo run value p) (\<lambda>validated.
     Inr (map_option vu_normalized_url validated))"

definition validate_egress_url_details_async ::
  "pyenv \<Rightarrow> getaddrinfo \<Rightarrow> resolver_run \<Rightarrow> ustr option \<Rightarrow> EgressPolicy \<Rightarrow> ValidatedEgressURL option res"
where
  "validate_egress_url_details_async E getaddrinfo run value p =
     ebind (normalize_egress_url E value p) (\<lambda>r.
     case r of
       None \<Rightarrow> Inr None
     | Some (normalized_url, hostname, port) \<Rightarrow>
         ebind (resolve_all_global_addresses_async E getaddrinfo run hostname port p) (\<lambda>addresses.
         Inr (Some (make_validated_egress_url E normalized_url hostname port addresses))))"

definition validate_egress_url_async ::
  "pyenv \<Rightarrow> getaddrinfo \<Rightarrow> resolver_run \<Rightarrow> ustr option \<Rightarrow> EgressPolicy \<Rightarrow> ustr option res" where
  "validate_egress_url_async E getaddrinfo run value p =
     ebind (validate_egress_url_details_async E getaddrinfo run value p) (\<lambda>validated.
     Inr (map_option vu_normalized_url validated))"

section \<open>All calls and their workers\<close>

text \<open>Where the caller of \<open>_resolve_all_global_addresses\<close> and its worker thread stand.\<close>

datatype main_pc =
    MStart                     \<comment> \<open>at \<open>_DNS_RESOLUTION_SLOTS.acquire\<close>\<close>
  | MAcquired                  \<comment> \<open>holds a slot, about to test the remaining time\<close>
  | MChecked                   \<comment> \<open>holds a slot, about to start the worker\<close>
  | MWaiting                   \<comment> \<open>at \<open>resolution_result.get\<close>\<close>
  | MDone "ustr list res"      \<comment> \<open>returned or raised\<close>

datatype worker_pc =
    WNone                      \<comment> \<open>not started\<close>
  | WRunning                   \<comment> \<open>in the blocking resolution\<close>
  | WReleasing                 \<comment> \<open>in the \<open>finally\<close> clause, the queue filled or not\<close>
  | WFinished

record call =
  req_host :: ustr
  req_port :: int
  req_policy :: EgressPolicy
  main :: main_pc
  worker :: worker_pc
  box :: "queue_item option"

record resolver =
  slots :: int
  calls :: "call list"

definition new_call :: "ustr \<Rightarrow> int \<Rightarrow> EgressPolicy \<Rightarrow> call" where
  "new_call hostname port p =
     \<lparr>req_host = hostname, req_port = port, req_policy = p, main = MStart, worker = WNone, box = None\<rparr>"

definition initial_resolver :: resolver where
  "initial_resolver = \<lparr>slots = MAX_CONCURRENT_DNS_RESOLUTIONS, calls = []\<rparr>"

definition call_work :: "pyenv \<Rightarrow> getaddrinfo \<Rightarrow> call \<Rightarrow> ustr list res" where
  "call_work E getaddrinfo c =
     resolve_all_global_addresses_blocking E getaddrinfo (req_host c) (req_port c) (req_policy c)"

text \<open>\<open>acquire\<close> and \<open>release\<close> of the semaphore change its count by the first argument.\<close>

definition update_call :: "resolver \<Rightarrow> nat \<Rightarrow> int \<Rightarrow> call \<Rightarrow> resolver" where
  "update_call s i d c = \<lparr>slots = slots s + d, calls = (calls s)[i := c]\<rparr>"

text \<open>One step of call \<open>i\<close>, by its caller or by its worker.\<close>

inductive call_step :: "pyenv \<Rightarrow> getaddrinfo \<Rightarrow> nat \<Rightarrow> resolver \<Rightarrow> resolver \<Rightarrow> bool"
  for E getaddrinfo i where
  acquire: "i < length (calls s) \<Longrightarrow> c = calls s ! i \<Longrightarrow> main c = MStart \<Longrightarrow> 0 < slots s \<Longrightarrow>
    call_step E getaddrinfo i s (update_call s i (-1) (c\<lparr>main := MAcquired\<rparr>))"
| acquire_timeout: "i < length (calls s) \<Longrightarrow> c = calls s ! i \<Longrightarrow> main c = MStart \<Longrightarrow>
    call_step E getaddrinfo i s (update_call s i 0 (c\<lparr>main := MDone (Inl EgressNotAllowedError)\<rparr>))"
| expired: "i < length (calls s) \<Longrightarrow> c = calls s ! i \<Longrightarrow> main c = MAcquired \<Longrightarrow>
    call_step E getaddrinfo i s (update_call s i 1 (c\<lparr>main := MDone (Inl EgressNotAllowedError)\<rparr>))"
| in_time: "i < length (calls s) \<Longrightarrow> c = calls s ! i \<Longrightarrow> main c = MAcquired \<Longrightarrow>
    call_step E getaddrinfo i s (update_call s i 0 (c\<lparr>main := MChecked\<rparr>))"
| start: "i < length (calls s) \<Longrightarrow> c = calls s ! i \<Longrightarrow> main c = MChecked \<Longrightarrow>
    call_step E getaddrinfo i s (update_call s i 0 (c\<lparr>main := MWaiting, worker := WRunning\<rparr>))"
| start_fails: "i < length (calls s) \<Longrightarrow> c = calls s ! i \<Longrightarrow> main c = MChecked \<Longrightarrow>
    call_step E getaddrinfo i s (update_call s i 1 (c\<lparr>main := MDone (Inl EgressNotAllowedError)\<rparr>))"
| work: "i < length (calls s) \<Longrightarrow> c = calls s ! i \<Longrightarrow> worker c = WRunning \<Longrightarrow>
    call_step E getaddrinfo i s
      (update_call s i 0 (c\<lparr>worker := WReleasing, box := worker_item (call_work E getaddrinfo c)\<rparr>))"
| release: "i < length (calls s) \<Longrightarrow> c = calls s ! i \<Longrightarrow> worker c = WReleasing \<Longrightarrow>
    call_step E getaddrinfo i s (update_call s i 1 (c\<lparr>worker := WFinished\<rparr>))"
| get: "i < length (calls s) \<Longrightarrow> c = calls s ! i \<Longrightarrow> main c = MWaiting \<Longrightarrow> box c = Some item \<Longrightarrow>
    call_step E getaddrinfo i s
      (update_call s i 0 (c\<lparr>main := MDone (await_resolution (Some item)), box := None\<rparr>))"
| get_timeout: "i < length (calls s) \<Longrightarrow> c = calls s ! i \<Longrightarrow> main c = MWaiting \<Longrightarrow>
    call_step E getaddrinfo i s (update_call s i 0 (c\<lparr>main := MDone (await_resolution None)\<rparr>))"

inductive resolver_step :: "pyenv \<Rightarrow> getaddrinfo \<Rightarrow> resolver \<Rightarrow> resolver \<Rightarrow> bool"
  for E getaddrinfo where
  arrive: "resolver_step E getaddrinfo s (s\<lparr>calls := calls s @ [new_call hostname port p]\<rparr>)"
| of_call: "call_step E getaddrinfo i s s' \<Longrightarrow> resolver_step E getaddrinfo s s'"

inductive reachable :: "pyenv \<Rightarrow> getaddrinfo \<Rightarrow> resolver \<Rightarrow> bool" for E getaddrinfo where
  init: "reachable E getaddrinfo initial_resolver"
| step: "reachable E getaddrinfo s \<Longrightarrow> resolver_step E getaddrinfo s s' \<Longrightarrow> reachable E getaddrinfo s'"

inductive_cases call_stepE: "call_step E getaddrinfo i s s'"

section \<open>The invariant\<close>

definition holds_slot :: "call \<Rightarrow> bool" where
  "holds_slot c \<longleftrightarrow> main c \<in> {MAcquired, MChecked} \<or> worker c \<in> {WRunning, WReleasing}"

definition call_ok :: "pyenv \<Rightarrow> getaddrinfo \<Rightarrow> call \<Rightarrow> bool" where
  "call_ok E getaddrinfo c \<longleftrightarrow>
     (main c \<in> {MStart, MAcquired, MChecked} \<longrightarrow> worker c = WNone)
     \<and> (worker c \<in> {WNone, WRunning} \<longrightarrow> box c = None)
     \<and> (\<forall>item. box c = Some item \<longrightarrow> worker_item (call_work E getaddrinfo c) = Some item)
     \<and> (\<forall>r. main c = MDone r \<longrightarrow> r = Inl EgressNotAllowedError
           \<or> r = await_resolution (worker_item (call_work E getaddrinfo c)) \<and> worker c \<noteq> WNone)"

definition resolver_inv :: "pyenv \<Rightarrow> getaddrinfo \<Rightarrow> resolver \<Rightarrow> bool" where
  "resolver_inv E getaddrinfo s \<longleftrightarrow>
     0 \<le> slots s
     \<and> slots s + int (length (filter holds_slot (calls s))) = MAX_CONCURRENT_DNS_RESOLUTIONS
     \<and> (\<forall>c \<in> set (calls s). call_ok E getaddrinfo c)"

lemma length_filter_update:
  "i < length xs \<Longrightarrow>
    int (length (filter P (xs[i := y]))) =
      int (length (filter P xs)) - of_bool (P (xs ! i)) + of_bool (P y)"
proof (induction xs arbitrary: i)
  case Nil
  then show ?case by simp
next
  case (Cons x xs)
  then show ?case by (cases i) auto
qed

lemma update_call_inv:
  assumes "resolver_inv E g s" "i < length (calls s)" "call_ok E g c"
    and "0 \<le> slots s + d" "d = of_bool (holds_slot (calls s ! i)) - of_bool (holds_slot c)"
  shows "resolver_inv E g (update_call s i d c)"
proof -
  have "\<forall>c' \<in> set ((calls s)[i := c]). call_ok E g c'"
    using assms(1,3) set_update_subset_insert [of "calls s" i c] by (auto simp: resolver_inv_def)
  with assms show ?thesis
    by (simp add: resolver_inv_def update_call_def length_filter_update)
qed

lemma call_work_simps [simp]:
  "call_work E g (c\<lparr>main := m\<rparr>) = call_work E g c"
  "call_work E g (c\<lparr>worker := w\<rparr>) = call_work E g c"
  "call_work E g (c\<lparr>box := b\<rparr>) = call_work E g c"
  by (simp_all add: call_work_def)

lemma call_step_index: "call_step E g i s s' \<Longrightarrow> i < length (calls s)"
  by (erule call_stepE) simp_all

lemma call_step_inv:
  assumes "call_step E g i s s'" "resolver_inv E g s"
  shows "resolver_inv E g s'"
proof -
  have i: "i < length (calls s)" using assms(1) by (rule call_step_index)
  have ok: "call_ok E g (calls s ! i)" and nn: "0 \<le> slots s"
    using assms(2) i by (simp_all add: resolver_inv_def)
  note up = update_call_inv [OF assms(2) i]
  from assms(1) show ?thesis
    by (rule call_stepE)
      (use ok nn in \<open>auto intro!: up simp: call_ok_def holds_slot_def await_resolution_def\<close>)
qed

lemma resolver_step_inv:
  assumes "resolver_step E g s s'" "resolver_inv E g s"
  shows "resolver_inv E g s'"
  using assms(1)
proof cases
  case (arrive hostname port p)
  have "call_ok E g (new_call hostname port p)" "\<not> holds_slot (new_call hostname port p)"
    by (simp_all add: new_call_def call_ok_def holds_slot_def)
  with assms(2) arrive show ?thesis by (auto simp: resolver_inv_def)
next
  case (of_call i)
  then show ?thesis using assms(2) by (rule call_step_inv)
qed

lemma reachable_inv: "reachable E g s \<Longrightarrow> resolver_inv E g s"
proof (induction rule: reachable.induct)
  case init
  show ?case by (simp add: resolver_inv_def initial_resolver_def MAX_CONCURRENT_DNS_RESOLUTIONS_def)
next
  case (step s s')
  then show ?case by (blast intro: resolver_step_inv)
qed

section \<open>Progress\<close>

text \<open>How many steps the caller and the worker of a call have left at most.\<close>

fun main_rank :: "main_pc \<Rightarrow> nat" where
  "main_rank MStart = 4"
| "main_rank MAcquired = 3"
| "main_rank MChecked = 2"
| "main_rank MWaiting = 1"
| "main_rank (MDone _) = 0"

fun worker_rank :: "worker_pc \<Rightarrow> nat" where
  "worker_rank WNone = 3"
| "worker_rank WRunning = 2"
| "worker_rank WReleasing = 1"
| "worker_rank WFinished = 0"

definition call_rank :: "call \<Rightarrow> nat" where
  "call_rank c = main_rank (main c) + worker_rank (worker c)"

definition steps_left :: "resolver \<Rightarrow> nat" where
  "steps_left s = sum_list (map call_rank (calls s))"

lemma sum_list_decreases:
  "i < length xs \<Longrightarrow> f y < f (xs ! i) \<Longrightarrow> sum_list (map f (xs[i := y])) < sum_list (map (f :: 'a \<Rightarrow> nat) xs)"
proof (induction xs arbitrary: i)
  case (Cons x xs)
  then show ?case by (cases i) auto
qed simp

lemma call_step_decreases:
  assumes "call_step E g i s s'" "resolver_inv E g s"
  shows "steps_left s' < steps_left s"
proof -
  have i: "i < length (calls s)" using assms(1) by (rule call_step_index)
  have ok: "call_ok E g (calls s ! i)" using assms(2) i by (simp add: resolver_inv_def)
  obtain d c where s': "s' = update_call s i d c" and "call_rank c < call_rank (calls s ! i)"
    using assms(1) by (rule call_stepE)
      (use ok in \<open>auto simp: call_rank_def call_ok_def\<close>)
  with sum_list_decreases [OF i, of call_rank c] show ?thesis
    by (simp add: s' steps_left_def update_call_def)
qed

text \<open>A caller that has not returned can always take a step of its own, whatever its worker
  and all other calls do.\<close>

lemma caller_progress:
  assumes "i < length (calls s)" "\<forall>r. main (calls s ! i) \<noteq> MDone r"
  shows "\<exists>d c. call_step E g i s (update_call s i d c) \<and> main_rank (main c) < main_rank (main (calls s ! i))"
proof (cases "main (calls s ! i)")
  case MStart
  then show ?thesis using acquire_timeout [OF assms(1) refl, of E g]
    by (intro exI [of _ 0] exI [of _ "(calls s ! i)\<lparr>main := MDone (Inl EgressNotAllowedError)\<rparr>"]) simp
next
  case MAcquired
  then show ?thesis using in_time [OF assms(1) refl, of E g]
    by (intro exI [of _ 0] exI [of _ "(calls s ! i)\<lparr>main := MChecked\<rparr>"]) simp
next
  case MChecked
  then show ?thesis using start [OF assms(1) refl, of E g]
    by (intro exI [of _ 0] exI [of _ "(calls s ! i)\<lparr>main := MWaiting, worker := WRunning\<rparr>"]) simp
next
  case MWaiting
  then show ?thesis using get_timeout [OF assms(1) refl, of E g]
    by (intro exI [of _ 0] exI [of _ "(calls s ! i)\<lparr>main := MDone (await_resolution None)\<rparr>"]) simp
next
  case (MDone r)
  with assms(2) show ?thesis by simp
qed

end
