(* ===== verification/Address_Rules.thy ===== *)
theory Address_Rules
  imports Dns_Resolver
begin

text \<open>
  What the address check of \<open>src/egressweave/validation.py\<close> lets through, stated over
  address ranges: the special-purpose ranges no remote host may resolve to, the addresses
  a local name may resolve to, the equivalence of the bounded deduplicating loop with its
  reference, and the one special range the check does not cover.
\<close>

section \<open>Ranges no remote host may resolve to\<close>

text \<open>The special-purpose ranges of RFC 6890 and its successors that the documentation calls
  non-global: this network, private use, shared address space, loopback, link-local,
  documentation, benchmarking, multicast, reserved; for IPv6 also mapped, translated
  (local use), discard-only, 6to4, unique-local.\<close>

definition blocked_networks :: "ip_net list" where
  "blocked_networks =
     [Net4 0x00000000 8, Net4 0x0A000000 8, Net4 0x64400000 10, Net4 0x7F000000 8,
      Net4 0xA9FE0000 16, Net4 0xAC100000 12, Net4 0xC0000200 24, Net4 0xC0A80000 16,
      Net4 0xC6120000 15, Net4 0xC6336400 24, Net4 0xCB007100 24, Net4 0xE0000000 4,
      Net4 0xF0000000 4,
      Net6 0 8, Net6 0xFFFF00000000 96, Net6 0x0064FF9B000100000000000000000000 48,
      Net6 0x01000000000000000000000000000000 64, Net6 0x20010DB8000000000000000000000000 32,
      Net6 0x20020000000000000000000000000000 16, Net6 0xFC000000000000000000000000000000 7,
      Net6 0xFE800000000000000000000000000000 10, Net6 0xFF000000000000000000000000000000 8]"

text \<open>A range the tables of the standard library cover as a whole.\<close>

fun covered :: "ip_net \<Rightarrow> bool" where
  "covered (Net4 n q) \<longleftrightarrow>
     (list_ex (net_within (Net4 n q)) private_networks4
        \<and> list_all (net_disjoint (Net4 n q)) private_exceptions4)
     \<or> net_within (Net4 n q) (Net4 0xE0000000 4) \<or> net_within (Net4 n q) (Net4 0x64400000 10)"
| "covered (Net6 n q) \<longleftrightarrow>
     list_ex (net_within (Net6 n q)) reserved_networks6
     \<or> net_within (Net6 n q) (Net6 0xFF000000000000000000000000000000 8)
     \<or> (list_ex (net_within (Net6 n q)) private_networks6
        \<and> list_all (net_disjoint (Net6 n q)) private_exceptions6)"

lemma blocked_networks_covered: "list_all covered blocked_networks"
  by code_simp

lemma list_ex_within: "list_ex (net_within n) ns \<Longrightarrow> ip_in a n \<Longrightarrow> in_any a ns"
  by (induction ns) (auto simp: in_any_def dest: net_within_in)

lemma list_all_disjoint: "list_all (net_disjoint n) ns \<Longrightarrow> ip_in a n \<Longrightarrow> \<not> in_any a ns"
  by (induction ns) (auto simp: in_any_def dest: net_disjoint_in)

lemma mapped_is_reserved:
  assumes "ipv4_mapped (IPv6 w sc) = Some m"
  shows "is_reserved (IPv6 w sc)"
proof -
  have d: "drop_bit 32 (0xFFFF00000000 :: 128 word) = 0xFFFF" by code_simp
  have "ip_in (IPv6 w sc) (Net6 0xFFFF00000000 96)"
    using assms by (simp add: d split: if_splits)
  moreover have "net_within (Net6 0xFFFF00000000 96) (Net6 0 8)" by code_simp
  ultimately have "ip_in (IPv6 w sc) (Net6 0 8)" by (rule net_within_in [rotated])
  then show ?thesis by (simp add: in_any_def reserved_networks6_def)
qed

definition special_address :: "ip_addr \<Rightarrow> bool" where
  "special_address a \<longleftrightarrow> is_private a \<or> is_loopback a \<or> is_link_local a \<or> is_reserved a
     \<or> is_unspecified a \<or> is_multicast a \<or> \<not> is_global a"

lemma covered_special:
  assumes "covered n" "ip_in a n"
  shows "special_address a"
proof (cases a)
  case (IPv4 w)
  with assms(2) obtain x q where n: "n = Net4 x q" by (cases n) auto
  consider "list_ex (net_within n) private_networks4" "list_all (net_disjoint n) private_exceptions4"
    | "net_within n (Net4 0xE0000000 4)" | "net_within n (Net4 0x64400000 10)"
    using assms(1) by (auto simp: n)
  then show ?thesis
  proof cases
    case 1
    then have "is_private a"
      using list_ex_within [OF _ assms(2)] list_all_disjoint [OF _ assms(2)]
      by (simp add: IPv4 is_private4_def)
    then show ?thesis by (simp add: special_address_def)
  next
    case 2
    then have "ip_in a (Net4 0xE0000000 4)" using assms(2) by (rule net_within_in)
    then show ?thesis by (simp add: special_address_def IPv4)
  next
    case 3
    then have "ip_in a (Net4 0x64400000 10)" using assms(2) by (rule net_within_in)
    then show ?thesis by (simp add: special_address_def IPv4)
  qed
next
  case (IPv6 w sc)
  with assms(2) obtain x q where n: "n = Net6 x q" by (cases n) auto
  consider "list_ex (net_within n) reserved_networks6"
    | "net_within n (Net6 0xFF000000000000000000000000000000 8)"
    | "list_ex (net_within n) private_networks6" "list_all (net_disjoint n) private_exceptions6"
    using assms(1) by (auto simp: n)
  then show ?thesis
  proof cases
    case 1
    then show ?thesis
      using list_ex_within [OF _ assms(2)] by (simp add: special_address_def IPv6)
  next
    case 2
    then have "ip_in a (Net6 0xFF000000000000000000000000000000 8)"
      using assms(2) by (rule net_within_in)
    then show ?thesis by (simp add: special_address_def IPv6)
  next
    case 3
    then have "in_any a private_networks6" "\<not> in_any a private_exceptions6"
      using list_ex_within [OF _ assms(2)] list_all_disjoint [OF _ assms(2)] by blast+
    then show ?thesis
      using mapped_is_reserved [of w sc]
      by (cases "ipv4_mapped (IPv6 w sc)") (auto simp: special_address_def IPv6)
  qed
qed

lemma blocked_special: "n \<in> set blocked_networks \<Longrightarrow> ip_in a n \<Longrightarrow> special_address a"
  using blocked_networks_covered covered_special by (auto simp: list_all_iff)

lemma acceptable_remote:
  "h = [] \<or> remote_host E p h \<Longrightarrow> acceptable_address E p h a \<longleftrightarrow> \<not> special_address a"
  by (auto simp: acceptable_address_def remote_host_def special_address_def)

section \<open>Properties\<close>



text \<open>A local development name resolves only to loopback and only in local mode; an
  allowlisted single-label name only to loopback, RFC 1918 or unique-local addresses.\<close>

theorem local_address_scoped:
  assumes "validate_global_address E s p (Some h) = Inr t" "h \<noteq> []" "\<not> remote_host E p h"
  shows "\<exists>a. ip_of_text s = Some a \<and> t = text_of_ip a \<and> allow_local p
    \<and> (is_loopback a \<or> \<not> is_local_dev_host E h
          \<and> (\<exists>n \<in> {Net4 0x0A000000 8, Net4 0xAC100000 12, Net4 0xC0A80000 16,
                   Net6 0xFC000000000000000000000000000000 7}. ip_in a n))"
proof -
  from assms(1) obtain a where a: "ip_of_text s = Some a" "acceptable_address E p h a" "t = text_of_ip a"
    unfolding validate_global_address_Inr by blast
  with assms(2,3) have "allow_local p \<and> (is_loopback a \<or> \<not> is_local_dev_host E h \<and> is_private_local_address a)"
    by (auto simp: acceptable_address_def remote_host_def validation_is_allowlisted_local_host_def
        is_allowlisted_local_host_def Let_def split: if_splits)
  with a show ?thesis
    by (auto simp: is_private_local_address_def PRIVATE_LOCAL_NETWORKS_def)
qed

lemma local_address_scoped_witness:
  "\<exists>a. ip_of_text (u ''10.1.2.3'') = Some a \<and> u ''10.1.2.3'' = text_of_ip a \<and> allow_local example_policy
    \<and> (is_loopback a \<or> \<not> is_local_dev_host ascii_env (u ''db'')
          \<and> (\<exists>n \<in> {Net4 0x0A000000 8, Net4 0xAC100000 12, Net4 0xC0A80000 16,
                   Net6 0xFC000000000000000000000000000000 7}. ip_in a n))"
proof (rule local_address_scoped)
  show "validate_global_address ascii_env (u ''10.1.2.3'') example_policy (Some (u ''db''))
      = Inr (u ''10.1.2.3'')" by code_simp
  show "u ''db'' \<noteq> []" by (simp add: u_def)
  show "\<not> remote_host ascii_env example_policy (u ''db'')" by code_simp
qed

text \<open>The loop that validates, deduplicates and bounds the resolved addresses computes
  what its reference does: it fails if any address is refused or more distinct ones remain
  than the policy permits, and otherwise returns the first occurrences in order.\<close>

theorem bounded_unique_addresses_reference:
  assumes "policy_ok E p"
  shows "validate_bounded_unique_addresses E cs p h =
    (case emap (\<lambda>c. validate_global_address E c p (Some h)) cs of
       Inl _ \<Rightarrow> Inl EgressNotAllowedError
     | Inr xs \<Rightarrow> if int (card (set xs)) \<le> max_resolved_addresses p
                then Inr (first_occurrences xs) else Inl EgressNotAllowedError)"
  using assms by (intro bounded_unique_reference) (simp add: policy_ok_def)

lemma bounded_unique_addresses_reference_witness:
  "validate_bounded_unique_addresses ascii_env [u ''1.1.1.1'', u ''8.8.8.8'', u ''1.1.1.1''] example_policy
     (u ''api.example.com'') = Inr [u ''1.1.1.1'', u ''8.8.8.8'']"
  unfolding bounded_unique_addresses_reference [OF example_policy_ok] by code_simp

text \<open>Every deprecated IPv6 site-local address (\<open>fec0::/10\<close>) is accepted for a remote
  host: the check consults no property that covers this range.\<close>

theorem site_local_accepted:
  assumes "ip_of_text s = Some a" "ip_in a (Net6 0xFEC00000000000000000000000000000 10)"
    and "h = [] \<or> remote_host E p h"
  shows "validate_global_address E s p (Some h) = Inr (text_of_ip a)"
proof -
  let ?n = "Net6 0xFEC00000000000000000000000000000 10"
  obtain w sc where a: "a = IPv6 w sc" using assms(2) by (cases a) auto
  have tables: "list_all (net_disjoint ?n) (private_networks6 @ reserved_networks6
      @ [Net6 0xFE800000000000000000000000000000 10, Net6 0xFF000000000000000000000000000000 8,
         Net6 0 128, Net6 1 128])"
    by code_simp
  note out = list_all_disjoint [OF tables assms(2)]
  have w: "w \<noteq> 0" "w \<noteq> 1" using out by (auto simp: in_any_def a)
  have priv: "\<not> in_any a private_networks6" and res: "\<not> is_reserved a"
    using out by (auto simp: in_any_def a)
  have "ipv4_mapped (IPv6 w sc) = None"
    using mapped_is_reserved [of w sc] res a by (cases "ipv4_mapped (IPv6 w sc)") auto
  then have "\<not> special_address a"
    using out w priv res by (auto simp: special_address_def a in_any_def)
  with assms(1,3) show ?thesis
    by (simp add: validate_global_address_eq acceptable_remote)
qed

lemma site_local_accepted_witness:
  "validate_global_address ascii_env (u ''fec0::1'') example_policy (Some (u ''api.example.com''))
    = Inr (u ''fec0::1'')"
proof -
  have "ip_of_text (u ''fec0::1'') = Some (IPv6 0xFEC00000000000000000000000000001 None)"
    by code_simp
  moreover have "ip_in (IPv6 0xFEC00000000000000000000000000001 None)
      (Net6 0xFEC00000000000000000000000000000 10)" by code_simp
  moreover have "u ''api.example.com'' = [] \<or> remote_host ascii_env example_policy (u ''api.example.com'')"
    by code_simp
  ultimately have "validate_global_address ascii_env (u ''fec0::1'') example_policy
      (Some (u ''api.example.com'')) = Inr (text_of_ip (IPv6 0xFEC00000000000000000000000000001 None))"
    by (rule site_local_accepted)
  also have "text_of_ip (IPv6 0xFEC00000000000000000000000000001 None) = u ''fec0::1''" by code_simp
  finally show ?thesis .
qed

end
