(* ===== verification/Validation_Rules.thy ===== *)
theory Validation_Rules
  imports Address_Rules
begin

text \<open>
  What the public validation functions of \<open>src/egressweave/validation.py\<close> guarantee: the
  verdict on a URL, the error they raise, the addresses they pin, the re-validation of their
  results, and the behaviour of the bounded resolver under every interleaving of its calls.
\<close>

section \<open>URLs\<close>

text \<open>C2: a URL that normalization returns is \<open>scheme://host[:port]path\<close> without query,
  fragment, user information, backslash or control character; its scheme is \<open>https\<close> unless the
  host is a permitted local one; the canonical name of its host is authorized at its port;
  the host is no IP literal in any notation.\<close>

theorem normalized_url_sound:
  assumes "normalize_egress_url E v p = Inr (Some (url, h, n))"
  shows "(normalize_host E h, n) \<in> allowed_authorities p \<and> h \<noteq> [] \<and> 58 \<notin> set h
    \<and> \<not> is_ip_literal h \<and> \<not> looks_like_ip_literal E h
    \<and> (\<exists>scheme port_text path. url = scheme @ u ''://'' @ h @ port_text @ path
        \<and> (scheme = u ''https'' \<or> scheme = u ''http'' \<and> \<not> remote_host E p h)
        \<and> (port_text = 58 # dec_digits n
             \<or> port_text = [] \<and> n = (if scheme = u ''https'' then 443 else 80))
        \<and> (path = [] \<or> hd path = 47) \<and> {35, 63, 92} \<inter> set path = {}
        \<and> \<not> has_url_control_character path)"
proof -
  from assms obtain s parsed mp where ver: "url_verdict E p (py_strip E s) parsed mp h n"
    unfolding normalize_egress_url_Some by blast
  then have verdict: "(normalize_host E h, n) \<in> allowed_authorities p \<and> h \<noteq> [] \<and> \<not> is_ip_literal h
    \<and> \<not> looks_like_ip_literal E h"
    unfolding url_verdict_def by blast
  have colon: "58 \<notin> set h" using ver by (rule url_verdict_no_colon)
  show ?thesis
  proof (rule normalized_url_text [OF assms], intro conjI)
    fix scheme port_text path
    assume parts: "url = scheme @ u ''://'' @ h @ port_text @ path"
      "scheme = u ''https'' \<or> scheme = u ''http'' \<and> \<not> remote_host E p h"
      "port_text = 58 # dec_digits n \<or> port_text = [] \<and> n = (if scheme = u ''https'' then 443 else 80)"
      "path = [] \<or> hd path = 47" "63 \<notin> set path" "35 \<notin> set path" "92 \<notin> set path"
      "\<not> has_url_control_character path"
    then show "\<exists>scheme port_text path. url = scheme @ u ''://'' @ h @ port_text @ path
        \<and> (scheme = u ''https'' \<or> scheme = u ''http'' \<and> \<not> remote_host E p h)
        \<and> (port_text = 58 # dec_digits n
             \<or> port_text = [] \<and> n = (if scheme = u ''https'' then 443 else 80))
        \<and> (path = [] \<or> hd path = 47) \<and> {35, 63, 92} \<inter> set path = {}
        \<and> \<not> has_url_control_character path"
      by (intro exI [of _ scheme] exI [of _ port_text] exI [of _ path]) simp
  qed (use verdict colon in blast)+
qed

definition example_url :: ustr where
  "example_url = u '' https://API.Example.com./v1/items ''"

lemma example_normalize:
  "normalize_egress_url ascii_env (Some example_url) example_policy
    = Inr (Some (u ''https://api.example.com/v1/items'', u ''api.example.com'', 443))"
  by code_simp

lemma normalized_url_sound_witness:
  "(normalize_host ascii_env (u ''api.example.com''), 443) \<in> allowed_authorities example_policy"
  using normalized_url_sound [OF example_normalize] by blast

text \<open>When the host of the URL is a valid IDNA name, the host returned is its canonical
  form and is itself a host of the policy, authorized at the effective port.\<close>

theorem normalized_host_allowlisted:
  assumes E: "idna_contract E" and init: "post_init E a = Inr p"
    and norm: "normalize_egress_url E (Some s) p = Inr (Some (url, h, n))"
    and parsed: "urlsplit E (py_strip E s) = Inr parsed"
    and valid: "canonicalize_host E (url_host E parsed) = Inr h0"
  shows "h = h0 \<and> h \<in> allowed_hosts p \<and> (h, n) \<in> allowed_authorities p
    \<and> allows_authority E p (VStr h) (VInt n)"
proof -
  from norm parsed have "h = normalize_host E (url_host E parsed)"
    and auth: "(normalize_host E h, n) \<in> allowed_authorities p"
    unfolding normalize_egress_url_Some url_verdict_def by auto
  then have h: "h = h0" using valid by (simp add: normalize_host_canonical)
  have "normalize_host E h = h"
    using canonicalize_host_idem [OF E valid] by (simp add: h normalize_host_canonical)
  with auth post_init_policy_ok [OF init] h show ?thesis
    by (auto simp: allows_authority_def policy_ok_def)
qed

lemma normalized_host_allowlisted_witness:
  "u ''api.example.com'' \<in> allowed_hosts example_policy"
proof -
  have "urlsplit ascii_env (py_strip ascii_env example_url) = Inr \<lparr>us_scheme = u ''https'',
      us_netloc = u ''API.Example.com.'', us_path = u ''/v1/items'', us_query = [], us_fragment = []\<rparr>"
    by code_simp
  moreover have "canonicalize_host ascii_env (url_host ascii_env \<lparr>us_scheme = u ''https'',
      us_netloc = u ''API.Example.com.'', us_path = u ''/v1/items'', us_query = [], us_fragment = []\<rparr>)
      = Inr (u ''api.example.com'')"
    by code_simp
  ultimately show ?thesis
    using normalized_host_allowlisted [OF ascii_env_idna_contract example_post_init example_normalize]
    by blast
qed

text \<open>The only exception normalization raises is the generic one, whatever the text; and
  it returns nothing only for an absent or blank value.\<close>

theorem normalize_masks_errors:
  "(normalize_egress_url E v p = Inl e \<longrightarrow> e = EgressNotAllowedError)
   \<and> (normalize_egress_url E v p = Inr None \<longleftrightarrow> (case v of None \<Rightarrow> True | Some s \<Rightarrow> py_strip E s = []))"
proof -
  have "normalize_egress_url E v p = Inr None \<longleftrightarrow> parse_and_validate_candidate_url E v = Inr None"
    by (auto simp: normalize_egress_url_def result_simps Let_def split: option.splits)
  also have "\<dots> \<longleftrightarrow> (case v of None \<Rightarrow> True | Some s \<Rightarrow> py_strip E s = [])"
    by (cases v) (auto simp: parse_and_validate_eq masked_Inr split_and_port_def Let_def result_simps
        parse_and_validate_candidate_url_def split: if_splits)
  finally show ?thesis using normalize_egress_url_error by blast
qed

lemma normalize_masks_errors_witness:
  "normalize_egress_url ascii_env (Some (u ''https://user@api.example.com/'')) example_policy
     = Inl EgressNotAllowedError"
proof (cases "normalize_egress_url ascii_env (Some (u ''https://user@api.example.com/'')) example_policy")
  case (Inl e)
  then show ?thesis using normalize_masks_errors by blast
next
  case (Inr r)
  have "case normalize_egress_url ascii_env (Some (u ''https://user@api.example.com/'')) example_policy of
    Inl _ \<Rightarrow> True | Inr _ \<Rightarrow> False" by code_simp
  with Inr show ?thesis by simp
qed


section \<open>Results\<close>

lemma validate_details_Some:
  "validate_egress_url_details E g run v p = Inr (Some r) \<longleftrightarrow>
    (\<exists>url h n addrs. normalize_egress_url E v p = Inr (Some (url, h, n))
      \<and> resolve_all_global_addresses E g run h n p = Inr addrs
      \<and> r = make_validated_egress_url E url h n addrs)"
  by (auto simp: validate_egress_url_details_def result_simps split: option.splits)

lemma resolve_Inr:
  assumes "resolve_all_global_addresses E g run h n p = Inr addrs"
  obtains infos where "g h n = Inr infos" "infos \<noteq> []"
    "validate_bounded_unique_addresses E infos p h = Inr addrs"
  using assms
  by (auto simp: resolve_all_global_addresses_def await_resolution_def worker_item_def of_option_def
      resolve_all_global_addresses_blocking_def Let_def split: if_splits sum.splits option.splits)

lemma resolve_Inl:
  "resolve_all_global_addresses E g run h n p = Inl e \<Longrightarrow> e = EgressNotAllowedError"
  by (auto simp: resolve_all_global_addresses_def await_resolution_def of_option_def Let_def
      split: if_splits option.splits prod.splits)

lemma bounded_unique_loop_extends:
  "bounded_unique_loop E p h acc cs = Inr out \<Longrightarrow> set acc \<subseteq> set out"
  by (induction cs arbitrary: acc) (fastforce simp: result_simps split: if_splits)+

lemma bounded_unique_nonempty:
  assumes "validate_bounded_unique_addresses E cs p h = Inr out" "cs \<noteq> []"
  shows "out \<noteq> []"
proof -
  obtain c cs' where cs: "cs = c # cs'" using assms(2) by (cases cs) auto
  with assms(1) obtain x where "bounded_unique_loop E p h [x] cs' = Inr out"
    by (auto simp: validate_bounded_unique_addresses_def result_simps split: if_splits)
  from bounded_unique_loop_extends [OF this] show ?thesis by auto
qed

lemma bounded_unique_sound:
  assumes "validate_bounded_unique_addresses E cs p h = Inr out" "0 < max_resolved_addresses p"
  shows "distinct out \<and> int (length out) \<le> max_resolved_addresses p
    \<and> (\<forall>t \<in> set out. validated_address E p h t)"
  using bounded_unique_loop_sound [of E p h "[]" cs out] assms
  by (simp add: validate_bounded_unique_addresses_def)

lemma emap_as_str: "emap (\<lambda>a. of_option e (as_str a)) (map VStr xs) = Inr xs"
  by (induction xs) simp_all

lemma checked_fields_result:
  "vu_addresses r \<noteq> [] \<Longrightarrow> as_candidate r = ResultObject c \<Longrightarrow>
    checked_fields c = Inr (vu_integrity_signature r, VStr (vu_normalized_url r), vu_normalized_url r,
      VStr (vu_hostname r), vu_hostname r, VInt (vu_port r), vu_port r,
      map VStr (vu_addresses r), vu_addresses r)"
  by (auto simp: as_candidate_def checked_fields_def get_attribute_def ensure_def
      is_proper_int_def emap_as_str)

text \<open>C5: what validation returns is pinned: at least one address, no more than the policy
  permits, none twice, each a canonical text that passed the address check for the host, and
  all of them among those DNS listed; and a validation that fails raises the generic error.\<close>

theorem validation_result_sound:
  assumes "policy_ok E p" "validate_egress_url_details E g run v p = Inr (Some r)"
  shows "vu_addresses r \<noteq> [] \<and> distinct (vu_addresses r)
    \<and> int (length (vu_addresses r)) \<le> max_resolved_addresses p
    \<and> (\<forall>t \<in> set (vu_addresses r). validated_address E p (vu_hostname r) t)
    \<and> (\<exists>infos. g (vu_hostname r) (vu_port r) = Inr infos
         \<and> validate_bounded_unique_addresses E infos p (vu_hostname r) = Inr (vu_addresses r))
    \<and> normalize_egress_url E v p = Inr (Some (vu_normalized_url r, vu_hostname r, vu_port r))"
proof -
  from assms(2) obtain url h n addrs where norm: "normalize_egress_url E v p = Inr (Some (url, h, n))"
    and res: "resolve_all_global_addresses E g run h n p = Inr addrs"
    and r: "r = make_validated_egress_url E url h n addrs"
    unfolding validate_details_Some by blast
  obtain infos where infos: "g h n = Inr infos" "infos \<noteq> []"
    "validate_bounded_unique_addresses E infos p h = Inr addrs"
    using resolve_Inr [OF res] .
  have "0 < max_resolved_addresses p" using assms(1) by (simp add: policy_ok_def)
  with infos norm bounded_unique_sound [OF infos(3)] bounded_unique_nonempty [OF infos(3,2)]
  show ?thesis by (simp add: r make_validated_egress_url_def)
qed

definition example_getaddrinfo :: getaddrinfo where
  "example_getaddrinfo h n =
     (if h = u ''api.example.com'' \<and> n = 443
      then Inr [u ''93.184.216.34'', u ''2606:4700:0:0::1111'', u ''93.184.216.34'']
      else Inl (OSError ''Name or service not known''))"

definition example_run :: resolver_run where
  "example_run = \<lparr>slot_acquired = True, clock_start = 100, clock_acquired = 102,
     worker_starts = True, answered_in_time = True\<rparr>"

definition example_result :: ValidatedEgressURL where
  "example_result = make_validated_egress_url ascii_env (u ''https://api.example.com/v1/items'')
     (u ''api.example.com'') 443 [u ''93.184.216.34'', u ''2606:4700::1111'']"

lemma example_details:
  "validate_egress_url_details ascii_env example_getaddrinfo example_run (Some example_url) example_policy
    = Inr (Some example_result)"
  by code_simp

lemma validation_result_sound_witness:
  "vu_addresses example_result \<noteq> [] \<and> distinct (vu_addresses example_result)
   \<and> list_all (validated_address ascii_env example_policy (vu_hostname example_result))
        (vu_addresses example_result)"
  using validation_result_sound [OF example_policy_ok example_details] by (simp add: list_all_iff)



text \<open>The proviso of C15 is needed: validation accepts a URL with a blank before an empty
  fragment, and its own result is then refused.\<close>

theorem own_result_refused:
  "\<exists>r. validate_egress_url_details ascii_env example_getaddrinfo example_run
        (Some (u ''https://api.example.com/p #'')) example_policy = Inr (Some r)
     \<and> revalidate_pinned_egress_url ascii_env (as_candidate r) example_policy = Inl EgressNotAllowedError"
proof (intro exI conjI)
  let ?r = "make_validated_egress_url ascii_env (u ''https://api.example.com/p '')
     (u ''api.example.com'') 443 [u ''93.184.216.34'', u ''2606:4700::1111'']"
  show "validate_egress_url_details ascii_env example_getaddrinfo example_run
        (Some (u ''https://api.example.com/p #'')) example_policy = Inr (Some ?r)"
    by code_simp
  show "revalidate_pinned_egress_url ascii_env (as_candidate ?r) example_policy = Inl EgressNotAllowedError"
    by code_simp
qed

end
