(* ===== verification/Resolver_Rules.thy ===== *)
theory Resolver_Rules
  imports Validation_Rules
begin

text \<open>
  The integrity of handed-back results (\<open>_revalidate_pinned_egress_url\<close>) and the bounded
  resolver of \<open>src/egressweave/validation.py\<close> under every interleaving of its calls.
\<close>

section \<open>Handed-back results\<close>

lemma checked_fields_Inr:
  assumes "checked_fields c = Inr (signature, uv, url, hv, host, pv, port, avs, addrs)"
  shows "(\<exists>sv. cf_signature c = Some sv \<and> as_bytes sv = Some signature)
    \<and> cf_normalized_url c = Some uv \<and> as_str uv = Some url
    \<and> cf_hostname c = Some hv \<and> as_str hv = Some host
    \<and> cf_port c = Some pv \<and> as_int pv = Some port \<and> \<not> is_bool pv
    \<and> (\<exists>tv. cf_addresses c = Some tv \<and> as_tuple tv = Some avs) \<and> avs \<noteq> []
    \<and> emap (\<lambda>a. of_option EgressNotAllowedError (as_str a)) avs = Inr addrs"
  using assms
  by (auto simp: checked_fields_def result_simps get_attribute_def is_proper_int_def
      split: option.splits)

lemma revalidate_Inr:
  assumes "revalidate_pinned_egress_url E (ResultObject c) p = Inr v"
  obtains signature uv hv pv avs addrs where
    "checked_fields c = Inr (signature, uv, vu_normalized_url v, hv, vu_hostname v, pv, vu_port v, avs, addrs)"
    "signature = validated_egress_url_signature E uv hv pv avs"
    "normalize_egress_url E (Some (vu_normalized_url v)) p
      = Inr (Some (vu_normalized_url v, vu_hostname v, vu_port v))"
    "validate_bounded_unique_addresses E addrs p (vu_hostname v) = Inr (vu_addresses v)"
    "v = make_validated_egress_url E (vu_normalized_url v) (vu_hostname v) (vu_port v) (vu_addresses v)"
proof -
  from assms obtain signature uv url hv host pv port avs addrs where
    f: "checked_fields c = Inr (signature, uv, url, hv, host, pv, port, avs, addrs)"
    by (cases "checked_fields c") (auto simp: revalidate_pinned_egress_url_def)
  from assms have sig: "signature = validated_egress_url_signature E uv hv pv avs"
    by (auto simp: revalidate_pinned_egress_url_def f Let_def split: if_splits)
  from assms sig obtain r where nr: "normalize_egress_url E (Some url) p = Inr r"
    by (cases "normalize_egress_url E (Some url) p")
      (auto simp: revalidate_pinned_egress_url_def f Let_def split: if_splits)
  with assms sig obtain url' host' port' where r: "r = Some (url', host', port')"
    by (cases r) (auto simp: revalidate_pinned_egress_url_def f Let_def split: if_splits)
  from assms sig obtain out where n: "normalize_egress_url E (Some url) p = Inr (Some (url, host, port))"
    and a: "validate_bounded_unique_addresses E addrs p host = Inr out"
    and v: "v = make_validated_egress_url E url host port out"
    by (auto simp: revalidate_pinned_egress_url_def f nr r Let_def result_simps split: if_splits)
  have "vu_normalized_url v = url" "vu_hostname v = host" "vu_port v = port" "vu_addresses v = out"
    by (simp_all add: v make_validated_egress_url_def)
  with f sig n a v show thesis by (intro that) simp_all
qed

text \<open>C3: re-validation accepts only an object of the result type whose signature is the
  process's own for the very field values, whose URL is normalized and authorized by the
  policy now in force, and whose addresses pass the check now; it returns a freshly signed
  result with those fields.\<close>

theorem revalidation_sound:
  assumes "revalidate_pinned_egress_url E cand p = Inr v" "policy_ok E p"
  shows "\<exists>c uv hv pv avs sv. cand = ResultObject c
    \<and> cf_signature c = Some sv \<and> as_bytes sv = Some (validated_egress_url_signature E uv hv pv avs)
    \<and> cf_normalized_url c = Some uv \<and> as_str uv = Some (vu_normalized_url v)
    \<and> cf_hostname c = Some hv \<and> as_str hv = Some (vu_hostname v)
    \<and> cf_port c = Some pv \<and> as_int pv = Some (vu_port v) \<and> \<not> is_bool pv
    \<and> cf_addresses c = Some (VTuple avs)
    \<and> normalize_egress_url E (Some (vu_normalized_url v)) p
        = Inr (Some (vu_normalized_url v, vu_hostname v, vu_port v))
    \<and> vu_addresses v \<noteq> [] \<and> int (length (vu_addresses v)) \<le> max_resolved_addresses p
    \<and> (\<forall>t \<in> set (vu_addresses v). validated_address E p (vu_hostname v) t)
    \<and> vu_integrity_signature v = validated_egress_url_signature E (VStr (vu_normalized_url v))
        (VStr (vu_hostname v)) (VInt (vu_port v)) (map VStr (vu_addresses v))"
proof -
  from assms(1) obtain c where cand: "cand = ResultObject c"
    by (cases cand) (simp_all add: revalidate_pinned_egress_url_def)
  obtain signature uv hv pv avs addrs where
    f: "checked_fields c = Inr (signature, uv, vu_normalized_url v, hv, vu_hostname v, pv, vu_port v, avs, addrs)"
    and sig: "signature = validated_egress_url_signature E uv hv pv avs"
    and n: "normalize_egress_url E (Some (vu_normalized_url v)) p
      = Inr (Some (vu_normalized_url v, vu_hostname v, vu_port v))"
    and a: "validate_bounded_unique_addresses E addrs p (vu_hostname v) = Inr (vu_addresses v)"
    and v: "v = make_validated_egress_url E (vu_normalized_url v) (vu_hostname v) (vu_port v) (vu_addresses v)"
    using assms(1) unfolding cand by (rule revalidate_Inr)
  note fields = checked_fields_Inr [OF f]
  then obtain sv tv where sv: "cf_signature c = Some sv" "as_bytes sv = Some signature"
    and tv: "cf_addresses c = Some tv" "as_tuple tv = Some avs" by blast
  have tv': "tv = VTuple avs" using tv(2) by (cases tv) auto
  have "addrs \<noteq> []" using fields emap_Inr_length by fastforce
  then have "vu_addresses v \<noteq> []" using bounded_unique_nonempty [OF a] by blast
  moreover have "0 < max_resolved_addresses p" using assms(2) by (simp add: policy_ok_def)
  moreover have "vu_integrity_signature v = validated_egress_url_signature E (VStr (vu_normalized_url v))
        (VStr (vu_hostname v)) (VInt (vu_port v)) (map VStr (vu_addresses v))"
    by (subst v) (simp add: make_validated_egress_url_def)
  ultimately show ?thesis
    using cand fields sv sig tv tv' n bounded_unique_sound [OF a]
    by (intro exI [of _ c] exI [of _ uv] exI [of _ hv] exI [of _ pv] exI [of _ avs] exI [of _ sv]) simp
qed

lemma example_revalidate:
  "revalidate_pinned_egress_url ascii_env (as_candidate example_result) example_policy = Inr example_result"
  by code_simp

lemma revalidation_sound_witness:
  "vu_addresses example_result \<noteq> []
   \<and> int (length (vu_addresses example_result)) \<le> max_resolved_addresses example_policy"
  using revalidation_sound [OF example_revalidate example_policy_ok] by blast

text \<open>A signature cannot be moved to other fields: if an accepted object carries the
  signature that was issued for a result, and the MAC tells the two payloads apart unless they
  are equal, then all fields of the object are those of the result.\<close>

theorem signature_binds_fields:
  assumes "revalidate_pinned_egress_url E (ResultObject c) p = Inr v"
    and "cf_signature c = Some (VBytes (vu_integrity_signature
           (make_validated_egress_url E url h n addrs)))"
    and fields: "cf_normalized_url c = Some uv" "cf_hostname c = Some hv" "cf_port c = Some pv"
      "cf_addresses c = Some (VTuple avs)"
    and mac: "hmac_digest E (repr_utf8 E (VTuple [uv, hv, pv, VTuple avs]))
        = hmac_digest E (repr_utf8 E (VTuple [VStr url, VStr h, VInt n, VTuple (map VStr addrs)]))
      \<Longrightarrow> VTuple [uv, hv, pv, VTuple avs] = VTuple [VStr url, VStr h, VInt n, VTuple (map VStr addrs)]"
  shows "uv = VStr url \<and> hv = VStr h \<and> pv = VInt n \<and> avs = map VStr addrs"
proof -
  obtain signature uv' url' hv' host' pv' port' avs' addrs' where
    f: "checked_fields c = Inr (signature, uv', url', hv', host', pv', port', avs', addrs')"
    and sig: "signature = validated_egress_url_signature E uv' hv' pv' avs'"
    using assms(1) by (rule revalidate_Inr)
  have "uv' = uv" "hv' = hv" "pv' = pv" "avs' = avs"
    "signature = vu_integrity_signature (make_validated_egress_url E url h n addrs)"
    using checked_fields_Inr [OF f] fields assms(2) by auto
  with sig have "hmac_digest E (repr_utf8 E (VTuple [uv, hv, pv, VTuple avs]))
      = hmac_digest E (repr_utf8 E (VTuple [VStr url, VStr h, VInt n, VTuple (map VStr addrs)]))"
    by (simp only: validated_egress_url_signature_def make_validated_egress_url_def
        ValidatedEgressURL.select_convs)
  from mac [OF this] show ?thesis by simp
qed

lemma signature_binds_fields_witness:
  "VStr (u ''https://api.example.com/v1/items'') = VStr (u ''https://api.example.com/v1/items'')"
proof -
  let ?c = "\<lparr>cf_signature = Some (VBytes (vu_integrity_signature example_result)),
     cf_normalized_url = Some (VStr (u ''https://api.example.com/v1/items'')),
     cf_hostname = Some (VStr (u ''api.example.com'')), cf_port = Some (VInt 443),
     cf_addresses = Some (VTuple (map VStr [u ''93.184.216.34'', u ''2606:4700::1111'']))\<rparr>"
  have "as_candidate example_result = ResultObject ?c"
    by (simp add: as_candidate_def example_result_def make_validated_egress_url_def)
  then have r: "revalidate_pinned_egress_url ascii_env (ResultObject ?c) example_policy = Inr example_result"
    using example_revalidate by simp
  have "VStr (u ''https://api.example.com/v1/items'') = VStr (u ''https://api.example.com/v1/items'')
    \<and> VStr (u ''api.example.com'') = VStr (u ''api.example.com'') \<and> VInt 443 = VInt 443
    \<and> map VStr [u ''93.184.216.34'', u ''2606:4700::1111'']
      = map VStr [u ''93.184.216.34'', u ''2606:4700::1111'']"
    by (rule signature_binds_fields [OF r]) (simp_all add: example_result_def)
  then show ?thesis by blast
qed

section \<open>The resolver under every interleaving\<close>

text \<open>C4: however calls and workers interleave, the semaphore counts 32 minus the slots held,
  never below zero and never above 32: at most 32 worker threads resolve at a time, and no
  release exceeds the bound of the \<open>BoundedSemaphore\<close>.\<close>

theorem resolver_slots_bounded:
  assumes "reachable E g s"
  shows "0 \<le> slots s \<and> slots s \<le> 32
    \<and> slots s + int (length (filter holds_slot (calls s))) = 32
    \<and> length (filter (\<lambda>c. worker c = WRunning) (calls s)) \<le> 32"
proof -
  have inv: "resolver_inv E g s" using assms by (rule reachable_inv)
  have "length (filter P xs) \<le> length (filter Q xs)" if "\<And>x. P x \<Longrightarrow> Q x" for P Q and xs :: "call list"
    using that by (induction xs) auto
  then have "length (filter (\<lambda>c. worker c = WRunning) (calls s)) \<le> length (filter holds_slot (calls s))"
    by (simp add: holds_slot_def)
  with inv show ?thesis
    by (simp add: resolver_inv_def MAX_CONCURRENT_DNS_RESOLUTIONS_def)
qed

definition example_arrived :: resolver where
  "example_arrived =
     \<lparr>slots = 32, calls = [new_call (u ''api.example.com'') 443 example_policy]\<rparr>"

lemma example_arrived_reachable: "reachable ascii_env example_getaddrinfo example_arrived"
proof -
  have "resolver_step ascii_env example_getaddrinfo initial_resolver
      (initial_resolver\<lparr>calls := calls initial_resolver
        @ [new_call (u ''api.example.com'') 443 example_policy]\<rparr>)"
    by (rule arrive)
  also have "initial_resolver\<lparr>calls := calls initial_resolver
        @ [new_call (u ''api.example.com'') 443 example_policy]\<rparr> = example_arrived"
    by (simp add: initial_resolver_def example_arrived_def MAX_CONCURRENT_DNS_RESOLUTIONS_def)
  finally show ?thesis using init step by blast
qed

definition example_acquired :: resolver where
  "example_acquired = update_call example_arrived 0 (-1)
     ((new_call (u ''api.example.com'') 443 example_policy)\<lparr>main := MAcquired\<rparr>)"

lemma example_acquired_step:
  "call_step ascii_env example_getaddrinfo 0 example_arrived example_acquired"
  unfolding example_acquired_def
  by (rule acquire) (simp_all add: example_arrived_def new_call_def)

lemma example_acquired_reachable: "reachable ascii_env example_getaddrinfo example_acquired"
  using example_arrived_reachable of_call [OF example_acquired_step] by (rule step)

lemma resolver_slots_bounded_witness:
  "0 \<le> slots example_acquired \<and> slots example_acquired + int (length (filter holds_slot (calls example_acquired))) = 32"
  using resolver_slots_bounded [OF example_acquired_reachable] by blast

text \<open>C7: the threaded resolver refines the sequential description of one call: whatever a
  caller returns in some interleaving, \<open>_resolve_all_global_addresses\<close> returns for some
  observation of the clock, the semaphore, the thread start and the queue.\<close>

theorem resolver_refines_function:
  assumes "reachable E g s" "c \<in> set (calls s)" "main c = MDone r"
  shows "\<exists>run. r = resolve_all_global_addresses E g run (req_host c) (req_port c) (req_policy c)
    \<and> (0 < dns_timeout_seconds (req_policy c) \<longrightarrow> clock_start run \<le> clock_acquired run)"
proof -
  let ?t = "dns_timeout_seconds (req_policy c)"
  define failed where "failed = \<lparr>slot_acquired = False, clock_start = 0, clock_acquired = 0,
    worker_starts = True, answered_in_time = True\<rparr>"
  define answered where "answered = \<lparr>slot_acquired = True, clock_start = 0,
    clock_acquired = (if 0 < ?t then ?t / 2 else ?t - 1), worker_starts = True, answered_in_time = True\<rparr>"
  from reachable_inv [OF assms(1)] assms(2,3)
  have "r = Inl EgressNotAllowedError \<or> r = await_resolution (worker_item (call_work E g c))"
    by (auto simp: resolver_inv_def call_ok_def)
  then show ?thesis
  proof
    assume "r = Inl EgressNotAllowedError"
    then show ?thesis
      by (intro exI [of _ failed]) (simp add: resolve_all_global_addresses_def failed_def)
  next
    assume "r = await_resolution (worker_item (call_work E g c))"
    then show ?thesis
      by (intro exI [of _ answered])
        (simp add: resolve_all_global_addresses_def answered_def call_work_def Let_def)
  qed
qed

definition example_timed_out :: resolver where
  "example_timed_out = update_call example_arrived 0 0
     ((new_call (u ''api.example.com'') 443 example_policy)\<lparr>main := MDone (Inl EgressNotAllowedError)\<rparr>)"

lemma example_timed_out_reachable: "reachable ascii_env example_getaddrinfo example_timed_out"
proof -
  have "call_step ascii_env example_getaddrinfo 0 example_arrived example_timed_out"
    unfolding example_timed_out_def
    by (rule acquire_timeout) (simp_all add: example_arrived_def new_call_def)
  then show ?thesis using example_arrived_reachable of_call step by blast
qed

lemma resolver_refines_function_witness:
  "\<exists>run. Inl EgressNotAllowedError = resolve_all_global_addresses ascii_env example_getaddrinfo run
       (u ''api.example.com'') 443 example_policy"
proof -
  let ?c = "(new_call (u ''api.example.com'') 443 example_policy)\<lparr>main := MDone (Inl EgressNotAllowedError)\<rparr>"
  have "?c \<in> set (calls example_timed_out)"
    by (simp add: example_timed_out_def update_call_def example_arrived_def)
  from resolver_refines_function [OF example_timed_out_reachable this, of "Inl EgressNotAllowedError"]
  show ?thesis by (auto simp: new_call_def)
qed

text \<open>C8: every call returns and no slot is lost. A step of a call uses up its finite budget
  of steps; a caller that has not returned has a step of its own whatever its worker does;
  and once all callers returned and all workers ended, all 32 slots are free.\<close>

theorem resolver_progress:
  assumes "reachable E g s"
  shows "(call_step E g i s s' \<longrightarrow> steps_left s' < steps_left s)
    \<and> (i < length (calls s) \<and> (\<forall>r. main (calls s ! i) \<noteq> MDone r) \<longrightarrow>
        (\<exists>d c. call_step E g i s (update_call s i d c) \<and> main_rank (main c) < main_rank (main (calls s ! i))))
    \<and> ((\<forall>c \<in> set (calls s). (\<exists>r. main c = MDone r) \<and> worker c \<in> {WNone, WFinished}) \<longrightarrow> slots s = 32)"
proof (intro conjI impI)
  have inv: "resolver_inv E g s" using assms by (rule reachable_inv)
  show "call_step E g i s s' \<Longrightarrow> steps_left s' < steps_left s"
    using call_step_decreases inv by blast
  show "i < length (calls s) \<and> (\<forall>r. main (calls s ! i) \<noteq> MDone r) \<Longrightarrow>
        \<exists>d c. call_step E g i s (update_call s i d c) \<and> main_rank (main c) < main_rank (main (calls s ! i))"
    using caller_progress by blast
  assume quiet: "\<forall>c \<in> set (calls s). (\<exists>r. main c = MDone r) \<and> worker c \<in> {WNone, WFinished}"
  then have "filter holds_slot (calls s) = []"
    by (fastforce simp: filter_empty_conv holds_slot_def)
  with inv show "slots s = 32"
    by (simp add: resolver_inv_def MAX_CONCURRENT_DNS_RESOLUTIONS_def)
qed

lemma resolver_progress_witness:
  "steps_left example_acquired < steps_left example_arrived
   \<and> (\<exists>d c. call_step ascii_env example_getaddrinfo 0 example_acquired (update_call example_acquired 0 d c)
        \<and> main_rank (main c) < 3)"
proof -
  have "0 < length (calls example_acquired)" "main (calls example_acquired ! 0) = MAcquired"
    by (simp_all add: example_acquired_def update_call_def example_arrived_def)
  moreover note resolver_progress [OF example_acquired_reachable, of 0]
  ultimately have "\<exists>d c. call_step ascii_env example_getaddrinfo 0 example_acquired (update_call example_acquired 0 d c)
        \<and> main_rank (main c) < 3" by simp
  with resolver_progress [OF example_arrived_reachable] example_acquired_step show ?thesis by blast
qed

end
