(* ===== verification/Pinned_Backend.thy ===== *)
theory Pinned_Backend
  imports Resolver_Rules
begin

text \<open>
  Model of the network backends that open the TCP connections, \<open>_PinnedEgressSyncNetworkBackend\<close>
  of \<open>src/egressweave/sync_transport.py\<close> and the parts \<open>_PinnedEgressNetworkBackend\<close> of
  \<open>src/egressweave/transport.py\<close> has in common with it; the event loop of the asynchronous
  connect is in \<open>Async_Connect\<close>. The monotonic clock (its successive readings) and
  HTTPCore's own \<open>connect_tcp\<close> (the stream or the exception of each successive call) are
  arguments. Times are rationals.
\<close>

section \<open>State\<close>

record network_backend =
  nb_hostname :: ustr
  nb_port :: int
  nb_policy :: EgressPolicy
  nb_addresses :: "ustr list"

definition EGRESS_NOT_ALLOWED :: string where
  "EGRESS_NOT_ALLOWED = ''egress URL is not allowed''"

definition make_sync_network_backend ::
  "pyenv \<Rightarrow> ustr \<Rightarrow> int \<Rightarrow> ustr list \<Rightarrow> EgressPolicy \<Rightarrow> network_backend res" where
  "make_sync_network_backend E hostname port addresses p =
     (if addresses = [] then Inl EgressNotAllowedError
      else ebind (emap (\<lambda>address. validate_global_address E address p (Some hostname)) addresses)
        (\<lambda>rechecked. Inr \<lparr>nb_hostname = hostname, nb_port = port, nb_policy = p,
                          nb_addresses = rechecked\<rparr>))"

definition make_async_network_backend ::
  "pyenv \<Rightarrow> ustr \<Rightarrow> int \<Rightarrow> ustr list \<Rightarrow> EgressPolicy \<Rightarrow> network_backend res" where
  "make_async_network_backend E hostname port addresses p =
     (if addresses = [] then Inl EgressNotAllowedError
      else ebind (emap (\<lambda>address. validate_global_address E address p (Some hostname)) addresses)
        (\<lambda>rechecked. Inr \<lparr>nb_hostname = hostname, nb_port = port, nb_policy = p,
                          nb_addresses = rechecked\<rparr>))"

section \<open>Connecting\<close>

datatype host_arg = HostText ustr | HostBytes bytes

definition sync_verify_host_port ::
  "pyenv \<Rightarrow> network_backend \<Rightarrow> host_arg \<Rightarrow> int \<Rightarrow> unit res" where
  "sync_verify_host_port E b host port =
     ebind (case host of
              HostBytes h \<Rightarrow> of_option UnicodeDecodeError (decode_ascii h)
            | HostText h \<Rightarrow> Inr h) (\<lambda>host_text.
     let normalized_host = py_rstrip 46 (py_lower E host_text) in
     if normalized_host \<noteq> nb_hostname b \<or> port \<noteq> nb_port b
     then Inl (OSError ''egress URL host changed after validation'')
     else Inr ())"

definition async_verify_host_port ::
  "pyenv \<Rightarrow> network_backend \<Rightarrow> host_arg \<Rightarrow> int \<Rightarrow> unit res" where
  "async_verify_host_port E b host port =
     ebind (case host of
              HostBytes h \<Rightarrow> of_option UnicodeDecodeError (decode_ascii h)
            | HostText h \<Rightarrow> Inr h) (\<lambda>host_text.
     let normalized_host = py_rstrip 46 (py_lower E host_text) in
     if normalized_host \<noteq> nb_hostname b \<or> port \<noteq> nb_port b
     then Inl (OSError ''egress URL host changed after validation'')
     else Inr ())"

text \<open>The arguments of one call of the wrapped backend's \<open>connect_tcp\<close>.\<close>

record dial =
  dial_address :: ustr
  dial_port :: int
  dial_timeout :: "rat option"
  dial_local_address :: "ustr option"
  dial_socket_options :: pyval

text \<open>The loop over the pinned addresses. It returns the stream or the exception, and every
  call it made of the wrapped backend.\<close>

fun sync_connect_loop ::
  "pyenv \<Rightarrow> network_backend \<Rightarrow> (nat \<Rightarrow> rat) \<Rightarrow> (nat \<Rightarrow> dial \<Rightarrow> nat res) \<Rightarrow> int \<Rightarrow> rat option
    \<Rightarrow> ustr option \<Rightarrow> pyval \<Rightarrow> nat \<Rightarrow> ustr list \<Rightarrow> nat res \<times> dial list" where
  "sync_connect_loop E b clock backend port deadline local_address socket_options k [] =
     (Inl (OSError EGRESS_NOT_ALLOWED), [])"
| "sync_connect_loop E b clock backend port deadline local_address socket_options k (address # rest) =
     (case validate_global_address E address (nb_policy b) (Some (nb_hostname b)) of
        Inl e \<Rightarrow> (Inl e, [])
      | Inr pinned_address \<Rightarrow>
          (let remaining_timeout = map_option (\<lambda>d. d - clock k) deadline in
           if (case remaining_timeout of None \<Rightarrow> False | Some r \<Rightarrow> r \<le> 0)
           then (Inl (OSError EGRESS_NOT_ALLOWED), [])
           else
             (let call = \<lparr>dial_address = pinned_address, dial_port = port,
                          dial_timeout = remaining_timeout, dial_local_address = local_address,
                          dial_socket_options = socket_options\<rparr> in
              case backend k call of
                Inr stream \<Rightarrow> (Inr stream, [call])
              | Inl e \<Rightarrow>
                  if is_Exception e
                  then (case sync_connect_loop E b clock backend port deadline local_address
                              socket_options (Suc k) rest of
                          (r, made) \<Rightarrow> (r, call # made))
                  else (Inl e, [call]))))"

definition sync_connect_tcp ::
  "pyenv \<Rightarrow> network_backend \<Rightarrow> (nat \<Rightarrow> rat) \<Rightarrow> (nat \<Rightarrow> dial \<Rightarrow> nat res) \<Rightarrow> host_arg \<Rightarrow> int
    \<Rightarrow> rat option \<Rightarrow> ustr option \<Rightarrow> pyval \<Rightarrow> nat res \<times> dial list" where
  "sync_connect_tcp E b clock backend host port timeout local_address socket_options =
     (case sync_verify_host_port E b host port of
        Inl e \<Rightarrow> (Inl e, [])
      | Inr _ \<Rightarrow>
          (let deadline = map_option (\<lambda>t. clock 0 + max t 0) timeout in
           sync_connect_loop E b clock backend port deadline local_address socket_options 1
             (nb_addresses b)))"

definition sync_connect_unix_socket :: "ustr \<Rightarrow> nat res" where
  "sync_connect_unix_socket path = Inl (OSError ''egress URL must not use Unix sockets'')"

definition async_connect_unix_socket :: "ustr \<Rightarrow> nat res" where
  "async_connect_unix_socket path = Inl (OSError ''egress URL must not use Unix sockets'')"

section \<open>Facts\<close>

definition backend_ok :: "pyenv \<Rightarrow> network_backend \<Rightarrow> bool" where
  "backend_ok E b \<longleftrightarrow> nb_addresses b \<noteq> []
     \<and> list_all (validated_address E (nb_policy b) (nb_hostname b)) (nb_addresses b)"

lemma make_network_backend_ok:
  assumes "make_sync_network_backend E h n addrs p = Inr b"
  shows "backend_ok E b \<and> nb_hostname b = h \<and> nb_port b = n \<and> nb_policy b = p"
proof -
  from assms obtain out where em: "emap (\<lambda>a. validate_global_address E a p (Some h)) addrs = Inr out"
    and b: "b = \<lparr>nb_hostname = h, nb_port = n, nb_policy = p, nb_addresses = out\<rparr>" and ne: "addrs \<noteq> []"
    by (auto simp: make_sync_network_backend_def result_simps split: if_splits)
  have "list_all (validated_address E p h) out"
    using emap_Inr_set [OF em] validate_global_address_validated by (auto simp: list_all_iff)
  moreover have "out \<noteq> []" using emap_Inr_length [OF em] ne by auto
  ultimately show ?thesis by (simp add: b backend_ok_def)
qed

text \<open>Rechecking addresses that passed the check already changes nothing.\<close>

lemma recheck_validated:
  assumes "list_all (validated_address E p h) addrs"
  shows "emap (\<lambda>a. validate_global_address E a p (Some h)) addrs = Inr addrs"
  using emap_total [of addrs "\<lambda>a. validate_global_address E a p (Some h)" "\<lambda>a. a"] assms
  by (simp add: list_all_iff validated_address_iff)

lemma make_network_backend_total:
  "list_all (validated_address E p h) addrs \<Longrightarrow> addrs \<noteq> [] \<Longrightarrow>
    make_sync_network_backend E h n addrs p
      = Inr \<lparr>nb_hostname = h, nb_port = n, nb_policy = p, nb_addresses = addrs\<rparr>"
  by (simp add: make_sync_network_backend_def recheck_validated)

lemma make_async_network_backend_eq:
  "make_async_network_backend = make_sync_network_backend"
  by (intro ext) (simp add: make_async_network_backend_def make_sync_network_backend_def)

lemma async_verify_host_port_eq: "async_verify_host_port = sync_verify_host_port"
  by (intro ext) (simp add: async_verify_host_port_def sync_verify_host_port_def)

lemma sync_verify_host_port_Inr:
  "sync_verify_host_port E b host port = Inr () \<Longrightarrow> port = nb_port b"
  by (auto simp: sync_verify_host_port_def result_simps Let_def split: if_splits)

text \<open>One step of the loop over addresses that pass the recheck.\<close>

lemma sync_connect_loop_Cons:
  assumes "validated_address E (nb_policy b) (nb_hostname b) a"
  shows "sync_connect_loop E b clock backend port deadline la so k (a # rest) =
     (let remaining = map_option (\<lambda>d. d - clock k) deadline in
      if (case remaining of None \<Rightarrow> False | Some r \<Rightarrow> r \<le> 0)
      then (Inl (OSError EGRESS_NOT_ALLOWED), [])
      else
        (let call = \<lparr>dial_address = a, dial_port = port, dial_timeout = remaining,
                     dial_local_address = la, dial_socket_options = so\<rparr> in
         case backend k call of
           Inr stream \<Rightarrow> (Inr stream, [call])
         | Inl e \<Rightarrow> if is_Exception e
             then (case sync_connect_loop E b clock backend port deadline la so (Suc k) rest of
                     (r, made) \<Rightarrow> (r, call # made))
             else (Inl e, [call])))"
  using assms by (simp add: validated_address_iff)

definition dial_ok :: "network_backend \<Rightarrow> rat option \<Rightarrow> dial \<Rightarrow> bool" where
  "dial_ok b limit c \<longleftrightarrow> dial_port c = nb_port b
     \<and> (case limit of None \<Rightarrow> dial_timeout c = None
        | Some l \<Rightarrow> \<exists>r. dial_timeout c = Some r \<and> 0 < r \<and> r \<le> l)"

lemma sync_connect_loop_sound:
  assumes "list_all (validated_address E (nb_policy b) (nb_hostname b)) addrs"
    and "sync_connect_loop E b clock backend (nb_port b) deadline la so k addrs = (r, made)"
    and "\<And>i. k \<le> i \<Longrightarrow> start \<le> clock i"
  shows "list_all (dial_ok b (map_option (\<lambda>d. d - start) deadline)) made
    \<and> map dial_address made = take (length made) addrs
    \<and> (case r of
         Inr stream \<Rightarrow> made \<noteq> [] \<and> backend (k + length made - 1) (last made) = Inr stream
       | Inl e \<Rightarrow> e = OSError EGRESS_NOT_ALLOWED
           \<or> made \<noteq> [] \<and> \<not> is_Exception e \<and> backend (k + length made - 1) (last made) = Inl e)"
  using assms
proof (induction addrs arbitrary: k made)
  case Nil
  then show ?case by auto
next
  case (Cons a rest)
  have va: "validated_address E (nb_policy b) (nb_hostname b) a" using Cons.prems(1) by simp
  let ?rem = "map_option (\<lambda>d. d - clock k) deadline"
  let ?dial = "\<lparr>dial_address = a, dial_port = nb_port b, dial_timeout = ?rem,
    dial_local_address = la, dial_socket_options = so\<rparr>"
  note step = Cons.prems(2) [unfolded sync_connect_loop_Cons [OF va] Let_def]
  show ?case
  proof (cases "case ?rem of None \<Rightarrow> False | Some r \<Rightarrow> r \<le> 0")
    case True
    with step show ?thesis by auto
  next
    case go: False
    have ok: "dial_ok b (map_option (\<lambda>d. d - start) deadline) ?dial"
      using go Cons.prems(3) [of k] by (cases deadline) (auto simp: dial_ok_def)
    show ?thesis
    proof (cases "backend k ?dial")
      case (Inr stream)
      with step go have "r = Inr stream" "made = [?dial]" by simp_all
      with ok Inr show ?thesis by simp
    next
      case (Inl e)
      show ?thesis
      proof (cases "is_Exception e")
        case False
        with step go Inl have "r = Inl e" "made = [?dial]" by simp_all
        with ok Inl False show ?thesis by simp
      next
        case True
        then obtain made' where rest: "sync_connect_loop E b clock backend (nb_port b) deadline la so (Suc k) rest
            = (r, made')" and made: "made = ?dial # made'"
          using step go Inl by (auto split: prod.splits)
        have "\<And>i. Suc k \<le> i \<Longrightarrow> start \<le> clock i" using Cons.prems(3) by simp
        note ih = Cons.IH [OF _ rest this]
        show ?thesis using ih Cons.prems(1) ok unfolding made by (auto split: sum.splits)
      qed
    qed
  qed
qed

section \<open>Properties\<close>


definition example_backend :: network_backend where
  "example_backend = \<lparr>nb_hostname = u ''api.example.com'', nb_port = 443, nb_policy = example_policy,
     nb_addresses = [u ''93.184.216.34'', u ''2606:4700::1111'']\<rparr>"

definition second_works :: "nat \<Rightarrow> dial \<Rightarrow> nat res" where
  "second_works k c = (if k = 1 then Inl (OSError ''refused'') else Inr k)"

lemma example_backend_made:
  "make_sync_network_backend ascii_env (u ''api.example.com'') 443
     [u ''93.184.216.34'', u ''2606:4700::1111''] example_policy = Inr example_backend"
  by code_simp


end
