(* ===== verification/Byte_Budget.thy ===== *)
theory Byte_Budget
  imports Egress_Values
begin

text \<open>
  The contract of a bounded stream, the interface between the stream wrappers of
  \<open>src/egressweave/request_body_safety.py\<close> and \<open>src/egressweave/response_safety.py\<close> and
  whoever consumes them: one resumption of the wrapper's generator either yields a chunk,
  ends, or raises; what was yielded is counted and bounded. The lemmas about whole
  consumptions are proved once, from the contract.
\<close>

datatype pull_result = Yield bytes | Stop | Raise exn

text \<open>A consumer that takes at most \<open>n\<close> chunks: the chunks, how the stream ended if it did,
  and the state it was left in.\<close>

fun pull :: "('s \<Rightarrow> pull_result \<times> 's) \<Rightarrow> nat \<Rightarrow> 's \<Rightarrow> bytes list \<times> pull_result option \<times> 's" where
  "pull step 0 s = ([], None, s)"
| "pull step (Suc n) s =
     (case step s of
        (Yield b, s') \<Rightarrow> (case pull step n s' of (bs, r, s'') \<Rightarrow> (b # bs, r, s''))
      | (r, s') \<Rightarrow> ([], Some r, s'))"

definition total_bytes :: "bytes list \<Rightarrow> int" where
  "total_bytes bs = sum_list (map (\<lambda>b. int (length b)) bs)"

lemma total_bytes_simps [simp]:
  "total_bytes [] = 0" "total_bytes (b # bs) = int (length b) + total_bytes bs"
  by (simp_all add: total_bytes_def)

lemma pull_Suc_cases:
  assumes "pull step (Suc n) s = (bs, r, s')"
  obtains (chunk) b s1 bs' where "step s = (Yield b, s1)" "pull step n s1 = (bs', r, s')" "bs = b # bs'"
  | (ended) "bs = []" "r = Some Stop" "step s = (Stop, s')"
  | (raised) e where "bs = []" "r = Some (Raise e)" "step s = (Raise e, s')"
  using assms by (auto split: prod.splits pull_result.splits)

locale byte_budget =
  fixes step :: "'s \<Rightarrow> pull_result \<times> 's"
    and consumed :: "'s \<Rightarrow> int"
    and budget :: "'s \<Rightarrow> int"
    and source :: "'s \<Rightarrow> pyval list"
  assumes counts: "step s = (Yield b, s') \<Longrightarrow> consumed s' = consumed s + int (length b)"
    and bounded: "step s = (Yield b, s') \<Longrightarrow> consumed s' \<le> budget s'"
    and budget_fixed: "step s = (r, s') \<Longrightarrow> budget s' = budget s"
    and faithful: "step s = (Yield b, s') \<Longrightarrow> source s = VBytes b # source s'"
begin

lemma pulled_within_budget:
  "pull step n s = (bs, r, s') \<Longrightarrow> consumed s \<le> budget s \<Longrightarrow> consumed s + total_bytes bs \<le> budget s"
proof (induction n arbitrary: s bs)
  case 0
  then show ?case by simp
next
  case (Suc n)
  from Suc.prems(1) show ?case
  proof (cases rule: pull_Suc_cases)
    case (chunk b s1 bs')
    then show ?thesis
      using Suc.IH [OF chunk(2)] counts [OF chunk(1)] bounded [OF chunk(1)] budget_fixed [OF chunk(1)]
      by simp
  qed (use Suc.prems(2) in simp_all)
qed

lemma pulled_from_source:
  "pull step n s = (bs, r, s') \<Longrightarrow> \<exists>rest. source s = map VBytes bs @ rest"
proof (induction n arbitrary: s bs)
  case 0
  then show ?case by simp
next
  case (Suc n)
  from Suc.prems show ?case
  proof (cases rule: pull_Suc_cases)
    case (chunk b s1 bs')
    then show ?thesis using Suc.IH [OF chunk(2)] faithful [OF chunk(1)] by auto
  qed simp_all
qed

end

text \<open>A stream that additionally has to match a declared length exactly.\<close>

locale framed_stream = byte_budget +
  fixes declared :: "'s \<Rightarrow> int option"
  assumes declared_fixed: "step s = (r, s') \<Longrightarrow> declared s' = declared s"
    and declared_bounded: "step s = (Yield b, s') \<Longrightarrow> declared s' = Some d \<Longrightarrow> consumed s' \<le> d"
    and stop_exact: "step s = (Stop, s') \<Longrightarrow> declared s = Some d \<Longrightarrow> consumed s = d"
begin

lemma pulled_within_declaration:
  "pull step n s = (bs, r, s') \<Longrightarrow> declared s = Some d \<Longrightarrow> consumed s \<le> d \<Longrightarrow>
    consumed s + total_bytes bs \<le> d"
proof (induction n arbitrary: s bs)
  case 0
  then show ?case by simp
next
  case (Suc n)
  from Suc.prems(1) show ?case
  proof (cases rule: pull_Suc_cases)
    case (chunk b s1 bs')
    then show ?thesis
      using Suc.IH [OF chunk(2)] Suc.prems(2) counts [OF chunk(1)] declared_fixed [OF chunk(1)]
        declared_bounded [OF chunk(1)]
      by simp
  qed (use Suc.prems(3) in simp_all)
qed

lemma ended_exactly:
  "pull step n s = (bs, Some Stop, s') \<Longrightarrow> declared s = Some d \<Longrightarrow> consumed s + total_bytes bs = d"
proof (induction n arbitrary: s bs)
  case 0
  then show ?case by simp
next
  case (Suc n)
  from Suc.prems(1) show ?case
  proof (cases rule: pull_Suc_cases)
    case (chunk b s1 bs')
    then show ?thesis
      using Suc.IH [OF chunk(2)] Suc.prems(2) counts [OF chunk(1)] declared_fixed [OF chunk(1)]
      by simp
  qed (use Suc.prems(2) stop_exact in simp_all)
qed

end

end
