(* ===== verification/Request_Safety.thy ===== *)
theory Request_Safety
  imports Egress_Validation
begin

text \<open>
  Model of \<open>src/egressweave/request_safety.py\<close>: what the transports check and rewrite of one
  outbound request before it reaches the connection pool. Request metadata is untrusted, so
  header items, extension maps and timeout values are arbitrary Python values.
\<close>

text \<open>An iterable of header items: what it yields, then the exception its iterator raises, if any.\<close>

record header_source =
  hs_items :: "pyval list"
  hs_failure :: "exn option"

definition header_list :: "(bytes \<times> bytes) list \<Rightarrow> header_source" where
  "header_list hs = \<lparr>hs_items = map (\<lambda>(n, v). VTuple [VBytes n, VBytes v]) hs, hs_failure = None\<rparr>"

section \<open>Method and target\<close>

definition enforce_allowed_http_method :: "pyenv \<Rightarrow> pyval \<Rightarrow> EgressPolicy \<Rightarrow> unit res" where
  "enforce_allowed_http_method E method p =
     (case normalize_allowed_method E method of
        Inl e \<Rightarrow> Inl (if is_TypeError e \<or> is_ValueError e then EgressNotAllowedError else e)
      | Inr normalized_method \<Rightarrow>
          if as_str method \<noteq> Some normalized_method \<or> normalized_method \<notin> allowed_methods p
          then Inl EgressNotAllowedError else Inr ())"

definition enforce_request_target_limit :: "pyval \<Rightarrow> int \<Rightarrow> bytes res" where
  "enforce_request_target_limit target target_limit =
     (case exact_bytes target of
        None \<Rightarrow> Inl EgressNotAllowedError
      | Some t \<Rightarrow> if int (length t) > target_limit then Inl EgressNotAllowedError
                  else Inr t)"

section \<open>Header fields\<close>

definition is_field_name_octet :: "char \<Rightarrow> bool" where
  "is_field_name_octet c = is_token_c (octet c)"

definition FORBIDDEN_OUTBOUND_REQUEST_FIELD_NAMES :: "bytes list" where
  "FORBIDDEN_OUTBOUND_REQUEST_FIELD_NAMES =
     [''connection'', ''keep-alive'', ''proxy-authenticate'', ''proxy-authorization'',
      ''proxy-connection'', ''upgrade'']"

definition is_valid_http_field_value :: "bytes \<Rightarrow> bool" where
  "is_valid_http_field_value v \<longleftrightarrow>
     \<not> (v \<noteq> [] \<and> (octet (hd v) \<in> {32, 9} \<or> octet (last v) \<in> {32, 9}))
     \<and> list_all (\<lambda>c. octet c = 9 \<or> (32 \<le> octet c \<and> octet c \<le> 126)
                     \<or> (128 \<le> octet c \<and> octet c \<le> 255)) v"

definition coerce_request_header_item :: "pyval \<Rightarrow> (bytes \<times> bytes) option" where
  "coerce_request_header_item item =
     (case py_iter item of
        Inr [name, v] \<Rightarrow>
          (case (exact_bytes name, exact_bytes v) of
             (Some n, Some b) \<Rightarrow> Some (n, b)
           | _ \<Rightarrow> None)
      | _ \<Rightarrow> None)"

text \<open>The counting loop of \<open>_enforce_request_header_limits\<close>: whether it denies, or the
  exception that escapes it. Its response counterpart differs in the exceptions it masks.\<close>

fun header_limit_loop ::
  "(exn \<Rightarrow> bool) \<Rightarrow> int \<Rightarrow> int \<Rightarrow> int \<Rightarrow> int \<Rightarrow> pyval list \<Rightarrow> exn option \<Rightarrow> bool res" where
  "header_limit_loop masks max_fields max_bytes field_count field_bytes [] failure =
     (case failure of None \<Rightarrow> Inr False | Some e \<Rightarrow> if masks e then Inr True else Inl e)"
| "header_limit_loop masks max_fields max_bytes field_count field_bytes (item # rest) failure =
     (if field_count + 1 > max_fields then Inr True
      else case coerce_request_header_item item of
        None \<Rightarrow> Inr True
      | Some (name, v) \<Rightarrow>
          (let total = field_bytes + int (length name) + int (length v) in
           if total > max_bytes then Inr True
           else header_limit_loop masks max_fields max_bytes (field_count + 1) total rest failure))"

definition enforce_request_header_limits :: "header_source \<Rightarrow> int \<Rightarrow> int \<Rightarrow> unit res" where
  "enforce_request_header_limits headers field_limit byte_limit =
     ebind (header_limit_loop is_Exception field_limit byte_limit 0 0
              (hs_items headers) (hs_failure headers)) (\<lambda>denied.
       if denied then Inl EgressNotAllowedError else Inr ())"

definition all_digits :: "bytes \<Rightarrow> bool" where
  "all_digits b = all_dec (octets b)"

definition validate_http_message_framing :: "bytes list \<Rightarrow> bytes list \<Rightarrow> unit res" where
  "validate_http_message_framing content_length_values transfer_encoding_values =
     (if length content_length_values > 1 \<or> length transfer_encoding_values > 1
         \<or> (content_length_values \<noteq> [] \<and> transfer_encoding_values \<noteq> [])
      then Inl EgressNotAllowedError
      else
        ebind (case content_length_values of
                 [] \<Rightarrow> Inr ()
               | content_length # _ \<Rightarrow>
                   ensure (content_length \<noteq> [] \<and> all_digits content_length) EgressNotAllowedError)
          (\<lambda>_. case transfer_encoding_values of
                 [] \<Rightarrow> Inr ()
               | transfer_encoding # _ \<Rightarrow>
                   ensure (bytes_lower transfer_encoding = ''chunked'') EgressNotAllowedError))"

fun safe_header_loop ::
  "pyval list \<Rightarrow> (bytes \<times> bytes) list \<Rightarrow> bytes list \<Rightarrow> bytes list
    \<Rightarrow> ((bytes \<times> bytes) list \<times> bytes list \<times> bytes list) res" where
  "safe_header_loop [] safe cls tes = Inr (safe, cls, tes)"
| "safe_header_loop (item # rest) safe cls tes =
     (case coerce_request_header_item item of
        None \<Rightarrow> Inl EgressNotAllowedError
      | Some (name, v) \<Rightarrow>
          if name = [] \<or> \<not> list_all is_field_name_octet name \<or> \<not> is_valid_http_field_value v
          then Inl EgressNotAllowedError
          else
            (let normalized_name = bytes_lower name in
             if normalized_name \<in> set FORBIDDEN_OUTBOUND_REQUEST_FIELD_NAMES
             then Inl EgressNotAllowedError
             else
               safe_header_loop rest
                 (if normalized_name \<noteq> ''host'' then safe @ [(name, v)] else safe)
                 (if normalized_name = ''content-length'' then cls @ [v] else cls)
                 (if normalized_name \<noteq> ''content-length'' \<and> normalized_name = ''transfer-encoding''
                  then tes @ [v] else tes)))"

text \<open>An exception of the caller's own iterator propagates: the loop has no handler.\<close>

definition build_safe_request_headers ::
  "header_source \<Rightarrow> bytes \<Rightarrow> (bytes \<times> bytes) list res" where
  "build_safe_request_headers headers validated_authority =
     ebind (safe_header_loop (hs_items headers) [] [] []) (\<lambda>(safe_headers, cls, tes).
     case hs_failure headers of
       Some e \<Rightarrow> Inl e
     | None \<Rightarrow>
         ebind (validate_http_message_framing cls tes) (\<lambda>_.
         Inr (safe_headers @ [(''host'', validated_authority)])))"

section \<open>Extensions and timeouts\<close>

text \<open>\<open>dict(v)\<close>: the items with distinct keys, or None when copying raises.\<close>

fun dict_put :: "pyval \<Rightarrow> pyval \<Rightarrow> (pyval \<times> pyval) list \<Rightarrow> (pyval \<times> pyval) list" where
  "dict_put k v [] = [(k, v)]"
| "dict_put k v ((k', v') # kvs) =
     (if py_eq k' k then (k', v) # kvs else (k', v') # dict_put k v kvs)"

fun dict_get :: "pyval \<Rightarrow> (pyval \<times> pyval) list \<Rightarrow> pyval option" where
  "dict_get k [] = None"
| "dict_get k ((k', v') # kvs) = (if py_eq k' k then Some v' else dict_get k kvs)"

text \<open>\<open>d.get(k)\<close>: the value, or \<open>None\<close> for an absent key.\<close>

definition py_get :: "pyval \<Rightarrow> (pyval \<times> pyval) list \<Rightarrow> pyval" where
  "py_get k d = (case dict_get k d of None \<Rightarrow> VNone | Some v \<Rightarrow> v)"

definition dict_of_items :: "(pyval \<times> pyval) list \<Rightarrow> (pyval \<times> pyval) list" where
  "dict_of_items kvs = foldl (\<lambda>d (k, v). dict_put k v d) [] kvs"

definition pair_of_item :: "pyval \<Rightarrow> (pyval \<times> pyval) res" where
  "pair_of_item item = ebind (py_iter item) (\<lambda>parts. case parts of
       [k, v] \<Rightarrow> if py_hashable k then Inr (k, v) else Inl (TypeError ''unhashable type'')
     | _ \<Rightarrow> Inl (ValueError ''dictionary update sequence element has the wrong length''))"

fun py_dict :: "pyval \<Rightarrow> (pyval \<times> pyval) list option" where
  "py_dict (VDict kvs) = Some (dict_of_items kvs)"
| "py_dict (VMapping (Some kvs)) = Some (dict_of_items kvs)"
| "py_dict (VMapping None) = None"
| "py_dict v = (case ebind (py_iter v) (emap pair_of_item) of
      Inr kvs \<Rightarrow> Some (dict_of_items kvs)
    | Inl _ \<Rightarrow> None)"

fun is_Mapping :: "pyval \<Rightarrow> bool" where
  "is_Mapping (VDict _) = True"
| "is_Mapping (VMapping _) = True"
| "is_Mapping _ = False"

definition copy_timeout_mapping :: "pyval \<Rightarrow> (pyval \<times> pyval) list option" where
  "copy_timeout_mapping raw_timeout = py_dict raw_timeout"

definition copy_request_extensions :: "pyval \<Rightarrow> (pyval \<times> pyval) list option" where
  "copy_request_extensions extensions = py_dict extensions"

definition ALLOWED_REQUEST_EXTENSION_KEYS :: "ustr list" where
  "ALLOWED_REQUEST_EXTENSION_KEYS = [u ''sni_hostname'', u ''timeout'']"

definition REQUEST_TIMEOUT_EXTENSION_KEYS :: "ustr list" where
  "REQUEST_TIMEOUT_EXTENSION_KEYS = [u ''connect'', u ''read'', u ''write'', u ''pool'']"

definition key_allowed :: "ustr list \<Rightarrow> pyval \<Rightarrow> bool" where
  "key_allowed keys k = (case exact_str k of Some s \<Rightarrow> s \<in> set keys | None \<Rightarrow> False)"

definition coerce_timeout_number :: "pyval \<Rightarrow> pyfloat option res" where
  "coerce_timeout_number v = (case py_float v of
       Inr f \<Rightarrow> Inr (Some f)
     | Inl e \<Rightarrow> if is_Exception e then Inr None else Inl e)"

definition bound_one_timeout :: "(pyval \<times> pyval) list \<Rightarrow> string \<Rightarrow> rat \<Rightarrow> rat res" where
  "bound_one_timeout requested key maximum =
     (let requested_value = py_get (VStr (u key)) requested in
      if requested_value = VNone then Inr maximum
      else if is_bool requested_value \<or> \<not> is_Real requested_value then Inl EgressNotAllowedError
      else ebind (coerce_timeout_number requested_value) (\<lambda>normalized_value.
        case normalized_value of
          None \<Rightarrow> Inl EgressNotAllowedError
        | Some f \<Rightarrow> if \<not> is_finite f \<or> the_fin f < 0 then Inl EgressNotAllowedError
                    else Inr (min (the_fin f) maximum)))"

definition bind_bounded_request_timeouts ::
  "(pyval \<times> pyval) list \<Rightarrow> EgressTimeoutPolicy \<Rightarrow> (pyval \<times> pyval) list res" where
  "bind_bounded_request_timeouts extensions timeout_policy =
     ebind (let raw_timeout = py_get (VStr (u ''timeout'')) extensions in
            if raw_timeout = VNone then Inr []
            else if is_Mapping raw_timeout
            then of_option EgressNotAllowedError (copy_timeout_mapping raw_timeout)
            else Inl EgressNotAllowedError) (\<lambda>requested_timeouts.
     ebind (ensure (list_all (\<lambda>(k, _). key_allowed REQUEST_TIMEOUT_EXTENSION_KEYS k) requested_timeouts)
              EgressNotAllowedError) (\<lambda>_.
     ebind (emap (\<lambda>(key, maximum). ebind (bound_one_timeout requested_timeouts key maximum)
                    (\<lambda>q. Inr (VStr (u key), VFloat (FFin q))))
              (as_httpcore_timeout timeout_policy)) (\<lambda>bounded_timeouts.
     Inr (dict_put (VStr (u ''timeout'')) (VDict bounded_timeouts) extensions))))"

definition requested_server_name :: "pyval \<Rightarrow> ustr res" where
  "requested_server_name v =
     (case exact_bytes v of
        Some b \<Rightarrow> of_option EgressNotAllowedError (decode_ascii b)
      | None \<Rightarrow> of_option EgressNotAllowedError (exact_str v))"

definition bind_validated_tls_server_name ::
  "pyenv \<Rightarrow> pyval \<Rightarrow> ustr \<Rightarrow> (pyval \<times> pyval) list res" where
  "bind_validated_tls_server_name E extensions hostname =
     ebind (of_option EgressNotAllowedError (copy_request_extensions extensions)) (\<lambda>safe_extensions.
     ebind (ensure (list_all (\<lambda>(k, _). key_allowed ALLOWED_REQUEST_EXTENSION_KEYS k) safe_extensions)
              EgressNotAllowedError) (\<lambda>_.
     ebind (let requested = py_get (VStr (u ''sni_hostname'')) safe_extensions in
            if requested = VNone then Inr ()
            else ebind (requested_server_name requested) (\<lambda>server_name.
              ensure (normalize_host E server_name = hostname) EgressNotAllowedError)) (\<lambda>_.
     Inr (dict_put (VStr (u ''sni_hostname'')) (VStr hostname) safe_extensions))))"

section \<open>Facts about headers\<close>

definition header_bytes :: "(bytes \<times> bytes) list \<Rightarrow> int" where
  "header_bytes hs = sum_list (map (\<lambda>(n, v). int (length n) + int (length v)) hs)"

lemma header_bytes_simps [simp]:
  "header_bytes [] = 0"
  "header_bytes ((n, v) # hs) = int (length n) + int (length v) + header_bytes hs"
  "header_bytes (hs @ hs') = header_bytes hs + header_bytes hs'"
  by (simp_all add: header_bytes_def)

lemma header_bytes_nonneg: "0 \<le> header_bytes hs"
  by (induction hs) auto

text \<open>The loop accepts exactly well-formed items within both budgets.\<close>

lemma header_limit_loop_accepts:
  "field_count \<le> F \<Longrightarrow> field_bytes \<le> B \<Longrightarrow>
   header_limit_loop masks F B field_count field_bytes items failure = Inr False \<longleftrightarrow>
     failure = None \<and> (\<exists>pairs. map coerce_request_header_item items = map Some pairs
       \<and> field_count + int (length pairs) \<le> F \<and> field_bytes + header_bytes pairs \<le> B)"
proof (induction items arbitrary: field_count field_bytes)
  case Nil
  then show ?case by (cases failure) auto
next
  case (Cons item rest)
  show ?case
  proof (cases "coerce_request_header_item item")
    case None
    then show ?thesis by (auto simp: Let_def)
  next
    case (Some nv)
    obtain n v where nv: "nv = (n, v)" by (cases nv)
    let ?total = "field_bytes + int (length n) + int (length v)"
    have ex: "(\<exists>pairs. map coerce_request_header_item (item # rest) = map Some pairs \<and> P pairs)
        \<longleftrightarrow> (\<exists>pairs. map coerce_request_header_item rest = map Some pairs \<and> P ((n, v) # pairs))" for P
      using Some nv by (auto simp: Cons_eq_map_conv)
    show ?thesis
    proof (cases "field_count + 1 \<le> F \<and> ?total \<le> B")
      case True
      with Cons.IH [of "field_count + 1" ?total] Some nv show ?thesis
        unfolding ex by (simp add: Let_def algebra_simps)
    next
      case False
      have "\<not> (field_count + int (length ((n, v) # pairs)) \<le> F \<and> field_bytes + header_bytes ((n, v) # pairs) \<le> B)" for pairs
        using False header_bytes_nonneg [of pairs] by (simp; linarith)
      with False Some nv show ?thesis unfolding ex by (auto simp: Let_def)
    qed
  qed
qed

lemma coerce_header_list [simp]:
  "coerce_request_header_item (VTuple [VBytes n, VBytes v]) = Some (n, v)"
  by (simp add: coerce_request_header_item_def)

lemma header_list_fields [simp]:
  "map coerce_request_header_item (hs_items (header_list hs)) = map Some hs"
  "hs_failure (header_list hs) = None"
  by (auto simp: header_list_def)

definition field_ok :: "bytes \<Rightarrow> bytes \<Rightarrow> bool" where
  "field_ok name v \<longleftrightarrow> name \<noteq> [] \<and> list_all is_field_name_octet name \<and> is_valid_http_field_value v
     \<and> bytes_lower name \<notin> set FORBIDDEN_OUTBOUND_REQUEST_FIELD_NAMES"

definition named :: "bytes \<Rightarrow> (bytes \<times> bytes) list \<Rightarrow> bytes list" where
  "named name hs = map snd (filter (\<lambda>(n, _). bytes_lower n = name) hs)"

lemma named_simps [simp]:
  "named k [] = []"
  "named k ((n, v) # hs) = (if bytes_lower n = k then v # named k hs else named k hs)"
  "named k (hs @ hs') = named k hs @ named k hs'"
  by (simp_all add: named_def)

lemma safe_header_loop_Inr:
  "safe_header_loop items safe cls tes = Inr (safe', cls', tes') \<longleftrightarrow>
    (\<exists>pairs. map coerce_request_header_item items = map Some pairs
      \<and> list_all (\<lambda>(n, v). field_ok n v) pairs
      \<and> safe' = safe @ filter (\<lambda>(n, _). bytes_lower n \<noteq> ''host'') pairs
      \<and> cls' = cls @ named ''content-length'' pairs \<and> tes' = tes @ named ''transfer-encoding'' pairs)"
proof (induction items arbitrary: safe cls tes)
  case Nil
  show ?case by auto
next
  case (Cons item rest)
  show ?case
  proof (cases "coerce_request_header_item item")
    case None
    then show ?thesis by auto
  next
    case (Some nv)
    obtain n v where nv: "nv = (n, v)" by (cases nv)
    have ex: "(\<exists>pairs. map coerce_request_header_item (item # rest) = map Some pairs \<and> P pairs)
        \<longleftrightarrow> (\<exists>pairs. map coerce_request_header_item rest = map Some pairs \<and> P ((n, v) # pairs))" for P
      using Some nv by (auto simp: Cons_eq_map_conv)
    show ?thesis
    proof (cases "field_ok n v")
      case True
      then have "\<not> (n = [] \<or> \<not> list_all is_field_name_octet n \<or> \<not> is_valid_http_field_value v)"
        "bytes_lower n \<notin> set FORBIDDEN_OUTBOUND_REQUEST_FIELD_NAMES"
        by (simp_all add: field_ok_def)
      with True show ?thesis
        unfolding ex using Some nv by (simp add: Cons.IH Let_def)
    next
      case False
      then show ?thesis
        unfolding ex using Some nv by (auto simp: Let_def field_ok_def)
    qed
  qed
qed

text \<open>One unambiguous framing signal.\<close>

definition framing_ok :: "bytes list \<Rightarrow> bytes list \<Rightarrow> bool" where
  "framing_ok cls tes \<longleftrightarrow>
     (cls = [] \<and> tes = [])
     \<or> (\<exists>c. cls = [c] \<and> tes = [] \<and> c \<noteq> [] \<and> all_digits c)
     \<or> (\<exists>t. cls = [] \<and> tes = [t] \<and> bytes_lower t = ''chunked'')"

lemma validate_http_message_framing_Inr:
  "validate_http_message_framing cls tes = Inr () \<longleftrightarrow> framing_ok cls tes"
  by (cases cls; cases tes; cases "tl cls"; cases "tl tes")
    (auto simp: validate_http_message_framing_def framing_ok_def result_simps)

lemma validate_http_message_framing_Inl:
  "validate_http_message_framing cls tes = Inl e \<Longrightarrow> e = EgressNotAllowedError"
  by (auto simp: validate_http_message_framing_def result_simps split: if_splits list.splits)

lemma build_safe_request_headers_Inr:
  "build_safe_request_headers src auth = Inr hs \<longleftrightarrow>
    (\<exists>pairs. map coerce_request_header_item (hs_items src) = map Some pairs \<and> hs_failure src = None
      \<and> list_all (\<lambda>(n, v). field_ok n v) pairs
      \<and> framing_ok (named ''content-length'' pairs) (named ''transfer-encoding'' pairs)
      \<and> hs = filter (\<lambda>(n, _). bytes_lower n \<noteq> ''host'') pairs @ [(''host'', auth)])"
  (is "?L \<longleftrightarrow> ?R")
proof
  assume ?L
  then obtain safe cls tes where "safe_header_loop (hs_items src) [] [] [] = Inr (safe, cls, tes)"
    "hs_failure src = None" "framing_ok cls tes" "hs = safe @ [(''host'', auth)]"
    by (auto simp: build_safe_request_headers_def result_simps validate_http_message_framing_Inr
        split: option.splits)
  then show ?R unfolding safe_header_loop_Inr by auto
next
  assume ?R
  then obtain pairs where "safe_header_loop (hs_items src) [] [] []
      = Inr (filter (\<lambda>(n, _). bytes_lower n \<noteq> ''host'') pairs, named ''content-length'' pairs,
             named ''transfer-encoding'' pairs)"
    "hs_failure src = None"
    "framing_ok (named ''content-length'' pairs) (named ''transfer-encoding'' pairs)"
    "hs = filter (\<lambda>(n, _). bytes_lower n \<noteq> ''host'') pairs @ [(''host'', auth)]"
    unfolding safe_header_loop_Inr by auto
  moreover from this have "validate_http_message_framing (named ''content-length'' pairs)
      (named ''transfer-encoding'' pairs) = Inr ()"
    by (simp add: validate_http_message_framing_Inr)
  ultimately show ?L by (simp add: build_safe_request_headers_def)
qed

section \<open>Facts about extensions\<close>

lemma py_eq_str_key [simp]: "py_eq (VStr a) (VStr b) \<longleftrightarrow> a = b"
  by simp

lemma dict_get_put:
  "list_all (key_allowed keys \<circ> fst) d \<Longrightarrow>
   dict_get (VStr a) (dict_put (VStr b) v d) = (if a = b then Some v else dict_get (VStr a) d)"
proof (induction d)
  case Nil
  show ?case by auto
next
  case (Cons kv d)
  then obtain s w where "kv = (VStr s, w)"
    by (cases kv) (auto simp: key_allowed_def split: option.splits)
  with Cons show ?case by auto
qed

lemma dict_put_keys:
  "list_all (key_allowed keys \<circ> fst) d \<Longrightarrow> b \<in> set keys \<Longrightarrow>
   list_all (key_allowed keys \<circ> fst) (dict_put (VStr b) v d)"
  by (induction d) (auto simp: key_allowed_def)

lemma key_allowed_list: "list_all (\<lambda>(k, _). key_allowed keys k) d = list_all (key_allowed keys \<circ> fst) d"
  by (auto simp: list_all_iff)

lemma bind_validated_tls_server_name_Inr:
  assumes "bind_validated_tls_server_name E extensions hostname = Inr d"
  shows "list_all (key_allowed ALLOWED_REQUEST_EXTENSION_KEYS \<circ> fst) d
    \<and> dict_get (VStr (u ''sni_hostname'')) d = Some (VStr hostname)"
proof -
  from assms obtain d0 where ok: "list_all (key_allowed ALLOWED_REQUEST_EXTENSION_KEYS \<circ> fst) d0"
    and d: "d = dict_put (VStr (u ''sni_hostname'')) (VStr hostname) d0"
    unfolding bind_validated_tls_server_name_def key_allowed_list
    by (auto simp: result_simps)
  with dict_get_put [OF ok] dict_put_keys [OF ok] show ?thesis
    by (simp add: ALLOWED_REQUEST_EXTENSION_KEYS_def)
qed

lemma bound_one_timeout_Inr:
  assumes "bound_one_timeout requested key maximum = Inr q" "0 < maximum"
  shows "0 \<le> q \<and> q \<le> maximum"
  using assms
  by (auto simp: bound_one_timeout_def result_simps Let_def split: option.splits if_splits)

lemma bind_bounded_request_timeouts_Inr:
  assumes "bind_bounded_request_timeouts d tp = Inr d'" "timeout_policy_ok tp"
    and ok: "list_all (key_allowed ALLOWED_REQUEST_EXTENSION_KEYS \<circ> fst) d"
  shows "\<exists>c r w q. dict_get (VStr (u ''timeout'')) d' = Some (VDict
        [(VStr (u ''connect''), VFloat (FFin c)), (VStr (u ''read''), VFloat (FFin r)),
         (VStr (u ''write''), VFloat (FFin w)), (VStr (u ''pool''), VFloat (FFin q))])
      \<and> 0 \<le> c \<and> c \<le> connect_timeout_seconds tp \<and> 0 \<le> r \<and> r \<le> read_timeout_seconds tp
      \<and> 0 \<le> w \<and> w \<le> write_timeout_seconds tp \<and> 0 \<le> q \<and> q \<le> pool_timeout_seconds tp"
    and "dict_get (VStr (u ''sni_hostname'')) d' = dict_get (VStr (u ''sni_hostname'')) d"
    and "list_all (key_allowed ALLOWED_REQUEST_EXTENSION_KEYS \<circ> fst) d'"
proof -
  from assms(1) obtain requested bounded where
    em: "emap (\<lambda>(key, maximum). ebind (bound_one_timeout requested key maximum)
                    (\<lambda>q. Inr (VStr (u key), VFloat (FFin q)))) (as_httpcore_timeout tp) = Inr bounded"
    and d': "d' = dict_put (VStr (u ''timeout'')) (VDict bounded) d"
    unfolding bind_bounded_request_timeouts_def by (auto simp: result_simps)
  have ne: "u ''sni_hostname'' \<noteq> u ''timeout''" by (simp add: u_def)
  have keys: "u ''timeout'' \<in> set ALLOWED_REQUEST_EXTENSION_KEYS"
    by (simp add: ALLOWED_REQUEST_EXTENSION_KEYS_def)
  note g = dict_get_put [OF ok]
  show "dict_get (VStr (u ''sni_hostname'')) d' = dict_get (VStr (u ''sni_hostname'')) d"
    unfolding d' using ne g by simp
  show "list_all (key_allowed ALLOWED_REQUEST_EXTENSION_KEYS \<circ> fst) d'"
    unfolding d' using ok keys by (rule dict_put_keys)
  from em assms(2) show "\<exists>c r w q. dict_get (VStr (u ''timeout'')) d' = Some (VDict
        [(VStr (u ''connect''), VFloat (FFin c)), (VStr (u ''read''), VFloat (FFin r)),
         (VStr (u ''write''), VFloat (FFin w)), (VStr (u ''pool''), VFloat (FFin q))])
      \<and> 0 \<le> c \<and> c \<le> connect_timeout_seconds tp \<and> 0 \<le> r \<and> r \<le> read_timeout_seconds tp
      \<and> 0 \<le> w \<and> w \<le> write_timeout_seconds tp \<and> 0 \<le> q \<and> q \<le> pool_timeout_seconds tp"
    unfolding d' g
    by (fastforce simp: as_httpcore_timeout_def result_simps timeout_policy_ok_def
        dest: bound_one_timeout_Inr)
qed

lemma normalize_allowed_method_error:
  "normalize_allowed_method E v = Inl e \<Longrightarrow> is_TypeError e \<or> is_ValueError e"
  by (auto simp: normalize_allowed_method_def Let_def split: option.splits if_splits)

lemma enforce_allowed_http_method_Inr:
  "enforce_allowed_http_method E v p = Inr () \<longleftrightarrow>
    (\<exists>m. as_str v = Some m \<and> normalize_allowed_method E v = Inr m \<and> m \<in> allowed_methods p)"
  by (auto simp: enforce_allowed_http_method_def split: sum.splits)

lemma enforce_allowed_http_method_Inl:
  "enforce_allowed_http_method E v p = Inl e \<Longrightarrow> e = EgressNotAllowedError"
  using normalize_allowed_method_error
  by (fastforce simp: enforce_allowed_http_method_def split: sum.splits if_splits)

lemma enforce_request_target_limit_Inr:
  "enforce_request_target_limit v n = Inr t \<longleftrightarrow> v = VBytes t \<and> int (length t) \<le> n"
  by (auto simp: enforce_request_target_limit_def split: option.splits)

section \<open>Properties\<close>

text \<open>The transport lets a request method through exactly when it is written canonically and
  the policy lists it; then it is an HTTP token other than CONNECT; and it fails with nothing
  but the generic error.\<close>

lemma request_method_exact:
  "(enforce_allowed_http_method E v p = Inr () \<longleftrightarrow>
      (\<exists>m. as_str v = Some m \<and> m \<in> allowed_methods p \<and> py_upper E (py_strip E m) = m
         \<and> m \<noteq> [] \<and> list_all is_token_c m \<and> m \<noteq> u ''CONNECT''))
   \<and> (enforce_allowed_http_method E v p \<noteq> Inr () \<longrightarrow>
       enforce_allowed_http_method E v p = Inl EgressNotAllowedError)"
proof
  have norm: "as_str v = Some m \<Longrightarrow> normalize_allowed_method E v = Inr m \<longleftrightarrow>
      py_upper E (py_strip E m) = m \<and> m \<noteq> [] \<and> list_all is_token_c m \<and> m \<noteq> u ''CONNECT''" for m
    by (auto simp: normalize_allowed_method_def Let_def list_ex_iff list_all_iff)
  then show "enforce_allowed_http_method E v p = Inr () \<longleftrightarrow>
      (\<exists>m. as_str v = Some m \<and> m \<in> allowed_methods p \<and> py_upper E (py_strip E m) = m
         \<and> m \<noteq> [] \<and> list_all is_token_c m \<and> m \<noteq> u ''CONNECT'')"
    unfolding enforce_allowed_http_method_Inr by blast
  show "enforce_allowed_http_method E v p \<noteq> Inr () \<longrightarrow>
       enforce_allowed_http_method E v p = Inl EgressNotAllowedError"
    using enforce_allowed_http_method_Inl [of E v p]
    by (cases "enforce_allowed_http_method E v p") auto
qed

lemma request_method_exact_witness:
  "enforce_allowed_http_method ascii_env (VStr (u ''POST'')) example_policy = Inr ()
   \<and> enforce_allowed_http_method ascii_env (VStr (u ''post'')) example_policy = Inl EgressNotAllowedError"
proof
  have "py_upper ascii_env (py_strip ascii_env (u ''POST'')) = u ''POST'' \<and> u ''POST'' \<noteq> []
    \<and> list_all is_token_c (u ''POST'') \<and> u ''POST'' \<noteq> u ''CONNECT''
    \<and> u ''POST'' \<in> allowed_methods example_policy" by code_simp
  then show "enforce_allowed_http_method ascii_env (VStr (u ''POST'')) example_policy = Inr ()"
    by (intro iffD2 [OF conjunct1 [OF request_method_exact]]) (intro exI [of _ "u ''POST''"], simp)
  have "enforce_allowed_http_method ascii_env (VStr (u ''post'')) example_policy \<noteq> Inr ()" by code_simp
  then show "enforce_allowed_http_method ascii_env (VStr (u ''post'')) example_policy
      = Inl EgressNotAllowedError"
    using request_method_exact by blast
qed

text \<open>The final outbound header section is accepted exactly when its iterator ends normally,
  every item is a pair of exact byte strings, the number of fields is within the field budget
  and the sum of all name and value lengths within the byte budget.\<close>

lemma request_header_limits_exact:
  assumes "0 < max_fields" "0 < max_bytes"
  shows "enforce_request_header_limits src max_fields max_bytes = Inr () \<longleftrightarrow>
    hs_failure src = None \<and> (\<exists>pairs. map coerce_request_header_item (hs_items src) = map Some pairs
      \<and> int (length pairs) \<le> max_fields \<and> header_bytes pairs \<le> max_bytes)"
proof -
  have "enforce_request_header_limits src max_fields max_bytes = Inr () \<longleftrightarrow>
    header_limit_loop is_Exception max_fields max_bytes 0 0 (hs_items src) (hs_failure src) = Inr False"
    by (auto simp: enforce_request_header_limits_def result_simps split: if_splits)
  with header_limit_loop_accepts [of 0 max_fields 0 max_bytes] assms show ?thesis by simp
qed

text \<open>The rebuilt header section is the caller's fields without any \<open>Host\<close>, each
  checked against the field syntax and the list of forbidden names, followed by exactly one
  \<open>host\<close> field with the validated authority; and the message framing is one content length
  in decimal digits, or one \<open>chunked\<close> coding, or nothing.\<close>

lemma request_headers_rebuilt:
  assumes "build_safe_request_headers src auth = Inr hs"
  shows "hs_failure src = None \<and> (\<exists>pairs. map coerce_request_header_item (hs_items src) = map Some pairs
      \<and> hs = filter (\<lambda>(n, _). bytes_lower n \<noteq> ''host'') pairs @ [(''host'', auth)]
      \<and> list_all (\<lambda>(n, v). field_ok n v) pairs)
    \<and> named ''host'' hs = [auth]
    \<and> framing_ok (named ''content-length'' hs) (named ''transfer-encoding'' hs)"
proof -
  from assms obtain pairs where pairs: "map coerce_request_header_item (hs_items src) = map Some pairs"
    "hs_failure src = None" "list_all (\<lambda>(n, v). field_ok n v) pairs"
    "framing_ok (named ''content-length'' pairs) (named ''transfer-encoding'' pairs)"
    "hs = filter (\<lambda>(n, _). bytes_lower n \<noteq> ''host'') pairs @ [(''host'', auth)]"
    unfolding build_safe_request_headers_Inr by blast
  have low: "bytes_lower ''host'' = ''host''" by code_simp
  have other: "k \<noteq> ''host'' \<Longrightarrow> named k (filter (\<lambda>(n, _). bytes_lower n \<noteq> ''host'') ps) = named k ps" for k ps
    by (induction ps) auto
  have none: "named ''host'' (filter (\<lambda>(n, _). bytes_lower n \<noteq> ''host'') ps) = []" for ps
    by (induction ps) auto
  have "named ''host'' hs = [auth]" by (simp add: pairs(5) none low)
  moreover have "named ''content-length'' hs = named ''content-length'' pairs"
    "named ''transfer-encoding'' hs = named ''transfer-encoding'' pairs"
    by (simp_all add: pairs(5) other low)
  ultimately show ?thesis using pairs by auto
qed

text \<open>The extensions a transport forwards have no key but \<open>sni_hostname\<close> and
  \<open>timeout\<close>; the server name is the validated host; and each of the four phases has a
  finite timeout between zero and the ceiling of the policy.\<close>

lemma request_extensions_bound:
  assumes "bind_validated_tls_server_name E extensions hostname = Inr d"
    and "bind_bounded_request_timeouts d tp = Inr d'" and "timeout_policy_ok tp"
  shows "list_all (key_allowed ALLOWED_REQUEST_EXTENSION_KEYS \<circ> fst) d'
    \<and> dict_get (VStr (u ''sni_hostname'')) d' = Some (VStr hostname)
    \<and> (\<exists>c r w q. dict_get (VStr (u ''timeout'')) d' = Some (VDict
        [(VStr (u ''connect''), VFloat (FFin c)), (VStr (u ''read''), VFloat (FFin r)),
         (VStr (u ''write''), VFloat (FFin w)), (VStr (u ''pool''), VFloat (FFin q))])
      \<and> 0 \<le> c \<and> c \<le> connect_timeout_seconds tp \<and> 0 \<le> r \<and> r \<le> read_timeout_seconds tp
      \<and> 0 \<le> w \<and> w \<le> write_timeout_seconds tp \<and> 0 \<le> q \<and> q \<le> pool_timeout_seconds tp)"
proof -
  note tls = bind_validated_tls_server_name_Inr [OF assms(1)]
  note timeouts = bind_bounded_request_timeouts_Inr [OF assms(2,3) conjunct1 [OF tls]]
  show ?thesis using tls timeouts by simp
qed

end
