(* ===== verification/Request_Body.thy ===== *)
theory Request_Body
  imports Byte_Budget Request_Safety
begin

text \<open>
  Model of \<open>src/egressweave/request_body_safety.py\<close>: the early check of a declared
  \<open>Content-Length\<close>, the cleanup after a denial, and the two single-consumption stream
  wrappers, whose generators are resumed one chunk at a time.
\<close>

section \<open>Declared length\<close>

definition enforce_declared_request_size :: "(bytes \<times> bytes) list \<Rightarrow> int \<Rightarrow> int option res" where
  "enforce_declared_request_size headers limit =
     (case map snd (filter (\<lambda>(name, _). bytes_lower name = ''content-length'') headers) of
        [] \<Rightarrow> Inr None
      | [content_length] \<Rightarrow>
          if content_length = [] \<or> \<not> all_digits content_length then Inl EgressNotAllowedError
          else
            (let significant_length = py_lstrip 48 (octets content_length) in
             if significant_length = [] then Inr (Some 0)
             else ebind (py_str_nat limit) (\<lambda>budget_text.
               if exceeds_budget significant_length budget_text then Inl EgressNotAllowedError
               else Inr (Some (dec_value significant_length))))
      | _ \<Rightarrow> Inl EgressNotAllowedError)"

section \<open>Cleanup after a denial\<close>

text \<open>What closing the source raises, and what of it the cleanup lets through.\<close>

definition close_sync_request_after_policy_denial :: "exn option \<Rightarrow> exn option" where
  "close_sync_request_after_policy_denial closing =
     (case closing of
        None \<Rightarrow> None
      | Some e \<Rightarrow> if is_process_control e then Some e else None)"

definition CancelledError :: exn where
  "CancelledError = OtherBaseException 1"

record async_closing =
  ac_setup :: "exn option"         \<comment> \<open>raised by calling \<open>aclose\<close> or gathering its result\<close>
  ac_child :: "exn option"         \<comment> \<open>how the awaited child failed\<close>
  ac_cancelled :: bool             \<comment> \<open>the coordinator was cancelled while it awaited\<close>

definition close_async_request_after_policy_denial :: "async_closing \<Rightarrow> exn option" where
  "close_async_request_after_policy_denial closing =
     (case ac_setup closing of
        Some e \<Rightarrow> if is_process_control e then Some e else None
      | None \<Rightarrow> if ac_cancelled closing then Some CancelledError else None)"

section \<open>The bounded streams\<close>

text \<open>The wrapper around a source: the chunks the source has left and the exception that ends
  it, what closing it does, and the fields of the wrapper.\<close>

record 'c request_stream =
  rq_chunks :: "pyval list"
  rq_failure :: "exn option"
  rq_closing :: 'c
  rq_max :: int
  rq_declared :: "int option"
  rq_consumed :: int
  rq_started :: bool
  rq_closes :: nat

definition new_request_stream ::
  "pyval list \<Rightarrow> exn option \<Rightarrow> 'c \<Rightarrow> int \<Rightarrow> int option \<Rightarrow> 'c request_stream" where
  "new_request_stream chunks failure closing limit declared =
     \<lparr>rq_chunks = chunks, rq_failure = failure, rq_closing = closing, rq_max = limit,
      rq_declared = declared, rq_consumed = 0, rq_started = False, rq_closes = 0\<rparr>"

definition deny_request ::
  "('c \<Rightarrow> exn option) \<Rightarrow> 'c request_stream \<Rightarrow> pull_result \<times> 'c request_stream" where
  "deny_request cleanup s =
     (Raise (case cleanup (rq_closing s) of None \<Rightarrow> EgressNotAllowedError | Some e \<Rightarrow> e),
      s\<lparr>rq_closes := Suc (rq_closes s)\<rparr>)"

text \<open>The generator body up to its loop; None: the loop is entered.\<close>

definition request_open ::
  "('c \<Rightarrow> exn option) \<Rightarrow> 'c request_stream \<Rightarrow> pull_result option \<times> 'c request_stream" where
  "request_open cleanup s =
     (if rq_started s then (case deny_request cleanup s of (r, s') \<Rightarrow> (Some r, s'))
      else (None, s\<lparr>rq_started := True\<rparr>))"

text \<open>One resumption inside the loop, or the check behind it.\<close>

definition request_next ::
  "('c \<Rightarrow> exn option) \<Rightarrow> 'c request_stream \<Rightarrow> pull_result \<times> 'c request_stream" where
  "request_next cleanup s =
     (case rq_chunks s of
        [] \<Rightarrow>
          (case rq_failure s of
             Some e \<Rightarrow> (Raise e, s)
           | None \<Rightarrow>
               if rq_declared s \<noteq> None \<and> rq_declared s \<noteq> Some (rq_consumed s)
               then deny_request cleanup s else (Stop, s))
      | chunk # rest \<Rightarrow>
          (let s1 = s\<lparr>rq_chunks := rest\<rparr> in
           case exact_bytes chunk of
             None \<Rightarrow> deny_request cleanup s1
           | Some b \<Rightarrow>
               (let total = rq_consumed s + int (length b); s2 = s1\<lparr>rq_consumed := total\<rparr>;
                    exceeds_declared_length =
                      (case rq_declared s of None \<Rightarrow> False | Some d \<Rightarrow> total > d) in
                if total > rq_max s \<or> exceeds_declared_length then deny_request cleanup s2
                else (Yield b, s2))))"

definition sync_request_open :: "exn option request_stream \<Rightarrow> pull_result option \<times> exn option request_stream" where
  "sync_request_open s = request_open close_sync_request_after_policy_denial s"

definition sync_request_next :: "exn option request_stream \<Rightarrow> pull_result \<times> exn option request_stream" where
  "sync_request_next s = request_next close_sync_request_after_policy_denial s"

definition async_request_open :: "async_closing request_stream \<Rightarrow> pull_result option \<times> async_closing request_stream" where
  "async_request_open s = request_open close_async_request_after_policy_denial s"

definition async_request_next :: "async_closing request_stream \<Rightarrow> pull_result \<times> async_closing request_stream" where
  "async_request_next s = request_next close_async_request_after_policy_denial s"

text \<open>A whole iteration of the wrapper by a consumer that takes at most \<open>n\<close> chunks.\<close>

definition iterate_request ::
  "('c \<Rightarrow> exn option) \<Rightarrow> nat \<Rightarrow> 'c request_stream \<Rightarrow> bytes list \<times> pull_result option \<times> 'c request_stream" where
  "iterate_request cleanup n s =
     (case request_open cleanup s of
        (Some r, s') \<Rightarrow> ([], Some r, s')
      | (None, s') \<Rightarrow> pull (request_next cleanup) n s')"

text \<open>\<open>close\<close> and \<open>aclose\<close> of the wrapper: ordinary failures are suppressed.\<close>

definition sync_request_close :: "exn option \<Rightarrow> unit res" where
  "sync_request_close closing =
     (case closing of None \<Rightarrow> Inr () | Some e \<Rightarrow> if is_Exception e then Inr () else Inl e)"

definition async_request_close :: "async_closing \<Rightarrow> unit res" where
  "async_request_close closing =
     (let failure = (case ac_setup closing of
           Some e \<Rightarrow> Some e
         | None \<Rightarrow> if ac_cancelled closing then Some CancelledError else ac_child closing) in
      case failure of None \<Rightarrow> Inr () | Some e \<Rightarrow> if is_Exception e then Inr () else Inl e)"

section \<open>The contract\<close>

lemma deny_request_Raise: "deny_request cleanup s = (r, s') \<Longrightarrow> \<exists>e. r = Raise e"
  by (auto simp: deny_request_def)

lemma deny_request_fields:
  assumes "deny_request cleanup s = (r, s')"
  shows "rq_max s' = rq_max s" "rq_declared s' = rq_declared s" "rq_started s' = rq_started s"
    "rq_closing s' = rq_closing s"
  using assms by (auto simp: deny_request_def)

lemma request_next_Yield:
  assumes "request_next cleanup s = (Yield b, s')"
  shows "rq_chunks s = VBytes b # rq_chunks s'" "rq_consumed s' = rq_consumed s + int (length b)"
    "rq_consumed s' \<le> rq_max s'" "rq_declared s' = Some d \<Longrightarrow> rq_consumed s' \<le> d"
  using assms
  by (auto simp: request_next_def deny_request_def Let_def split: list.splits option.splits if_splits)

lemma request_next_fields:
  assumes "request_next cleanup s = (r, s')"
  shows "rq_max s' = rq_max s" "rq_declared s' = rq_declared s" "rq_started s' = rq_started s"
    "rq_closing s' = rq_closing s"
  using assms
  by (auto simp: request_next_def deny_request_def Let_def split: list.splits option.splits if_splits)

lemma request_next_Stop:
  "request_next cleanup s = (Stop, s') \<Longrightarrow>
    rq_chunks s = [] \<and> rq_failure s = None \<and> (\<forall>d. rq_declared s = Some d \<longrightarrow> rq_consumed s = d)"
  by (auto simp: request_next_def deny_request_def Let_def split: list.splits option.splits if_splits)

interpretation body: framed_stream "request_next cleanup" rq_consumed rq_max rq_chunks rq_declared
  for cleanup
  by unfold_locales (auto dest: request_next_Yield request_next_fields request_next_Stop)

interpretation sync_body: framed_stream sync_request_next rq_consumed rq_max rq_chunks rq_declared
  using body.framed_stream_axioms [of close_sync_request_after_policy_denial]
  by (simp add: sync_request_next_def [abs_def])

interpretation async_body: framed_stream async_request_next rq_consumed rq_max rq_chunks rq_declared
  using body.framed_stream_axioms [of close_async_request_after_policy_denial]
  by (simp add: async_request_next_def [abs_def])

lemma pull_request_fields:
  "pull (request_next cleanup) n s = (bs, r, s') \<Longrightarrow>
    rq_started s' = rq_started s \<and> rq_closing s' = rq_closing s"
proof (induction n arbitrary: s bs)
  case 0
  then show ?case by simp
next
  case (Suc n)
  from Suc.prems show ?case
    by (cases rule: pull_Suc_cases) (use Suc.IH request_next_fields in \<open>fastforce+\<close>)
qed

lemma pull_request_exhausted:
  "pull (request_next cleanup) n s = (bs, Some Stop, s') \<Longrightarrow> rq_chunks s = map VBytes bs \<and> rq_failure s = None"
proof (induction n arbitrary: s bs)
  case 0
  then show ?case by simp
next
  case (Suc n)
  from Suc.prems show ?case
  proof (cases rule: pull_Suc_cases)
    case (chunk b s1 bs')
    have "rq_failure s1 = rq_failure s"
      using chunk(1)
      by (auto simp: request_next_def deny_request_def Let_def split: list.splits option.splits if_splits)
    then show ?thesis using Suc.IH [OF chunk(2)] request_next_Yield(1) [OF chunk(1)] chunk(3) by simp
  qed (use request_next_Stop in auto)
qed

lemma iterate_new:
  "iterate_request cleanup n (new_request_stream chunks failure closing limit declared) =
    pull (request_next cleanup) n ((new_request_stream chunks failure closing limit declared)\<lparr>rq_started := True\<rparr>)"
  by (simp add: iterate_request_def request_open_def new_request_stream_def)

section \<open>Properties\<close>

text \<open>The check of a declared length, done on digit strings without converting
  attacker-controlled text, is the numeric comparison: it accepts no declaration, or exactly
  one non-empty digit string whose value is within the budget, and returns that value.\<close>

theorem declared_request_size_numeric:
  assumes "0 < limit" "length (dec_digits limit) \<le> max_str_digits"
  shows "enforce_declared_request_size hs limit =
    (case named ''content-length'' hs of
       [] \<Rightarrow> Inr None
     | [v] \<Rightarrow> if v \<noteq> [] \<and> all_digits v \<and> dec_value (octets v) \<le> limit
              then Inr (Some (dec_value (octets v))) else Inl EgressNotAllowedError
     | _ \<Rightarrow> Inl EgressNotAllowedError)"
proof -
  have size: "(let sig = py_lstrip 48 (octets v) in
       if sig = [] then Inr (Some 0)
       else ebind (py_str_nat limit) (\<lambda>budget_text.
         if exceeds_budget sig budget_text then Inl EgressNotAllowedError
         else Inr (Some (dec_value sig))))
     = (if dec_value (octets v) \<le> limit then Inr (Some (dec_value (octets v))) else Inl EgressNotAllowedError)"
    if d: "all_digits v" for v
  proof -
    let ?sig = "py_lstrip 48 (octets v)"
    have val: "dec_value ?sig = dec_value (octets v)" by (rule dec_value_lstrip)
    have ad: "all_dec ?sig" using d by (auto simp: all_digits_def intro: all_dec_lstrip)
    show ?thesis
    proof (cases "?sig = []")
      case True
      then have "dec_value (octets v) = 0" using val by simp
      with True assms(1) show ?thesis by simp
    next
      case False
      have "exceeds_budget ?sig (dec_digits limit) \<longleftrightarrow> limit < dec_value ?sig"
        using exceeds_budget_numeric [OF ad False py_lstrip_hd [OF False] assms(1)] .
      with False assms(2) val show ?thesis by (simp add: py_str_nat_def Let_def)
    qed
  qed
  show ?thesis
    unfolding enforce_declared_request_size_def named_def [symmetric]
    using size by (auto split: list.splits)
qed

lemma declared_request_size_numeric_witness:
  "enforce_declared_request_size [(''Content-Length'', ''00016777216'')] DEFAULT_MAX_REQUEST_BYTES = Inr (Some 16777216)
   \<and> enforce_declared_request_size [(''content-length'', ''16777217'')] DEFAULT_MAX_REQUEST_BYTES
     = Inl EgressNotAllowedError"
proof -
  have "0 < DEFAULT_MAX_REQUEST_BYTES" "length (dec_digits DEFAULT_MAX_REQUEST_BYTES) \<le> max_str_digits"
    by code_simp+
  note num = declared_request_size_numeric [OF this]
  show ?thesis unfolding num by code_simp
qed

text \<open>C11: whatever the source yields and however its cleanup fails, a consumer of the bounded
  request stream receives a prefix of the source's chunks, unaltered, of at most the policy's
  bytes and at most the declared ones; and if the stream ends normally it delivered the whole
  source and exactly the declared length.\<close>

theorem request_stream_bounded:
  assumes "0 \<le> limit" "\<And>d. declared = Some d \<Longrightarrow> 0 \<le> d"
    and "iterate_request cleanup n (new_request_stream chunks failure closing limit declared) = (bs, r, s')"
  shows "total_bytes bs \<le> limit \<and> (\<exists>rest. chunks = map VBytes bs @ rest)
    \<and> (\<forall>d. declared = Some d \<longrightarrow> total_bytes bs \<le> d)
    \<and> (r = Some Stop \<longrightarrow> chunks = map VBytes bs \<and> failure = None \<and> (\<forall>d. declared = Some d \<longrightarrow> total_bytes bs = d))"
proof -
  let ?s = "(new_request_stream chunks failure closing limit declared)\<lparr>rq_started := True\<rparr>"
  have fields: "rq_consumed ?s = 0" "rq_max ?s = limit" "rq_chunks ?s = chunks"
    "rq_declared ?s = declared" "rq_failure ?s = failure"
    by (simp_all add: new_request_stream_def)
  from assms(3) have p: "pull (request_next cleanup) n ?s = (bs, r, s')" by (simp only: iterate_new)
  have "total_bytes bs \<le> limit" using body.pulled_within_budget [OF p] assms(1) by (simp add: fields)
  moreover have "\<exists>rest. chunks = map VBytes bs @ rest" using body.pulled_from_source [OF p] by (simp add: fields)
  moreover have "declared = Some d \<Longrightarrow> total_bytes bs \<le> d" for d
    using body.pulled_within_declaration [OF p, of d] assms(2) [of d] by (simp add: new_request_stream_def)
  moreover have "r = Some Stop \<Longrightarrow> chunks = map VBytes bs \<and> failure = None"
    using pull_request_exhausted [of cleanup n ?s bs s'] p by (simp add: fields)
  moreover have "r = Some Stop \<Longrightarrow> declared = Some d \<Longrightarrow> total_bytes bs = d" for d
    using body.ended_exactly [of cleanup n ?s bs s' d] p by (simp add: new_request_stream_def)
  ultimately show ?thesis by blast
qed

definition example_body :: "exn option request_stream" where
  "example_body = new_request_stream [VBytes ''ab'', VBytes [], VBytes ''cde'', VBytes ''f''] None None 5 None"

lemma request_stream_bounded_witness:
  "total_bytes [''ab'', [], ''cde''] \<le> 5"
proof -
  have "case iterate_request close_sync_request_after_policy_denial 9 example_body of
      (bs, r, _) \<Rightarrow> bs = [''ab'', [], ''cde''] \<and> r = Some (Raise EgressNotAllowedError)" by code_simp
  then obtain s' where "iterate_request close_sync_request_after_policy_denial 9 example_body
      = ([''ab'', [], ''cde''], Some (Raise EgressNotAllowedError), s')"
    by (auto split: prod.splits)
  from request_stream_bounded [OF _ _ this [unfolded example_body_def]] show ?thesis by simp
qed

text \<open>A bounded request stream is consumed once. However far the first iteration went, the
  next one yields nothing: it closes the source and raises the generic denial, or the
  process-control exception its cleanup must let through.\<close>

lemma request_stream_single_use:
  assumes "iterate_request cleanup n s = (bs, r, s')"
  shows "\<exists>e s''. iterate_request cleanup m s' = ([], Some (Raise e), s'')
    \<and> e = (case cleanup (rq_closing s) of None \<Rightarrow> EgressNotAllowedError | Some e' \<Rightarrow> e')
    \<and> rq_closes s'' = Suc (rq_closes s')"
proof -
  have "rq_started s' \<and> rq_closing s' = rq_closing s"
    using assms pull_request_fields [of cleanup n "s\<lparr>rq_started := True\<rparr>" bs r s']
    by (auto simp: iterate_request_def request_open_def deny_request_def split: if_splits)
  then show ?thesis by (simp add: iterate_request_def request_open_def deny_request_def)
qed

lemma request_stream_single_use_witness:
  "\<exists>s' s''. iterate_request close_sync_request_after_policy_denial 1 example_body = ([''ab''], None, s')
     \<and> iterate_request close_sync_request_after_policy_denial 4 s' = ([], Some (Raise EgressNotAllowedError), s'')"
proof -
  have "case iterate_request close_sync_request_after_policy_denial 1 example_body of
      (bs, r, _) \<Rightarrow> bs = [''ab''] \<and> r = None" by code_simp
  then obtain s' where 1: "iterate_request close_sync_request_after_policy_denial 1 example_body = ([''ab''], None, s')"
    by (auto split: prod.splits)
  have "close_sync_request_after_policy_denial (rq_closing example_body) = None" by code_simp
  with request_stream_single_use [OF 1, of 4] 1 show ?thesis by auto
qed

text \<open>Cleanup after a denial lets through exactly the process-control exceptions; in
  the asynchronous case those raised while the cleanup is set up, and the cancellation of the
  coordinator itself, but no failure of the child it awaits.\<close>

lemma denial_cleanup_contained:
  "(close_sync_request_after_policy_denial closing = Some e \<longleftrightarrow> closing = Some e \<and> is_process_control e)
   \<and> (close_async_request_after_policy_denial ac = Some e \<longleftrightarrow>
       (ac_setup ac = Some e \<and> is_process_control e)
       \<or> (ac_setup ac = None \<and> ac_cancelled ac \<and> e = CancelledError))"
  by (auto simp: close_sync_request_after_policy_denial_def close_async_request_after_policy_denial_def
      split: option.splits if_splits)

text \<open>With a byte budget of more than 4300 digits, which the policy accepts, the check of a
  declared length raises the interpreter's own \<open>ValueError\<close> in place of the generic denial.\<close>

theorem huge_budget_escapes_denial:
  assumes "10 ^ max_str_digits \<le> limit"
  shows "enforce_declared_request_size [(''content-length'', ''1'')] limit = Inl int_limit_error"
proof -
  have pos: "0 \<le> limit" by (rule order_trans [OF _ assms]) (rule zero_le_power, simp)
  have "\<not> length (dec_digits limit) \<le> max_str_digits"
  proof
    assume "length (dec_digits limit) \<le> max_str_digits"
    then have "(10::int) ^ length (dec_digits limit) \<le> 10 ^ max_str_digits"
      by (intro power_increasing) simp_all
    moreover have "limit < 10 ^ length (dec_digits limit)"
      using dec_value_bounds [OF dec_digits_all_dec [OF pos]] dec_value_digits [OF pos] by simp
    ultimately show False using assms by linarith
  qed
  then have "py_str_nat limit = Inl int_limit_error" by (simp add: py_str_nat_def)
  moreover have "bytes_lower ''content-length'' = ''content-length''" "all_digits ''1''"
    "py_lstrip 48 (octets ''1'') \<noteq> []" by code_simp+
  ultimately show ?thesis by (simp add: enforce_declared_request_size_def Let_def)
qed

lemma huge_budget_escapes_denial_witness:
  "enforce_declared_request_size [(''content-length'', ''1'')] (10 ^ max_str_digits) = Inl int_limit_error"
  by (rule huge_budget_escapes_denial [OF order_refl])

end
