(* ===== verification/Response_Safety.thy ===== *)
theory Response_Safety
  imports Request_Body
begin

text \<open>
  Model of \<open>src/egressweave/response_safety.py\<close>: the limits on response metadata, the
  identity-coding rule, the selection of extensions a caller may see, and the bounded
  response streams.
\<close>

section \<open>Cleanup after a denial\<close>

definition close_sync_response_after_policy_denial :: "exn option \<Rightarrow> exn option" where
  "close_sync_response_after_policy_denial closing =
     (case closing of
        None \<Rightarrow> None
      | Some e \<Rightarrow> if is_process_control e then Some e else None)"

text \<open>The awaited \<open>aclose\<close> ends with an exception of its own or the caller's cancellation.\<close>

definition close_async_response_after_policy_denial :: "exn option \<Rightarrow> exn option" where
  "close_async_response_after_policy_denial closing =
     (case closing of
        None \<Rightarrow> None
      | Some e \<Rightarrow> if is_process_control e then Some e else None)"

section \<open>Metadata\<close>

definition coerce_response_header_item :: "pyval \<Rightarrow> (bytes \<times> bytes) option" where
  "coerce_response_header_item item = coerce_request_header_item item"

text \<open>Unlike its request counterpart the response check masks every exception of the iterator,
  process control included.\<close>

definition enforce_response_header_limits :: "header_source \<Rightarrow> int \<Rightarrow> int \<Rightarrow> unit res" where
  "enforce_response_header_limits headers field_limit byte_limit =
     ebind (header_limit_loop (\<lambda>_. True) field_limit byte_limit 0 0
              (hs_items headers) (hs_failure headers)) (\<lambda>denied.
       if denied then Inl EgressNotAllowedError else Inr ())"

fun identity_loop ::
  "(bytes \<times> bytes) list \<Rightarrow> (bytes \<times> bytes) list \<Rightarrow> (bytes \<times> bytes) option
    \<Rightarrow> (bytes \<times> bytes) list \<times> (bytes \<times> bytes) option" where
  "identity_loop [] safe trusted_host = (safe, trusted_host)"
| "identity_loop ((name, v) # rest) safe trusted_host =
     (let normalized_name = bytes_lower name in
      if normalized_name = ''accept-encoding'' then identity_loop rest safe trusted_host
      else if normalized_name = ''host'' then identity_loop rest safe (Some (name, v))
      else identity_loop rest (safe @ [(name, v)]) trusted_host)"

definition force_identity_accept_encoding :: "(bytes \<times> bytes) list \<Rightarrow> (bytes \<times> bytes) list" where
  "force_identity_accept_encoding headers =
     (case identity_loop headers [] None of
        (safe, trusted_host) \<Rightarrow>
          safe @ [(''accept-encoding'', ''identity'')]
          @ (case trusted_host of None \<Rightarrow> [] | Some h \<Rightarrow> [h]))"

definition PUBLIC_RESPONSE_EXTENSION_KEYS :: "ustr list" where
  "PUBLIC_RESPONSE_EXTENSION_KEYS = [u ''http_version'', u ''reason_phrase'']"

text \<open>\<open>probe k\<close> is what looking up the key \<open>k\<close> raises when a hostile key of the dictionary
  takes part in the comparison. The loop returns the entries, or None once it denies.\<close>

fun select_extensions_loop ::
  "(ustr \<Rightarrow> exn option) \<Rightarrow> (pyval \<times> pyval) list \<Rightarrow> ustr list \<Rightarrow> (ustr \<times> bytes) list
    \<Rightarrow> (ustr \<times> bytes) list option res" where
  "select_extensions_loop probe extensions [] public = Inr (Some public)"
| "select_extensions_loop probe extensions (key # keys) public =
     (case probe key of
        Some e \<Rightarrow> if is_process_control e then Inl e else Inr None
      | None \<Rightarrow>
          (case dict_get (VStr key) extensions of
             None \<Rightarrow> select_extensions_loop probe extensions keys public
           | Some v \<Rightarrow>
               (case exact_bytes v of
                  None \<Rightarrow> Inr None
                | Some b \<Rightarrow> select_extensions_loop probe extensions keys (public @ [(key, b)]))))"

definition select_public_response_extensions ::
  "(ustr \<Rightarrow> exn option) \<Rightarrow> pyval \<Rightarrow> (ustr \<times> bytes) list res" where
  "select_public_response_extensions probe extensions =
     (case extensions of
        VDict kvs \<Rightarrow>
          ebind (select_extensions_loop probe kvs PUBLIC_RESPONSE_EXTENSION_KEYS [])
            (of_option EgressNotAllowedError)
      | _ \<Rightarrow> Inl EgressNotAllowedError)"

definition BODYLESS_RESPONSE_STATUS_CODES :: "int list" where
  "BODYLESS_RESPONSE_STATUS_CODES = [204, 304]"

definition bodyless :: "ustr \<Rightarrow> int \<Rightarrow> bool" where
  "bodyless request_method status_code \<longleftrightarrow>
     request_method = u ''HEAD'' \<or> (100 \<le> status_code \<and> status_code < 200)
     \<or> status_code \<in> set BODYLESS_RESPONSE_STATUS_CODES"

definition enforce_declared_response_size ::
  "ustr \<Rightarrow> int \<Rightarrow> (bytes \<times> bytes) list \<Rightarrow> int \<Rightarrow> unit res" where
  "enforce_declared_response_size request_method status_code headers limit =
     (if bodyless request_method status_code then Inr ()
      else
        (let content_encoding_values =
               map snd (filter (\<lambda>(name, _). bytes_lower name = ''content-encoding'') headers) in
         if length content_encoding_values > 1 then Inl EgressNotAllowedError
         else if content_encoding_values \<noteq> [] \<and> hd content_encoding_values \<noteq> ''identity''
         then Inl EgressNotAllowedError
         else
           (case map snd (filter (\<lambda>(name, _). bytes_lower name = ''content-length'') headers) of
              [] \<Rightarrow> Inr ()
            | [content_length] \<Rightarrow>
                if content_length = [] \<or> \<not> all_digits content_length then Inl EgressNotAllowedError
                else
                  (let significant_length = py_lstrip 48 (octets content_length) in
                   if significant_length = [] then Inr ()
                   else ebind (py_str_nat limit) (\<lambda>budget_text.
                     ensure (\<not> exceeds_budget significant_length budget_text) EgressNotAllowedError))
            | _ \<Rightarrow> Inl EgressNotAllowedError)))"

section \<open>The bounded streams\<close>

text \<open>HTTPCore's stream yields byte strings. A wrapper can be iterated again; each iteration
  counts from zero.\<close>

record 'c response_stream =
  rs_chunks :: "bytes list"
  rs_failure :: "exn option"
  rs_closing :: 'c
  rs_max :: int
  rs_consumed :: int
  rs_closes :: nat

definition new_response_stream ::
  "bytes list \<Rightarrow> exn option \<Rightarrow> 'c \<Rightarrow> int \<Rightarrow> 'c response_stream" where
  "new_response_stream chunks failure closing limit =
     \<lparr>rs_chunks = chunks, rs_failure = failure, rs_closing = closing, rs_max = limit,
      rs_consumed = 0, rs_closes = 0\<rparr>"

text \<open>The chunk that crosses the budget is not yielded: the source is closed, and the
  \<open>finally\<close> clause raises the denial whatever closing raised.\<close>

definition response_next :: "'c response_stream \<Rightarrow> pull_result \<times> 'c response_stream" where
  "response_next s =
     (case rs_chunks s of
        [] \<Rightarrow> (case rs_failure s of Some e \<Rightarrow> (Raise e, s) | None \<Rightarrow> (Stop, s))
      | chunk # rest \<Rightarrow>
          (let total = rs_consumed s + int (length chunk);
               s1 = s\<lparr>rs_chunks := rest, rs_consumed := total\<rparr> in
           if total > rs_max s
           then (Raise EgressNotAllowedError, s1\<lparr>rs_closes := Suc (rs_closes s1)\<rparr>)
           else (Yield chunk, s1)))"

definition sync_response_next :: "exn option response_stream \<Rightarrow> pull_result \<times> exn option response_stream" where
  "sync_response_next s = response_next s"

definition async_response_next :: "async_closing response_stream \<Rightarrow> pull_result \<times> async_closing response_stream" where
  "async_response_next s = response_next s"

definition iterate_response ::
  "nat \<Rightarrow> 'c response_stream \<Rightarrow> bytes list \<times> pull_result option \<times> 'c response_stream" where
  "iterate_response n s = pull response_next n (s\<lparr>rs_consumed := 0\<rparr>)"

text \<open>\<open>close\<close> and \<open>aclose\<close> of the wrapper pass on what the source raises.\<close>

definition response_stream_close :: "exn option \<Rightarrow> unit res" where
  "response_stream_close closing = (case closing of None \<Rightarrow> Inr () | Some e \<Rightarrow> Inl e)"

definition rs_source :: "'c response_stream \<Rightarrow> pyval list" where
  "rs_source s = map VBytes (rs_chunks s)"

lemma response_next_Yield:
  assumes "response_next s = (Yield b, s')"
  shows "rs_source s = VBytes b # rs_source s'" "rs_consumed s' = rs_consumed s + int (length b)"
    "rs_consumed s' \<le> rs_max s'"
  using assms
  by (auto simp: response_next_def rs_source_def Let_def split: list.splits option.splits if_splits)

lemma response_next_max: "response_next s = (r, s') \<Longrightarrow> rs_max s' = rs_max s"
  by (auto simp: response_next_def Let_def split: list.splits option.splits if_splits)

interpretation response: byte_budget response_next rs_consumed rs_max rs_source
  by unfold_locales (auto dest: response_next_Yield response_next_max)

interpretation sync_response: byte_budget sync_response_next rs_consumed rs_max rs_source
  using response.byte_budget_axioms by (simp add: sync_response_next_def [abs_def])

interpretation async_response: byte_budget async_response_next rs_consumed rs_max rs_source
  using response.byte_budget_axioms by (simp add: async_response_next_def [abs_def])

lemma identity_loop_eq:
  "identity_loop hs safe t =
    (safe @ filter (\<lambda>(n, _). bytes_lower n \<noteq> ''accept-encoding'' \<and> bytes_lower n \<noteq> ''host'') hs,
     (case filter (\<lambda>(n, _). bytes_lower n = ''host'') hs of [] \<Rightarrow> t | hosts \<Rightarrow> Some (last hosts)))"
  by (induction hs arbitrary: safe t) (auto simp: Let_def split: list.splits)

lemma force_identity_eq:
  "force_identity_accept_encoding hs =
    filter (\<lambda>(n, _). bytes_lower n \<noteq> ''accept-encoding'' \<and> bytes_lower n \<noteq> ''host'') hs
    @ [(''accept-encoding'', ''identity'')]
    @ (case filter (\<lambda>(n, _). bytes_lower n = ''host'') hs of [] \<Rightarrow> [] | hosts \<Rightarrow> [last hosts])"
  by (auto simp: force_identity_accept_encoding_def identity_loop_eq split: list.splits)

lemma select_extensions_loop_Inr:
  "select_extensions_loop probe d keys public = Inr (Some out) \<Longrightarrow>
    \<exists>sel. out = public @ sel \<and> (\<forall>(k, b) \<in> set sel. k \<in> set keys \<and> dict_get (VStr k) d = Some (VBytes b))"
proof (induction keys arbitrary: public)
  case Nil
  then show ?case by simp
next
  case (Cons key keys)
  show ?case
  proof (cases "dict_get (VStr key) d")
    case None
    then show ?thesis using Cons by (fastforce split: option.splits if_splits)
  next
    case (Some v)
    then obtain b where v: "v = VBytes b"
      and rest: "select_extensions_loop probe d keys (public @ [(key, b)]) = Inr (Some out)"
      using Cons.prems by (auto split: option.splits if_splits)
    obtain sel where "out = (public @ [(key, b)]) @ sel"
      "\<forall>(k, b) \<in> set sel. k \<in> set keys \<and> dict_get (VStr k) d = Some (VBytes b)"
      using Cons.IH [OF rest] by blast
    with Some v show ?thesis by (intro exI [of _ "(key, b) # sel"]) auto
  qed
qed

lemma pull_response_end:
  "pull response_next n s = (bs, r, s') \<Longrightarrow>
    (r = Some Stop \<longrightarrow> rs_chunks s = bs \<and> rs_failure s = None)
    \<and> (\<forall>e. r = Some (Raise e) \<longrightarrow>
        (rs_chunks s = bs \<and> rs_failure s = Some e)
        \<or> (e = EgressNotAllowedError \<and> rs_closes s' = Suc (rs_closes s)
           \<and> (\<exists>c rest. rs_chunks s = bs @ c # rest
               \<and> rs_consumed s + total_bytes bs + int (length c) > rs_max s)))"
proof (induction n arbitrary: s bs)
  case 0
  then show ?case by simp
next
  case (Suc n)
  from Suc.prems show ?case
  proof (cases rule: pull_Suc_cases)
    case (chunk b s1 bs')
    have f: "rs_chunks s = b # rs_chunks s1" "rs_failure s1 = rs_failure s" "rs_max s1 = rs_max s"
      "rs_consumed s1 = rs_consumed s + int (length b)" "rs_closes s1 = rs_closes s"
      using chunk(1) by (auto simp: response_next_def Let_def split: list.splits option.splits if_splits)
    from Suc.IH [OF chunk(2)] show ?thesis
      unfolding chunk(3) f(1,2) by (auto simp: f algebra_simps)
  next
    case ended
    then show ?thesis by (auto simp: response_next_def Let_def split: list.splits option.splits if_splits)
  next
    case (raised e)
    then show ?thesis by (auto simp: response_next_def Let_def split: list.splits option.splits if_splits)
  qed
qed

section \<open>Properties\<close>

text \<open>The check of response metadata accepts a bodyless response, or one that is identity-coded
  and declares no length or exactly one decimal length whose value is within the budget.\<close>

lemma declared_response_size_numeric:
  assumes "0 < limit" "length (dec_digits limit) \<le> max_str_digits"
  shows "enforce_declared_response_size m status hs limit =
    (if bodyless m status
        \<or> (named ''content-encoding'' hs = [] \<or> named ''content-encoding'' hs = [''identity''])
          \<and> (named ''content-length'' hs = []
             \<or> (\<exists>v. named ''content-length'' hs = [v] \<and> v \<noteq> [] \<and> all_digits v
                   \<and> dec_value (octets v) \<le> limit))
     then Inr () else Inl EgressNotAllowedError)"
proof -
  have size: "(let sig = py_lstrip 48 (octets v) in
       if sig = [] then Inr ()
       else ebind (py_str_nat limit) (\<lambda>budget_text.
         ensure (\<not> exceeds_budget sig budget_text) EgressNotAllowedError))
     = (if dec_value (octets v) \<le> limit then Inr () else Inl EgressNotAllowedError)"
    if d: "all_digits v" for v
  proof -
    let ?sig = "py_lstrip 48 (octets v)"
    have val: "dec_value ?sig = dec_value (octets v)" by (rule dec_value_lstrip)
    have ad: "all_dec ?sig" using d by (auto simp: all_digits_def intro: all_dec_lstrip)
    show ?thesis
    proof (cases "?sig = []")
      case True
      then have "dec_value (octets v) = 0" using val by simp
      with True assms(1) show ?thesis by simp
    next
      case False
      have "exceeds_budget ?sig (dec_digits limit) \<longleftrightarrow> limit < dec_value ?sig"
        using exceeds_budget_numeric [OF ad False py_lstrip_hd [OF False] assms(1)] .
      with False assms(2) val show ?thesis by (auto simp: py_str_nat_def Let_def)
    qed
  qed
  have enc: "(\<not> length vs > 1 \<and> \<not> (vs \<noteq> [] \<and> hd vs \<noteq> ''identity'')) \<longleftrightarrow> (vs = [] \<or> vs = [''identity''])"
    for vs :: "bytes list"
    by (cases vs; cases "tl vs") auto
  show ?thesis
    unfolding enforce_declared_response_size_def named_def [symmetric] Let_def [of "named ''content-encoding'' hs"]
    using size enc [of "named ''content-encoding'' hs"] by (auto split: list.splits)
qed

lemma declared_response_size_numeric_witness:
  "enforce_declared_response_size (u ''GET'') 200 [(''Content-Length'', ''16777217'')] DEFAULT_MAX_RESPONSE_BYTES
     = Inl EgressNotAllowedError
   \<and> enforce_declared_response_size (u ''GET'') 200
       [(''Content-Encoding'', ''identity''), (''Content-Length'', ''0512'')] DEFAULT_MAX_RESPONSE_BYTES = Inr ()"
proof -
  have lim: "0 < DEFAULT_MAX_RESPONSE_BYTES" "length (dec_digits DEFAULT_MAX_RESPONSE_BYTES) \<le> max_str_digits"
    by code_simp+
  note num = declared_response_size_numeric [OF lim]
  have 1: "\<not> bodyless (u ''GET'') 200" "named ''content-length'' [(''Content-Length'', ''16777217'')] = [''16777217'']"
    "\<not> dec_value (octets ''16777217'') \<le> DEFAULT_MAX_RESPONSE_BYTES" by code_simp+
  have 2: "named ''content-length'' [(''Content-Encoding'', ''identity''), (''Content-Length'', ''0512'')] = [''0512'']"
    "named ''content-encoding'' [(''Content-Encoding'', ''identity''), (''Content-Length'', ''0512'')] = [''identity'']"
    "dec_value (octets ''0512'') \<le> DEFAULT_MAX_RESPONSE_BYTES" "all_digits ''0512''" by code_simp+
  show ?thesis unfolding num using 1 2 by simp
qed

text \<open>C12: an iteration of the bounded response stream delivers a prefix of the source's chunks of at
  most the policy's bytes. It ends normally only after the whole source; it raises only what
  the source raised, or, on the chunk that would cross the budget, the generic denial after
  closing the source once, whatever the closing raised.\<close>

theorem response_stream_bounded:
  assumes "0 \<le> limit"
    and "iterate_response n (new_response_stream chunks failure closing limit) = (bs, r, s')"
  shows "total_bytes bs \<le> limit \<and> (\<exists>rest. chunks = bs @ rest)
    \<and> (r = Some Stop \<longrightarrow> chunks = bs \<and> failure = None)
    \<and> (\<forall>e. r = Some (Raise e) \<longrightarrow> (chunks = bs \<and> failure = Some e)
        \<or> (e = EgressNotAllowedError \<and> rs_closes s' = 1
           \<and> (\<exists>c rest. chunks = bs @ c # rest \<and> total_bytes (bs @ [c]) > limit)))"
proof -
  let ?s = "(new_response_stream chunks failure closing limit)\<lparr>rs_consumed := 0\<rparr>"
  have fields: "rs_consumed ?s = 0" "rs_max ?s = limit" "rs_chunks ?s = chunks" "rs_failure ?s = failure"
    "rs_closes ?s = 0"
    by (simp_all add: new_response_stream_def)
  from assms(2) have p: "pull response_next n ?s = (bs, r, s')" by (simp add: iterate_response_def)
  have "total_bytes bs \<le> limit" using response.pulled_within_budget [OF p] assms(1) by (simp add: fields)
  moreover have "\<exists>rest. chunks = bs @ rest"
  proof -
    obtain rest where "map VBytes chunks = map VBytes bs @ rest"
      using response.pulled_from_source [OF p] by (auto simp: rs_source_def fields)
    then have "\<exists>xs ys. chunks = xs @ ys \<and> map VBytes bs = map VBytes xs" by (auto simp: map_eq_append_conv)
    moreover have "map VBytes bs = map VBytes xs \<Longrightarrow> bs = xs" for xs
      by (auto simp: map_injective inj_def)
    ultimately show ?thesis by blast
  qed
  moreover have snoc: "total_bytes (bs @ [c]) = total_bytes bs + int (length c)" for c
    by (simp add: total_bytes_def)
  ultimately show ?thesis using pull_response_end [OF p] unfolding fields snoc by auto
qed

lemma response_stream_bounded_witness:
  "total_bytes [''abc''] \<le> 4"
proof -
  have "case iterate_response 5 (new_response_stream [''abc'', ''de''] None (Some KeyboardInterrupt) 4) of
      (bs, r, _) \<Rightarrow> bs = [''abc''] \<and> r = Some (Raise EgressNotAllowedError)" by code_simp
  then obtain s' where "iterate_response 5 (new_response_stream [''abc'', ''de''] None (Some KeyboardInterrupt) 4)
      = ([''abc''], Some (Raise EgressNotAllowedError), s')"
    by (auto split: prod.splits)
  from response_stream_bounded [OF _ this] show ?thesis by simp
qed

text \<open>The header section sent requests exactly one content coding, \<open>identity\<close>, whatever the
  caller asked for; it keeps every other field in order and the trusted host last.\<close>

lemma identity_coding_forced:
  assumes "build_safe_request_headers src auth = Inr hs"
  shows "named ''accept-encoding'' (force_identity_accept_encoding hs) = [''identity'']
    \<and> named ''host'' (force_identity_accept_encoding hs) = [auth]
    \<and> last (force_identity_accept_encoding hs) = (''host'', auth)
    \<and> (k \<noteq> ''accept-encoding'' \<longrightarrow> named k (force_identity_accept_encoding hs) = named k hs)"
proof -
  from assms obtain pairs where hs: "hs = filter (\<lambda>(n, _). bytes_lower n \<noteq> ''host'') pairs @ [(''host'', auth)]"
    unfolding build_safe_request_headers_Inr by blast
  have low: "bytes_lower ''host'' = ''host''" "bytes_lower ''accept-encoding'' = ''accept-encoding''"
    by code_simp+
  have none: "filter (\<lambda>(n, _). bytes_lower n = ''host'') (filter (\<lambda>(n, _). bytes_lower n \<noteq> ''host'') ps) = []"
    for ps :: "(bytes \<times> bytes) list"
    by (induction ps) auto
  let ?keep = "filter (\<lambda>(n, _). bytes_lower n \<noteq> ''accept-encoding'' \<and> bytes_lower n \<noteq> ''host'')"
  have eq: "force_identity_accept_encoding hs
      = ?keep pairs @ [(''accept-encoding'', ''identity''), (''host'', auth)]"
    unfolding force_identity_eq hs by (simp add: none low) (induction pairs; auto)
  have keep: "named k (?keep ps) = (if k = ''accept-encoding'' \<or> k = ''host'' then [] else named k ps)" for k ps
    by (induction ps) auto
  have nh: "named k (filter (\<lambda>(n, _). bytes_lower n \<noteq> ''host'') ps) = (if k = ''host'' then [] else named k ps)" for k ps
    by (induction ps) auto
  show ?thesis unfolding eq by (auto simp: keep low hs nh)
qed

text \<open>Of the metadata HTTPCore attaches to a response a caller sees only the protocol version
  and the reason phrase, as the exact byte strings the response carried.\<close>

lemma public_extensions_only:
  assumes "select_public_response_extensions probe extensions = Inr out"
  shows "\<exists>kvs. extensions = VDict kvs \<and> (\<forall>(k, b) \<in> set out.
    k \<in> set PUBLIC_RESPONSE_EXTENSION_KEYS \<and> dict_get (VStr k) kvs = Some (VBytes b))"
proof -
  from assms obtain kvs where "extensions = VDict kvs"
    and "select_extensions_loop probe kvs PUBLIC_RESPONSE_EXTENSION_KEYS [] = Inr (Some out)"
    by (cases extensions) (auto simp: select_public_response_extensions_def result_simps)
  with select_extensions_loop_Inr [of probe kvs PUBLIC_RESPONSE_EXTENSION_KEYS "[]" out] show ?thesis by auto
qed

end
