(* ===== verification/Pinned_Transport.thy ===== *)
theory Pinned_Transport
  imports Pinned_Backend Response_Safety Tls
begin

text \<open>
  Model of the transports and client builders of \<open>src/egressweave/sync_transport.py\<close> and
  \<open>src/egressweave/transport.py\<close>: the constructor, the handling of one request from the
  checks to the delivery of the response, and the four functions that build clients. Both
  modules contain the same request handling; they differ in how a stream is closed, so it
  is written once over the closing functions and instantiated for both.

  HTTPX and HTTPCore are arguments: what a request object holds, and what the connection
  pool does with the request it is handed (a response, or the exception that
  \<open>map_httpcore_exceptions\<close> lets out).
\<close>

section \<open>Requests and responses\<close>

record 'c body_source =
  bs_chunks :: "pyval list"
  bs_failure :: "exn option"
  bs_closing :: 'c

record http_url =
  url_scheme :: ustr
  url_userinfo :: bytes
  url_hostname :: ustr
  url_port :: "int option"
  url_raw_path :: pyval

record 'c http_request =
  hr_method :: pyval
  hr_url :: http_url
  hr_headers :: header_source
  hr_extensions :: pyval
  hr_stream :: "'c body_source"

record 'c core_request =
  cr_method :: pyval
  cr_scheme :: bytes
  cr_host :: bytes
  cr_port :: int
  cr_target :: bytes
  cr_headers :: "(bytes \<times> bytes) list"
  cr_content :: "'c request_stream"
  cr_extensions :: "(pyval \<times> pyval) list"

record 'd core_response =
  cs_status :: int
  cs_headers :: header_source
  cs_extensions :: pyval
  cs_probe :: "ustr \<Rightarrow> exn option"      \<comment> \<open>what looking a key up in the extensions raises\<close>
  cs_chunks :: "bytes list"
  cs_failure :: "exn option"
  cs_closing :: 'd

record 'd http_response =
  hp_status :: int
  hp_headers :: header_source
  hp_stream :: "'d response_stream"
  hp_extensions :: "(ustr \<times> bytes) list"

text \<open>What one call of \<open>handle_request\<close> did: its result, the request the pool got, and how
  often the transport itself closed the request's and the response's stream.\<close>

record ('c, 'd) exchange =
  ex_result :: "'d http_response res"
  ex_sent :: "'c core_request option"
  ex_request_closes :: nat
  ex_response_closes :: nat

section \<open>The transport\<close>

record pool_settings =
  ps_ssl_context :: ssl_context
  ps_max_connections :: int
  ps_max_keepalive_connections :: int
  ps_keepalive_expiry :: rat
  ps_http1 :: bool
  ps_http2 :: bool
  ps_network_backend :: network_backend

record pinned_transport =
  tr_validated :: ValidatedEgressURL
  tr_policy :: EgressPolicy
  tr_pool :: pool_settings

definition make_transport_with ::
  "(ustr \<Rightarrow> int \<Rightarrow> ustr list \<Rightarrow> EgressPolicy \<Rightarrow> network_backend res) \<Rightarrow> pyenv \<Rightarrow> ssl_library
    \<Rightarrow> candidate \<Rightarrow> EgressPolicy \<Rightarrow> tls_configuration_arg \<Rightarrow> pinned_transport res" where
  "make_transport_with make_backend E lib validated p tls =
     ebind (revalidate_pinned_egress_url E validated p) (\<lambda>v.
     ebind (create_egress_ssl_context lib tls) (\<lambda>ssl_context.
     ebind (make_backend (vu_hostname v) (vu_port v) (vu_addresses v) p) (\<lambda>backend.
     Inr \<lparr>tr_validated = v, tr_policy = p,
          tr_pool =
            \<lparr>ps_ssl_context = ssl_context,
             ps_max_connections = max_connections (connection_pool_policy p),
             ps_max_keepalive_connections = max_keepalive_connections (connection_pool_policy p),
             ps_keepalive_expiry = keepalive_expiry_seconds (connection_pool_policy p),
             ps_http1 = True, ps_http2 = False, ps_network_backend = backend\<rparr>\<rparr>)))"

definition make_sync_transport ::
  "pyenv \<Rightarrow> ssl_library \<Rightarrow> candidate \<Rightarrow> EgressPolicy \<Rightarrow> tls_configuration_arg \<Rightarrow> pinned_transport res"
where
  "make_sync_transport E lib validated p tls =
     make_transport_with (make_sync_network_backend E) E lib validated p tls"

definition make_async_transport ::
  "pyenv \<Rightarrow> ssl_library \<Rightarrow> candidate \<Rightarrow> EgressPolicy \<Rightarrow> tls_configuration_arg \<Rightarrow> pinned_transport res"
where
  "make_async_transport E lib validated p tls =
     make_transport_with (make_async_network_backend E) E lib validated p tls"

definition default_port_of :: "ustr \<Rightarrow> int option" where
  "default_port_of scheme =
     (if scheme = u ''http'' then Some 80 else if scheme = u ''https'' then Some 443 else None)"

definition verify_request_target ::
  "pyenv \<Rightarrow> pinned_transport \<Rightarrow> 'c http_request \<Rightarrow> unit res" where
  "verify_request_target E t r =
     ebind (enforce_allowed_http_method E (hr_method r) (tr_policy t)) (\<lambda>_.
     ebind (urlsplit E (vu_normalized_url (tr_validated t))) (\<lambda>parsed_url.
     let request_scheme = py_lower E (url_scheme (hr_url r));
         request_host = normalize_host E (url_hostname (hr_url r));
         request_port = (case url_port (hr_url r) of
             Some n \<Rightarrow> Some n | None \<Rightarrow> default_port_of request_scheme) in
     if url_userinfo (hr_url r) \<noteq> [] \<or> request_scheme \<noteq> us_scheme parsed_url
        \<or> request_host \<noteq> vu_hostname (tr_validated t)
        \<or> request_port \<noteq> Some (vu_port (tr_validated t))
     then Inl EgressNotAllowedError else Inr ()))"

text \<open>The body of the first \<open>try\<close>: the split URL, the target, the extensions, the headers and
  the declared length, in the order the code computes them.\<close>

definition prepare_request ::
  "pyenv \<Rightarrow> pinned_transport \<Rightarrow> 'c http_request
    \<Rightarrow> (split_result \<times> bytes \<times> (pyval \<times> pyval) list \<times> (bytes \<times> bytes) list \<times> int option) res" where
  "prepare_request E t r =
     (let p = tr_policy t; v = tr_validated t in
      ebind (verify_request_target E t r) (\<lambda>_.
      ebind (urlsplit E (vu_normalized_url v)) (\<lambda>parsed_url.
      ebind (enforce_request_target_limit (url_raw_path (hr_url r)) (max_request_target_bytes p))
        (\<lambda>safe_target.
      ebind (bind_validated_tls_server_name E (hr_extensions r) (vu_hostname v)) (\<lambda>named_extensions.
      ebind (bind_bounded_request_timeouts named_extensions (request_timeout_policy p))
        (\<lambda>safe_extensions.
      ebind (of_option UnicodeEncodeError (encode_ascii (us_netloc parsed_url))) (\<lambda>authority.
      ebind (build_safe_request_headers (hr_headers r) authority) (\<lambda>built_headers.
      let safe_headers = force_identity_accept_encoding built_headers in
      ebind (enforce_request_header_limits (header_list safe_headers)
               (max_request_header_fields p) (max_request_header_bytes p)) (\<lambda>_.
      ebind (enforce_declared_request_size safe_headers (max_request_bytes p)) (\<lambda>declared.
      Inr (parsed_url, safe_target, safe_extensions, safe_headers, declared)))))))))))"

definition build_core_request ::
  "pinned_transport \<Rightarrow> 'c http_request
    \<Rightarrow> split_result \<times> bytes \<times> (pyval \<times> pyval) list \<times> (bytes \<times> bytes) list \<times> int option
    \<Rightarrow> 'c core_request res" where
  "build_core_request t r prepared =
     (case prepared of (parsed_url, safe_target, safe_extensions, safe_headers, declared) \<Rightarrow>
        ebind (of_option UnicodeEncodeError (encode_ascii (us_scheme parsed_url))) (\<lambda>scheme.
        ebind (of_option UnicodeEncodeError (encode_ascii (vu_hostname (tr_validated t)))) (\<lambda>host.
        Inr \<lparr>cr_method = hr_method r, cr_scheme = scheme, cr_host = host,
             cr_port = vu_port (tr_validated t), cr_target = safe_target, cr_headers = safe_headers,
             cr_content = new_request_stream (bs_chunks (hr_stream r)) (bs_failure (hr_stream r))
               (bs_closing (hr_stream r)) (max_request_bytes (tr_policy t)) declared,
             cr_extensions = safe_extensions\<rparr>)))"

text \<open>The low-level headers are a list, so the second check reads them again.\<close>

definition header_pairs :: "header_source \<Rightarrow> (bytes \<times> bytes) list" where
  "header_pairs src = List.map_filter coerce_response_header_item (hs_items src)"

definition method_text :: "pyval \<Rightarrow> ustr" where
  "method_text m = (case as_str m of Some s \<Rightarrow> s | None \<Rightarrow> [])"

definition check_response ::
  "EgressPolicy \<Rightarrow> pyval \<Rightarrow> 'd core_response \<Rightarrow> (ustr \<times> bytes) list res" where
  "check_response p method response =
     ebind (enforce_response_header_limits (cs_headers response)
              (max_response_header_fields p) (max_response_header_bytes p)) (\<lambda>_.
     ebind (enforce_declared_response_size (method_text method) (cs_status response)
              (header_pairs (cs_headers response)) (max_response_bytes p)) (\<lambda>_.
     select_public_response_extensions (cs_probe response) (cs_extensions response)))"

definition deny_after_close :: "exn option \<Rightarrow> exn" where
  "deny_after_close closing =
     (case closing of
        None \<Rightarrow> EgressNotAllowedError
      | Some e \<Rightarrow> if is_Exception e then EgressNotAllowedError else e)"

definition deliver_response ::
  "EgressPolicy \<Rightarrow> 'd core_response \<Rightarrow> (ustr \<times> bytes) list \<Rightarrow> 'd http_response" where
  "deliver_response p response safe_extensions =
     \<lparr>hp_status = cs_status response, hp_headers = cs_headers response,
      hp_stream = new_response_stream (cs_chunks response) (cs_failure response)
        (cs_closing response) (max_response_bytes p),
      hp_extensions = safe_extensions\<rparr>"

definition handle_request_with ::
  "('c \<Rightarrow> exn option) \<Rightarrow> ('d \<Rightarrow> exn option) \<Rightarrow> ('d \<Rightarrow> exn option) \<Rightarrow> pyenv \<Rightarrow> pinned_transport
    \<Rightarrow> ('c core_request \<Rightarrow> 'd core_response res) \<Rightarrow> 'c http_request \<Rightarrow> ('c, 'd) exchange" where
  "handle_request_with close_request close_response cleanup_response E t pool r =
     (case prepare_request E t r of
        Inl e \<Rightarrow>
          if e = EgressNotAllowedError
          then \<lparr>ex_result = Inl (deny_after_close (close_request (bs_closing (hr_stream r)))),
                ex_sent = None, ex_request_closes = 1, ex_response_closes = 0\<rparr>
          else \<lparr>ex_result = Inl e, ex_sent = None, ex_request_closes = 0, ex_response_closes = 0\<rparr>
      | Inr prepared \<Rightarrow>
     (case build_core_request t r prepared of
        Inl e \<Rightarrow> \<lparr>ex_result = Inl e, ex_sent = None, ex_request_closes = 0, ex_response_closes = 0\<rparr>
      | Inr request \<Rightarrow>
     (case pool request of
        Inl e \<Rightarrow>
          \<lparr>ex_result = Inl e, ex_sent = Some request, ex_request_closes = 0, ex_response_closes = 0\<rparr>
      | Inr response \<Rightarrow>
     (case check_response (tr_policy t) (hr_method r) response of
        Inl e \<Rightarrow>
          if e = EgressNotAllowedError
          then \<lparr>ex_result = Inl (deny_after_close (close_response (cs_closing response))),
                ex_sent = Some request, ex_request_closes = 0, ex_response_closes = 1\<rparr>
          else if is_process_control e
          then \<lparr>ex_result = Inl (case cleanup_response (cs_closing response) of
                  Some e' \<Rightarrow> e' | None \<Rightarrow> e),
                ex_sent = Some request, ex_request_closes = 0, ex_response_closes = 1\<rparr>
          else \<lparr>ex_result = Inl e, ex_sent = Some request,
                ex_request_closes = 0, ex_response_closes = 0\<rparr>
      | Inr safe_extensions \<Rightarrow>
          \<lparr>ex_result = Inr (deliver_response (tr_policy t) response safe_extensions),
           ex_sent = Some request, ex_request_closes = 0, ex_response_closes = 0\<rparr>))))"

definition sync_handle_request ::
  "pyenv \<Rightarrow> pinned_transport \<Rightarrow> (exn option core_request \<Rightarrow> exn option core_response res)
    \<Rightarrow> exn option http_request \<Rightarrow> (exn option, exn option) exchange" where
  "sync_handle_request E t pool r =
     handle_request_with (\<lambda>closing. closing) (\<lambda>closing. closing)
       close_sync_response_after_policy_denial E t pool r"

text \<open>What awaiting \<open>aclose()\<close> raises.\<close>

definition awaited_close :: "async_closing \<Rightarrow> exn option" where
  "awaited_close closing =
     (case ac_setup closing of
        Some e \<Rightarrow> Some e
      | None \<Rightarrow> if ac_cancelled closing then Some CancelledError else ac_child closing)"

definition async_handle_async_request ::
  "pyenv \<Rightarrow> pinned_transport \<Rightarrow> (async_closing core_request \<Rightarrow> async_closing core_response res)
    \<Rightarrow> async_closing http_request \<Rightarrow> (async_closing, async_closing) exchange" where
  "async_handle_async_request E t pool r =
     handle_request_with awaited_close awaited_close
       (\<lambda>closing. close_async_response_after_policy_denial (awaited_close closing)) E t pool r"

section \<open>Deny-all transport and clients\<close>

definition deny_all_handle_request :: "'c http_request \<Rightarrow> ('c, 'd) exchange" where
  "deny_all_handle_request r =
     \<lparr>ex_result = Inl EgressNotAllowedError, ex_sent = None,
      ex_request_closes = 0, ex_response_closes = 0\<rparr>"

datatype egress_transport = DenyAll | Pinned pinned_transport

record http_client =
  follow_redirects :: bool
  trust_env :: bool
  client_transport :: egress_transport

definition http_client_of :: "egress_transport \<Rightarrow> http_client" where
  "http_client_of transport =
     \<lparr>follow_redirects = False, trust_env = False, client_transport = transport\<rparr>"

definition build_egress_sync_client ::
  "pyenv \<Rightarrow> getaddrinfo \<Rightarrow> resolver_run \<Rightarrow> ssl_library \<Rightarrow> ustr option \<Rightarrow> EgressPolicy
    \<Rightarrow> tls_configuration_arg \<Rightarrow> (ustr option \<times> http_client) res" where
  "build_egress_sync_client E g run lib base_url p tls =
     ebind (validate_egress_url_details E g run base_url p) (\<lambda>validated.
     case validated of
       None \<Rightarrow> Inr (None, http_client_of DenyAll)
     | Some v \<Rightarrow>
         ebind (make_sync_transport E lib (as_candidate v) p tls) (\<lambda>t.
         Inr (Some (vu_normalized_url v), http_client_of (Pinned t))))"

definition build_egress_http_client ::
  "pyenv \<Rightarrow> getaddrinfo \<Rightarrow> resolver_run \<Rightarrow> ssl_library \<Rightarrow> ustr option \<Rightarrow> EgressPolicy
    \<Rightarrow> tls_configuration_arg \<Rightarrow> (ustr option \<times> http_client) res" where
  "build_egress_http_client E g run lib base_url p tls =
     ebind (validate_egress_url_details_async E g run base_url p) (\<lambda>validated.
     case validated of
       None \<Rightarrow> Inr (None, http_client_of DenyAll)
     | Some v \<Rightarrow>
         ebind (make_async_transport E lib (as_candidate v) p tls) (\<lambda>t.
         Inr (Some (vu_normalized_url v), http_client_of (Pinned t))))"

definition build_pinned_https_client ::
  "pyenv \<Rightarrow> ssl_library \<Rightarrow> candidate \<Rightarrow> EgressPolicy \<Rightarrow> tls_configuration_arg \<Rightarrow> http_client res" where
  "build_pinned_https_client E lib validated p tls =
     ebind (make_sync_transport E lib validated p tls) (\<lambda>t. Inr (http_client_of (Pinned t)))"

definition build_pinned_https_async_client ::
  "pyenv \<Rightarrow> ssl_library \<Rightarrow> candidate \<Rightarrow> EgressPolicy \<Rightarrow> tls_configuration_arg \<Rightarrow> http_client res" where
  "build_pinned_https_async_client E lib validated p tls =
     ebind (make_async_transport E lib validated p tls) (\<lambda>t. Inr (http_client_of (Pinned t)))"

text \<open>What a client does with a request: it has no other way to the network than its transport.\<close>

definition sync_client_handle ::
  "pyenv \<Rightarrow> (pool_settings \<Rightarrow> exn option core_request \<Rightarrow> exn option core_response res) \<Rightarrow> http_client
    \<Rightarrow> exn option http_request \<Rightarrow> (exn option, exn option) exchange" where
  "sync_client_handle E pool client r =
     (case client_transport client of
        DenyAll \<Rightarrow> deny_all_handle_request r
      | Pinned t \<Rightarrow> sync_handle_request E t (pool (tr_pool t)) r)"

definition async_client_handle ::
  "pyenv \<Rightarrow> (pool_settings \<Rightarrow> async_closing core_request \<Rightarrow> async_closing core_response res) \<Rightarrow> http_client
    \<Rightarrow> async_closing http_request \<Rightarrow> (async_closing, async_closing) exchange" where
  "async_client_handle E pool client r =
     (case client_transport client of
        DenyAll \<Rightarrow> deny_all_handle_request r
      | Pinned t \<Rightarrow> async_handle_async_request E t (pool (tr_pool t)) r)"

end
