(* ===== verification/Transport_Rules.thy ===== *)
theory Transport_Rules
  imports Pinned_Transport
begin

text \<open>
  What the transports of \<open>src/egressweave/sync_transport.py\<close> and
  \<open>src/egressweave/transport.py\<close> guarantee about one request: what can reach the connection
  pool, what a caller can receive, and what is closed when a request or a response is refused.
\<close>

section \<open>Constructed transports\<close>

lemma make_async_transport_eq: "make_async_transport = make_sync_transport"
  by (intro ext) (simp add: make_async_transport_def make_sync_transport_def make_async_network_backend_eq)

lemma bounded_unique_validated:
  "validate_bounded_unique_addresses E cs p h = Inr out \<Longrightarrow> list_all (validated_address E p h) out"
  unfolding validate_bounded_unique_addresses_def
proof -
  have "bounded_unique_loop E p h acc cs = Inr out \<Longrightarrow> list_all (validated_address E p h) acc \<Longrightarrow>
      list_all (validated_address E p h) out" for acc
    by (induction cs arbitrary: acc)
      (auto simp: result_simps dest: validate_global_address_validated split: if_splits)
  then show "bounded_unique_loop E p h [] cs = Inr out \<Longrightarrow> list_all (validated_address E p h) out" by simp
qed

lemma make_sync_transport_Inr:
  assumes "make_sync_transport E lib cand p tls = Inr t"
  shows "tr_policy t = p" "revalidate_pinned_egress_url E cand p = Inr (tr_validated t)"
    "normalize_egress_url E (Some (vu_normalized_url (tr_validated t))) p
      = Inr (Some (vu_normalized_url (tr_validated t), vu_hostname (tr_validated t), vu_port (tr_validated t)))"
    "vu_addresses (tr_validated t) \<noteq> []"
    "list_all (validated_address E p (vu_hostname (tr_validated t))) (vu_addresses (tr_validated t))"
    "create_egress_ssl_context lib tls = Inr (ps_ssl_context (tr_pool t))"
    "ps_network_backend (tr_pool t) = \<lparr>nb_hostname = vu_hostname (tr_validated t),
       nb_port = vu_port (tr_validated t), nb_policy = p, nb_addresses = vu_addresses (tr_validated t)\<rparr>"
    "\<not> ps_http2 (tr_pool t)"
proof -
  from assms obtain v cx b where re: "revalidate_pinned_egress_url E cand p = Inr v"
    and cx: "create_egress_ssl_context lib tls = Inr cx"
    and b: "make_sync_network_backend E (vu_hostname v) (vu_port v) (vu_addresses v) p = Inr b"
    and t: "tr_validated t = v" "tr_policy t = p" "ps_ssl_context (tr_pool t) = cx"
      "ps_network_backend (tr_pool t) = b" "\<not> ps_http2 (tr_pool t)"
    by (auto simp: make_sync_transport_def make_transport_with_def result_simps)
  show "tr_policy t = p" "revalidate_pinned_egress_url E cand p = Inr (tr_validated t)"
    "create_egress_ssl_context lib tls = Inr (ps_ssl_context (tr_pool t))" "\<not> ps_http2 (tr_pool t)"
    using re cx t by simp_all
  obtain c where cand: "cand = ResultObject c"
    using re by (cases cand) (simp_all add: revalidate_pinned_egress_url_def)
  from re [unfolded cand] obtain cs where n: "normalize_egress_url E (Some (vu_normalized_url v)) p
      = Inr (Some (vu_normalized_url v, vu_hostname v, vu_port v))"
    and a: "validate_bounded_unique_addresses E cs p (vu_hostname v) = Inr (vu_addresses v)"
    by (rule revalidate_Inr) blast
  have ne: "vu_addresses v \<noteq> []" using b by (auto simp: make_sync_network_backend_def split: if_splits)
  note va = bounded_unique_validated [OF a]
  show "normalize_egress_url E (Some (vu_normalized_url (tr_validated t))) p
      = Inr (Some (vu_normalized_url (tr_validated t), vu_hostname (tr_validated t), vu_port (tr_validated t)))"
    "vu_addresses (tr_validated t) \<noteq> []"
    "list_all (validated_address E p (vu_hostname (tr_validated t))) (vu_addresses (tr_validated t))"
    using n ne va t by simp_all
  show "ps_network_backend (tr_pool t) = \<lparr>nb_hostname = vu_hostname (tr_validated t),
       nb_port = vu_port (tr_validated t), nb_policy = p, nb_addresses = vu_addresses (tr_validated t)\<rparr>"
    using b t make_network_backend_total [OF va ne] by simp
qed

lemma encode_ascii_Some: "encode_ascii s = Some b \<Longrightarrow> octets b = s"
  by (auto simp: encode_ascii_def py_isascii_def octets_char_of split: if_splits)

section \<open>Prepared requests\<close>

lemma verify_request_target_Inr:
  assumes "verify_request_target E t r = Inr ()" "urlsplit E (vu_normalized_url (tr_validated t)) = Inr parsed"
  shows "enforce_allowed_http_method E (hr_method r) (tr_policy t) = Inr ()"
    "url_userinfo (hr_url r) = []" "py_lower E (url_scheme (hr_url r)) = us_scheme parsed"
    "normalize_host E (url_hostname (hr_url r)) = vu_hostname (tr_validated t)"
    "(case url_port (hr_url r) of Some n \<Rightarrow> Some n | None \<Rightarrow> default_port_of (us_scheme parsed))
      = Some (vu_port (tr_validated t))"
  using assms by (auto simp: verify_request_target_def result_simps Let_def split: if_splits option.splits)

lemma prepare_request_Inr:
  assumes "prepare_request E t r = Inr (parsed, target, exts, hs, declared)"
  obtains named_exts authority built where
    "verify_request_target E t r = Inr ()"
    "urlsplit E (vu_normalized_url (tr_validated t)) = Inr parsed"
    "enforce_request_target_limit (url_raw_path (hr_url r)) (max_request_target_bytes (tr_policy t)) = Inr target"
    "bind_validated_tls_server_name E (hr_extensions r) (vu_hostname (tr_validated t)) = Inr named_exts"
    "bind_bounded_request_timeouts named_exts (request_timeout_policy (tr_policy t)) = Inr exts"
    "encode_ascii (us_netloc parsed) = Some authority"
    "build_safe_request_headers (hr_headers r) authority = Inr built"
    "hs = force_identity_accept_encoding built"
    "enforce_request_header_limits (header_list hs) (max_request_header_fields (tr_policy t))
       (max_request_header_bytes (tr_policy t)) = Inr ()"
    "enforce_declared_request_size hs (max_request_bytes (tr_policy t)) = Inr declared"
proof -
  from assms obtain x parsed' target' named_exts exts' authority built y declared' where
    "verify_request_target E t r = Inr x"
    "urlsplit E (vu_normalized_url (tr_validated t)) = Inr parsed'"
    "enforce_request_target_limit (url_raw_path (hr_url r)) (max_request_target_bytes (tr_policy t)) = Inr target'"
    "bind_validated_tls_server_name E (hr_extensions r) (vu_hostname (tr_validated t)) = Inr named_exts"
    "bind_bounded_request_timeouts named_exts (request_timeout_policy (tr_policy t)) = Inr exts'"
    "encode_ascii (us_netloc parsed') = Some authority"
    "build_safe_request_headers (hr_headers r) authority = Inr built"
    "enforce_request_header_limits (header_list (force_identity_accept_encoding built))
       (max_request_header_fields (tr_policy t)) (max_request_header_bytes (tr_policy t)) = Inr y"
    "enforce_declared_request_size (force_identity_accept_encoding built) (max_request_bytes (tr_policy t))
      = Inr declared'"
    "(Inr (parsed', target', exts', force_identity_accept_encoding built, declared')
       :: (split_result \<times> bytes \<times> (pyval \<times> pyval) list \<times> (bytes \<times> bytes) list \<times> int option) res)
      = Inr (parsed, target, exts, hs, declared)"
    unfolding prepare_request_def Let_def ebind_eq_Inr of_option_eq_Inr
    by (elim exE conjE) (rule that, assumption+)
  then show thesis by (intro that) auto
qed

lemma build_core_request_Inr:
  assumes "build_core_request t r (parsed, target, exts, hs, declared) = Inr q"
  shows "cr_method q = hr_method r" "octets (cr_scheme q) = us_scheme parsed"
    "octets (cr_host q) = vu_hostname (tr_validated t)" "cr_port q = vu_port (tr_validated t)"
    "cr_target q = target" "cr_headers q = hs" "cr_extensions q = exts"
    "cr_content q = new_request_stream (bs_chunks (hr_stream r)) (bs_failure (hr_stream r))
       (bs_closing (hr_stream r)) (max_request_bytes (tr_policy t)) declared"
  using assms by (auto simp: build_core_request_def result_simps dest: encode_ascii_Some)

text \<open>A request reaches the pool only through both steps.\<close>

lemma handle_request_sent:
  assumes "ex_sent (handle_request_with a b c E t pool r) = Some q"
  obtains parsed target exts hs declared where
    "prepare_request E t r = Inr (parsed, target, exts, hs, declared)"
    "build_core_request t r (parsed, target, exts, hs, declared) = Inr q"
proof -
  from assms obtain prepared where p: "prepare_request E t r = Inr prepared"
    by (cases "prepare_request E t r") (auto simp: handle_request_with_def split: if_splits)
  moreover from assms p have "build_core_request t r prepared = Inr q"
    by (auto simp: handle_request_with_def split: sum.splits if_splits)
  moreover obtain parsed target exts hs declared where "prepared = (parsed, target, exts, hs, declared)"
    by (metis prod_cases5)
  ultimately show thesis using that by blast
qed

end
