(* ===== verification/Exchange_Rules.thy ===== *)
theory Exchange_Rules
  imports Transport_Rules
begin

text \<open>
  The guarantees of one exchange over a pinned transport of \<open>src/egressweave/sync_transport.py\<close>
  or \<open>src/egressweave/transport.py\<close>: what reaches the connection pool, what a caller receives,
  and which streams are closed when something is refused.
\<close>

section \<open>How the checks fail\<close>

lemma header_limit_loop_Inl:
  "header_limit_loop masks F B c n items failure = Inl e \<Longrightarrow> failure = Some e \<and> \<not> masks e"
  by (induction masks F B c n items failure rule: header_limit_loop.induct)
    (auto simp: Let_def split: if_splits option.splits prod.splits)

lemma enforce_request_header_limits_list_Inl:
  "enforce_request_header_limits (header_list hs) F B = Inl e \<Longrightarrow> e = EgressNotAllowedError"
  by (auto simp: enforce_request_header_limits_def header_list_def result_simps
      dest: header_limit_loop_Inl split: if_splits)

lemma enforce_response_header_limits_Inl:
  "enforce_response_header_limits src F B = Inl e \<Longrightarrow> e = EgressNotAllowedError"
  by (auto simp: enforce_response_header_limits_def result_simps
      dest: header_limit_loop_Inl split: if_splits)

lemma safe_header_loop_Inl:
  "safe_header_loop items safe cls tes = Inl e \<Longrightarrow> e = EgressNotAllowedError"
  by (induction items safe cls tes rule: safe_header_loop.induct)
    (auto simp: Let_def split: option.splits if_splits)

lemma build_safe_request_headers_Inl:
  "build_safe_request_headers src auth = Inl e \<Longrightarrow> e = EgressNotAllowedError \<or> hs_failure src = Some e"
  by (auto simp: build_safe_request_headers_def result_simps
      dest: safe_header_loop_Inl validate_http_message_framing_Inl split: option.splits)

lemma enforce_request_target_limit_Inl:
  "enforce_request_target_limit v n = Inl e \<Longrightarrow> e = EgressNotAllowedError"
  by (auto simp: enforce_request_target_limit_def split: option.splits if_splits)

lemma requested_server_name_Inl: "requested_server_name v = Inl e \<Longrightarrow> e = EgressNotAllowedError"
  by (auto simp: requested_server_name_def result_simps split: option.splits)

lemma bind_validated_tls_server_name_Inl:
  "bind_validated_tls_server_name E x h = Inl e \<Longrightarrow> e = EgressNotAllowedError"
  by (auto simp: bind_validated_tls_server_name_def Let_def result_simps dest: requested_server_name_Inl split: if_splits)

lemma coerce_timeout_number_total: "coerce_timeout_number v \<noteq> Inl e"
  by (cases v)
    (auto simp: coerce_timeout_number_def float_of_int_def Let_def of_option_def
      split: sum.splits if_splits option.splits)

lemma bound_one_timeout_Inl:
  "bound_one_timeout requested key maximum = Inl e \<Longrightarrow> e = EgressNotAllowedError"
  by (auto simp: bound_one_timeout_def Let_def result_simps coerce_timeout_number_total split: option.splits if_splits)

lemma bind_bounded_request_timeouts_Inl:
  assumes "bind_bounded_request_timeouts x tp = Inl e"
  shows "e = EgressNotAllowedError"
proof -
  have "emap (\<lambda>(key, maximum). ebind (bound_one_timeout requested key maximum)
      (\<lambda>q. Inr (VStr (u key), VFloat (FFin q)))) ks = Inl e \<Longrightarrow> e = EgressNotAllowedError" for requested ks
    by (drule emap_Inl_ex) (auto simp: result_simps dest: bound_one_timeout_Inl)
  with assms show ?thesis
    by (auto simp: bind_bounded_request_timeouts_def Let_def result_simps split: if_splits)
qed

lemma py_str_nat_Inl: "py_str_nat n = Inl e \<Longrightarrow> max_str_digits < length (dec_digits n)"
  by (simp add: py_str_nat_def split: if_splits)

lemma enforce_declared_request_size_Inl:
  "enforce_declared_request_size hs n = Inl e \<Longrightarrow> length (dec_digits n) \<le> max_str_digits \<Longrightarrow>
    e = EgressNotAllowedError"
  by (auto simp: enforce_declared_request_size_def result_simps Let_def dest!: py_str_nat_Inl
      split: list.splits if_splits)

lemma enforce_declared_response_size_Inl:
  "enforce_declared_response_size m c hs n = Inl e \<Longrightarrow> length (dec_digits n) \<le> max_str_digits \<Longrightarrow>
    e = EgressNotAllowedError"
  by (auto simp: enforce_declared_response_size_def result_simps Let_def dest!: py_str_nat_Inl
      split: list.splits if_splits)

lemma select_extensions_loop_Inl:
  "select_extensions_loop probe d keys public = Inl e \<Longrightarrow> is_process_control e"
  by (induction keys arbitrary: public) (auto split: option.splits if_splits)

lemma select_public_response_extensions_Inl:
  "select_public_response_extensions probe x = Inl e \<Longrightarrow> e = EgressNotAllowedError \<or> is_process_control e"
  by (auto simp: select_public_response_extensions_def result_simps
      dest: select_extensions_loop_Inl split: pyval.splits)

lemma check_response_Inl:
  "check_response p m response = Inl e \<Longrightarrow> length (dec_digits (max_response_bytes p)) \<le> max_str_digits \<Longrightarrow>
    e = EgressNotAllowedError \<or> is_process_control e"
  by (auto simp: check_response_def result_simps dest: enforce_response_header_limits_Inl
      enforce_declared_response_size_Inl select_public_response_extensions_Inl)

lemma enforce_declared_request_size_Inr:
  "enforce_declared_request_size hs n = Inr declared \<Longrightarrow>
    (named ''content-length'' hs = [] \<and> declared = None)
    \<or> (\<exists>v. named ''content-length'' hs = [v] \<and> declared = Some (dec_value (octets v)))"
  unfolding enforce_declared_request_size_def named_def [symmetric]
  using dec_value_lstrip
  by (auto simp: result_simps Let_def split: list.splits if_splits) (metis dec_value_Nil)

lemma enforce_declared_response_size_encoding:
  "enforce_declared_response_size m c hs n = Inr () \<Longrightarrow> bodyless m c
    \<or> named ''content-encoding'' hs = [] \<or> named ''content-encoding'' hs = [''identity'']"
  unfolding enforce_declared_response_size_def named_def [symmetric]
  by (cases "named ''content-encoding'' hs"; cases "tl (named ''content-encoding'' hs)")
    (auto simp: Let_def split: if_splits)

section \<open>Transports over a canonical host\<close>

text \<open>The hypotheses about a transport that the rules share: it was constructed, and the host it
  is pinned to is a canonical IDNA name. Then its URL splits into its parts.\<close>

lemma transport_url:
  assumes "idna_contract E" "make_sync_transport E lib cand p tls = Inr t"
    and "canonicalize_host E g = Inr (vu_hostname (tr_validated t))"
  obtains parsed mp where "urlsplit E (vu_normalized_url (tr_validated t)) = Inr parsed"
    "us_netloc parsed = (if mp \<noteq> None then vu_hostname (tr_validated t) @ 58 # dec_digits (vu_port (tr_validated t))
       else vu_hostname (tr_validated t))"
    "py_isascii (us_netloc parsed)" "py_isascii (vu_hostname (tr_validated t))"
    "us_scheme parsed = u ''https''
      \<or> us_scheme parsed = u ''http'' \<and> \<not> remote_host E p (vu_hostname (tr_validated t))"
    "vu_port (tr_validated t)
      = (case mp of Some m \<Rightarrow> m | None \<Rightarrow> if us_scheme parsed = u ''https'' then 443 else 80)"
proof -
  note norm = make_sync_transport_Inr(3) [OF assms(2)]
  have "list_all is_ldh_dot_c (vu_hostname (tr_validated t))"
    using canonicalize_host_Inr [OF assms(1,3)] by blast
  then have ascii: "py_isascii (vu_hostname (tr_validated t))"
    by (auto simp: py_isascii_def list_all_iff dest: ldh_dot_facts(1))
  obtain parsed mp where 1: "urlsplit E (vu_normalized_url (tr_validated t)) = Inr parsed"
    and 2: "us_netloc parsed = (if mp \<noteq> None then vu_hostname (tr_validated t) @ 58 # dec_digits (vu_port (tr_validated t))
       else vu_hostname (tr_validated t))"
    and 3: "py_isascii (us_netloc parsed)"
    and 4: "us_scheme parsed = u ''https''
      \<or> us_scheme parsed = u ''http'' \<and> \<not> remote_host E p (vu_hostname (tr_validated t))"
    and 5: "vu_port (tr_validated t)
      = (case mp of Some m \<Rightarrow> m | None \<Rightarrow> if us_scheme parsed = u ''https'' then 443 else 80)"
    by (rule normalized_url_split [OF assms(1) norm assms(3)])
  show thesis by (rule that [OF 1 2 3 ascii 4 5])
qed

lemma transport_authorized:
  assumes "idna_contract E" "make_sync_transport E lib cand p tls = Inr t"
    and "canonicalize_host E g = Inr (vu_hostname (tr_validated t))"
  shows "(vu_hostname (tr_validated t), vu_port (tr_validated t)) \<in> allowed_authorities p"
proof -
  have "normalize_host E (vu_hostname (tr_validated t)) = vu_hostname (tr_validated t)"
    using canonicalize_host_idem [OF assms(1,3)] by (rule normalize_host_canonical)
  with make_sync_transport_Inr(3) [OF assms(2)] show ?thesis
    unfolding normalize_egress_url_Some url_verdict_def by auto
qed

section \<open>What reaches the pool\<close>

definition request_authorized ::
  "pyenv \<Rightarrow> EgressPolicy \<Rightarrow> ValidatedEgressURL \<Rightarrow> 'c core_request \<Rightarrow> bool" where
  "request_authorized E p v q \<longleftrightarrow>
     octets (cr_host q) = vu_hostname v \<and> cr_port q = vu_port v
     \<and> (vu_hostname v, vu_port v) \<in> allowed_authorities p
     \<and> (octets (cr_scheme q) = u ''https''
        \<or> octets (cr_scheme q) = u ''http'' \<and> \<not> remote_host E p (vu_hostname v))
     \<and> method_text (cr_method q) \<in> allowed_methods p"

definition request_bounded :: "EgressPolicy \<Rightarrow> ValidatedEgressURL \<Rightarrow> 'c core_request \<Rightarrow> bool" where
  "request_bounded p v q \<longleftrightarrow>
     int (length (cr_target q)) \<le> max_request_target_bytes p
     \<and> int (length (cr_headers q)) \<le> max_request_header_fields p
     \<and> header_bytes (cr_headers q) \<le> max_request_header_bytes p
     \<and> (\<exists>authority. named ''host'' (cr_headers q) = [authority]
          \<and> octets authority \<in> {vu_hostname v, vu_hostname v @ 58 # dec_digits (vu_port v)})
     \<and> named ''accept-encoding'' (cr_headers q) = [''identity'']
     \<and> framing_ok (named ''content-length'' (cr_headers q)) (named ''transfer-encoding'' (cr_headers q))
     \<and> rq_max (cr_content q) = max_request_bytes p \<and> rq_consumed (cr_content q) = 0
     \<and> rq_declared (cr_content q) =
         (case named ''content-length'' (cr_headers q) of [] \<Rightarrow> None | v # _ \<Rightarrow> Some (dec_value (octets v)))
     \<and> list_all (key_allowed ALLOWED_REQUEST_EXTENSION_KEYS \<circ> fst) (cr_extensions q)
     \<and> dict_get (VStr (u ''sni_hostname'')) (cr_extensions q) = Some (VStr (vu_hostname v))
     \<and> (\<exists>c r w k. dict_get (VStr (u ''timeout'')) (cr_extensions q) = Some (VDict
          [(VStr (u ''connect''), VFloat (FFin c)), (VStr (u ''read''), VFloat (FFin r)),
           (VStr (u ''write''), VFloat (FFin w)), (VStr (u ''pool''), VFloat (FFin k))])
        \<and> 0 \<le> c \<and> c \<le> connect_timeout_seconds (request_timeout_policy p)
        \<and> 0 \<le> r \<and> r \<le> read_timeout_seconds (request_timeout_policy p)
        \<and> 0 \<le> w \<and> w \<le> write_timeout_seconds (request_timeout_policy p)
        \<and> 0 \<le> k \<and> k \<le> pool_timeout_seconds (request_timeout_policy p))"

lemma sent_request_authorized:
  assumes "idna_contract E" "make_sync_transport E lib cand p tls = Inr t"
    and "canonicalize_host E g = Inr (vu_hostname (tr_validated t))"
    and "ex_sent (handle_request_with close_request close_response cleanup E t pool r) = Some q"
  shows "request_authorized E p (tr_validated t) q
    \<and> normalize_host E (url_hostname (hr_url r)) = vu_hostname (tr_validated t)
    \<and> url_userinfo (hr_url r) = []
    \<and> py_lower E (url_scheme (hr_url r)) = octets (cr_scheme q)
    \<and> (url_port (hr_url r) = Some (vu_port (tr_validated t))
       \<or> url_port (hr_url r) = None \<and> default_port_of (octets (cr_scheme q)) = Some (vu_port (tr_validated t)))"
proof -
  note policy = make_sync_transport_Inr(1) [OF assms(2)]
  obtain parsed target exts hs declared where prep: "prepare_request E t r = Inr (parsed, target, exts, hs, declared)"
    and core: "build_core_request t r (parsed, target, exts, hs, declared) = Inr q"
    using handle_request_sent [OF assms(4)] .
  obtain scheme: "us_scheme parsed = u ''https''
      \<or> us_scheme parsed = u ''http'' \<and> \<not> remote_host E p (vu_hostname (tr_validated t))"
    and split: "urlsplit E (vu_normalized_url (tr_validated t)) = Inr parsed"
    and target: "verify_request_target E t r = Inr ()"
    using transport_url [OF assms(1-3)] prepare_request_Inr [OF prep] by (metis sum.inject(2))
  note v = verify_request_target_Inr [OF target split]
  have "method_text (cr_method q) \<in> allowed_methods p"
    using v(1) build_core_request_Inr(1) [OF core]
    by (auto simp: enforce_allowed_http_method_Inr policy method_text_def)
  then show ?thesis
    using scheme v build_core_request_Inr(2,3,4) [OF core] transport_authorized [OF assms(1-3)]
    by (cases "url_port (hr_url r)") (auto simp: request_authorized_def)
qed

lemma sent_request_bounded:
  assumes "idna_contract E" "make_sync_transport E lib cand p tls = Inr t"
    and "canonicalize_host E g = Inr (vu_hostname (tr_validated t))"
    and "policy_ok E p" "timeout_policy_ok (request_timeout_policy p)"
    and "ex_sent (handle_request_with close_request close_response cleanup E t pool r) = Some q"
  shows "request_bounded p (tr_validated t) q"
proof -
  let ?v = "tr_validated t"
  note policy = make_sync_transport_Inr(1) [OF assms(2)]
  have pos: "0 < max_request_header_fields p" "0 < max_request_header_bytes p"
    using assms(4) by (simp_all add: policy_ok_def)
  obtain parsed target exts hs declared where prep: "prepare_request E t r = Inr (parsed, target, exts, hs, declared)"
    and core: "build_core_request t r (parsed, target, exts, hs, declared) = Inr q"
    using handle_request_sent [OF assms(6)] .
  obtain named_exts authority built where split: "urlsplit E (vu_normalized_url ?v) = Inr parsed"
    and tgt: "enforce_request_target_limit (url_raw_path (hr_url r)) (max_request_target_bytes p) = Inr target"
    and sni: "bind_validated_tls_server_name E (hr_extensions r) (vu_hostname ?v) = Inr named_exts"
    and times: "bind_bounded_request_timeouts named_exts (request_timeout_policy p) = Inr exts"
    and auth: "encode_ascii (us_netloc parsed) = Some authority"
    and built: "build_safe_request_headers (hr_headers r) authority = Inr built"
    and hs: "hs = force_identity_accept_encoding built"
    and limits: "enforce_request_header_limits (header_list hs) (max_request_header_fields p)
       (max_request_header_bytes p) = Inr ()"
    and declared: "enforce_declared_request_size hs (max_request_bytes p) = Inr declared"
    using prepare_request_Inr [OF prep, unfolded policy] .
  have "octets authority \<in> {vu_hostname ?v, vu_hostname ?v @ 58 # dec_digits (vu_port ?v)}"
    using transport_url [OF assms(1-3)] split encode_ascii_Some [OF auth]
    by (metis insertCI sum.inject(2))
  moreover have "named ''host'' hs = [authority]" "named ''accept-encoding'' hs = [''identity'']"
    using identity_coding_forced [OF built] by (auto simp: hs)
  moreover have "framing_ok (named ''content-length'' hs) (named ''transfer-encoding'' hs)"
    using request_headers_rebuilt [OF built] identity_coding_forced [OF built] by (simp add: hs)
  moreover have "int (length hs) \<le> max_request_header_fields p" "header_bytes hs \<le> max_request_header_bytes p"
    using limits unfolding request_header_limits_exact [OF pos] header_list_fields
    by (auto dest!: map_injective intro: inj_Some)
  moreover have "int (length target) \<le> max_request_target_bytes p"
    using tgt by (simp add: enforce_request_target_limit_Inr)
  moreover have "declared = (case named ''content-length'' hs of [] \<Rightarrow> None | v # _ \<Rightarrow> Some (dec_value (octets v)))"
    using enforce_declared_request_size_Inr [OF declared] by auto
  moreover note request_extensions_bound [OF sni times assms(5)] build_core_request_Inr [OF core]
  ultimately show ?thesis by (simp add: request_bounded_def new_request_stream_def policy)
qed

end
