(* ===== verification/Delivery_Rules.thy ===== *)
theory Delivery_Rules
  imports Exchange_Rules
begin

text \<open>
  The properties of one exchange over a pinned transport, for the synchronous and the
  asynchronous transport alike: requests that reach the pool, responses that reach the
  caller, and refusals.
\<close>

section \<open>Responses\<close>

lemma handle_request_delivered:
  assumes "ex_result (handle_request_with close_request close_response cleanup E t pool r) = Inr d"
  obtains q response exts where
    "ex_sent (handle_request_with close_request close_response cleanup E t pool r) = Some q"
    "pool q = Inr response" "check_response (tr_policy t) (hr_method r) response = Inr exts"
    "d = deliver_response (tr_policy t) response exts"
  using assms by (auto simp: handle_request_with_def split: sum.splits if_splits)

lemma response_header_limits:
  assumes "enforce_response_header_limits src F B = Inr ()" "0 < F" "0 < B"
  shows "hs_failure src = None \<and> int (length (header_pairs src)) \<le> F \<and> header_bytes (header_pairs src) \<le> B
    \<and> map coerce_response_header_item (hs_items src) = map Some (header_pairs src)"
proof -
  have "header_limit_loop (\<lambda>_. True) F B 0 0 (hs_items src) (hs_failure src) = Inr False"
    using assms(1) by (auto simp: enforce_response_header_limits_def result_simps split: if_splits)
  then obtain pairs where pairs: "hs_failure src = None" "int (length pairs) \<le> F" "header_bytes pairs \<le> B"
    "map coerce_request_header_item (hs_items src) = map Some pairs"
    using header_limit_loop_accepts [of 0 F 0 B] assms(2,3) by auto
  have "List.map_filter coerce_request_header_item items = ps"
    if "map coerce_request_header_item items = map Some ps" for items ps
    using that by (induction items arbitrary: ps) (auto simp: List.map_filter_def Cons_eq_map_conv)
  with pairs show ?thesis
    by (simp add: header_pairs_def coerce_response_header_item_def [abs_def])
qed

definition response_safe :: "EgressPolicy \<Rightarrow> pyval \<Rightarrow> 'd http_response \<Rightarrow> bool" where
  "response_safe p method d \<longleftrightarrow>
     int (length (header_pairs (hp_headers d))) \<le> max_response_header_fields p
     \<and> header_bytes (header_pairs (hp_headers d)) \<le> max_response_header_bytes p
     \<and> (bodyless (method_text method) (hp_status d)
        \<or> named ''content-encoding'' (header_pairs (hp_headers d)) \<in> {[], [''identity'']})
     \<and> list_all (\<lambda>(k, _). k \<in> set PUBLIC_RESPONSE_EXTENSION_KEYS) (hp_extensions d)
     \<and> rs_max (hp_stream d) = max_response_bytes p"

lemma delivered_response_safe:
  assumes "policy_ok E (tr_policy t)"
    and "ex_result (handle_request_with close_request close_response cleanup E t pool r) = Inr d"
  shows "response_safe (tr_policy t) (hr_method r) d"
proof -
  let ?p = "tr_policy t"
  obtain response exts where check: "check_response ?p (hr_method r) response = Inr exts"
    and d: "d = deliver_response ?p response exts"
    using handle_request_delivered [OF assms(2)] by metis
  from check have hl: "enforce_response_header_limits (cs_headers response)
      (max_response_header_fields ?p) (max_response_header_bytes ?p) = Inr ()"
    and ds: "enforce_declared_response_size (method_text (hr_method r)) (cs_status response)
      (header_pairs (cs_headers response)) (max_response_bytes ?p) = Inr ()"
    and ext: "select_public_response_extensions (cs_probe response) (cs_extensions response) = Inr exts"
    by (auto simp: check_response_def result_simps)
  have "0 < max_response_header_fields ?p" "0 < max_response_header_bytes ?p"
    using assms(1) by (simp_all add: policy_ok_def)
  from response_header_limits [OF hl this] enforce_declared_response_size_encoding [OF ds]
    public_extensions_only [OF ext]
  show ?thesis
    by (fastforce simp: response_safe_def d deliver_response_def new_response_stream_def list_all_iff)
qed

lemma safe_response_bytes:
  assumes "response_safe p m d" "0 \<le> max_response_bytes p" "iterate_response n (hp_stream d) = (bs, e, s')"
  shows "total_bytes bs \<le> max_response_bytes p"
proof -
  have "pull response_next n ((hp_stream d)\<lparr>rs_consumed := 0\<rparr>) = (bs, e, s')"
    using assms(3) by (simp add: iterate_response_def)
  from response.pulled_within_budget [OF this] assms(1,2) show ?thesis
    by (simp add: response_safe_def)
qed

lemma delivered_response_bytes:
  assumes "policy_ok E (tr_policy t)"
    and "ex_result (handle_request_with close_request close_response cleanup E t pool r) = Inr d"
  shows "total_bytes (fst (iterate_response n (hp_stream d))) \<le> max_response_bytes (tr_policy t)"
  using safe_response_bytes [OF delivered_response_safe [OF assms]] assms(1)
  by (cases "iterate_response n (hp_stream d)") (simp add: policy_ok_def)

section \<open>Refusals\<close>

lemma urlsplit_ok_prepare_Inl:
  assumes "prepare_request E t r = Inl e" "urlsplit E (vu_normalized_url (tr_validated t)) = Inr parsed"
    and "py_isascii (us_netloc parsed)" "hs_failure (hr_headers r) = None"
    and "length (dec_digits (max_request_bytes (tr_policy t))) \<le> max_str_digits"
  shows "e = EgressNotAllowedError"
proof -
  have v: "verify_request_target E t r = Inl e' \<Longrightarrow> e' = EgressNotAllowedError" for e'
    using assms(2)
    by (auto simp: verify_request_target_def result_simps Let_def
        dest: enforce_allowed_http_method_Inl split: if_splits)
  show ?thesis
    using assms
    by (auto simp: prepare_request_def Let_def result_simps encode_ascii_def v
        dest!: enforce_request_target_limit_Inl bind_validated_tls_server_name_Inl
          bind_bounded_request_timeouts_Inl build_safe_request_headers_Inl
          enforce_request_header_limits_list_Inl enforce_declared_request_size_Inl)
qed

lemma build_core_request_total:
  assumes "py_isascii (us_scheme parsed)" "py_isascii (vu_hostname (tr_validated t))"
  shows "\<exists>q. build_core_request t r (parsed, rest) = Inr q"
  using assms by (cases rest) (auto simp: build_core_request_def encode_ascii_def)

text \<open>What must have been closed at the end of an exchange: the request's stream when nothing was
  sent, the response's stream when an answer is withheld from the caller.\<close>

definition streams_released ::
  "('c \<Rightarrow> exn option) \<Rightarrow> ('d \<Rightarrow> exn option) \<Rightarrow> ('c core_request \<Rightarrow> 'd core_response res)
    \<Rightarrow> 'c http_request \<Rightarrow> ('c, 'd) exchange \<Rightarrow> bool" where
  "streams_released close_request close_response pool r ex \<longleftrightarrow>
     (case ex_sent ex of
        None \<Rightarrow> ex_result ex = Inl (deny_after_close (close_request (bs_closing (hr_stream r))))
          \<and> ex_request_closes ex = 1 \<and> ex_response_closes ex = 0
      | Some q \<Rightarrow> ex_request_closes ex = 0 \<and>
          (case pool q of
             Inl e \<Rightarrow> ex_result ex = Inl e \<and> ex_response_closes ex = 0
           | Inr response \<Rightarrow>
               (\<exists>d. ex_result ex = Inr d \<and> ex_response_closes ex = 0)
               \<or> ex_response_closes ex = 1 \<and> (\<exists>e. ex_result ex = Inl e \<and>
                   (e = deny_after_close (close_response (cs_closing response)) \<or> is_process_control e))))"

lemma refusal_cases:
  assumes E: "idna_contract E" and t: "make_sync_transport E lib cand p tls = Inr t"
    and canon: "canonicalize_host E g = Inr (vu_hostname (tr_validated t))"
    and "length (dec_digits (max_request_bytes p)) \<le> max_str_digits"
    and "length (dec_digits (max_response_bytes p)) \<le> max_str_digits"
    and cleanup: "\<And>c e. cleanup c = Some e \<Longrightarrow> is_process_control e"
    and "hs_failure (hr_headers r) = None"
    and ex_def: "ex = handle_request_with close_request close_response cleanup E t pool r"
  shows "streams_released close_request close_response pool r ex"
proof -
  note p = make_sync_transport_Inr(1) [OF t]
  obtain parsed where split: "urlsplit E (vu_normalized_url (tr_validated t)) = Inr parsed"
    and asc: "py_isascii (us_netloc parsed)" "py_isascii (vu_hostname (tr_validated t))"
    and scheme: "us_scheme parsed = u ''https'' \<or> us_scheme parsed = u ''http''"
    using transport_url [OF E t canon] by metis
  have sch: "py_isascii (us_scheme parsed)" using scheme by (auto simp: u_def is_ascii_c_def)
  show ?thesis
  proof (cases "prepare_request E t r")
    case (Inl e)
    have "e = EgressNotAllowedError"
      using urlsplit_ok_prepare_Inl [OF Inl split asc(1) assms(7)] assms(4) by (simp add: p)
    with Inl show ?thesis by (simp add: streams_released_def ex_def handle_request_with_def)
  next
    case (Inr prepared)
    obtain parsed' target exts hs declared where prepared: "prepared = (parsed', target, exts, hs, declared)"
      by (metis prod_cases5)
    have "parsed' = parsed"
      using prepare_request_Inr [OF Inr [unfolded prepared]] split by (metis sum.inject(2))
    then obtain q where q: "build_core_request t r prepared = Inr q"
      using build_core_request_total [OF sch asc(2)] prepared by blast
    show ?thesis
    proof (cases "pool q")
      case (Inl e)
      with Inr q show ?thesis by (simp add: streams_released_def ex_def handle_request_with_def)
    next
      case response: (Inr response)
      show ?thesis
      proof (cases "check_response (tr_policy t) (hr_method r) response")
        case (Inl e)
        have "e = EgressNotAllowedError \<or> is_process_control e"
          using check_response_Inl [OF Inl] assms(5) by (simp add: p)
        then show ?thesis using Inl Inr q response cleanup
          by (auto simp: streams_released_def ex_def handle_request_with_def split: option.splits)
      next
        case ok: (Inr exts')
        with Inr q response show ?thesis by (simp add: streams_released_def ex_def handle_request_with_def)
      qed
    qed
  qed
qed

section \<open>Example\<close>

definition default_library :: ssl_library where
  "default_library =
     (let default = \<lparr>cx_minimum_version = TLSv1_2, cx_check_hostname = True, cx_verify_mode = CERT_REQUIRED,
        cx_ciphers = None, cx_locations = [], cx_identity = None\<rparr> in
      \<lparr>lib_httpx_context = Inr default, lib_default_context = (\<lambda>_. Inr default), lib_set_ciphers = None,
       lib_load_verify_locations = (\<lambda>_. None), lib_load_cert_chain = (\<lambda>_. None)\<rparr>)"

definition example_transport :: pinned_transport where
  "example_transport =
     \<lparr>tr_validated = example_result, tr_policy = example_policy,
      tr_pool = \<lparr>ps_ssl_context = \<lparr>cx_minimum_version = TLSv1_2, cx_check_hostname = True,
          cx_verify_mode = CERT_REQUIRED, cx_ciphers = None, cx_locations = [], cx_identity = None\<rparr>,
        ps_max_connections = max_connections DEFAULT_EGRESS_CONNECTION_POOL_POLICY,
        ps_max_keepalive_connections = max_keepalive_connections DEFAULT_EGRESS_CONNECTION_POOL_POLICY,
        ps_keepalive_expiry = keepalive_expiry_seconds DEFAULT_EGRESS_CONNECTION_POOL_POLICY,
        ps_http1 = True, ps_http2 = False, ps_network_backend = example_backend\<rparr>\<rparr>"

lemma example_transport_made:
  "make_sync_transport ascii_env default_library (as_candidate example_result) example_policy NoConfiguration
    = Inr example_transport"
  by code_simp

lemma example_transport_canonical:
  "canonicalize_host ascii_env (u ''api.example.com'') = Inr (vu_hostname (tr_validated example_transport))"
  by code_simp

definition example_request :: "'c \<Rightarrow> ustr \<Rightarrow> 'c http_request" where
  "example_request closing host =
     \<lparr>hr_method = VStr (u ''POST''),
      hr_url = \<lparr>url_scheme = u ''https'', url_userinfo = [], url_hostname = host, url_port = None,
                url_raw_path = VBytes ''/v1/items?q=1''\<rparr>,
      hr_headers = header_list [(''Host'', ''evil''), (''Accept-Encoding'', ''gzip''), (''Content-Length'', ''3'')],
      hr_extensions = VDict [], hr_stream = \<lparr>bs_chunks = [VBytes ''abc''], bs_failure = None, bs_closing = closing\<rparr>\<rparr>"

definition example_core_response :: "exn option core_response" where
  "example_core_response = \<lparr>cs_status = 200, cs_headers = header_list [(''content-length'', ''4'')],
     cs_extensions = VDict [(VStr (u ''network_stream''), VObj 1), (VStr (u ''http_version''), VBytes ''HTTP/1.1'')],
     cs_probe = (\<lambda>_. None), cs_chunks = [''ab'', ''cd''], cs_failure = None, cs_closing = None\<rparr>"

definition example_pool :: "'c core_request \<Rightarrow> exn option core_response res" where
  "example_pool q = Inr example_core_response"

definition example_exchange :: "(exn option, exn option) exchange" where
  "example_exchange = sync_handle_request ascii_env example_transport example_pool
     (example_request None (u ''API.example.com.''))"

section \<open>Properties\<close>

definition request_names ::
  "pyenv \<Rightarrow> ValidatedEgressURL \<Rightarrow> 'c http_request \<Rightarrow> 'c core_request \<Rightarrow> bool" where
  "request_names E v r q \<longleftrightarrow>
     normalize_host E (url_hostname (hr_url r)) = vu_hostname v \<and> url_userinfo (hr_url r) = []
     \<and> py_lower E (url_scheme (hr_url r)) = octets (cr_scheme q)
     \<and> (url_port (hr_url r) = Some (vu_port v)
        \<or> url_port (hr_url r) = None \<and> default_port_of (octets (cr_scheme q)) = Some (vu_port v))"

text \<open>C14: whatever request a caller hands to a pinned transport, what reaches the connection pool
  goes to the validated host and port, a pair the policy authorizes, over \<open>https\<close> unless the
  host is a permitted local one, with a method the policy lists; and only when the request's
  own URL named that scheme, host and port and carried no credentials.\<close>

theorem dispatched_request_authorized:
  assumes "idna_contract E" "make_sync_transport E lib cand p tls = Inr t"
    and "canonicalize_host E g = Inr (vu_hostname (tr_validated t))"
  shows "(ex_sent (sync_handle_request E t pool r) = Some q \<longrightarrow>
        request_authorized E p (tr_validated t) q \<and> request_names E (tr_validated t) r q)
    \<and> (ex_sent (async_handle_async_request E t apool ar) = Some aq \<longrightarrow>
        request_authorized E p (tr_validated t) aq \<and> request_names E (tr_validated t) ar aq)"
  unfolding sync_handle_request_def async_handle_async_request_def request_names_def
  by (intro conjI [OF impI impI]) (drule sent_request_authorized [OF assms], simp)+

lemma dispatched_request_authorized_witness:
  "\<exists>q. ex_sent example_exchange = Some q \<and> octets (cr_host q) = u ''api.example.com'' \<and> cr_port q = 443"
proof -
  have "ex_sent example_exchange \<noteq> None" by code_simp
  then obtain q where q: "ex_sent example_exchange = Some q" by blast
  with dispatched_request_authorized [OF ascii_env_idna_contract example_transport_made
      example_transport_canonical, of example_pool "example_request None (u ''API.example.com.'')" q]
  have "request_authorized ascii_env example_policy (tr_validated example_transport) q"
    by (simp add: example_exchange_def)
  moreover have "vu_hostname (tr_validated example_transport) = u ''api.example.com''"
    "vu_port (tr_validated example_transport) = 443" by code_simp+
  ultimately show ?thesis using q by (auto simp: request_authorized_def)
qed

text \<open>C15: what reaches the pool is bounded by the policy and rewritten: target and header section
  within budget, exactly one \<open>Host\<close> with the validated authority, identity coding, unambiguous
  framing, a body stream limited to the policy's bytes and to the declared length, the
  validated server name, and a finite timeout below the ceiling for each phase.\<close>

theorem dispatched_request_bounded:
  assumes "idna_contract E" "make_sync_transport E lib cand p tls = Inr t"
    and "canonicalize_host E g = Inr (vu_hostname (tr_validated t))"
    and "policy_ok E p" "timeout_policy_ok (request_timeout_policy p)"
  shows "(ex_sent (sync_handle_request E t pool r) = Some q \<longrightarrow> request_bounded p (tr_validated t) q)
    \<and> (ex_sent (async_handle_async_request E t apool ar) = Some aq \<longrightarrow> request_bounded p (tr_validated t) aq)"
  unfolding sync_handle_request_def async_handle_async_request_def
  by (intro conjI impI) (erule sent_request_bounded [OF assms])+

lemma dispatched_request_bounded_witness:
  "\<exists>q. ex_sent example_exchange = Some q \<and> named ''accept-encoding'' (cr_headers q) = [''identity'']
     \<and> rq_declared (cr_content q) = Some 3"
proof -
  have "case ex_sent example_exchange of Some q \<Rightarrow> rq_declared (cr_content q) = Some 3 | None \<Rightarrow> False"
    by code_simp
  then obtain q where q: "ex_sent example_exchange = Some q" "rq_declared (cr_content q) = Some 3"
    by (auto split: option.splits)
  have "timeout_policy_ok (request_timeout_policy example_policy)" by code_simp
  with dispatched_request_bounded [OF ascii_env_idna_contract example_transport_made
      example_transport_canonical example_policy_ok, of example_pool "example_request None (u ''API.example.com.'')" q] q
  have "request_bounded example_policy (tr_validated example_transport) q"
    by (simp add: example_exchange_def)
  with q show ?thesis by (auto simp: request_bounded_def)
qed

text \<open>C16: a response reaches the caller only as the answer of the pool to a request it was sent,
  with a header section within both budgets, uncoded unless it has no body, with no extension
  but the public ones; and no iteration of its body yields more than the policy's bytes.\<close>

theorem delivered_response_bounded:
  assumes "policy_ok E (tr_policy t)"
  shows "(ex_result (sync_handle_request E t pool r) = Inr d \<longrightarrow>
      response_safe (tr_policy t) (hr_method r) d
      \<and> (\<exists>q response. ex_sent (sync_handle_request E t pool r) = Some q \<and> pool q = Inr response
           \<and> hp_status d = cs_status response \<and> hp_headers d = cs_headers response)
      \<and> (\<forall>n. total_bytes (fst (iterate_response n (hp_stream d))) \<le> max_response_bytes (tr_policy t)))
   \<and> (ex_result (async_handle_async_request E t apool ar) = Inr ad \<longrightarrow>
      response_safe (tr_policy t) (hr_method ar) ad
      \<and> (\<forall>n. total_bytes (fst (iterate_response n (hp_stream ad))) \<le> max_response_bytes (tr_policy t)))"
proof -
  have sent: "\<exists>q response. ex_sent (sync_handle_request E t pool r) = Some q \<and> pool q = Inr response
           \<and> hp_status d = cs_status response \<and> hp_headers d = cs_headers response"
    if "ex_result (sync_handle_request E t pool r) = Inr d"
    using handle_request_delivered [OF that [unfolded sync_handle_request_def]]
    by (metis deliver_response_def http_response.select_convs(1,2) sync_handle_request_def)
  show ?thesis
  proof (intro conjI impI allI)
    assume "ex_result (sync_handle_request E t pool r) = Inr d"
    then show "response_safe (tr_policy t) (hr_method r) d"
      "\<And>n. total_bytes (fst (iterate_response n (hp_stream d))) \<le> max_response_bytes (tr_policy t)"
      using delivered_response_safe [OF assms] delivered_response_bytes [OF assms]
      unfolding sync_handle_request_def by metis+
  next
    assume "ex_result (async_handle_async_request E t apool ar) = Inr ad"
    then show "response_safe (tr_policy t) (hr_method ar) ad"
      "\<And>n. total_bytes (fst (iterate_response n (hp_stream ad))) \<le> max_response_bytes (tr_policy t)"
      using delivered_response_safe [OF assms] delivered_response_bytes [OF assms]
      unfolding async_handle_async_request_def by metis+
  qed (rule sent)
qed

lemma delivered_response_bounded_witness:
  "\<exists>d. ex_result example_exchange = Inr d
     \<and> response_safe example_policy (VStr (u ''POST'')) d"
proof -
  have "case ex_result example_exchange of Inr _ \<Rightarrow> True | Inl _ \<Rightarrow> False" by code_simp
  then obtain d where d: "ex_result example_exchange = Inr d" by (auto split: sum.splits)
  have "policy_ok ascii_env (tr_policy example_transport)"
    using example_policy_ok by (simp add: example_transport_def)
  from delivered_response_bounded [OF this, of example_pool "example_request None (u ''API.example.com.'')" d] d
  show ?thesis by (simp add: example_exchange_def example_request_def example_transport_def)
qed

text \<open>C17: a refusal never strands a stream. When the checks deny a request nothing is sent and its
  stream is closed once; when they deny the pool's answer its stream is closed once; the
  caller gets the generic error unless the closing was interrupted. It needs byte budgets of
  at most 4300 digits and header fields held in a list.\<close>

theorem refusals_release_streams:
  assumes "idna_contract E" "make_sync_transport E lib cand p tls = Inr t"
    and "canonicalize_host E g = Inr (vu_hostname (tr_validated t))"
    and "length (dec_digits (max_request_bytes p)) \<le> max_str_digits"
    and "length (dec_digits (max_response_bytes p)) \<le> max_str_digits"
    and "hs_failure (hr_headers r) = None" "hs_failure (hr_headers ar) = None"
  shows "streams_released (\<lambda>c. c) (\<lambda>c. c) pool r (sync_handle_request E t pool r)
    \<and> streams_released awaited_close awaited_close apool ar (async_handle_async_request E t apool ar)"
proof
  show "streams_released (\<lambda>c. c) (\<lambda>c. c) pool r (sync_handle_request E t pool r)"
    by (rule refusal_cases [OF assms(1-5) _ assms(6) sync_handle_request_def])
      (auto simp: close_sync_response_after_policy_denial_def split: option.splits if_splits)
  show "streams_released awaited_close awaited_close apool ar (async_handle_async_request E t apool ar)"
    by (rule refusal_cases [OF assms(1-5) _ assms(7) async_handle_async_request_def])
      (auto simp: close_async_response_after_policy_denial_def split: option.splits if_splits)
qed

lemma refusals_release_streams_witness:
  "ex_result (sync_handle_request ascii_env example_transport example_pool
      (example_request (Some (OSError ''closed'')) (u ''evil.example.com''))) = Inl EgressNotAllowedError
    \<and> ex_request_closes (sync_handle_request ascii_env example_transport example_pool
      (example_request (Some (OSError ''closed'')) (u ''evil.example.com''))) = 1"
proof -
  let ?r = "example_request (Some (OSError ''closed'')) (u ''evil.example.com'')"
  have "length (dec_digits (max_request_bytes example_policy)) \<le> max_str_digits"
    "length (dec_digits (max_response_bytes example_policy)) \<le> max_str_digits" by code_simp+
  moreover have "hs_failure (hr_headers ?r) = None"
    "hs_failure (hr_headers (example_request undefined [])) = None"
    by (simp_all add: example_request_def header_list_def)
  ultimately have "streams_released (\<lambda>c. c) (\<lambda>c. c) example_pool ?r
      (sync_handle_request ascii_env example_transport example_pool ?r)"
    using refusals_release_streams [OF ascii_env_idna_contract example_transport_made
        example_transport_canonical] by blast
  moreover have "ex_sent (sync_handle_request ascii_env example_transport example_pool ?r) = None"
    by code_simp
  ultimately show ?thesis
    by (simp add: streams_released_def example_request_def deny_after_close_def)
qed

end
