(* ===== verification/Client_Rules.thy ===== *)
theory Client_Rules
  imports Delivery_Rules
begin

text \<open>
  What holds for a client over its whole life: the contract of a fail-closed handler, stated
  as an interface and proved once for any sequence of requests, and its three providers, the
  deny-all transport and the two pinned transports.
\<close>

section \<open>The contract of a fail-closed handler\<close>

locale fail_closed_handler =
  fixes handle :: "'c http_request \<Rightarrow> ('c, 'd) exchange"
    and permitted :: "'c core_request \<Rightarrow> bool"
    and budget :: int
  assumes sends_permitted: "ex_sent (handle r) = Some q \<Longrightarrow> permitted q"
    and answers_sent: "ex_result (handle r) = Inr d \<Longrightarrow> ex_sent (handle r) \<noteq> None"
    and body_bounded: "ex_result (handle r) = Inr d \<Longrightarrow>
      total_bytes (fst (iterate_response n (hp_stream d))) \<le> budget"
begin

lemma session_permitted:
  "q \<in> set (List.map_filter (\<lambda>r. ex_sent (handle r)) rs) \<Longrightarrow> permitted q"
  by (auto simp: List.map_filter_def dest: sends_permitted)

lemma session_answers:
  "length (List.map_filter (\<lambda>r. case ex_result (handle r) of Inr d \<Rightarrow> Some d | Inl _ \<Rightarrow> None) rs)
    \<le> length (List.map_filter (\<lambda>r. ex_sent (handle r)) rs)"
proof (induction rs)
  case Nil
  show ?case by (simp add: List.map_filter_def)
next
  case (Cons r rs)
  then show ?case using answers_sent [of r]
    by (cases "ex_result (handle r)"; cases "ex_sent (handle r)") (auto simp: List.map_filter_def)
qed

text \<open>All bodies of a session together, each read to any length.\<close>

lemma session_bytes:
  assumes "0 \<le> budget"
  shows "sum_list (map (\<lambda>r. case ex_result (handle r) of
      Inr d \<Rightarrow> total_bytes (fst (iterate_response n (hp_stream d))) | Inl _ \<Rightarrow> 0) rs)
    \<le> int (length rs) * budget"
proof (induction rs)
  case Nil
  show ?case by simp
next
  case (Cons r rs)
  have "(case ex_result (handle r) of
      Inr d \<Rightarrow> total_bytes (fst (iterate_response n (hp_stream d))) | Inl _ \<Rightarrow> 0) \<le> budget"
    using assms body_bounded [of r] by (cases "ex_result (handle r)") auto
  with Cons show ?case by (simp add: algebra_simps)
qed

end

section \<open>Its providers\<close>

text \<open>A transport as the code constructs it, over a canonical host and under a well-formed policy.\<close>

definition sound_transport :: "pyenv \<Rightarrow> pinned_transport \<Rightarrow> bool" where
  "sound_transport E t \<longleftrightarrow> idna_contract E \<and> policy_ok E (tr_policy t)
     \<and> (\<exists>lib cand tls. make_sync_transport E lib cand (tr_policy t) tls = Inr t)
     \<and> (\<exists>g. canonicalize_host E g = Inr (vu_hostname (tr_validated t)))"

text \<open>What the handlers permit: the requests of a sound transport are authorized by its policy.\<close>

definition transport_permits :: "pyenv \<Rightarrow> pinned_transport \<Rightarrow> 'c core_request \<Rightarrow> bool" where
  "transport_permits E t q \<longleftrightarrow> (sound_transport E t \<longrightarrow> request_authorized E (tr_policy t) (tr_validated t) q)"

lemma sent_transport_permits:
  "ex_sent (handle_request_with a b c E t pool r) = Some q \<Longrightarrow> transport_permits E t q"
  unfolding transport_permits_def sound_transport_def using sent_request_authorized by metis

text \<open>The body budget holds for any limit: a negative one lets nothing through.\<close>

lemma pull_response_negative:
  assumes "pull response_next n s = (bs, e, s')" "rs_max s < 0" "0 \<le> rs_consumed s"
  shows "bs = []"
proof (cases n)
  case (Suc k)
  with assms(1) have "pull response_next (Suc k) s = (bs, e, s')" by simp
  then show ?thesis
  proof (cases rule: pull_Suc_cases)
    case (chunk b s1 bs')
    show ?thesis
      using response_next_Yield(2,3) [OF chunk(1)] response_next_max [OF chunk(1)] assms(2,3) by simp
  qed
qed (use assms in simp)

lemma delivered_within_budget:
  assumes "ex_result (handle_request_with a b c E t pool r) = Inr d"
  shows "total_bytes (fst (iterate_response n (hp_stream d))) \<le> max 0 (max_response_bytes (tr_policy t))"
proof -
  obtain response exts where d: "d = deliver_response (tr_policy t) response exts"
    using handle_request_delivered [OF assms] by metis
  let ?s = "(hp_stream d)\<lparr>rs_consumed := 0\<rparr>"
  obtain bs e s' where run: "pull response_next n ?s = (bs, e, s')" by (metis prod_cases3)
  have limit: "rs_max ?s = max_response_bytes (tr_policy t)"
    by (simp add: d deliver_response_def new_response_stream_def)
  show ?thesis
  proof (cases "0 \<le> max_response_bytes (tr_policy t)")
    case True
    then show ?thesis
      using response.pulled_within_budget [OF run] limit run by (simp add: iterate_response_def)
  next
    case False
    then have "bs = []" using pull_response_negative [OF run] limit by simp
    then show ?thesis using run by (simp add: iterate_response_def)
  qed
qed

lemma handle_request_answers_sent:
  "ex_result (handle_request_with a b c E t pool r) = Inr d \<Longrightarrow>
    ex_sent (handle_request_with a b c E t pool r) \<noteq> None"
  by (erule handle_request_delivered) simp

interpretation deny_all: fail_closed_handler deny_all_handle_request "\<lambda>_. False" 0
  by unfold_locales (simp_all add: deny_all_handle_request_def)

interpretation sync_pinned: fail_closed_handler "sync_handle_request E t pool" "transport_permits E t"
  "max 0 (max_response_bytes (tr_policy t))" for E t pool
  unfolding sync_handle_request_def
  by unfold_locales (fact sent_transport_permits handle_request_answers_sent delivered_within_budget)+

interpretation async_pinned: fail_closed_handler "async_handle_async_request E t pool" "transport_permits E t"
  "max 0 (max_response_bytes (tr_policy t))" for E t pool
  unfolding async_handle_async_request_def
  by unfold_locales (fact sent_transport_permits handle_request_answers_sent delivered_within_budget)+

section \<open>Clients\<close>

lemma validate_details_async_eq: "validate_egress_url_details_async = validate_egress_url_details"
  unfolding validate_egress_url_details_async_def [abs_def] validate_egress_url_details_def [abs_def]
    resolve_all_global_addresses_async_def ..

lemma build_egress_http_client_eq: "build_egress_http_client = build_egress_sync_client"
  unfolding build_egress_http_client_def [abs_def] build_egress_sync_client_def [abs_def]
    make_async_transport_eq validate_details_async_eq ..

lemma build_pinned_https_async_client_eq: "build_pinned_https_async_client = build_pinned_https_client"
  by (intro ext) (simp add: build_pinned_https_async_client_def build_pinned_https_client_def
      make_async_transport_eq)

lemma validate_details_None:
  "validate_egress_url_details E g run v p = Inr None \<Longrightarrow> normalize_egress_url E v p = Inr None"
  by (auto simp: validate_egress_url_details_def result_simps split: option.splits prod.splits)
    (metis not_None_eq prod_cases3)

text \<open>The pinned client of a validated URL: the transport holds what validation established.\<close>

lemma revalidated_own_fields:
  assumes "revalidate_pinned_egress_url E (as_candidate v) p = Inr w"
  shows "vu_normalized_url w = vu_normalized_url v" "vu_hostname w = vu_hostname v" "vu_port w = vu_port v"
    "validate_bounded_unique_addresses E (vu_addresses v) p (vu_hostname v) = Inr (vu_addresses w)"
proof -
  obtain c where c: "as_candidate v = ResultObject c" by (simp add: as_candidate_def)
  obtain signature uv hv pv avs addrs where
    f: "checked_fields c = Inr (signature, uv, vu_normalized_url w, hv, vu_hostname w, pv, vu_port w, avs, addrs)"
    and a: "validate_bounded_unique_addresses E addrs p (vu_hostname w) = Inr (vu_addresses w)"
    using revalidate_Inr [OF assms [unfolded c]] by metis
  note fields = checked_fields_Inr [OF f]
  then have "avs = map VStr (vu_addresses v)" using c by (auto simp: as_candidate_def)
  then have "addrs = vu_addresses v" using fields emap_as_str by (metis sum.inject(2))
  moreover show h: "vu_normalized_url w = vu_normalized_url v" "vu_hostname w = vu_hostname v"
    "vu_port w = vu_port v"
    using fields c by (auto simp: as_candidate_def)
  ultimately show "validate_bounded_unique_addresses E (vu_addresses v) p (vu_hostname v) = Inr (vu_addresses w)"
    using a by simp
qed

lemma revalidated_own_addresses:
  assumes "revalidate_pinned_egress_url E (as_candidate v) p = Inr w" "policy_ok E p"
    and "validate_egress_url_details E g run base p = Inr (Some v)"
  shows "vu_addresses w = vu_addresses v"
proof -
  obtain infos where "validate_bounded_unique_addresses E infos p (vu_hostname v) = Inr (vu_addresses v)"
    using assms(3) resolve_Inr unfolding validate_details_Some
    by (metis make_validated_egress_url_def ValidatedEgressURL.select_convs(2,4))
  moreover have "0 < max_resolved_addresses p" using assms(2) by (simp add: policy_ok_def)
  ultimately have "validate_bounded_unique_addresses E (vu_addresses v) p (vu_hostname v) = Inr (vu_addresses v)"
    by (intro bounded_unique_idem)
  then show ?thesis using revalidated_own_fields(4) [OF assms(1)] by simp
qed

text \<open>What a client builder returns, from validation to backend.\<close>

lemma build_egress_sync_client_cases:
  assumes "build_egress_sync_client E g run lib base_url p tls = Inr (url, client)" "policy_ok E p"
  obtains (denying) "url = None" "client = http_client_of DenyAll"
      "normalize_egress_url E base_url p = Inr None"
  | (pinned) s h n infos t where "url = Some s" "client = http_client_of (Pinned t)"
      "normalize_egress_url E base_url p = Inr (Some (s, h, n))"
      "g h n = Inr infos" "validate_bounded_unique_addresses E infos p h = Inr (vu_addresses (tr_validated t))"
      "make_sync_transport E lib (as_candidate (make_validated_egress_url E s h n (vu_addresses (tr_validated t)))) p tls = Inr t"
      "vu_normalized_url (tr_validated t) = s" "vu_hostname (tr_validated t) = h" "vu_port (tr_validated t) = n"
proof -
  from assms(1) obtain validated where v: "validate_egress_url_details E g run base_url p = Inr validated"
    and rest: "(case validated of
       None \<Rightarrow> Inr (None, http_client_of DenyAll)
     | Some v \<Rightarrow>
         ebind (make_sync_transport E lib (as_candidate v) p tls) (\<lambda>t.
         Inr (Some (vu_normalized_url v), http_client_of (Pinned t)))) = Inr (url, client)"
    by (auto simp: build_egress_sync_client_def ebind_eq_Inr)
  show thesis
  proof (cases validated)
    case None
    with v rest show thesis using denying validate_details_None by simp
  next
    case (Some w)
    then obtain t where t: "make_sync_transport E lib (as_candidate w) p tls = Inr t"
      and out: "url = Some (vu_normalized_url w)" "client = http_client_of (Pinned t)"
      using rest by (auto simp: result_simps)
    obtain s h n addrs where norm: "normalize_egress_url E base_url p = Inr (Some (s, h, n))"
      and res: "resolve_all_global_addresses E g run h n p = Inr addrs"
      and w: "w = make_validated_egress_url E s h n addrs"
      using v [unfolded Some validate_details_Some] by blast
    obtain infos where infos: "g h n = Inr infos" "validate_bounded_unique_addresses E infos p h = Inr addrs"
      using resolve_Inr [OF res] .
    note re = make_sync_transport_Inr(2) [OF t]
    have "vu_addresses (tr_validated t) = addrs"
      using revalidated_own_addresses [OF re assms(2)] v Some by (simp add: w make_validated_egress_url_def)
    moreover have "vu_normalized_url (tr_validated t) = s" "vu_hostname (tr_validated t) = h"
      "vu_port (tr_validated t) = n"
      using revalidated_own_fields(1-3) [OF re] by (simp_all add: w make_validated_egress_url_def)
    moreover have "vu_normalized_url w = s" by (simp add: w make_validated_egress_url_def)
    ultimately show thesis using pinned [OF _ _ norm infos(1), of t] infos(2) t out w by simp
  qed
qed

section \<open>Properties\<close>

text \<open>A client a builder returns follows no redirect and ignores the environment; it denies
  everything when the URL was blank, and is otherwise pinned to the host and port of the
  normalized URL, with a backend that holds exactly the addresses DNS gave at validation
  that passed the check, and a TLS context made from the given configuration.\<close>

theorem client_pinned_or_deny_all:
  assumes "policy_ok E p"
    and "build_egress_sync_client E g run lib base_url p tls = Inr (url, client)
      \<or> build_egress_http_client E g run lib base_url p tls = Inr (url, client)"
  shows "\<not> follow_redirects client \<and> \<not> trust_env client
    \<and> (case url of
         None \<Rightarrow> client_transport client = DenyAll \<and> normalize_egress_url E base_url p = Inr None
       | Some s \<Rightarrow> \<exists>t h n infos. client_transport client = Pinned t \<and> tr_policy t = p
           \<and> normalize_egress_url E base_url p = Inr (Some (s, h, n)) \<and> g h n = Inr infos
           \<and> validate_bounded_unique_addresses E infos p h
               = Inr (nb_addresses (ps_network_backend (tr_pool t)))
           \<and> list_all (validated_address E p h) (nb_addresses (ps_network_backend (tr_pool t)))
           \<and> nb_hostname (ps_network_backend (tr_pool t)) = h \<and> nb_port (ps_network_backend (tr_pool t)) = n
           \<and> create_egress_ssl_context lib tls = Inr (ps_ssl_context (tr_pool t)))"
proof -
  have "build_egress_sync_client E g run lib base_url p tls = Inr (url, client)"
    using assms(2) by (simp add: build_egress_http_client_eq)
  from this assms(1) show ?thesis
  proof (cases rule: build_egress_sync_client_cases)
    case denying
    then show ?thesis by (simp add: http_client_of_def)
  next
    case (pinned s h n infos t)
    note t = make_sync_transport_Inr [OF pinned(6)]
    show ?thesis using pinned t
      by (auto simp: http_client_of_def intro!: exI [of _ t] exI [of _ h] exI [of _ n] exI [of _ infos])
  qed
qed

lemma example_client:
  "build_egress_sync_client ascii_env example_getaddrinfo example_run default_library (Some example_url)
     example_policy NoConfiguration
    = Inr (Some (u ''https://api.example.com/v1/items''), http_client_of (Pinned example_transport))"
  by code_simp

lemma client_pinned_or_deny_all_witness:
  "\<not> follow_redirects (http_client_of (Pinned example_transport))
   \<and> \<not> trust_env (http_client_of (Pinned example_transport))"
  using client_pinned_or_deny_all [OF example_policy_ok disjI1 [OF example_client]] by blast



end
