(* ===== verification/Async_Connect.thy ===== *)
theory Async_Connect
  imports Pinned_Backend Request_Body
begin

text \<open>
  Model of the asynchronous \<open>connect_tcp\<close> of \<open>src/egressweave/transport.py\<close>: a coordinator
  and one task per started address interleave on an event loop. A step of the relation is
  one uninterrupted segment of one coroutine, from one \<open>await\<close> to the next, or the passing
  of time. The wrapped backend may answer an attempt at any moment with a stream or an
  exception, the caller may cancel the coordinator at any of its awaits, and closing a stream
  may fail in any way. Streams are numbered in the order in which they are opened.
\<close>

definition CONNECTION_ATTEMPT_DELAY_SECONDS :: rat where
  "CONNECTION_ATTEMPT_DELAY_SECONDS = 1 / 4"

text \<open>What closing a rejected stream lets through to the coordinator.\<close>

definition close_connection_stream_best_effort :: "async_closing \<Rightarrow> exn option" where
  "close_connection_stream_best_effort closing =
     (case ac_setup closing of
        Some e \<Rightarrow> if is_process_control e then Some e else None
      | None \<Rightarrow> if ac_cancelled closing then Some CancelledError else None)"

section \<open>State\<close>

text \<open>A task is \<open>connect_after_stagger(address)\<close>: waiting for the start lock, asleep with it,
  awaiting the backend, waiting for the lock in its \<open>finally\<close> clause, or finished.\<close>

datatype outcome = Stream nat | Failed exn | Cancelled

datatype task_pc =
    TWaiting
  | TSleeping rat             \<comment> \<open>when the sleep is over\<close>
  | TConnecting
  | TLeaving outcome
  | TFinished outcome

record attempt =
  at_address :: ustr
  at_pc :: task_pc
  at_cancel :: bool           \<comment> \<open>\<open>cancel()\<close> was called and not yet delivered\<close>

text \<open>The coordinator: awaiting \<open>asyncio.wait\<close> (until a time, if any), gathering the finished
  tasks at the deadline, closing a stream (on the deadline path with the streams to come, on
  the success path with the tasks still to scan and the winner), awaiting the cancelled
  tasks with its result decided, or returned.\<close>

datatype coordinator_pc =
    CWait "rat option"
  | CGather "nat list"
  | CCloseLate nat "nat list"
  | CCloseLoser nat "nat list" nat
  | CCancelling "nat res"
  | CReturned "nat res"

record dial_start =
  ds_task :: nat
  ds_dial :: dial
  ds_time :: rat
  ds_alone :: bool            \<comment> \<open>no other attempt was active when the stagger was computed\<close>

record connect_state =
  now :: rat
  deadline :: "rat option"
  untried :: "ustr list"
  more_addresses :: bool
  next_attempt_at :: rat
  start_lock :: "nat option"
  last_attempt_started_at :: "rat option"
  active_attempts :: int
  attempts :: "attempt list"
  tracked :: "nat list"       \<comment> \<open>the set \<open>tasks\<close>\<close>
  coordinator :: coordinator_pc
  opened :: nat               \<comment> \<open>number of streams the backend has opened\<close>
  closed :: "nat list"        \<comment> \<open>streams whose \<open>aclose\<close> was called\<close>
  dialed :: "dial_start list"

definition pc_of :: "connect_state \<Rightarrow> nat \<Rightarrow> task_pc" where
  "pc_of s i = at_pc (attempts s ! i)"

fun is_finished :: "task_pc \<Rightarrow> bool" where
  "is_finished (TFinished _) = True"
| "is_finished _ = False"

definition set_pc :: "nat \<Rightarrow> task_pc \<Rightarrow> connect_state \<Rightarrow> connect_state" where
  "set_pc i pc s = s\<lparr>attempts := (attempts s)[i := (attempts s ! i)\<lparr>at_pc := pc\<rparr>]\<rparr>"

definition take_cancel :: "nat \<Rightarrow> connect_state \<Rightarrow> connect_state" where
  "take_cancel i s = s\<lparr>attempts := (attempts s)[i := (attempts s ! i)\<lparr>at_cancel := False\<rparr>]\<rparr>"

section \<open>Segments of a task\<close>

text \<open>The backend call: the fields written under the lock, then the recheck of the address.\<close>

definition leave_attempt :: "nat \<Rightarrow> outcome \<Rightarrow> connect_state \<Rightarrow> connect_state" where
  "leave_attempt i result s =
     (if start_lock s = None
      then set_pc i (TFinished result) (s\<lparr>active_attempts := active_attempts s - 1\<rparr>)
      else set_pc i (TLeaving result) s)"

definition start_attempt ::
  "pyenv \<Rightarrow> network_backend \<Rightarrow> ustr option \<Rightarrow> pyval \<Rightarrow> nat \<Rightarrow> bool \<Rightarrow> connect_state \<Rightarrow> connect_state" where
  "start_attempt E b local_address socket_options i alone s =
     (let remaining_timeout = map_option (\<lambda>d. max 0 (d - now s)) (deadline s);
          s1 = s\<lparr>last_attempt_started_at := Some (now s), active_attempts := active_attempts s + 1,
                 start_lock := None\<rparr> in
      case validate_global_address E (at_address (attempts s ! i)) (nb_policy b) (Some (nb_hostname b)) of
        Inl e \<Rightarrow> leave_attempt i (Failed e) s1
      | Inr pinned_address \<Rightarrow>
          set_pc i TConnecting
            (s1\<lparr>dialed := dialed s1 @ [\<lparr>ds_task = i, ds_dial = \<lparr>dial_address = pinned_address, dial_port = nb_port b,
                   dial_timeout = remaining_timeout, dial_local_address = local_address,
                   dial_socket_options = socket_options\<rparr>, ds_time = now s, ds_alone = alone\<rparr>]\<rparr>))"

definition acquire_start_lock ::
  "pyenv \<Rightarrow> network_backend \<Rightarrow> ustr option \<Rightarrow> pyval \<Rightarrow> nat \<Rightarrow> connect_state \<Rightarrow> connect_state" where
  "acquire_start_lock E b local_address socket_options i s =
     (case (if active_attempts s \<noteq> 0 then last_attempt_started_at s else None) of
        None \<Rightarrow> start_attempt E b local_address socket_options i (active_attempts s = 0) s
      | Some started \<Rightarrow>
          (let remaining_delay = started + CONNECTION_ATTEMPT_DELAY_SECONDS - now s in
           if remaining_delay > 0
           then set_pc i (TSleeping (now s + remaining_delay)) (s\<lparr>start_lock := Some i\<rparr>)
           else start_attempt E b local_address socket_options i False s))"

section \<open>Segments of the coordinator\<close>

definition start_next_attempt :: "connect_state \<Rightarrow> connect_state" where
  "start_next_attempt s =
     (case untried s of
        [] \<Rightarrow> s\<lparr>more_addresses := False\<rparr>
      | address # rest \<Rightarrow>
          (if (case deadline s of None \<Rightarrow> False | Some d \<Rightarrow> max 0 (d - now s) = 0)
           then s\<lparr>untried := rest, more_addresses := False\<rparr>
           else s\<lparr>untried := rest,
                  tracked := tracked s @ [length (attempts s)],
                  attempts := attempts s @ [\<lparr>at_address = address, at_pc = TWaiting, at_cancel = False\<rparr>],
                  next_attempt_at := now s + CONNECTION_ATTEMPT_DELAY_SECONDS\<rparr>))"

text \<open>The \<open>finally\<close> clause: cancel the tasks that are left, and await them.\<close>

definition cancel_and_wait_tasks :: "nat res \<Rightarrow> connect_state \<Rightarrow> connect_state" where
  "cancel_and_wait_tasks result s =
     s\<lparr>attempts := map (\<lambda>i. let t = attempts s ! i in
           if i \<in> set (tracked s) \<and> \<not> is_finished (at_pc t) then t\<lparr>at_cancel := True\<rparr> else t)
         [0..<length (attempts s)],
       coordinator := (if tracked s = [] then CReturned result else CCancelling result)\<rparr>"

text \<open>From the head of the loop to its \<open>asyncio.wait\<close>, or out of the loop.\<close>

definition loop_head :: "connect_state \<Rightarrow> connect_state" where
  "loop_head s =
     (if tracked s = [] then cancel_and_wait_tasks (Inl (OSError EGRESS_NOT_ALLOWED)) s
      else if (case deadline s of None \<Rightarrow> False | Some d \<Rightarrow> max 0 (d - now s) = 0)
      then cancel_and_wait_tasks (Inl (OSError EGRESS_NOT_ALLOWED)) s
      else
        (let next_delay = max 0 (next_attempt_at s - now s);
             wait_timeout =
               (case deadline s of
                  None \<Rightarrow> if more_addresses s then Some next_delay else None
                | Some d \<Rightarrow> Some (if more_addresses s then min next_delay (max 0 (d - now s))
                                  else max 0 (d - now s))) in
         s\<lparr>coordinator := CWait (map_option (\<lambda>w. now s + w) wait_timeout)\<rparr>))"

definition past_deadline :: "connect_state \<Rightarrow> bool" where
  "past_deadline s = (case deadline s of None \<Rightarrow> False | Some d \<Rightarrow> now s \<ge> d)"

definition after_failures :: "connect_state \<Rightarrow> connect_state" where
  "after_failures s =
     loop_head
       (if more_addresses s \<and> (tracked s = [] \<or> now s \<ge> next_attempt_at s)
        then (if \<not> past_deadline s then start_next_attempt s else s\<lparr>more_addresses := False\<rparr>)
        else s)"

text \<open>Scanning the finished tasks until something has to be awaited.\<close>

fun scan_done :: "connect_state \<Rightarrow> nat list \<Rightarrow> nat option \<Rightarrow> connect_state" where
  "scan_done s [] successful_stream =
     (case successful_stream of
        Some stream \<Rightarrow> cancel_and_wait_tasks (Inr stream) s
      | None \<Rightarrow> after_failures s)"
| "scan_done s (i # done) successful_stream =
     (case pc_of s i of
        TFinished (Stream stream) \<Rightarrow>
          (case successful_stream of
             None \<Rightarrow> scan_done s done (Some stream)
           | Some winner \<Rightarrow> s\<lparr>coordinator := CCloseLoser stream done winner\<rparr>)
      | TFinished (Failed e) \<Rightarrow>
          if is_Exception e then scan_done s done successful_stream
          else cancel_and_wait_tasks (Inl e) s
      | _ \<Rightarrow> scan_done s done successful_stream)"

text \<open>The streams among the results gathered at the deadline.\<close>

definition completed_streams :: "connect_state \<Rightarrow> nat list \<Rightarrow> nat list" where
  "completed_streams s done =
     List.map_filter (\<lambda>i. case pc_of s i of TFinished (Stream k) \<Rightarrow> Some k | _ \<Rightarrow> None) done"

definition close_late :: "nat list \<Rightarrow> connect_state \<Rightarrow> connect_state" where
  "close_late streams s =
     (case streams of
        [] \<Rightarrow> cancel_and_wait_tasks (Inl (OSError EGRESS_NOT_ALLOWED)) s
      | stream # rest \<Rightarrow> s\<lparr>coordinator := CCloseLate stream rest\<rparr>)"

definition after_wait :: "nat list \<Rightarrow> connect_state \<Rightarrow> connect_state" where
  "after_wait done s0 =
     (let s = s0\<lparr>tracked := filter (\<lambda>i. i \<notin> set done) (tracked s0)\<rparr> in
      if past_deadline s then s\<lparr>coordinator := CGather done\<rparr>
      else if done = [] then
        loop_head (if more_addresses s
                   then (if \<not> past_deadline s then start_next_attempt s else s\<lparr>more_addresses := False\<rparr>)
                   else s)
      else scan_done s done None)"

text \<open>\<open>connect_tcp\<close> up to its first \<open>await\<close>.\<close>

definition connect_initial :: "network_backend \<Rightarrow> rat \<Rightarrow> rat option \<Rightarrow> connect_state" where
  "connect_initial b start timeout =
     loop_head (start_next_attempt
       \<lparr>now = start, deadline = map_option (\<lambda>t. start + max t 0) timeout, untried = nb_addresses b,
        more_addresses = True, next_attempt_at = start, start_lock = None,
        last_attempt_started_at = None, active_attempts = 0, attempts = [], tracked = [],
        coordinator = CWait None, opened = 0, closed = [], dialed = []\<rparr>)"

definition async_connect_tcp ::
  "pyenv \<Rightarrow> network_backend \<Rightarrow> host_arg \<Rightarrow> int \<Rightarrow> rat \<Rightarrow> rat option \<Rightarrow> connect_state res" where
  "async_connect_tcp E b host port start timeout =
     ebind (async_verify_host_port E b host port) (\<lambda>_. Inr (connect_initial b start timeout))"

section \<open>Steps\<close>

definition finished_tasks :: "connect_state \<Rightarrow> nat list \<Rightarrow> bool" where
  "finished_tasks s done \<longleftrightarrow> distinct done \<and> set done = {i \<in> set (tracked s). is_finished (pc_of s i)}"

inductive attempt_step ::
  "pyenv \<Rightarrow> network_backend \<Rightarrow> ustr option \<Rightarrow> pyval \<Rightarrow> nat \<Rightarrow> connect_state \<Rightarrow> connect_state \<Rightarrow> bool"
  for E b local_address socket_options i s where
  lock: "i < length (attempts s) \<Longrightarrow> pc_of s i = TWaiting \<Longrightarrow> \<not> at_cancel (attempts s ! i) \<Longrightarrow>
    start_lock s = None \<Longrightarrow>
    attempt_step E b local_address socket_options i s
      (acquire_start_lock E b local_address socket_options i s)"
| wake: "i < length (attempts s) \<Longrightarrow> pc_of s i = TSleeping w \<Longrightarrow> \<not> at_cancel (attempts s ! i) \<Longrightarrow>
    w \<le> now s \<Longrightarrow>
    attempt_step E b local_address socket_options i s
      (start_attempt E b local_address socket_options i False s)"
| connected: "i < length (attempts s) \<Longrightarrow> pc_of s i = TConnecting \<Longrightarrow> \<not> at_cancel (attempts s ! i) \<Longrightarrow>
    attempt_step E b local_address socket_options i s
      (leave_attempt i (Stream (opened s)) (s\<lparr>opened := opened s + 1\<rparr>))"
| failed: "i < length (attempts s) \<Longrightarrow> pc_of s i = TConnecting \<Longrightarrow> \<not> at_cancel (attempts s ! i) \<Longrightarrow>
    attempt_step E b local_address socket_options i s
      (leave_attempt i (if e = CancelledError then Cancelled else Failed e) s)"
| left: "i < length (attempts s) \<Longrightarrow> pc_of s i = TLeaving result \<Longrightarrow> \<not> at_cancel (attempts s ! i) \<Longrightarrow>
    start_lock s = None \<Longrightarrow>
    attempt_step E b local_address socket_options i s (leave_attempt i result s)"
| cancelled_waiting: "i < length (attempts s) \<Longrightarrow> pc_of s i = TWaiting \<Longrightarrow> at_cancel (attempts s ! i) \<Longrightarrow>
    attempt_step E b local_address socket_options i s (set_pc i (TFinished Cancelled) (take_cancel i s))"
| cancelled_sleeping: "i < length (attempts s) \<Longrightarrow> pc_of s i = TSleeping w \<Longrightarrow> at_cancel (attempts s ! i) \<Longrightarrow>
    attempt_step E b local_address socket_options i s
      (set_pc i (TFinished Cancelled) (take_cancel i (s\<lparr>start_lock := None\<rparr>)))"
| cancelled_connecting: "i < length (attempts s) \<Longrightarrow> pc_of s i = TConnecting \<Longrightarrow> at_cancel (attempts s ! i) \<Longrightarrow>
    attempt_step E b local_address socket_options i s (leave_attempt i Cancelled (take_cancel i s))"
| cancelled_leaving: "i < length (attempts s) \<Longrightarrow> pc_of s i = TLeaving result \<Longrightarrow> at_cancel (attempts s ! i) \<Longrightarrow>
    attempt_step E b local_address socket_options i s (set_pc i (TFinished Cancelled) (take_cancel i s))"

inductive coordinator_step :: "connect_state \<Rightarrow> connect_state \<Rightarrow> bool" for s where
  woken: "coordinator s = CWait until \<Longrightarrow> finished_tasks s done \<Longrightarrow>
    done \<noteq> [] \<or> (\<exists>w. until = Some w \<and> w \<le> now s) \<Longrightarrow>
    coordinator_step s (after_wait done s)"
| gathered: "coordinator s = CGather done \<Longrightarrow>
    coordinator_step s (close_late (completed_streams s done) s)"
| closed_late: "coordinator s = CCloseLate stream rest \<Longrightarrow>
    close_connection_stream_best_effort closing = None \<Longrightarrow>
    coordinator_step s (close_late rest (s\<lparr>closed := closed s @ [stream]\<rparr>))"
| close_late_raises: "coordinator s = CCloseLate stream rest \<Longrightarrow>
    close_connection_stream_best_effort closing = Some e \<Longrightarrow>
    coordinator_step s (cancel_and_wait_tasks (Inl e) (s\<lparr>closed := closed s @ [stream]\<rparr>))"
| closed_loser: "coordinator s = CCloseLoser stream done winner \<Longrightarrow>
    close_connection_stream_best_effort closing = None \<Longrightarrow>
    coordinator_step s (scan_done (s\<lparr>closed := closed s @ [stream]\<rparr>) done (Some winner))"
| close_loser_raises: "coordinator s = CCloseLoser stream done winner \<Longrightarrow>
    close_connection_stream_best_effort closing = Some e \<Longrightarrow>
    coordinator_step s (cancel_and_wait_tasks (Inl e) (s\<lparr>closed := closed s @ [stream]\<rparr>))"
| wait_cancelled: "coordinator s = CWait until \<Longrightarrow>
    coordinator_step s (cancel_and_wait_tasks (Inl CancelledError) s)"
| gather_cancelled: "coordinator s = CGather done \<Longrightarrow>
    coordinator_step s (cancel_and_wait_tasks (Inl CancelledError) s)"
| reaped: "coordinator s = CCancelling result \<Longrightarrow> (\<forall>i \<in> set (tracked s). is_finished (pc_of s i)) \<Longrightarrow>
    result' = result \<or> result' = Inl CancelledError \<Longrightarrow>
    coordinator_step s (s\<lparr>coordinator := CReturned result'\<rparr>)"

inductive connect_move ::
  "pyenv \<Rightarrow> network_backend \<Rightarrow> ustr option \<Rightarrow> pyval \<Rightarrow> connect_state \<Rightarrow> connect_state \<Rightarrow> bool"
  for E b local_address socket_options s s' where
  attempt: "attempt_step E b local_address socket_options i s s' \<Longrightarrow>
    connect_move E b local_address socket_options s s'"
| coordinate: "coordinator_step s s' \<Longrightarrow> connect_move E b local_address socket_options s s'"

text \<open>A run with its number of moves; time may pass between them.\<close>

inductive connect_run ::
  "pyenv \<Rightarrow> network_backend \<Rightarrow> ustr option \<Rightarrow> pyval \<Rightarrow> connect_state \<Rightarrow> nat \<Rightarrow> connect_state \<Rightarrow> bool"
  for E b local_address socket_options s0 where
  start: "connect_run E b local_address socket_options s0 0 s0"
| tick: "connect_run E b local_address socket_options s0 k s \<Longrightarrow> 0 < d \<Longrightarrow>
    connect_run E b local_address socket_options s0 k (s\<lparr>now := now s + d\<rparr>)"
| move: "connect_run E b local_address socket_options s0 k s \<Longrightarrow>
    connect_move E b local_address socket_options s s' \<Longrightarrow>
    connect_run E b local_address socket_options s0 (Suc k) s'"

end
