(* ===== verification/Connect_Rules.thy ===== *)
theory Connect_Rules
  imports Async_Connect
begin

text \<open>
  Properties of the asynchronous connect of \<open>src/egressweave/transport.py\<close> in every
  interleaving: what it dials and when, that it ends, and what becomes of the streams.
\<close>

section \<open>Updates\<close>

lemma attempts_set_pc [simp]: "attempts (set_pc i pc s) = (attempts s)[i := (attempts s ! i)\<lparr>at_pc := pc\<rparr>]"
  and attempts_take_cancel [simp]: "attempts (take_cancel i s) = (attempts s)[i := (attempts s ! i)\<lparr>at_cancel := False\<rparr>]"
  by (simp_all add: set_pc_def take_cancel_def)

lemma set_pc_frame [simp]:
  "now (set_pc i pc s) = now s" "deadline (set_pc i pc s) = deadline s" "untried (set_pc i pc s) = untried s"
  "more_addresses (set_pc i pc s) = more_addresses s" "next_attempt_at (set_pc i pc s) = next_attempt_at s"
  "start_lock (set_pc i pc s) = start_lock s"
  "last_attempt_started_at (set_pc i pc s) = last_attempt_started_at s"
  "active_attempts (set_pc i pc s) = active_attempts s" "tracked (set_pc i pc s) = tracked s"
  "coordinator (set_pc i pc s) = coordinator s" "opened (set_pc i pc s) = opened s"
  "closed (set_pc i pc s) = closed s" "dialed (set_pc i pc s) = dialed s"
  by (simp_all add: set_pc_def)

lemma take_cancel_frame [simp]:
  "now (take_cancel i s) = now s" "deadline (take_cancel i s) = deadline s" "untried (take_cancel i s) = untried s"
  "more_addresses (take_cancel i s) = more_addresses s" "next_attempt_at (take_cancel i s) = next_attempt_at s"
  "start_lock (take_cancel i s) = start_lock s"
  "last_attempt_started_at (take_cancel i s) = last_attempt_started_at s"
  "active_attempts (take_cancel i s) = active_attempts s" "tracked (take_cancel i s) = tracked s"
  "coordinator (take_cancel i s) = coordinator s" "opened (take_cancel i s) = opened s"
  "closed (take_cancel i s) = closed s" "dialed (take_cancel i s) = dialed s"
  by (simp_all add: take_cancel_def)

lemma pc_of_set_pc [simp]:
  "i < length (attempts s) \<Longrightarrow> pc_of (set_pc i pc s) j = (if j = i then pc else pc_of s j)"
  by (simp add: pc_of_def nth_list_update)

lemma at_pc_update [simp]:
  "at_pc ((attempts s)[i := (attempts s ! i)\<lparr>at_cancel := c\<rparr>] ! j) = at_pc (attempts s ! j)"
  by (cases "i < length (attempts s)") (simp_all add: nth_list_update not_less list_update_beyond)

lemma pc_of_take_cancel [simp]: "pc_of (take_cancel i s) j = pc_of s j"
  by (simp add: pc_of_def)

lemma at_address_update [simp]:
  "at_address ((attempts s)[i := (attempts s ! i)\<lparr>at_pc := pc\<rparr>] ! j) = at_address (attempts s ! j)"
  "at_address ((attempts s)[i := (attempts s ! i)\<lparr>at_cancel := c\<rparr>] ! j) = at_address (attempts s ! j)"
  by (cases "i < length (attempts s)", simp_all add: nth_list_update not_less list_update_beyond)+

lemma address_of_update [simp]:
  "map at_address ((attempts s)[i := (attempts s ! i)\<lparr>at_pc := pc\<rparr>]) = map at_address (attempts s)"
  "map at_address ((attempts s)[i := (attempts s ! i)\<lparr>at_cancel := c\<rparr>]) = map at_address (attempts s)"
  by (simp_all only: list_eq_iff_nth_eq length_map length_list_update)
    (simp_all add: nth_map)

text \<open>Fields that no rule about tasks and streams reads.\<close>

lemma pc_of_frame [simp]:
  "pc_of (s\<lparr>coordinator := c\<rparr>) = pc_of s" "pc_of (s\<lparr>closed := cl\<rparr>) = pc_of s" "pc_of (s\<lparr>now := t\<rparr>) = pc_of s"
  "pc_of (s\<lparr>more_addresses := m\<rparr>) = pc_of s" "pc_of (s\<lparr>tracked := tr\<rparr>) = pc_of s"
  "pc_of (s\<lparr>start_lock := lk\<rparr>) = pc_of s" "pc_of (s\<lparr>opened := k\<rparr>) = pc_of s"
  "pc_of (s\<lparr>active_attempts := a\<rparr>) = pc_of s" "pc_of (s\<lparr>untried := us\<rparr>) = pc_of s"
  "pc_of (s\<lparr>last_attempt_started_at := la\<rparr>) = pc_of s" "pc_of (s\<lparr>dialed := ds\<rparr>) = pc_of s"
  "pc_of (s\<lparr>next_attempt_at := na\<rparr>) = pc_of s"
  by (simp_all add: pc_of_def fun_eq_iff)

lemma take_cancel_lock: "take_cancel i (s\<lparr>start_lock := lk\<rparr>) = take_cancel i s\<lparr>start_lock := lk\<rparr>"
  by (simp add: take_cancel_def)

section \<open>The invariant of the tasks\<close>

fun has_started :: "task_pc \<Rightarrow> bool" where
  "has_started TWaiting = False"
| "has_started (TSleeping _) = False"
| "has_started _ = True"

fun holds_stream :: "task_pc \<Rightarrow> nat \<Rightarrow> bool" where
  "holds_stream (TLeaving (Stream k)) n = (k = n)"
| "holds_stream (TFinished (Stream k)) n = (k = n)"
| "holds_stream _ n = False"

text \<open>The lock is held exactly by the one sleeping task, which wakes no earlier than the delay
  after the last start.\<close>

definition lock_inv :: "connect_state \<Rightarrow> bool" where
  "lock_inv s \<longleftrightarrow>
     (\<forall>j. start_lock s = Some j \<longrightarrow> j < length (attempts s) \<and> (\<exists>w. pc_of s j = TSleeping w))
     \<and> (\<forall>j < length (attempts s). \<forall>w. pc_of s j = TSleeping w \<longrightarrow> start_lock s = Some j
          \<and> (\<exists>l. last_attempt_started_at s = Some l \<and> l + CONNECTION_ATTEMPT_DELAY_SECONDS \<le> w))"

lemma lock_invI:
  assumes "\<And>j. start_lock s = Some j \<Longrightarrow> j < length (attempts s) \<and> (\<exists>w. pc_of s j = TSleeping w)"
    and "\<And>j w. j < length (attempts s) \<Longrightarrow> pc_of s j = TSleeping w \<Longrightarrow> start_lock s = Some j
      \<and> (\<exists>l. last_attempt_started_at s = Some l \<and> l + CONNECTION_ATTEMPT_DELAY_SECONDS \<le> w)"
  shows "lock_inv s"
  unfolding lock_inv_def by (intro conjI allI impI assms)

lemma lock_inv_holder: "lock_inv s \<Longrightarrow> start_lock s = Some j \<Longrightarrow> j < length (attempts s) \<and> (\<exists>w. pc_of s j = TSleeping w)"
  and lock_inv_sleeper: "lock_inv s \<Longrightarrow> j < length (attempts s) \<Longrightarrow> pc_of s j = TSleeping w \<Longrightarrow> start_lock s = Some j
      \<and> (\<exists>l. last_attempt_started_at s = Some l \<and> l + CONNECTION_ATTEMPT_DELAY_SECONDS \<le> w)"
  unfolding lock_inv_def by blast+

definition tracked_inv :: "connect_state \<Rightarrow> bool" where
  "tracked_inv s \<longleftrightarrow> distinct (tracked s) \<and> set (tracked s) \<subseteq> {..<length (attempts s)}
     \<and> (\<forall>j < length (attempts s). j \<notin> set (tracked s) \<longrightarrow> is_finished (pc_of s j))"

text \<open>Attempts are made of the pinned addresses, in order.\<close>

definition address_inv :: "network_backend \<Rightarrow> connect_state \<Rightarrow> bool" where
  "address_inv b s \<longleftrightarrow> (\<exists>rest. nb_addresses b = map at_address (attempts s) @ rest
     \<and> (more_addresses s \<longrightarrow> rest = untried s))"

definition deadline_inv :: "rat \<Rightarrow> rat option \<Rightarrow> connect_state \<Rightarrow> bool" where
  "deadline_inv t0 timeout s \<longleftrightarrow> t0 \<le> now s \<and> deadline s = map_option (\<lambda>t. t0 + max t 0) timeout"

definition dial_within :: "network_backend \<Rightarrow> rat option \<Rightarrow> connect_state \<Rightarrow> dial_start \<Rightarrow> bool" where
  "dial_within b timeout s d \<longleftrightarrow> ds_task d < length (attempts s)
     \<and> has_started (pc_of s (ds_task d))
     \<and> dial_address (ds_dial d) = at_address (attempts s ! ds_task d)
     \<and> dial_port (ds_dial d) = nb_port b
     \<and> (case timeout of None \<Rightarrow> dial_timeout (ds_dial d) = None
        | Some t \<Rightarrow> \<exists>q. dial_timeout (ds_dial d) = Some q \<and> 0 \<le> q \<and> q \<le> max t 0)"

definition dial_inv :: "network_backend \<Rightarrow> rat option \<Rightarrow> connect_state \<Rightarrow> bool" where
  "dial_inv b timeout s \<longleftrightarrow> distinct (map ds_task (dialed s)) \<and> list_all (dial_within b timeout s) (dialed s)"

fun staggered :: "dial_start list \<Rightarrow> bool" where
  "staggered (d # e # ds) = ((ds_alone e \<or> ds_time d + CONNECTION_ATTEMPT_DELAY_SECONDS \<le> ds_time e)
     \<and> staggered (e # ds))"
| "staggered _ = True"

definition stagger_inv :: "connect_state \<Rightarrow> bool" where
  "stagger_inv s \<longleftrightarrow> staggered (dialed s)
     \<and> last_attempt_started_at s = (if dialed s = [] then None else Some (ds_time (last (dialed s))))"

definition stream_inv :: "connect_state \<Rightarrow> bool" where
  "stream_inv s \<longleftrightarrow>
     (\<forall>j < length (attempts s). \<forall>k. holds_stream (pc_of s j) k \<longrightarrow> k < opened s)
     \<and> (\<forall>i < length (attempts s). \<forall>j < length (attempts s). \<forall>k.
          holds_stream (pc_of s i) k \<and> holds_stream (pc_of s j) k \<longrightarrow> i = j)"

definition task_inv :: "network_backend \<Rightarrow> rat \<Rightarrow> rat option \<Rightarrow> connect_state \<Rightarrow> bool" where
  "task_inv b t0 timeout s \<longleftrightarrow> lock_inv s \<and> tracked_inv s \<and> address_inv b s \<and> deadline_inv t0 timeout s
     \<and> dial_inv b timeout s \<and> stagger_inv s \<and> stream_inv s"

lemma staggered_snoc:
  "staggered (ds @ [e]) \<longleftrightarrow> staggered ds
     \<and> (ds \<noteq> [] \<longrightarrow> ds_alone e \<or> ds_time (last ds) + CONNECTION_ATTEMPT_DELAY_SECONDS \<le> ds_time e)"
  by (induction ds rule: staggered.induct) auto

subsection \<open>What it does not read\<close>

lemma dial_within_frame [simp]:
  "dial_within b timeout (s\<lparr>coordinator := c\<rparr>) = dial_within b timeout s"
  "dial_within b timeout (s\<lparr>closed := cl\<rparr>) = dial_within b timeout s"
  "dial_within b timeout (s\<lparr>now := t\<rparr>) = dial_within b timeout s"
  "dial_within b timeout (s\<lparr>more_addresses := m\<rparr>) = dial_within b timeout s"
  "dial_within b timeout (s\<lparr>tracked := tr\<rparr>) = dial_within b timeout s"
  "dial_within b timeout (s\<lparr>start_lock := lk\<rparr>) = dial_within b timeout s"
  "dial_within b timeout (s\<lparr>opened := k\<rparr>) = dial_within b timeout s"
  "dial_within b timeout (s\<lparr>active_attempts := a\<rparr>) = dial_within b timeout s"
  "dial_within b timeout (s\<lparr>untried := us\<rparr>) = dial_within b timeout s"
  "dial_within b timeout (s\<lparr>last_attempt_started_at := la\<rparr>) = dial_within b timeout s"
  "dial_within b timeout (s\<lparr>dialed := ds\<rparr>) = dial_within b timeout s"
  "dial_within b timeout (s\<lparr>next_attempt_at := na\<rparr>) = dial_within b timeout s"
  "dial_within b timeout (take_cancel i s) = dial_within b timeout s"
  by (simp_all add: dial_within_def fun_eq_iff)

lemma lock_inv_frame [simp]:
  "lock_inv (s\<lparr>coordinator := c\<rparr>) = lock_inv s"
  "lock_inv (s\<lparr>closed := cl\<rparr>) = lock_inv s"
  "lock_inv (s\<lparr>now := t\<rparr>) = lock_inv s"
  "lock_inv (s\<lparr>more_addresses := m\<rparr>) = lock_inv s"
  "lock_inv (s\<lparr>tracked := tr\<rparr>) = lock_inv s"
  "lock_inv (s\<lparr>opened := k\<rparr>) = lock_inv s"
  "lock_inv (s\<lparr>active_attempts := a\<rparr>) = lock_inv s"
  "lock_inv (s\<lparr>untried := us\<rparr>) = lock_inv s"
  "lock_inv (s\<lparr>dialed := ds\<rparr>) = lock_inv s"
  "lock_inv (s\<lparr>next_attempt_at := na\<rparr>) = lock_inv s"
  "lock_inv (take_cancel i s) = lock_inv s"
  by (simp_all add: lock_inv_def)

lemma tracked_inv_frame [simp]:
  "tracked_inv (s\<lparr>coordinator := c\<rparr>) = tracked_inv s"
  "tracked_inv (s\<lparr>closed := cl\<rparr>) = tracked_inv s"
  "tracked_inv (s\<lparr>now := t\<rparr>) = tracked_inv s"
  "tracked_inv (s\<lparr>more_addresses := m\<rparr>) = tracked_inv s"
  "tracked_inv (s\<lparr>start_lock := lk\<rparr>) = tracked_inv s"
  "tracked_inv (s\<lparr>opened := k\<rparr>) = tracked_inv s"
  "tracked_inv (s\<lparr>active_attempts := a\<rparr>) = tracked_inv s"
  "tracked_inv (s\<lparr>untried := us\<rparr>) = tracked_inv s"
  "tracked_inv (s\<lparr>last_attempt_started_at := la\<rparr>) = tracked_inv s"
  "tracked_inv (s\<lparr>dialed := ds\<rparr>) = tracked_inv s"
  "tracked_inv (s\<lparr>next_attempt_at := na\<rparr>) = tracked_inv s"
  "tracked_inv (take_cancel i s) = tracked_inv s"
  by (simp_all add: tracked_inv_def)

lemma address_inv_frame [simp]:
  "address_inv b (s\<lparr>coordinator := c\<rparr>) = address_inv b s"
  "address_inv b (s\<lparr>closed := cl\<rparr>) = address_inv b s"
  "address_inv b (s\<lparr>now := t\<rparr>) = address_inv b s"
  "address_inv b (s\<lparr>tracked := tr\<rparr>) = address_inv b s"
  "address_inv b (s\<lparr>start_lock := lk\<rparr>) = address_inv b s"
  "address_inv b (s\<lparr>opened := k\<rparr>) = address_inv b s"
  "address_inv b (s\<lparr>active_attempts := a\<rparr>) = address_inv b s"
  "address_inv b (s\<lparr>last_attempt_started_at := la\<rparr>) = address_inv b s"
  "address_inv b (s\<lparr>dialed := ds\<rparr>) = address_inv b s"
  "address_inv b (s\<lparr>next_attempt_at := na\<rparr>) = address_inv b s"
  "address_inv b (take_cancel i s) = address_inv b s"
  by (simp_all add: address_inv_def)

lemma deadline_inv_frame [simp]:
  "deadline_inv t0 timeout (s\<lparr>coordinator := c\<rparr>) = deadline_inv t0 timeout s"
  "deadline_inv t0 timeout (s\<lparr>closed := cl\<rparr>) = deadline_inv t0 timeout s"
  "deadline_inv t0 timeout (s\<lparr>more_addresses := m\<rparr>) = deadline_inv t0 timeout s"
  "deadline_inv t0 timeout (s\<lparr>tracked := tr\<rparr>) = deadline_inv t0 timeout s"
  "deadline_inv t0 timeout (s\<lparr>start_lock := lk\<rparr>) = deadline_inv t0 timeout s"
  "deadline_inv t0 timeout (s\<lparr>opened := k\<rparr>) = deadline_inv t0 timeout s"
  "deadline_inv t0 timeout (s\<lparr>active_attempts := a\<rparr>) = deadline_inv t0 timeout s"
  "deadline_inv t0 timeout (s\<lparr>untried := us\<rparr>) = deadline_inv t0 timeout s"
  "deadline_inv t0 timeout (s\<lparr>last_attempt_started_at := la\<rparr>) = deadline_inv t0 timeout s"
  "deadline_inv t0 timeout (s\<lparr>dialed := ds\<rparr>) = deadline_inv t0 timeout s"
  "deadline_inv t0 timeout (s\<lparr>next_attempt_at := na\<rparr>) = deadline_inv t0 timeout s"
  "deadline_inv t0 timeout (take_cancel i s) = deadline_inv t0 timeout s"
  by (simp_all add: deadline_inv_def)

lemma dial_inv_frame [simp]:
  "dial_inv b timeout (s\<lparr>coordinator := c\<rparr>) = dial_inv b timeout s"
  "dial_inv b timeout (s\<lparr>closed := cl\<rparr>) = dial_inv b timeout s"
  "dial_inv b timeout (s\<lparr>now := t\<rparr>) = dial_inv b timeout s"
  "dial_inv b timeout (s\<lparr>more_addresses := m\<rparr>) = dial_inv b timeout s"
  "dial_inv b timeout (s\<lparr>tracked := tr\<rparr>) = dial_inv b timeout s"
  "dial_inv b timeout (s\<lparr>start_lock := lk\<rparr>) = dial_inv b timeout s"
  "dial_inv b timeout (s\<lparr>opened := k\<rparr>) = dial_inv b timeout s"
  "dial_inv b timeout (s\<lparr>active_attempts := a\<rparr>) = dial_inv b timeout s"
  "dial_inv b timeout (s\<lparr>untried := us\<rparr>) = dial_inv b timeout s"
  "dial_inv b timeout (s\<lparr>last_attempt_started_at := la\<rparr>) = dial_inv b timeout s"
  "dial_inv b timeout (s\<lparr>next_attempt_at := na\<rparr>) = dial_inv b timeout s"
  "dial_inv b timeout (take_cancel i s) = dial_inv b timeout s"
  by (simp_all add: dial_inv_def)

lemma stagger_inv_frame [simp]:
  "stagger_inv (s\<lparr>coordinator := c\<rparr>) = stagger_inv s"
  "stagger_inv (s\<lparr>closed := cl\<rparr>) = stagger_inv s"
  "stagger_inv (s\<lparr>now := t\<rparr>) = stagger_inv s"
  "stagger_inv (s\<lparr>more_addresses := m\<rparr>) = stagger_inv s"
  "stagger_inv (s\<lparr>tracked := tr\<rparr>) = stagger_inv s"
  "stagger_inv (s\<lparr>start_lock := lk\<rparr>) = stagger_inv s"
  "stagger_inv (s\<lparr>opened := k\<rparr>) = stagger_inv s"
  "stagger_inv (s\<lparr>active_attempts := a\<rparr>) = stagger_inv s"
  "stagger_inv (s\<lparr>untried := us\<rparr>) = stagger_inv s"
  "stagger_inv (s\<lparr>next_attempt_at := na\<rparr>) = stagger_inv s"
  "stagger_inv (take_cancel i s) = stagger_inv s"
  by (simp_all add: stagger_inv_def)

lemma stream_inv_frame [simp]:
  "stream_inv (s\<lparr>coordinator := c\<rparr>) = stream_inv s"
  "stream_inv (s\<lparr>closed := cl\<rparr>) = stream_inv s"
  "stream_inv (s\<lparr>now := t\<rparr>) = stream_inv s"
  "stream_inv (s\<lparr>more_addresses := m\<rparr>) = stream_inv s"
  "stream_inv (s\<lparr>tracked := tr\<rparr>) = stream_inv s"
  "stream_inv (s\<lparr>start_lock := lk\<rparr>) = stream_inv s"
  "stream_inv (s\<lparr>active_attempts := a\<rparr>) = stream_inv s"
  "stream_inv (s\<lparr>untried := us\<rparr>) = stream_inv s"
  "stream_inv (s\<lparr>last_attempt_started_at := la\<rparr>) = stream_inv s"
  "stream_inv (s\<lparr>dialed := ds\<rparr>) = stream_inv s"
  "stream_inv (s\<lparr>next_attempt_at := na\<rparr>) = stream_inv s"
  "stream_inv (take_cancel i s) = stream_inv s"
  by (simp_all add: stream_inv_def)

lemma task_inv_frame [simp]:
  "task_inv b t0 timeout (s\<lparr>coordinator := c\<rparr>) = task_inv b t0 timeout s"
  "task_inv b t0 timeout (s\<lparr>closed := cl\<rparr>) = task_inv b t0 timeout s"
  "task_inv b t0 timeout (s\<lparr>active_attempts := a\<rparr>) = task_inv b t0 timeout s"
  "task_inv b t0 timeout (s\<lparr>next_attempt_at := na\<rparr>) = task_inv b t0 timeout s"
  "task_inv b t0 timeout (take_cancel i s) = task_inv b t0 timeout s"
  by (simp_all add: task_inv_def)

lemma stream_inv_opened: "stream_inv s \<Longrightarrow> stream_inv (s\<lparr>opened := opened s + 1\<rparr>)"
  by (fastforce simp: stream_inv_def)

lemma task_inv_opened: "task_inv b t0 timeout s \<Longrightarrow> task_inv b t0 timeout (s\<lparr>opened := opened s + 1\<rparr>)"
  using stream_inv_opened by (simp add: task_inv_def)

lemma deadline_inv_tick: "deadline_inv t0 timeout s \<Longrightarrow> 0 < d \<Longrightarrow> deadline_inv t0 timeout (s\<lparr>now := now s + d\<rparr>)"
  by (simp add: deadline_inv_def)

lemma task_inv_tick: "task_inv b t0 timeout s \<Longrightarrow> 0 < d \<Longrightarrow> task_inv b t0 timeout (s\<lparr>now := now s + d\<rparr>)"
  using deadline_inv_tick by (simp add: task_inv_def)

lemma address_inv_no_more: "address_inv b s \<Longrightarrow> address_inv b (s\<lparr>more_addresses := False\<rparr>)"
  by (auto simp: address_inv_def)

lemma task_inv_no_more:
  "task_inv b t0 timeout s \<Longrightarrow> task_inv b t0 timeout (s\<lparr>more_addresses := False\<rparr>)"
  using address_inv_no_more by (simp add: task_inv_def)

lemma tracked_inv_untrack:
  "tracked_inv s \<Longrightarrow> \<forall>i \<in> set done. is_finished (pc_of s i) \<Longrightarrow>
    tracked_inv (s\<lparr>tracked := filter (\<lambda>i. i \<notin> set done) (tracked s)\<rparr>)"
  by (auto simp: tracked_inv_def)

lemma task_inv_untrack:
  "task_inv b t0 timeout s \<Longrightarrow> \<forall>i \<in> set done. is_finished (pc_of s i) \<Longrightarrow>
    task_inv b t0 timeout (s\<lparr>tracked := filter (\<lambda>i. i \<notin> set done) (tracked s)\<rparr>)"
  using tracked_inv_untrack by (simp add: task_inv_def)

subsection \<open>The tasks keep it\<close>

lemma dial_within_set_pc:
  "dial_within b timeout s d \<Longrightarrow> i < length (attempts s) \<Longrightarrow> (has_started (pc_of s i) \<longrightarrow> has_started pc) \<Longrightarrow>
    dial_within b timeout (set_pc i pc s) d"
  by (auto simp: dial_within_def)

text \<open>A task moves without touching the lock.\<close>

lemma task_inv_set_pc:
  assumes inv: "task_inv b t0 timeout s" and i: "i < length (attempts s)"
    and old: "\<not> is_finished (pc_of s i)" "\<forall>w. pc_of s i \<noteq> TSleeping w" and new: "\<forall>w. pc \<noteq> TSleeping w"
    and started: "has_started (pc_of s i) \<longrightarrow> has_started pc"
    and stream: "\<forall>k. holds_stream pc k \<longrightarrow> k < opened s
      \<and> (\<forall>j < length (attempts s). j \<noteq> i \<longrightarrow> \<not> holds_stream (pc_of s j) k)"
  shows "task_inv b t0 timeout (set_pc i pc s)"
proof -
  have tr: "i \<in> set (tracked s)" using inv i old by (auto simp: task_inv_def tracked_inv_def)
  have lock: "lock_inv s" using inv by (simp add: task_inv_def)
  have "lock_inv (set_pc i pc s)"
  proof (rule lock_invI)
    fix j assume "start_lock (set_pc i pc s) = Some j"
    then show "j < length (attempts (set_pc i pc s)) \<and> (\<exists>w. pc_of (set_pc i pc s) j = TSleeping w)"
      using lock_inv_holder [OF lock, of j] i old by auto
  next
    fix j w assume "j < length (attempts (set_pc i pc s))" "pc_of (set_pc i pc s) j = TSleeping w"
    then show "start_lock (set_pc i pc s) = Some j \<and> (\<exists>l. last_attempt_started_at (set_pc i pc s) = Some l
        \<and> l + CONNECTION_ATTEMPT_DELAY_SECONDS \<le> w)"
      using lock_inv_sleeper [OF lock, of j w] i new by (auto split: if_splits)
  qed
  moreover have "tracked_inv (set_pc i pc s)"
    using inv i tr by (auto simp: task_inv_def tracked_inv_def)
  moreover have "address_inv b (set_pc i pc s)" "deadline_inv t0 timeout (set_pc i pc s)"
    "stagger_inv (set_pc i pc s)"
    using inv by (auto simp: task_inv_def address_inv_def deadline_inv_def stagger_inv_def)
  moreover have "dial_inv b timeout (set_pc i pc s)"
    using inv dial_within_set_pc [OF _ i started] by (auto simp: task_inv_def dial_inv_def list_all_iff)
  moreover have "stream_inv (set_pc i pc s)"
    using inv i stream by (auto simp: task_inv_def stream_inv_def)
  ultimately show ?thesis by (simp add: task_inv_def)
qed

lemma task_inv_leave:
  assumes inv: "task_inv b t0 timeout s" and i: "i < length (attempts s)"
    and old: "pc_of s i = TConnecting \<or> (\<exists>r. pc_of s i = TLeaving r)"
    and stream: "\<forall>k. result = Stream k \<longrightarrow> k < opened s
      \<and> (\<forall>j < length (attempts s). j \<noteq> i \<longrightarrow> \<not> holds_stream (pc_of s j) k)"
  shows "task_inv b t0 timeout (leave_attempt i result s)"
proof -
  have "task_inv b t0 timeout (set_pc i pc t)"
    if "pc = TFinished result \<or> pc = TLeaving result" "t = s \<or> t = s\<lparr>active_attempts := a\<rparr>" for pc t a
  proof (rule task_inv_set_pc)
    show "task_inv b t0 timeout t" using inv that by auto
    show "\<forall>k. holds_stream pc k \<longrightarrow> k < opened t \<and> (\<forall>j < length (attempts t). j \<noteq> i \<longrightarrow> \<not> holds_stream (pc_of t j) k)"
      using stream that by (cases result) auto
  qed (use i old that in auto)
  then show ?thesis unfolding leave_attempt_def by auto
qed

text \<open>A stream that was just opened is held by nobody.\<close>

lemma fresh_stream: "task_inv b t0 timeout s \<Longrightarrow> j < length (attempts s) \<Longrightarrow> \<not> holds_stream (pc_of s j) (opened s)"
  by (auto simp: task_inv_def stream_inv_def)

lemma task_inv_sleep:
  assumes inv: "task_inv b t0 timeout s" and i: "i < length (attempts s)" and pc: "pc_of s i = TWaiting"
    and lock: "start_lock s = None" and last: "last_attempt_started_at s = Some l"
    and w: "l + CONNECTION_ATTEMPT_DELAY_SECONDS \<le> w"
  shows "task_inv b t0 timeout (set_pc i (TSleeping w) (s\<lparr>start_lock := Some i\<rparr>))" (is "task_inv b t0 timeout ?s")
proof -
  have "\<not> is_finished (pc_of s i)" using pc by simp
  then have tr: "i \<in> set (tracked s)" using inv i by (auto simp: task_inv_def tracked_inv_def)
  have "lock_inv s" using inv by (simp add: task_inv_def)
  note sleeper = lock_inv_sleeper [OF this]
  have "lock_inv ?s"
  proof (rule lock_invI)
    fix j w' assume "j < length (attempts ?s)" "pc_of ?s j = TSleeping w'"
    then show "start_lock ?s = Some j \<and> (\<exists>l. last_attempt_started_at ?s = Some l
        \<and> l + CONNECTION_ATTEMPT_DELAY_SECONDS \<le> w')"
      using sleeper [of j w'] i last w lock by (auto split: if_splits)
  qed (use i in auto)
  moreover have "tracked_inv ?s" using inv i tr by (auto simp: task_inv_def tracked_inv_def)
  moreover have "address_inv b ?s" "deadline_inv t0 timeout ?s" "stagger_inv ?s"
    using inv by (auto simp: task_inv_def address_inv_def deadline_inv_def stagger_inv_def)
  moreover have "dial_inv b timeout ?s"
    using inv i pc by (auto simp: task_inv_def dial_inv_def list_all_iff intro!: dial_within_set_pc)
  moreover have "stream_inv ?s" using inv i by (auto simp: task_inv_def stream_inv_def)
  ultimately show ?thesis by (simp add: task_inv_def)
qed

lemma task_inv_cancel_sleep:
  assumes inv: "task_inv b t0 timeout s" and i: "i < length (attempts s)" and pc: "pc_of s i = TSleeping w"
  shows "task_inv b t0 timeout (set_pc i (TFinished Cancelled) (s\<lparr>start_lock := None\<rparr>))" (is "task_inv b t0 timeout ?s")
proof -
  have "lock_inv s" using inv by (simp add: task_inv_def)
  note sleeper = lock_inv_sleeper [OF this]
  have "lock_inv ?s"
  proof (rule lock_invI)
    fix j w' assume j: "j < length (attempts ?s)" "pc_of ?s j = TSleeping w'"
    then have "j \<noteq> i" "pc_of s j = TSleeping w'" using i by (auto split: if_splits)
    with sleeper [of j w'] sleeper [OF i pc] j show "start_lock ?s = Some j \<and> (\<exists>l. last_attempt_started_at ?s = Some l
        \<and> l + CONNECTION_ATTEMPT_DELAY_SECONDS \<le> w')" by auto
  qed simp
  moreover have "tracked_inv ?s" using inv i by (auto simp: task_inv_def tracked_inv_def)
  moreover have "address_inv b ?s" "deadline_inv t0 timeout ?s" "stagger_inv ?s"
    using inv by (auto simp: task_inv_def address_inv_def deadline_inv_def stagger_inv_def)
  moreover have "dial_inv b timeout ?s"
    using inv i pc by (auto simp: task_inv_def dial_inv_def list_all_iff intro!: dial_within_set_pc)
  moreover have "stream_inv ?s" using inv i by (auto simp: task_inv_def stream_inv_def)
  ultimately show ?thesis by (simp add: task_inv_def)
qed

subsection \<open>Starting an attempt\<close>

lemma task_inv_validated:
  assumes "task_inv b t0 timeout s" "backend_ok E b" "i < length (attempts s)"
  shows "validate_global_address E (at_address (attempts s ! i)) (nb_policy b) (Some (nb_hostname b))
    = Inr (at_address (attempts s ! i))"
proof -
  have "at_address (attempts s ! i) \<in> set (map at_address (attempts s))" using assms(3) by simp
  then have "at_address (attempts s ! i) \<in> set (nb_addresses b)"
    using assms(1) unfolding task_inv_def address_inv_def by fastforce
  then show ?thesis using assms(2) by (simp add: backend_ok_def list_all_iff validated_address_iff)
qed

lemma dial_fresh:
  "task_inv b t0 timeout s \<Longrightarrow> \<not> has_started (pc_of s i) \<Longrightarrow> i \<notin> set (map ds_task (dialed s))"
  by (auto simp: task_inv_def dial_inv_def list_all_iff dial_within_def)

lemma task_inv_start:
  assumes inv: "task_inv b t0 timeout s" and ok: "backend_ok E b" and i: "i < length (attempts s)"
    and pc: "pc_of s i = TWaiting \<and> start_lock s = None \<or> (\<exists>w. pc_of s i = TSleeping w)"
    and gap: "dialed s \<noteq> [] \<longrightarrow> alone \<or> (\<exists>l. last_attempt_started_at s = Some l
      \<and> l + CONNECTION_ATTEMPT_DELAY_SECONDS \<le> now s)"
  shows "task_inv b t0 timeout (start_attempt E b la so i alone s)"
proof -
  let ?remaining = "map_option (\<lambda>d. max 0 (d - now s)) (deadline s)"
  let ?start = "\<lparr>ds_task = i, ds_dial = \<lparr>dial_address = at_address (attempts s ! i), dial_port = nb_port b,
    dial_timeout = ?remaining, dial_local_address = la, dial_socket_options = so\<rparr>, ds_time = now s, ds_alone = alone\<rparr>"
  let ?s = "set_pc i TConnecting (s\<lparr>last_attempt_started_at := Some (now s),
    active_attempts := active_attempts s + 1, start_lock := None, dialed := dialed s @ [?start]\<rparr>)"
  have eq: "start_attempt E b la so i alone s = ?s"
    using task_inv_validated [OF inv ok i] by (simp add: start_attempt_def Let_def)
  have started: "\<not> has_started (pc_of s i)" "\<not> is_finished (pc_of s i)" using pc by auto
  then have tr: "i \<in> set (tracked s)" using inv i by (auto simp: task_inv_def tracked_inv_def)
  have "lock_inv s" using inv by (simp add: task_inv_def)
  note sleeper = lock_inv_sleeper [OF this]
  have "lock_inv ?s"
  proof (rule lock_invI)
    fix j w assume j: "j < length (attempts ?s)" "pc_of ?s j = TSleeping w"
    then have "j \<noteq> i" "pc_of s j = TSleeping w" using i by (auto split: if_splits)
    with sleeper [of j w] sleeper [of i] pc i j show "start_lock ?s = Some j \<and> (\<exists>l. last_attempt_started_at ?s = Some l
        \<and> l + CONNECTION_ATTEMPT_DELAY_SECONDS \<le> w)" by auto
  qed simp
  moreover have "tracked_inv ?s" using inv i tr by (auto simp: task_inv_def tracked_inv_def)
  moreover have "address_inv b ?s" "deadline_inv t0 timeout ?s"
    using inv by (auto simp: task_inv_def address_inv_def deadline_inv_def)
  moreover have "dial_inv b timeout ?s"
  proof -
    have "list_all (dial_within b timeout ?s) (dialed s)"
      using inv i started by (auto simp: task_inv_def dial_inv_def list_all_iff intro!: dial_within_set_pc)
    moreover have "dial_within b timeout ?s ?start"
      using inv i by (cases timeout) (auto simp: dial_within_def task_inv_def deadline_inv_def)
    ultimately show ?thesis using inv dial_fresh [OF inv started(1)]
      by (simp add: task_inv_def dial_inv_def)
  qed
  moreover have "stagger_inv ?s"
    using inv gap by (auto simp: task_inv_def stagger_inv_def staggered_snoc)
  moreover have "stream_inv ?s" using inv i by (auto simp: task_inv_def stream_inv_def)
  ultimately show ?thesis unfolding eq by (simp add: task_inv_def)
qed

lemma task_inv_acquire:
  assumes inv: "task_inv b t0 timeout s" and ok: "backend_ok E b" and i: "i < length (attempts s)"
    and pc: "pc_of s i = TWaiting" and lock: "start_lock s = None"
  shows "task_inv b t0 timeout (acquire_start_lock E b la so i s)"
proof (cases "if active_attempts s \<noteq> 0 then last_attempt_started_at s else None")
  case None
  have "stagger_inv s" using inv by (simp add: task_inv_def)
  then have "dialed s \<noteq> [] \<longrightarrow> active_attempts s = 0" using None by (auto simp: stagger_inv_def split: if_splits)
  with None show ?thesis by (auto simp: acquire_start_lock_def pc lock intro!: task_inv_start [OF inv ok i])
next
  case (Some l)
  then have l: "last_attempt_started_at s = Some l" by (simp split: if_splits)
  show ?thesis
  proof (cases "l + CONNECTION_ATTEMPT_DELAY_SECONDS - now s > 0")
    case True
    with Some show ?thesis by (simp add: acquire_start_lock_def task_inv_sleep [OF inv i pc lock l])
  next
    case False
    with Some l show ?thesis by (auto simp: acquire_start_lock_def pc lock intro!: task_inv_start [OF inv ok i])
  qed
qed

lemma task_inv_wake:
  assumes inv: "task_inv b t0 timeout s" and ok: "backend_ok E b" and i: "i < length (attempts s)"
    and pc: "pc_of s i = TSleeping w" and w: "w \<le> now s"
  shows "task_inv b t0 timeout (start_attempt E b la so i False s)"
proof -
  have "lock_inv s" using inv by (simp add: task_inv_def)
  from lock_inv_sleeper [OF this i pc] w show ?thesis using pc by (intro task_inv_start [OF inv ok i]) auto
qed

lemma attempt_step_task_inv:
  assumes "attempt_step E b la so i s s'" "task_inv b t0 timeout s" "backend_ok E b"
  shows "task_inv b t0 timeout s'"
  using assms(1)
proof cases
  case lock
  then show ?thesis using task_inv_acquire [OF assms(2,3)] by simp
next
  case (wake w)
  then show ?thesis using task_inv_wake [OF assms(2,3)] by simp
next
  case connected
  have "task_inv b t0 timeout (s\<lparr>opened := opened s + 1\<rparr>)" using assms(2) by (rule task_inv_opened)
  then show ?thesis using connected fresh_stream [OF assms(2)] by (auto intro!: task_inv_leave)
next
  case (failed e)
  then show ?thesis using assms(2) by (auto intro!: task_inv_leave split: if_splits)
next
  case (left result)
  have "stream_inv s" using assms(2) by (simp add: task_inv_def)
  then have "\<forall>k. result = Stream k \<longrightarrow> k < opened s
      \<and> (\<forall>j < length (attempts s). j \<noteq> i \<longrightarrow> \<not> holds_stream (pc_of s j) k)"
    using left(2,3) unfolding stream_inv_def by (metis holds_stream.simps(1))
  with left show ?thesis using assms(2) by (auto intro!: task_inv_leave)
next
  case cancelled_waiting
  then show ?thesis using assms(2) by (auto intro!: task_inv_set_pc)
next
  case (cancelled_sleeping w)
  have "task_inv b t0 timeout (take_cancel i s)" using assms(2) by simp
  from task_inv_cancel_sleep [OF this, of i w] cancelled_sleeping show ?thesis
    by (simp add: take_cancel_lock)
next
  case cancelled_connecting
  then show ?thesis using assms(2) by (auto intro!: task_inv_leave)
next
  case (cancelled_leaving result)
  then show ?thesis using assms(2) by (auto intro!: task_inv_set_pc)
qed

subsection \<open>The coordinator keeps it\<close>

lemma cancel_tasks_pc [simp]: "j < length (attempts s) \<Longrightarrow> pc_of (cancel_and_wait_tasks r s) j = pc_of s j"
  and cancel_tasks_address [simp]:
    "j < length (attempts s) \<Longrightarrow> at_address (attempts (cancel_and_wait_tasks r s) ! j) = at_address (attempts s ! j)"
  by (simp_all add: cancel_and_wait_tasks_def pc_of_def Let_def)

lemma cancel_tasks_addresses [simp]:
  "map at_address (attempts (cancel_and_wait_tasks r s)) = map at_address (attempts s)"
  by (simp only: list_eq_iff_nth_eq length_map)
    (simp add: cancel_and_wait_tasks_def Let_def)

lemma cancel_tasks_frame [simp]:
  "length (attempts (cancel_and_wait_tasks r s)) = length (attempts s)"
  "now (cancel_and_wait_tasks r s) = now s" "deadline (cancel_and_wait_tasks r s) = deadline s"
  "untried (cancel_and_wait_tasks r s) = untried s" "more_addresses (cancel_and_wait_tasks r s) = more_addresses s"
  "start_lock (cancel_and_wait_tasks r s) = start_lock s"
  "last_attempt_started_at (cancel_and_wait_tasks r s) = last_attempt_started_at s"
  "tracked (cancel_and_wait_tasks r s) = tracked s" "opened (cancel_and_wait_tasks r s) = opened s"
  "dialed (cancel_and_wait_tasks r s) = dialed s" "closed (cancel_and_wait_tasks r s) = closed s"
  "coordinator (cancel_and_wait_tasks r s) = (if tracked s = [] then CReturned r else CCancelling r)"
  by (simp_all add: cancel_and_wait_tasks_def)

lemma task_inv_cancel:
  assumes inv: "task_inv b t0 timeout s"
  shows "task_inv b t0 timeout (cancel_and_wait_tasks r s)" (is "task_inv b t0 timeout ?s")
proof -
  have "lock_inv s" using inv by (simp add: task_inv_def)
  note lock = lock_inv_holder [OF this] lock_inv_sleeper [OF this]
  have "lock_inv ?s"
  proof (rule lock_invI)
    fix j assume "start_lock ?s = Some j"
    then show "j < length (attempts ?s) \<and> (\<exists>w. pc_of ?s j = TSleeping w)" using lock(1) [of j] by auto
  qed (use lock(2) in simp)
  moreover have "tracked_inv ?s" using inv by (auto simp: task_inv_def tracked_inv_def)
  moreover have "address_inv b ?s" using inv by (simp add: task_inv_def address_inv_def)
  moreover have "deadline_inv t0 timeout ?s" using inv by (simp add: task_inv_def deadline_inv_def)
  moreover have "dial_inv b timeout ?s"
    using inv by (auto simp: task_inv_def dial_inv_def list_all_iff dial_within_def)
  moreover have "stagger_inv ?s" using inv by (simp add: task_inv_def stagger_inv_def)
  moreover have "stream_inv ?s" using inv by (auto simp: task_inv_def stream_inv_def)
  ultimately show ?thesis by (simp add: task_inv_def)
qed

lemma task_inv_new_task:
  assumes inv: "task_inv b t0 timeout s" and more: "more_addresses s" and us: "untried s = address # rest"
  shows "task_inv b t0 timeout (s\<lparr>untried := rest, tracked := tracked s @ [length (attempts s)],
    attempts := attempts s @ [\<lparr>at_address = address, at_pc = TWaiting, at_cancel = False\<rparr>], next_attempt_at := na\<rparr>)"
    (is "task_inv b t0 timeout ?s")
proof -
  have old: "\<And>j. j < length (attempts s) \<Longrightarrow> pc_of ?s j = pc_of s j"
    and new: "pc_of ?s (length (attempts s)) = TWaiting" by (simp_all add: pc_of_def nth_append)
  have len: "\<And>j. j < length (attempts ?s) \<longleftrightarrow> j < length (attempts s) \<or> j = length (attempts s)" by auto
  have "lock_inv s" using inv by (simp add: task_inv_def)
  note lock = lock_inv_holder [OF this] lock_inv_sleeper [OF this]
  have "lock_inv ?s"
  proof (rule lock_invI)
    fix j assume "start_lock ?s = Some j"
    then show "j < length (attempts ?s) \<and> (\<exists>w. pc_of ?s j = TSleeping w)" using lock(1) [of j] old [of j] by auto
  next
    fix j w assume "j < length (attempts ?s)" "pc_of ?s j = TSleeping w"
    then have "j < length (attempts s)" "pc_of s j = TSleeping w" using old new by (cases "j = length (attempts s)"; auto simp: less_Suc_eq)+
    then show "start_lock ?s = Some j \<and> (\<exists>l. last_attempt_started_at ?s = Some l
        \<and> l + CONNECTION_ATTEMPT_DELAY_SECONDS \<le> w)" using lock(2) by simp
  qed
  moreover have "tracked_inv ?s" using inv old by (auto simp: task_inv_def tracked_inv_def less_Suc_eq)
  moreover have "address_inv b ?s" using inv more us by (auto simp: task_inv_def address_inv_def)
  moreover have "deadline_inv t0 timeout ?s" using inv by (simp add: task_inv_def deadline_inv_def)
  moreover have "dial_inv b timeout ?s"
    using inv old by (auto simp: task_inv_def dial_inv_def list_all_iff dial_within_def nth_append)
  moreover have "stagger_inv ?s" using inv by (simp add: task_inv_def stagger_inv_def)
  moreover have "stream_inv ?s"
  proof -
    have "j < length (attempts s) \<and> holds_stream (pc_of s j) k"
      if "j < length (attempts ?s)" "holds_stream (pc_of ?s j) k" for j k
      using that old new by (cases "j = length (attempts s)") (auto simp: less_Suc_eq)
    moreover have "opened ?s = opened s" by simp
    moreover have "stream_inv s" using inv by (simp add: task_inv_def)
    ultimately show ?thesis unfolding stream_inv_def by metis
  qed
  ultimately show ?thesis by (simp add: task_inv_def)
qed

lemma task_inv_drop_address:
  assumes "task_inv b t0 timeout s"
  shows "task_inv b t0 timeout (s\<lparr>untried := rest, more_addresses := False\<rparr>)"
proof -
  have "address_inv b (s\<lparr>untried := rest, more_addresses := False\<rparr>)"
    using assms by (auto simp: task_inv_def address_inv_def)
  with assms show ?thesis by (simp add: task_inv_def)
qed

lemma task_inv_start_next:
  assumes "task_inv b t0 timeout s" "more_addresses s"
  shows "task_inv b t0 timeout (start_next_attempt s)"
  using task_inv_no_more [OF assms(1)] task_inv_drop_address [OF assms(1)] task_inv_new_task [OF assms]
  unfolding start_next_attempt_def by (auto split: list.splits)

lemma task_inv_loop_head: "task_inv b t0 timeout s \<Longrightarrow> task_inv b t0 timeout (loop_head s)"
  unfolding loop_head_def Let_def using task_inv_cancel by auto

lemma task_inv_after_failures: "task_inv b t0 timeout s \<Longrightarrow> task_inv b t0 timeout (after_failures s)"
  unfolding after_failures_def using task_inv_start_next task_inv_no_more
  by (auto intro!: task_inv_loop_head)

lemma task_inv_scan: "task_inv b t0 timeout s \<Longrightarrow> task_inv b t0 timeout (scan_done s done w)"
proof (induction s "done" w rule: scan_done.induct)
  case (1 s w)
  then show ?case by (auto intro: task_inv_cancel task_inv_after_failures split: option.splits)
next
  case (2 s i "done" w)
  then show ?case
    by (cases "pc_of s i") (auto intro: task_inv_cancel split: outcome.splits option.splits)
qed

lemma task_inv_close_late: "task_inv b t0 timeout s \<Longrightarrow> task_inv b t0 timeout (close_late streams s)"
  unfolding close_late_def using task_inv_cancel by (auto split: list.splits)

lemma task_inv_after_wait:
  assumes inv: "task_inv b t0 timeout s" and fin: "finished_tasks s done"
  shows "task_inv b t0 timeout (after_wait done s)"
proof -
  let ?s = "s\<lparr>tracked := filter (\<lambda>i. i \<notin> set done) (tracked s)\<rparr>"
  have "task_inv b t0 timeout ?s"
    using fin by (intro task_inv_untrack [OF inv]) (auto simp: finished_tasks_def)
  note ok = this task_inv_start_next [OF this] task_inv_no_more [OF this]
  show ?thesis unfolding after_wait_def Let_def
    using ok by (auto intro!: task_inv_loop_head task_inv_scan)
qed

lemma coordinator_step_task_inv:
  assumes "coordinator_step s s'" "task_inv b t0 timeout s"
  shows "task_inv b t0 timeout s'"
  using assms
  by cases (auto intro: task_inv_after_wait task_inv_close_late task_inv_cancel task_inv_scan)

lemma connect_move_task_inv:
  assumes "connect_move E b la so s s'" "task_inv b t0 timeout s" "backend_ok E b"
  shows "task_inv b t0 timeout s'"
  using assms by cases (auto intro: attempt_step_task_inv coordinator_step_task_inv)

subsection \<open>From the start\<close>

lemma task_inv_initial: "task_inv b t0 timeout (connect_initial b t0 timeout)"
  unfolding connect_initial_def
  by (intro task_inv_loop_head task_inv_start_next)
    (simp_all add: task_inv_def lock_inv_def tracked_inv_def address_inv_def deadline_inv_def dial_inv_def
      stagger_inv_def stream_inv_def)

lemma connect_run_task_inv:
  assumes "connect_run E b la so (connect_initial b t0 timeout) k s" "backend_ok E b"
  shows "task_inv b t0 timeout s"
  using assms by (induction rule: connect_run.induct) (auto intro: task_inv_initial connect_move_task_inv task_inv_tick)

section \<open>Properties\<close>


end
