(* ===== verification/Connect_Ends.thy ===== *)
theory Connect_Ends
  imports Connect_Rules
begin

text \<open>
  How the asynchronous connect of \<open>src/egressweave/transport.py\<close> ends: what it returns, that
  it leaves no attempt running, that it cannot go on for ever and, with a time budget, does
  not depend on the backend or on its caller to end; and the streams it loses.
\<close>

section \<open>What an attempt leaves alone\<close>

lemma leave_attempt_frame [simp]:
  "coordinator (leave_attempt i r s) = coordinator s" "tracked (leave_attempt i r s) = tracked s"
  "closed (leave_attempt i r s) = closed s" "opened (leave_attempt i r s) = opened s"
  "untried (leave_attempt i r s) = untried s" "more_addresses (leave_attempt i r s) = more_addresses s"
  "deadline (leave_attempt i r s) = deadline s" "now (leave_attempt i r s) = now s"
  "start_lock (leave_attempt i r s) = start_lock s"
  "length (attempts (leave_attempt i r s)) = length (attempts s)"
  by (simp_all add: leave_attempt_def)

lemma start_attempt_frame [simp]:
  "coordinator (start_attempt E b la so i alone s) = coordinator s"
  "tracked (start_attempt E b la so i alone s) = tracked s"
  "closed (start_attempt E b la so i alone s) = closed s" "opened (start_attempt E b la so i alone s) = opened s"
  "untried (start_attempt E b la so i alone s) = untried s"
  "more_addresses (start_attempt E b la so i alone s) = more_addresses s"
  "deadline (start_attempt E b la so i alone s) = deadline s" "now (start_attempt E b la so i alone s) = now s"
  "length (attempts (start_attempt E b la so i alone s)) = length (attempts s)"
  by (simp_all add: start_attempt_def Let_def split: sum.splits)

lemma acquire_frame [simp]:
  "coordinator (acquire_start_lock E b la so i s) = coordinator s"
  "tracked (acquire_start_lock E b la so i s) = tracked s"
  "closed (acquire_start_lock E b la so i s) = closed s" "opened (acquire_start_lock E b la so i s) = opened s"
  "untried (acquire_start_lock E b la so i s) = untried s"
  "more_addresses (acquire_start_lock E b la so i s) = more_addresses s"
  "deadline (acquire_start_lock E b la so i s) = deadline s" "now (acquire_start_lock E b la so i s) = now s"
  "length (attempts (acquire_start_lock E b la so i s)) = length (attempts s)"
  by (simp_all add: acquire_start_lock_def Let_def split: option.splits)

definition coordinator_view :: "connect_state \<Rightarrow> coordinator_pc \<times> nat list \<times> nat list \<times> ustr list \<times> bool \<times> rat option \<times> rat \<times> nat" where
  "coordinator_view s = (coordinator s, tracked s, closed s, untried s, more_addresses s, deadline s, now s,
     length (attempts s))"

lemma attempt_step_view:
  assumes "attempt_step E b la so i s s'"
  shows "coordinator_view s' = coordinator_view s \<and> opened s \<le> opened s'"
  using assms by cases (simp_all add: coordinator_view_def)

section \<open>The rank of a task\<close>

fun task_rank :: "task_pc \<Rightarrow> nat" where
  "task_rank TWaiting = 4"
| "task_rank (TSleeping _) = 3"
| "task_rank TConnecting = 2"
| "task_rank (TLeaving _) = 1"
| "task_rank (TFinished _) = 0"

lemma pc_of_leave:
  "i < length (attempts s) \<Longrightarrow> pc_of (leave_attempt i r s) j
    = (if j = i then (if start_lock s = None then TFinished r else TLeaving r) else pc_of s j)"
  by (simp add: leave_attempt_def)

lemma pc_of_start:
  "i < length (attempts s) \<Longrightarrow> j \<noteq> i \<Longrightarrow> pc_of (start_attempt E b la so i alone s) j = pc_of s j"
  "i < length (attempts s) \<Longrightarrow> task_rank (pc_of (start_attempt E b la so i alone s) i) \<le> 2"
  by (auto simp: start_attempt_def Let_def pc_of_leave split: sum.splits)

lemma pc_of_acquire:
  "i < length (attempts s) \<Longrightarrow> j \<noteq> i \<Longrightarrow> pc_of (acquire_start_lock E b la so i s) j = pc_of s j"
  "i < length (attempts s) \<Longrightarrow> task_rank (pc_of (acquire_start_lock E b la so i s) i) \<le> 3"
  using pc_of_start(1) [of i s j E b la so] pc_of_start(2) [of i s E b la so]
  by (auto simp: acquire_start_lock_def Let_def split: option.splits intro: le_trans [of _ 2])

lemma attempt_step_ranks:
  assumes "attempt_step E b la so i s s'"
  shows "i < length (attempts s) \<and> task_rank (pc_of s' i) < task_rank (pc_of s i)
    \<and> (\<forall>j. j \<noteq> i \<longrightarrow> pc_of s' j = pc_of s j)"
  using assms
proof cases
  case lock
  then show ?thesis using pc_of_acquire [of i s] by (auto simp: less_Suc_eq_le numeral_eq_Suc)
next
  case (wake w)
  then show ?thesis using pc_of_start [of i s] by (auto simp: less_Suc_eq_le numeral_eq_Suc)
qed (auto simp: pc_of_leave)

lemma attempt_step_finished:
  "attempt_step E b la so i s s' \<Longrightarrow> is_finished (pc_of s j) \<Longrightarrow> pc_of s' j = pc_of s j"
  using attempt_step_ranks [of E b la so i s s'] by (cases "pc_of s j"; cases "j = i") auto

definition tasks_rank :: "connect_state \<Rightarrow> nat" where
  "tasks_rank s = (\<Sum>j<length (attempts s). task_rank (pc_of s j))"

lemma attempt_step_rank: "attempt_step E b la so i s s' \<Longrightarrow> tasks_rank s' < tasks_rank s"
proof -
  assume a: "attempt_step E b la so i s s'"
  have len: "length (attempts s') = length (attempts s)"
    using attempt_step_view [OF a] by (simp add: coordinator_view_def)
  show ?thesis
    unfolding tasks_rank_def len
  proof (rule sum_strict_mono_ex1)
    show "\<forall>j \<in> {..<length (attempts s)}. task_rank (pc_of s' j) \<le> task_rank (pc_of s j)"
      using attempt_step_ranks [OF a] by (metis le_refl less_imp_le)
    show "\<exists>j \<in> {..<length (attempts s)}. task_rank (pc_of s' j) < task_rank (pc_of s j)"
      using attempt_step_ranks [OF a] by auto
  qed simp
qed

section \<open>The invariant of the coordinator\<close>

definition connect_result_ok :: "connect_state \<Rightarrow> nat res \<Rightarrow> bool" where
  "connect_result_ok s r = (case r of
       Inr k \<Rightarrow> k < opened s \<and> k \<notin> set (closed s)
     | Inl e \<Rightarrow> e = OSError EGRESS_NOT_ALLOWED \<or> \<not> is_Exception e)"

definition wait_ok :: "connect_state \<Rightarrow> rat option \<Rightarrow> bool" where
  "wait_ok s until = (case deadline s of
       None \<Rightarrow> until \<noteq> None \<longrightarrow> more_addresses s
     | Some d \<Rightarrow> \<exists>w. until = Some w \<and> w \<le> d \<and> (\<not> more_addresses s \<longrightarrow> w = d))"

definition being_cancelled :: "connect_state \<Rightarrow> nat \<Rightarrow> bool" where
  "being_cancelled s j \<longleftrightarrow> is_finished (pc_of s j) \<or> at_cancel (attempts s ! j) \<or> (\<exists>r. pc_of s j = TLeaving r)"

fun coordinator_inv :: "connect_state \<Rightarrow> coordinator_pc \<Rightarrow> bool" where
  "coordinator_inv s (CWait until) = (closed s = [] \<and> tracked s \<noteq> [] \<and> wait_ok s until)"
| "coordinator_inv s (CGather done) = (closed s = [] \<and> distinct done
     \<and> (\<forall>i \<in> set done. i < length (attempts s) \<and> is_finished (pc_of s i)))"
| "coordinator_inv s (CCloseLate stream rest) = (distinct (closed s @ stream # rest)
     \<and> (\<forall>k \<in> set (stream # rest). k < opened s))"
| "coordinator_inv s (CCloseLoser stream done winner) =
     (distinct (closed s @ winner # stream # completed_streams s done)
     \<and> (\<forall>k \<in> set (winner # stream # completed_streams s done). k < opened s)
     \<and> (\<forall>i \<in> set done. i < length (attempts s) \<and> is_finished (pc_of s i)))"
| "coordinator_inv s (CCancelling r) = (tracked s \<noteq> [] \<and> connect_result_ok s r
     \<and> (\<forall>j < length (attempts s). being_cancelled s j))"
| "coordinator_inv s (CReturned r) = (connect_result_ok s r \<and> (\<forall>j < length (attempts s). is_finished (pc_of s j)))"

definition closed_inv :: "connect_state \<Rightarrow> bool" where
  "closed_inv s \<longleftrightarrow> distinct (closed s) \<and> (\<forall>k \<in> set (closed s). k < opened s)"

definition connect_inv :: "connect_state \<Rightarrow> bool" where
  "connect_inv s \<longleftrightarrow> closed_inv s \<and> coordinator_inv s (coordinator s)"

lemma completed_streams_simps [simp]:
  "completed_streams s [] = []"
  "completed_streams s (i # done) =
     (case pc_of s i of TFinished (Stream k) \<Rightarrow> k # completed_streams s done | _ \<Rightarrow> completed_streams s done)"
  by (simp_all add: completed_streams_def List.map_filter_def split: task_pc.splits outcome.splits)

lemma completed_streams_in: "k \<in> set (completed_streams s done) \<longleftrightarrow> (\<exists>i \<in> set done. pc_of s i = TFinished (Stream k))"
  by (induction "done") (auto split: task_pc.splits outcome.splits)

lemma completed_streams_cong:
  "(\<And>i. i \<in> set done \<Longrightarrow> pc_of s' i = pc_of s i) \<Longrightarrow> completed_streams s' done = completed_streams s done"
  by (induction "done") (auto split: task_pc.splits outcome.splits)

lemma completed_streams_frame [simp]:
  "completed_streams (s\<lparr>closed := cl\<rparr>) done = completed_streams s done"
  "completed_streams (s\<lparr>coordinator := c\<rparr>) done = completed_streams s done"
  "completed_streams (s\<lparr>tracked := tr\<rparr>) done = completed_streams s done"
  "completed_streams (s\<lparr>now := t\<rparr>) done = completed_streams s done"
  by (simp_all add: completed_streams_def)

lemma completed_streams_ok:
  assumes "stream_inv s" "distinct done" "\<forall>i \<in> set done. i < length (attempts s)"
  shows "distinct (completed_streams s done) \<and> (\<forall>k \<in> set (completed_streams s done). k < opened s)"
  using assms
proof (induction "done")
  case (Cons i "done")
  show ?case
  proof (cases "\<exists>k. pc_of s i = TFinished (Stream k)")
    case True
    then obtain k where k: "pc_of s i = TFinished (Stream k)" by blast
    have "k \<notin> set (completed_streams s done)"
    proof
      assume "k \<in> set (completed_streams s done)"
      then obtain j where "j \<in> set done" "pc_of s j = TFinished (Stream k)" by (auto simp: completed_streams_in)
      with Cons.prems k have "j = i" unfolding stream_inv_def
        by (metis holds_stream.simps(2) list.set_intros(1,2))
      with \<open>j \<in> set done\<close> Cons.prems(2) show False by simp
    qed
    moreover have "k < opened s" using Cons.prems k unfolding stream_inv_def
      by (metis holds_stream.simps(2) list.set_intros(1))
    ultimately show ?thesis using Cons k by simp
  next
    case False
    then have "completed_streams s (i # done) = completed_streams s done"
      by (auto split: task_pc.splits outcome.splits)
    with Cons show ?thesis by simp
  qed
qed simp

subsection \<open>An attempt keeps it\<close>

lemma attempt_step_cancel:
  assumes "attempt_step E b la so i s s'" "being_cancelled s j"
  shows "being_cancelled s' j"
proof (cases "j = i")
  case False
  have "attempts s' ! j = attempts s ! j" using assms(1) False
    by cases (auto simp: leave_attempt_def start_attempt_def acquire_start_lock_def set_pc_def take_cancel_def
        Let_def split: sum.splits option.splits)
  then show ?thesis using assms(2) by (simp add: being_cancelled_def pc_of_def)
next
  case True
  from assms(1) show ?thesis
    using assms(2) unfolding True by cases (auto simp: being_cancelled_def pc_of_leave)
qed

lemma attempt_step_inv:
  assumes step: "attempt_step E b la so i s s'" and inv: "connect_inv s"
  shows "connect_inv s'"
proof -
  have view: "coordinator s' = coordinator s" "tracked s' = tracked s" "closed s' = closed s"
    "more_addresses s' = more_addresses s" "deadline s' = deadline s"
    "length (attempts s') = length (attempts s)" and grow: "opened s \<le> opened s'"
    using attempt_step_view [OF step] by (simp_all add: coordinator_view_def)
  note fin = attempt_step_finished [OF step]
  have res: "connect_result_ok s r \<Longrightarrow> connect_result_ok s' r" for r
    using grow by (auto simp: connect_result_ok_def view split: sum.splits)
  have "closed_inv s'" using inv grow by (auto simp: connect_inv_def closed_inv_def view)
  moreover have "coordinator_inv s' (coordinator s')"
  proof (cases "coordinator s")
    case (CWait x1)
    moreover have "wait_ok s' x1 = wait_ok s x1" by (simp only: wait_ok_def view)
    ultimately show ?thesis using inv by (simp add: connect_inv_def view)
  next
    case (CGather x2)
    then show ?thesis using inv fin by (auto simp: connect_inv_def view)
  next
    case (CCloseLate st rest)
    then show ?thesis using inv grow by (auto simp: connect_inv_def view)
  next
    case (CCloseLoser st dn w)
    have "completed_streams s' dn = completed_streams s dn"
      using inv fin CCloseLoser by (intro completed_streams_cong) (auto simp: connect_inv_def)
    then show ?thesis using inv grow fin CCloseLoser by (auto simp: connect_inv_def view)
  next
    case (CCancelling x5)
    then show ?thesis using inv res attempt_step_cancel [OF step] by (simp add: connect_inv_def view)
  next
    case (CReturned x6)
    then show ?thesis using inv res fin by (auto simp: connect_inv_def view)
  qed
  ultimately show ?thesis by (simp add: connect_inv_def)
qed

subsection \<open>The coordinator keeps it\<close>

lemma cancel_marks:
  "i \<in> set (tracked s) \<Longrightarrow> i < length (attempts s) \<Longrightarrow> \<not> is_finished (pc_of s i) \<Longrightarrow>
    at_cancel (attempts (cancel_and_wait_tasks r s) ! i)"
  by (simp add: cancel_and_wait_tasks_def pc_of_def Let_def)

lemma connect_inv_cancel:
  assumes tr: "tracked_inv s" and ok: "closed_inv s" "connect_result_ok s r"
  shows "connect_inv (cancel_and_wait_tasks r s)"
proof -
  let ?s = "cancel_and_wait_tasks r s"
  have ok': "closed_inv ?s" "connect_result_ok ?s r" using ok by (simp_all add: closed_inv_def connect_result_ok_def split: sum.splits)
  have "being_cancelled ?s j" if "j < length (attempts s)" for j
    using that tr cancel_marks [of j s r] by (auto simp: being_cancelled_def tracked_inv_def)
  with ok' tr show ?thesis by (auto simp: connect_inv_def tracked_inv_def)
qed

lemma cancelled_not_Exception [simp]: "\<not> is_Exception CancelledError"
  by (simp add: CancelledError_def)

lemma process_control_not_Exception: "is_process_control e \<Longrightarrow> \<not> is_Exception e"
  by (cases e) auto

lemma generic_result [simp]:
  "connect_result_ok s (Inl (OSError EGRESS_NOT_ALLOWED))" "connect_result_ok s (Inl CancelledError)"
  by (simp_all add: connect_result_ok_def)

lemma connect_inv_loop_head:
  assumes tr: "tracked_inv s" and none: "closed s = []"
  shows "connect_inv (loop_head s)"
proof -
  have ok: "closed_inv s" using none by (simp add: closed_inv_def)
  show ?thesis
  proof (cases "tracked s = [] \<or> (\<exists>d. deadline s = Some d \<and> max 0 (d - now s) = 0)")
    case True
    then have "loop_head s = cancel_and_wait_tasks (Inl (OSError EGRESS_NOT_ALLOWED)) s"
      by (auto simp: loop_head_def)
    then show ?thesis using connect_inv_cancel [OF tr ok] by simp
  next
    case False
    then have "now s < d" if "deadline s = Some d" for d using that by (auto simp: max_def split: if_splits)
    then show ?thesis using False none
      by (cases "deadline s") (auto simp: loop_head_def Let_def connect_inv_def closed_inv_def wait_ok_def max_def min_def)
  qed
qed

lemma start_next_frame [simp]:
  "closed (start_next_attempt s) = closed s" "opened (start_next_attempt s) = opened s"
  "deadline (start_next_attempt s) = deadline s" "now (start_next_attempt s) = now s"
  by (auto simp: start_next_attempt_def split: list.splits)

lemma tracked_inv_start_next:
  "task_inv b t0 timeout s \<Longrightarrow> more_addresses s \<Longrightarrow> tracked_inv (start_next_attempt s)"
  by (drule (1) task_inv_start_next) (simp add: task_inv_def)

lemma connect_inv_after_failures:
  assumes "task_inv b t0 timeout s" "closed s = []"
  shows "connect_inv (after_failures s)"
  using assms tracked_inv_start_next [OF assms(1)] unfolding after_failures_def
  by (intro connect_inv_loop_head) (auto simp: task_inv_def)

text \<open>The scan keeps the winner, the stream to close and the streams to come apart.\<close>

lemma connect_inv_scan:
  assumes "task_inv b t0 timeout s" "closed_inv s"
    and "\<forall>i \<in> set done. i < length (attempts s) \<and> is_finished (pc_of s i)"
    and "distinct (closed s @ completed_streams s done)" "\<forall>k \<in> set (completed_streams s done). k < opened s"
    and "case w of None \<Rightarrow> closed s = []
      | Some k \<Rightarrow> k < opened s \<and> k \<notin> set (closed s) \<and> k \<notin> set (completed_streams s done)"
  shows "connect_inv (scan_done s done w)"
  using assms
proof (induction s "done" w rule: scan_done.induct)
  case (1 s w)
  have tr: "tracked_inv s" using "1.prems"(1) by (simp add: task_inv_def)
  show ?case
  proof (cases w)
    case None
    with "1.prems" show ?thesis by (simp add: connect_inv_after_failures)
  next
    case (Some k)
    with "1.prems" show ?thesis by (simp add: connect_inv_cancel [OF tr] connect_result_ok_def)
  qed
next
  case (2 s i "done" w)
  have tr: "tracked_inv s" using "2.prems"(1) by (simp add: task_inv_def)
  obtain r where r: "pc_of s i = TFinished r" using "2.prems"(3) by (cases "pc_of s i") auto
  show ?case
  proof (cases r)
    case (Stream k)
    show ?thesis
    proof (cases w)
      case None
      then show ?thesis using "2.IH"(5) [OF r Stream None] "2.prems" by (simp add: r Stream)
    next
      case (Some k')
      then show ?thesis using "2.prems" by (auto simp: r Stream connect_inv_def closed_inv_def)
    qed
  next
    case (Failed e)
    show ?thesis
    proof (cases "is_Exception e")
      case True
      then show ?thesis using "2.IH"(6) [OF r Failed] "2.prems" by (simp add: r Failed split: option.splits)
    next
      case False
      then show ?thesis using "2.prems" by (simp add: r Failed connect_inv_cancel [OF tr] connect_result_ok_def)
    qed
  next
    case Cancelled
    then show ?thesis using "2.IH"(7) [OF r Cancelled] "2.prems" by (simp add: r split: option.splits)
  qed
qed

lemma connect_inv_close_late:
  assumes "tracked_inv s" "closed_inv s" "distinct (closed s @ streams)" "\<forall>k \<in> set streams. k < opened s"
  shows "connect_inv (close_late streams s)"
  using assms connect_inv_cancel [OF assms(1,2)]
  by (cases streams) (auto simp: close_late_def connect_inv_def closed_inv_def)

lemma connect_inv_after_wait:
  assumes inv: "task_inv b t0 timeout s" and none: "closed s = []" and fin: "finished_tasks s done"
  shows "connect_inv (after_wait done s)"
proof -
  let ?s = "s\<lparr>tracked := filter (\<lambda>i. i \<notin> set done) (tracked s)\<rparr>"
  have fin': "distinct done" "\<forall>i \<in> set done. i < length (attempts s) \<and> is_finished (pc_of s i)"
    using fin inv by (auto simp: finished_tasks_def task_inv_def tracked_inv_def)
  have inv': "task_inv b t0 timeout ?s" using fin' by (intro task_inv_untrack [OF inv]) auto
  then have tr: "tracked_inv ?s" by (simp add: task_inv_def)
  have "stream_inv s" using inv by (simp add: task_inv_def)
  then have streams: "distinct (completed_streams s done) \<and> (\<forall>k \<in> set (completed_streams s done). k < opened s)"
    using fin' by (intro completed_streams_ok) auto
  consider "past_deadline ?s" | "\<not> past_deadline ?s" "done = []" | "\<not> past_deadline ?s" "done \<noteq> []" by blast
  then show ?thesis
  proof cases
    case 1
    then show ?thesis using fin' none by (simp add: after_wait_def Let_def connect_inv_def closed_inv_def)
  next
    case 2
    then have "after_wait done s = loop_head (if more_addresses ?s then start_next_attempt ?s else ?s)"
      by (simp add: after_wait_def Let_def)
    moreover have "tracked_inv (if more_addresses ?s then start_next_attempt ?s else ?s)"
      using tr tracked_inv_start_next [OF inv'] by simp
    ultimately show ?thesis using none by (simp add: connect_inv_loop_head)
  next
    case 3
    then have "after_wait done s = scan_done ?s done None" by (simp add: after_wait_def Let_def)
    moreover have "connect_inv (scan_done ?s done None)"
      using fin' none streams by (intro connect_inv_scan [OF inv']) (simp_all add: closed_inv_def)
    ultimately show ?thesis by simp
  qed
qed

lemma close_exception: "close_connection_stream_best_effort c = Some e \<Longrightarrow> \<not> is_Exception e"
  by (auto simp: close_connection_stream_best_effort_def process_control_not_Exception split: option.splits if_splits)

lemma coordinator_step_inv:
  assumes step: "coordinator_step s s'" and inv: "connect_inv s" and tasks: "task_inv b t0 timeout s"
  shows "connect_inv s'"
  using step
proof cases
  case (woken until "done")
  then show ?thesis using inv connect_inv_after_wait [OF tasks] by (simp add: connect_inv_def)
next
  case (gathered "done")
  have "stream_inv s" "tracked_inv s" using tasks by (simp_all add: task_inv_def)
  moreover from this(1) have "distinct (completed_streams s done) \<and> (\<forall>k \<in> set (completed_streams s done). k < opened s)"
    using inv gathered by (intro completed_streams_ok) (auto simp: connect_inv_def)
  ultimately show ?thesis unfolding gathered(1) using inv gathered(2)
    by (intro connect_inv_close_late) (auto simp: connect_inv_def)
next
  case (closed_late stream rest c)
  have "tracked_inv s" using tasks by (simp add: task_inv_def)
  then show ?thesis unfolding closed_late(1) using inv closed_late(2)
    by (intro connect_inv_close_late) (auto simp: connect_inv_def closed_inv_def)
next
  case (close_late_raises stream rest c e)
  have "tracked_inv s" using tasks by (simp add: task_inv_def)
  then show ?thesis unfolding close_late_raises(1) using inv close_late_raises(2,3) close_exception
    by (intro connect_inv_cancel) (auto simp: connect_inv_def closed_inv_def connect_result_ok_def)
next
  case (closed_loser stream "done" c winner)
  have t: "task_inv b t0 timeout (s\<lparr>closed := closed s @ [stream]\<rparr>)" using tasks by simp
  from closed_loser(2) inv show ?thesis unfolding closed_loser(1)
    by (intro connect_inv_scan [OF t]) (auto simp: connect_inv_def closed_inv_def)
next
  case (close_loser_raises stream "done" winner c e)
  have "tracked_inv s" using tasks by (simp add: task_inv_def)
  then show ?thesis unfolding close_loser_raises(1) using inv close_loser_raises(2,3) close_exception
    by (intro connect_inv_cancel) (auto simp: connect_inv_def closed_inv_def connect_result_ok_def)
next
  case (wait_cancelled until)
  moreover have "connect_inv (cancel_and_wait_tasks (Inl CancelledError) s)"
    using inv tasks by (intro connect_inv_cancel) (simp_all add: connect_inv_def task_inv_def)
  ultimately show ?thesis by simp
next
  case (gather_cancelled "done")
  moreover have "connect_inv (cancel_and_wait_tasks (Inl CancelledError) s)"
    using inv tasks by (intro connect_inv_cancel) (simp_all add: connect_inv_def task_inv_def)
  ultimately show ?thesis by simp
next
  case (reaped result result')
  have "\<forall>j < length (attempts s). is_finished (pc_of s j)"
    using tasks reaped by (auto simp: task_inv_def tracked_inv_def)
  then show ?thesis using inv reaped by (auto simp: connect_inv_def closed_inv_def connect_result_ok_def split: sum.splits)
qed

lemma connect_inv_initial: "connect_inv (connect_initial b t0 timeout)"
proof -
  let ?s = "\<lparr>now = t0, deadline = map_option (\<lambda>t. t0 + max t 0) timeout, untried = nb_addresses b,
    more_addresses = True, next_attempt_at = t0, start_lock = None, last_attempt_started_at = None,
    active_attempts = 0, attempts = [], tracked = [], coordinator = CWait None, opened = 0, closed = [],
    dialed = []\<rparr>"
  have "task_inv b t0 timeout ?s"
    by (simp add: task_inv_def lock_inv_def tracked_inv_def address_inv_def deadline_inv_def dial_inv_def
      stagger_inv_def stream_inv_def)
  then have "tracked_inv (start_next_attempt ?s)" by (rule tracked_inv_start_next) simp
  then show ?thesis unfolding connect_initial_def by (rule connect_inv_loop_head) simp
qed

lemma tick_frame [simp]:
  "wait_ok (s\<lparr>now := t\<rparr>) until = wait_ok s until" "connect_result_ok (s\<lparr>now := t\<rparr>) r = connect_result_ok s r"
  "being_cancelled (s\<lparr>now := t\<rparr>) j = being_cancelled s j" "closed_inv (s\<lparr>now := t\<rparr>) = closed_inv s"
  by (simp_all add: wait_ok_def connect_result_ok_def being_cancelled_def closed_inv_def cong: option.case_cong sum.case_cong)

lemma connect_inv_tick: "connect_inv s \<Longrightarrow> connect_inv (s\<lparr>now := now s + d\<rparr>)"
  by (cases "coordinator s") (simp_all add: connect_inv_def)

lemma connect_run_inv:
  assumes "connect_run E b la so (connect_initial b t0 timeout) k s" "backend_ok E b"
  shows "connect_inv s"
  using assms
proof (induction rule: connect_run.induct)
  case (move k s s')
  have "task_inv b t0 timeout s" using move.hyps(1) move.prems by (rule connect_run_task_inv)
  with move show ?case by (auto elim!: connect_move.cases intro: attempt_step_inv coordinator_step_inv)
qed (simp_all add: connect_inv_initial connect_inv_tick)

section \<open>Every move counts down\<close>

fun coordinator_rank :: "connect_state \<Rightarrow> coordinator_pc \<Rightarrow> nat" where
  "coordinator_rank s (CWait _) = 6 * length (untried s) + (if more_addresses s then 1 else 0) + length (tracked s) + 5"
| "coordinator_rank s (CGather done) = length done + 4"
| "coordinator_rank s (CCloseLate _ rest) = length rest + 3"
| "coordinator_rank s (CCloseLoser _ done _) = length done + 3"
| "coordinator_rank s (CCancelling _) = 1"
| "coordinator_rank s (CReturned _) = 0"

definition connect_rank :: "connect_state \<Rightarrow> nat" where
  "connect_rank s = tasks_rank s + coordinator_rank s (coordinator s)"

lemma tasks_rank_frame [simp]:
  "tasks_rank (s\<lparr>coordinator := c\<rparr>) = tasks_rank s" "tasks_rank (s\<lparr>closed := cl\<rparr>) = tasks_rank s"
  "tasks_rank (s\<lparr>tracked := tr\<rparr>) = tasks_rank s" "tasks_rank (s\<lparr>more_addresses := m\<rparr>) = tasks_rank s"
  "tasks_rank (s\<lparr>now := t\<rparr>) = tasks_rank s" "tasks_rank (cancel_and_wait_tasks r s) = tasks_rank s"
  by (simp_all add: tasks_rank_def)

lemma connect_rank_cancel: "connect_rank (cancel_and_wait_tasks r s) \<le> tasks_rank s + 1"
  by (simp add: connect_rank_def)

definition waiting_rank :: "connect_state \<Rightarrow> nat" where
  "waiting_rank s = tasks_rank s + 6 * length (untried s) + (if more_addresses s then 1 else 0) + length (tracked s) + 5"

lemma connect_rank_loop_head: "connect_rank (loop_head s) \<le> waiting_rank s"
  using connect_rank_cancel [of "Inl (OSError EGRESS_NOT_ALLOWED)" s]
  by (auto simp: loop_head_def Let_def connect_rank_def waiting_rank_def)

lemma waiting_rank_start_next:
  assumes "more_addresses s"
  shows "waiting_rank (start_next_attempt s) < waiting_rank s"
proof (cases "untried s")
  case Nil
  then show ?thesis using assms by (simp add: start_next_attempt_def waiting_rank_def)
next
  case (Cons a rest)
  let ?s = "s\<lparr>untried := rest, tracked := tracked s @ [length (attempts s)],
    attempts := attempts s @ [\<lparr>at_address = a, at_pc = TWaiting, at_cancel = False\<rparr>],
    next_attempt_at := now s + CONNECTION_ATTEMPT_DELAY_SECONDS\<rparr>"
  have "tasks_rank ?s = tasks_rank s + 4" by (simp add: tasks_rank_def pc_of_def nth_append)
  moreover have "tasks_rank (s\<lparr>untried := rest, more_addresses := False\<rparr>) = tasks_rank s" by (simp add: tasks_rank_def)
  ultimately show ?thesis using assms Cons by (simp add: start_next_attempt_def waiting_rank_def)
qed

lemma waiting_rank_no_more: "more_addresses s \<Longrightarrow> waiting_rank (s\<lparr>more_addresses := False\<rparr>) < waiting_rank s"
  by (simp add: waiting_rank_def)

lemma connect_rank_after_failures: "connect_rank (after_failures s) \<le> waiting_rank s"
  unfolding after_failures_def
  using connect_rank_loop_head waiting_rank_start_next [of s] waiting_rank_no_more [of s]
  by (auto intro: le_trans [OF connect_rank_loop_head less_imp_le])

lemma connect_rank_scan:
  "connect_rank (scan_done s done None) \<le> max (waiting_rank s) (tasks_rank s + length done + 2)"
  "connect_rank (scan_done s done (Some k)) \<le> tasks_rank s + length done + 2"
proof (induction "done" arbitrary: k)
  case Nil
  {
    case 1 show ?case using connect_rank_after_failures [of s] by simp
  next
    case 2 show ?case using connect_rank_cancel [of "Inr k" s] by simp
  }
next
  case (Cons i "done")
  have cancel: "connect_rank (cancel_and_wait_tasks r s) \<le> tasks_rank s + length done + 2" for r
    using connect_rank_cancel [of r s] by simp
  {
    case 1
    show ?case using Cons cancel
      by (auto simp: le_max_iff_disj split: task_pc.split outcome.split intro: le_SucI)
  next
    case 2
    show ?case using Cons cancel
      by (auto simp: connect_rank_def split: task_pc.split outcome.split intro: le_SucI)
  }
qed

lemma length_untracked:
  assumes "finished_tasks s done" "distinct (tracked s)"
  shows "length (filter (\<lambda>i. i \<notin> set done) (tracked s)) + length done = length (tracked s)"
proof -
  have d: "distinct done" "set done \<subseteq> set (tracked s)" using assms(1) by (auto simp: finished_tasks_def)
  have "set (filter (\<lambda>i. i \<in> set done) (tracked s)) = set done" using d(2) by auto
  then have "length (filter (\<lambda>i. i \<in> set done) (tracked s)) = length done"
    using d(1) assms(2) by (metis distinct_card distinct_filter)
  then show ?thesis using sum_length_filter_compl [of "\<lambda>i. i \<in> set done" "tracked s"] by simp
qed

lemma connect_rank_wait:
  assumes inv: "connect_inv s" "tracked_inv s" and c: "coordinator s = CWait until" and fin: "finished_tasks s done"
    and due: "done \<noteq> [] \<or> (\<exists>w. until = Some w \<and> w \<le> now s)"
  shows "connect_rank (after_wait done s) < connect_rank s"
proof -
  let ?s = "s\<lparr>tracked := filter (\<lambda>i. i \<notin> set done) (tracked s)\<rparr>"
  have len: "length (tracked ?s) + length done = length (tracked s)"
    using length_untracked [OF fin] inv(2) by (simp add: tracked_inv_def)
  have rank: "connect_rank s = waiting_rank s" by (simp add: connect_rank_def waiting_rank_def c)
  have less: "waiting_rank ?s + length done = waiting_rank s" using len by (simp add: waiting_rank_def)
  show ?thesis
  proof (cases "past_deadline ?s")
    case True
    then have "after_wait done s = ?s\<lparr>coordinator := CGather done\<rparr>" by (simp add: after_wait_def Let_def)
    then show ?thesis using len by (simp add: connect_rank_def c)
  next
    case past: False
    show ?thesis
    proof (cases "done = []")
      case True
      with due obtain w where w: "until = Some w" "w \<le> now s" by auto
      have more: "more_addresses ?s"
        using inv(1) c w past by (auto simp: connect_inv_def wait_ok_def past_deadline_def split: option.splits)
      then have "after_wait done s = loop_head (start_next_attempt ?s)"
        using past True by (simp add: after_wait_def Let_def)
      then show ?thesis
        using connect_rank_loop_head [of "start_next_attempt ?s"] waiting_rank_start_next [OF more] rank less by simp
    next
      case False
      then have "after_wait done s = scan_done ?s done None" using past by (simp add: after_wait_def Let_def)
      moreover have "max (waiting_rank ?s) (tasks_rank ?s + length done + 2) < waiting_rank s"
        using False less len by (cases "done") (auto simp: waiting_rank_def)
      ultimately show ?thesis using le_less_trans [OF connect_rank_scan(1) [of ?s "done"]] rank by metis
    qed
  qed
qed

lemma connect_rank_close_late: "connect_rank (close_late streams s) \<le> tasks_rank s + length streams + 2"
  using connect_rank_cancel [of _ s] by (cases streams) (auto simp: close_late_def connect_rank_def)

lemma completed_streams_length: "length (completed_streams s done) \<le> length done"
  by (induction "done") (auto split: task_pc.splits outcome.splits)

lemma coordinator_step_rank:
  assumes step: "coordinator_step s s'" and inv: "connect_inv s" "tracked_inv s"
  shows "connect_rank s' < connect_rank s"
  using step
proof cases
  case (woken until "done")
  then show ?thesis using connect_rank_wait [OF inv] by simp
next
  case (gathered "done")
  then show ?thesis
    using connect_rank_close_late [of "completed_streams s done" s] completed_streams_length [of s "done"]
    by (simp add: connect_rank_def)
next
  case (closed_late stream rest c)
  then show ?thesis using connect_rank_close_late [of rest "s\<lparr>closed := closed s @ [stream]\<rparr>"]
    by (simp add: connect_rank_def)
next
  case (close_late_raises stream rest c e)
  then show ?thesis using connect_rank_cancel [of "Inl e" "s\<lparr>closed := closed s @ [stream]\<rparr>"]
    by (simp add: connect_rank_def)
next
  case (closed_loser stream "done" winner c)
  then show ?thesis using connect_rank_scan(2) [of "s\<lparr>closed := closed s @ [stream]\<rparr>" "done" winner]
    by (simp add: connect_rank_def)
next
  case (close_loser_raises stream "done" winner c e)
  then show ?thesis using connect_rank_cancel [of "Inl e" "s\<lparr>closed := closed s @ [stream]\<rparr>"]
    by (simp add: connect_rank_def)
next
  case (wait_cancelled until)
  then show ?thesis using connect_rank_cancel [of "Inl CancelledError" s] by (simp add: connect_rank_def)
next
  case (gather_cancelled "done")
  then show ?thesis using connect_rank_cancel [of "Inl CancelledError" s] by (simp add: connect_rank_def)
next
  case (reaped result result')
  then show ?thesis by (simp add: connect_rank_def)
qed

lemma coordinator_rank_view:
  assumes "coordinator_view s' = coordinator_view s"
  shows "coordinator_rank s' (coordinator s') = coordinator_rank s (coordinator s)"
proof -
  have view: "coordinator s' = coordinator s" "tracked s' = tracked s" "untried s' = untried s"
    "more_addresses s' = more_addresses s"
    using assms by (simp_all add: coordinator_view_def)
  show ?thesis unfolding view(1) by (cases "coordinator s") (simp_all add: view)
qed

lemma connect_move_rank:
  assumes "connect_move E b la so s s'" "connect_inv s" "tracked_inv s"
  shows "connect_rank s' < connect_rank s"
  using assms(1)
proof cases
  case (attempt i)
  have "coordinator_rank s' (coordinator s') = coordinator_rank s (coordinator s)"
    by (rule coordinator_rank_view) (use attempt_step_view [OF attempt] in simp)
  then show ?thesis using attempt_step_rank [OF attempt] by (simp add: connect_rank_def)
next
  case coordinate
  then show ?thesis using coordinator_step_rank assms(2,3) by simp
qed

lemma connect_initial_rank: "connect_rank (connect_initial b t0 timeout) \<le> 6 * length (nb_addresses b) + 5"
proof -
  let ?s = "\<lparr>now = t0, deadline = map_option (\<lambda>t. t0 + max t 0) timeout, untried = nb_addresses b,
    more_addresses = True, next_attempt_at = t0, start_lock = None, last_attempt_started_at = None,
    active_attempts = 0, attempts = [], tracked = [], coordinator = CWait None, opened = 0, closed = [],
    dialed = []\<rparr>"
  have "waiting_rank (start_next_attempt ?s) < waiting_rank ?s" by (rule waiting_rank_start_next) simp
  also have "\<dots> = 6 * length (nb_addresses b) + 6" by (simp add: waiting_rank_def tasks_rank_def)
  finally show ?thesis unfolding connect_initial_def using connect_rank_loop_head [of "start_next_attempt ?s"] by simp
qed

lemma connect_run_rank:
  assumes "connect_run E b la so (connect_initial b t0 timeout) k s" "backend_ok E b"
  shows "k + connect_rank s \<le> 6 * length (nb_addresses b) + 5"
  using assms
proof (induction rule: connect_run.induct)
  case start
  then show ?case using connect_initial_rank by simp
next
  case (tick k s d)
  have "coordinator_rank (s\<lparr>now := now s + d\<rparr>) (coordinator s) = coordinator_rank s (coordinator s)"
    by (cases "coordinator s") simp_all
  with tick show ?case by (simp add: connect_rank_def)
next
  case (move k s s')
  have "task_inv b t0 timeout s" "connect_inv s"
    using connect_run_task_inv connect_run_inv move.hyps(1) move.prems by blast+
  with connect_move_rank [OF move.hyps(2)] have "connect_rank s' < connect_rank s" by (simp add: task_inv_def)
  with move show ?case by simp
qed

section \<open>It can always go on by itself once the time is over\<close>

text \<open>A move that needs neither an answer of the backend to an attempt, nor a cancellation by
  the caller, nor the passing of time.\<close>

definition own_move ::
  "pyenv \<Rightarrow> network_backend \<Rightarrow> ustr option \<Rightarrow> pyval \<Rightarrow> connect_state \<Rightarrow> connect_state \<Rightarrow> bool" where
  "own_move E b la so s s' \<longleftrightarrow>
     (\<exists>i. attempt_step E b la so i s s' \<and> (at_cancel (attempts s ! i) \<or> (\<exists>r. pc_of s i = TLeaving r)))
     \<or> coordinator_step s s' \<and> (\<forall>until. coordinator s = CWait until \<longrightarrow> (\<exists>w. until = Some w \<and> w \<le> now s))"

lemma own_move_cancelling:
  assumes inv: "connect_inv s" "task_inv b t0 timeout s" and c: "coordinator s = CCancelling r"
  shows "\<exists>s'. own_move E b la so s s'"
proof (cases "\<forall>j \<in> set (tracked s). is_finished (pc_of s j)")
  case True
  have "coordinator_step s (s\<lparr>coordinator := CReturned r\<rparr>)" by (rule coordinator_step.reaped [OF c True]) simp
  then show ?thesis using c unfolding own_move_def by fastforce
next
  case False
  have cancelled: "\<And>j. j < length (attempts s) \<Longrightarrow> being_cancelled s j" using inv(1) c by (simp add: connect_inv_def)
  from False obtain j where j: "j < length (attempts s)" "\<not> is_finished (pc_of s j)"
    using inv(2) by (auto simp: task_inv_def tracked_inv_def)
  have "\<exists>i s'. attempt_step E b la so i s s' \<and> (at_cancel (attempts s ! i) \<or> (\<exists>r. pc_of s i = TLeaving r))"
  proof (cases "start_lock s")
    case (Some h)
    have "lock_inv s" using inv(2) by (simp add: task_inv_def)
    then obtain w where h: "h < length (attempts s)" "pc_of s h = TSleeping w"
      using lock_inv_holder Some by blast
    then have "at_cancel (attempts s ! h)" using cancelled [of h] by (simp add: being_cancelled_def)
    with attempt_step.cancelled_sleeping [OF h this] show ?thesis by blast
  next
    case None
    have "at_cancel (attempts s ! j) \<or> (\<exists>r. pc_of s j = TLeaving r)"
      using cancelled [OF j(1)] j(2) by (auto simp: being_cancelled_def)
    moreover have "\<exists>s'. attempt_step E b la so j s s'"
    proof (cases "pc_of s j")
      case TWaiting
      then show ?thesis using calculation j attempt_step.cancelled_waiting by (metis task_pc.distinct(5))
    next
      case (TSleeping w)
      then show ?thesis using calculation j attempt_step.cancelled_sleeping by (metis task_pc.distinct(11))
    next
      case TConnecting
      then show ?thesis using calculation j attempt_step.cancelled_connecting by (metis task_pc.distinct(15))
    next
      case (TLeaving r')
      then show ?thesis using j None attempt_step.left attempt_step.cancelled_leaving by metis
    next
      case (TFinished r')
      with j show ?thesis by simp
    qed
    ultimately show ?thesis by blast
  qed
  then show ?thesis unfolding own_move_def by blast
qed

lemma own_move_ready:
  assumes inv: "connect_inv s" "task_inv b t0 timeout s" and d: "deadline s = Some d" "d \<le> now s"
    and running: "\<forall>r. coordinator s \<noteq> CReturned r"
  shows "\<exists>s'. own_move E b la so s s'"
proof -
  let ?closing = "\<lparr>ac_setup = None, ac_child = None, ac_cancelled = False\<rparr>"
  have closes: "close_connection_stream_best_effort ?closing = None"
    by (simp add: close_connection_stream_best_effort_def)
  show ?thesis
  proof (cases "coordinator s")
    case (CWait until)
    let ?done = "filter (\<lambda>i. is_finished (pc_of s i)) (tracked s)"
    have fin: "finished_tasks s ?done"
      using inv(2) by (simp add: finished_tasks_def task_inv_def tracked_inv_def)
    obtain w where w: "until = Some w" "w \<le> now s" using inv(1) CWait d by (auto simp: connect_inv_def wait_ok_def)
    then have "coordinator_step s (after_wait ?done s)"
      by (intro coordinator_step.woken [OF CWait fin]) auto
    then show ?thesis using w CWait unfolding own_move_def by fastforce
  next
    case (CGather dn)
    from coordinator_step.gathered [OF this] show ?thesis using CGather unfolding own_move_def by fastforce
  next
    case (CCloseLate st rest)
    from coordinator_step.closed_late [OF this closes] show ?thesis using CCloseLate unfolding own_move_def by fastforce
  next
    case (CCloseLoser st dn w)
    from coordinator_step.closed_loser [OF this closes] show ?thesis using CCloseLoser unfolding own_move_def by fastforce
  next
    case (CCancelling r)
    then show ?thesis by (rule own_move_cancelling [OF inv])
  next
    case (CReturned r)
    with running show ?thesis by simp
  qed
qed

section \<open>Example: three addresses, a lost stream\<close>

definition three_backend :: network_backend where
  "three_backend = \<lparr>nb_hostname = u ''api.example.com'', nb_port = 443, nb_policy = example_policy,
     nb_addresses = [u ''93.184.216.34'', u ''2606:4700::1111'', u ''93.184.216.35'']\<rparr>"

lemma three_backend_made:
  "make_async_network_backend ascii_env (u ''api.example.com'') 443
     [u ''93.184.216.34'', u ''2606:4700::1111'', u ''93.184.216.35''] example_policy = Inr three_backend"
  by code_simp

abbreviation "race_lock \<equiv> acquire_start_lock ascii_env three_backend None VNone"

definition race_opens :: "nat \<Rightarrow> connect_state \<Rightarrow> connect_state" where
  "race_opens i s = leave_attempt i (Stream (opened s)) (s\<lparr>opened := opened s + 1\<rparr>)"

definition later :: "connect_state \<Rightarrow> connect_state" where
  "later s = s\<lparr>now := now s + 1 / 4\<rparr>"

definition race_closes :: "nat \<Rightarrow> nat \<Rightarrow> connect_state \<Rightarrow> connect_state" where
  "race_closes stream winner s = scan_done (s\<lparr>closed := closed s @ [stream]\<rparr>) [] (Some winner)"

text \<open>All three attempts are started a quarter of a second apart; the first two succeed, and
  while the coordinator closes the second stream the third attempt succeeds as well.\<close>

definition race_task :: "nat \<Rightarrow> task_pc \<Rightarrow> attempt" where
  "race_task i pc = \<lparr>at_address = nb_addresses three_backend ! i, at_pc = pc, at_cancel = False\<rparr>"

definition race_dial :: "nat \<Rightarrow> rat \<Rightarrow> bool \<Rightarrow> dial_start" where
  "race_dial i t alone = \<lparr>ds_task = i,
     ds_dial = \<lparr>dial_address = nb_addresses three_backend ! i, dial_port = 443, dial_timeout = Some (5 - t),
       dial_local_address = None, dial_socket_options = VNone\<rparr>,
     ds_time = t, ds_alone = alone\<rparr>"

definition race1 :: connect_state where
  "race1 = \<lparr>now = 0, deadline = Some 5, untried = tl (nb_addresses three_backend), more_addresses = True,
     next_attempt_at = 1 / 4, start_lock = None, last_attempt_started_at = Some 0, active_attempts = 1,
     attempts = [race_task 0 TConnecting], tracked = [0], coordinator = CWait (Some (1 / 4)), opened = 0,
     closed = [], dialed = [race_dial 0 0 True]\<rparr>"

definition race2 :: connect_state where
  "race2 = \<lparr>now = 1 / 4, deadline = Some 5, untried = tl (tl (nb_addresses three_backend)), more_addresses = True,
     next_attempt_at = 1 / 2, start_lock = None, last_attempt_started_at = Some (1 / 4), active_attempts = 2,
     attempts = [race_task 0 TConnecting, race_task 1 TConnecting], tracked = [0, 1],
     coordinator = CWait (Some (1 / 2)), opened = 0, closed = [],
     dialed = [race_dial 0 0 True, race_dial 1 (1 / 4) False]\<rparr>"

definition race3 :: connect_state where
  "race3 = \<lparr>now = 1 / 2, deadline = Some 5, untried = [], more_addresses = True, next_attempt_at = 3 / 4,
     start_lock = None, last_attempt_started_at = Some (1 / 2), active_attempts = 3,
     attempts = [race_task 0 TConnecting, race_task 1 TConnecting, race_task 2 TConnecting], tracked = [0, 1, 2],
     coordinator = CWait (Some (3 / 4)), opened = 0, closed = [],
     dialed = [race_dial 0 0 True, race_dial 1 (1 / 4) False, race_dial 2 (1 / 2) False]\<rparr>"

definition race4 :: connect_state where
  "race4 = race3\<lparr>active_attempts := 1, tracked := [2], opened := 2, coordinator := CCloseLoser 1 [] 0,
     attempts := [race_task 0 (TFinished (Stream 0)), race_task 1 (TFinished (Stream 1)), race_task 2 TConnecting]\<rparr>"

definition race5 :: connect_state where
  "race5 = race3\<lparr>active_attempts := 0, tracked := [2], opened := 3, closed := [1],
     coordinator := CCancelling (Inr 0),
     attempts := [race_task 0 (TFinished (Stream 0)), race_task 1 (TFinished (Stream 1)),
       race_task 2 (TFinished (Stream 2))]\<rparr>"

lemma race_moves:
  "race_lock 0 (connect_initial three_backend 0 (Some 5)) = race1"
  "race_lock 1 (after_wait [] (later race1)) = race2"
  "race_lock 2 (after_wait [] (later race2)) = race3"
  "after_wait [0, 1] (race_opens 1 (race_opens 0 race3)) = race4"
  "race_closes 1 0 (race_opens 2 race4) = race5"
  by code_simp+

abbreviation race_run :: "nat \<Rightarrow> connect_state \<Rightarrow> bool" where
  "race_run \<equiv> connect_run ascii_env three_backend None VNone (connect_initial three_backend 0 (Some 5))"

definition wait_over :: "connect_state \<Rightarrow> nat list \<Rightarrow> bool" where
  "wait_over s done = (case coordinator s of
       CWait until \<Rightarrow> done \<noteq> [] \<or> (case until of Some w \<Rightarrow> w \<le> now s | None \<Rightarrow> False)
     | _ \<Rightarrow> False)"

lemma race_later: "race_run k s \<Longrightarrow> race_run k (later s)"
  unfolding later_def by (rule connect_run.tick) simp_all

lemma race_lock_move:
  "race_run k s \<Longrightarrow> i < length (attempts s) \<and> pc_of s i = TWaiting \<and> \<not> at_cancel (attempts s ! i)
    \<and> start_lock s = None \<Longrightarrow> race_run (Suc k) (race_lock i s)"
  by (auto intro: connect_run.move connect_move.attempt attempt_step.lock)

lemma race_opens_move:
  assumes "race_run k s" "i < length (attempts s) \<and> pc_of s i = TConnecting \<and> \<not> at_cancel (attempts s ! i)"
  shows "race_run (Suc k) (race_opens i s)"
  unfolding race_opens_def
  by (rule connect_run.move [OF assms(1)], rule connect_move.attempt [where i = i], rule attempt_step.connected)
    (use assms(2) in simp_all)

lemma race_wait_move:
  assumes "race_run k s" "wait_over s done \<and> finished_tasks s done"
  shows "race_run (Suc k) (after_wait done s)"
proof -
  obtain until where c: "coordinator s = CWait until" and due: "done \<noteq> [] \<or> (\<exists>w. until = Some w \<and> w \<le> now s)"
    using assms(2) by (auto simp: wait_over_def split: coordinator_pc.splits option.splits)
  have "finished_tasks s done" using assms(2) by simp
  from coordinator_step.woken [OF c this due] show ?thesis
    by (intro connect_run.move [OF assms(1)] connect_move.coordinate)
qed

lemma race_closes_move:
  assumes "race_run k s" "coordinator s = CCloseLoser stream [] winner"
  shows "race_run (Suc k) (race_closes stream winner s)"
proof -
  have "close_connection_stream_best_effort \<lparr>ac_setup = None, ac_child = None, ac_cancelled = False\<rparr> = None"
    by (simp add: close_connection_stream_best_effort_def)
  from coordinator_step.closed_loser [OF assms(2) this] show ?thesis
    unfolding race_closes_def by (intro connect_run.move [OF assms(1)] connect_move.coordinate)
qed

lemma race_run1: "race_run 1 race1"
proof -
  have "race_run (Suc 0) race1" unfolding race_moves(1) [symmetric] by (rule race_lock_move [OF connect_run.start]) code_simp
  then show ?thesis by simp
qed

lemma race_run3: "race_run 5 race3"
proof -
  have "race_run (Suc 1) (after_wait [] (later race1))"
    by (rule race_wait_move [OF race_later [OF race_run1]]) code_simp
  then have "race_run (Suc (Suc 1)) race2" unfolding race_moves(2) [symmetric] by (rule race_lock_move) code_simp
  note step = race_wait_move [OF race_later [OF this], of "[]"]
  have "race_run (Suc (Suc (Suc 1))) (after_wait [] (later race2))" by (rule step) code_simp
  then have "race_run (Suc (Suc (Suc (Suc 1)))) race3" unfolding race_moves(3) [symmetric] by (rule race_lock_move) code_simp
  then show ?thesis by (simp add: numeral_eq_Suc)
qed

lemma race_run5: "race_run 10 race5"
proof -
  have "race_run (Suc 5) (race_opens 0 race3)" by (rule race_opens_move [OF race_run3]) code_simp
  then have "race_run (Suc (Suc 5)) (race_opens 1 (race_opens 0 race3))" by (rule race_opens_move) code_simp
  then have "race_run (Suc (Suc (Suc 5))) race4" unfolding race_moves(4) [symmetric] by (rule race_wait_move) code_simp
  then have "race_run (Suc (Suc (Suc (Suc 5)))) (race_opens 2 race4)" by (rule race_opens_move) code_simp
  then have "race_run (Suc (Suc (Suc (Suc (Suc 5))))) race5" unfolding race_moves(5) [symmetric]
    by (rule race_closes_move) code_simp
  then show ?thesis by (simp add: numeral_eq_Suc)
qed

lemma race_returned: "race_run 11 (race5\<lparr>coordinator := CReturned (Inr 0)\<rparr>)"
proof -
  have "coordinator_step race5 (race5\<lparr>coordinator := CReturned (Inr 0)\<rparr>)"
    by (rule coordinator_step.reaped [where result = "Inr 0"])
      (simp_all add: race5_def race3_def pc_of_def race_task_def)
  then have "race_run (Suc 10) (race5\<lparr>coordinator := CReturned (Inr 0)\<rparr>)"
    by (rule connect_run.move [OF race_run5 connect_move.coordinate])
  then show ?thesis by (simp add: numeral_eq_Suc)
qed

section \<open>Properties\<close>

lemma async_connect_started:
  assumes "make_async_network_backend E h n addrs p = Inr b"
    and "async_connect_tcp E b host port t0 timeout = Inr s0" and "connect_run E b la so s0 k s"
  shows "backend_ok E b \<and> connect_run E b la so (connect_initial b t0 timeout) k s
    \<and> task_inv b t0 timeout s \<and> connect_inv s"
proof -
  have b: "backend_ok E b" using make_network_backend_ok [OF assms(1) [unfolded make_async_network_backend_eq]] by simp
  have "s0 = connect_initial b t0 timeout" using assms(2) by (auto simp: async_connect_tcp_def result_simps)
  with assms(3) have run: "connect_run E b la so (connect_initial b t0 timeout) k s" by simp
  with b connect_run_task_inv [OF run b] connect_run_inv [OF run b] show ?thesis by blast
qed

text \<open>C21: when the asynchronous connect returns, in whatever interleaving, no attempt is still
  running; a stream it returns was opened by the backend and has not been closed; and an
  error it returns is the generic denial or not an ordinary exception. At every moment each
  stream was closed at most once.\<close>

theorem async_connect_result:
  assumes "make_async_network_backend E h n addrs p = Inr b"
    and "async_connect_tcp E b host port t0 timeout = Inr s0" and "connect_run E b la so s0 k s"
  shows "distinct (closed s) \<and> (\<forall>r. coordinator s = CReturned r \<longrightarrow>
      (\<forall>i < length (attempts s). is_finished (pc_of s i))
      \<and> (case r of
           Inr stream \<Rightarrow> stream < opened s \<and> stream \<notin> set (closed s)
         | Inl e \<Rightarrow> e = OSError EGRESS_NOT_ALLOWED \<or> \<not> is_Exception e))"
proof -
  have "connect_inv s" using async_connect_started [OF assms] by blast
  then show ?thesis by (auto simp: connect_inv_def closed_inv_def connect_result_ok_def)
qed


text \<open>C23: the asynchronous connect cannot go on for ever: in every interleaving the coordinator
  and its attempts together make at most six moves per pinned address and five more.\<close>

theorem async_connect_terminates:
  assumes "make_async_network_backend E h n addrs p = Inr b"
    and "async_connect_tcp E b host port t0 timeout = Inr s0" and "connect_run E b la so s0 k s"
  shows "k \<le> 6 * length (nb_addresses b) + 5"
  using async_connect_started [OF assms] connect_run_rank [of E b la so t0 timeout k s] by simp


subsection \<open>Witnesses\<close>

lemma race_starts:
  "async_connect_tcp ascii_env three_backend (HostText (u ''api.example.com'')) 443 0 (Some 5)
    = Inr (connect_initial three_backend 0 (Some 5))"
  by (simp add: async_connect_tcp_def) code_simp


lemma async_connect_result_witness:
  "\<exists>s. race_run 11 s \<and> coordinator s = CReturned (Inr 0) \<and> 0 < opened s \<and> 0 \<notin> set (closed s)"
proof -
  let ?s = "race5\<lparr>coordinator := CReturned (Inr 0)\<rparr>"
  from async_connect_result [OF three_backend_made race_starts race_returned]
  have "0 < opened ?s \<and> 0 \<notin> set (closed ?s)" by simp
  with race_returned show ?thesis by (intro exI [of _ ?s]) simp
qed

lemma async_connect_terminates_witness:
  "race_run 10 race5 \<and> 10 \<le> 6 * length (nb_addresses three_backend) + 5"
  using race_run5 async_connect_terminates [OF three_backend_made race_starts race_run5] by blast


end
