(* ===== verification/Json.thy ===== *)
theory Json
  imports Egress_Prelude
begin

text \<open>
  The part of Python's \<open>json\<close> and text codecs that the evidence modules call: values as
  \<open>json.loads\<close> builds them, \<open>json.dumps\<close> with sorted keys and ASCII output in its compact and
  its indented form, the strict scanner with the two hooks of
  \<open>src/egressweave/release_evidence.py\<close> (\<open>_reject_duplicate_keys\<close> and
  \<open>_reject_json_constant\<close>), and strict UTF-8. Floats are the texts that \<open>repr\<close> gives for them
  (None: infinite), and the conversion of a literal to such a text is the parameter \<open>flt\<close>.
  The interpreter's recursion limit is not modelled: the scanner's fuel is enough for every text.
\<close>

section \<open>Values\<close>

datatype json =
    JNull
  | JBool bool
  | JInt int
  | JFloat "ustr option"
  | JString ustr
  | JList "json list"
  | JObject "(ustr \<times> json) list"     \<comment> \<open>in insertion order\<close>

text \<open>The same value with the keys of every object sorted; two values are equal for Python
  when they agree in this form.\<close>

fun sorted_keys :: "json \<Rightarrow> json" where
  "sorted_keys (JList xs) = JList (map sorted_keys xs)"
| "sorted_keys (JObject members) = JObject (sort_key fst (map (\<lambda>(k, v). (k, sorted_keys v)) members))"
| "sorted_keys j = j"

definition json_get :: "ustr \<Rightarrow> (ustr \<times> json) list \<Rightarrow> json option" where
  "json_get k members = map_of members k"

section \<open>Writing\<close>

definition hex_digit :: "int \<Rightarrow> int" where
  "hex_digit n = (if n < 10 then 48 + n else 87 + n)"

definition hex4 :: "int \<Rightarrow> ustr" where
  "hex4 n = [hex_digit (n div 4096 mod 16), hex_digit (n div 256 mod 16), hex_digit (n div 16 mod 16),
     hex_digit (n mod 16)]"

definition escape_c :: "int \<Rightarrow> ustr" where
  "escape_c c =
     (if c = 34 then [92, 34] else if c = 92 then [92, 92] else if c = 10 then [92, 110]
      else if c = 13 then [92, 114] else if c = 9 then [92, 116] else if c = 12 then [92, 102]
      else if c = 8 then [92, 98]
      else if 32 \<le> c \<and> c \<le> 126 then [c]
      else if c < 65536 then 92 # 117 # hex4 c
      else 92 # 117 # hex4 (55296 + (c - 65536) div 1024) @ 92 # 117 # hex4 (56320 + (c - 65536) mod 1024))"

definition quote :: "ustr \<Rightarrow> ustr" where
  "quote s = 34 # concat (map escape_c s) @ [34]"

definition int_text :: "int \<Rightarrow> ustr res" where
  "int_text n = ebind (py_str_nat \<bar>n\<bar>) (\<lambda>d. Inr (if n < 0 then 45 # d else d))"

text \<open>What separates items at a nesting level, and keys from values.\<close>

record json_style =
  js_newline :: "nat \<Rightarrow> ustr"
  js_colon :: ustr

definition compact_style :: json_style where
  "compact_style = \<lparr>js_newline = (\<lambda>_. []), js_colon = [58]\<rparr>"

definition indented_style :: json_style where
  "indented_style = \<lparr>js_newline = (\<lambda>level. 10 # replicate (2 * level) 32), js_colon = [58, 32]\<rparr>"

fun join_with :: "ustr \<Rightarrow> ustr list \<Rightarrow> ustr" where
  "join_with sep [] = []"
| "join_with sep [t] = t"
| "join_with sep (t # ts) = t @ sep @ join_with sep ts"

definition bracketed :: "json_style \<Rightarrow> nat \<Rightarrow> int \<Rightarrow> int \<Rightarrow> ustr list \<Rightarrow> ustr" where
  "bracketed style level opening closing items =
     (if items = [] then [opening, closing]
      else opening # js_newline style (Suc level)
        @ join_with (44 # js_newline style (Suc level)) items @ js_newline style level @ [closing])"

fun write_json :: "json_style \<Rightarrow> nat \<Rightarrow> json \<Rightarrow> ustr res" where
  "write_json style level JNull = Inr (u ''null'')"
| "write_json style level (JBool b) = Inr (u (if b then ''true'' else ''false''))"
| "write_json style level (JInt n) = int_text n"
| "write_json style level (JFloat f) =
     (case f of Some t \<Rightarrow> Inr t | None \<Rightarrow> Inl (ValueError ''Out of range float values are not JSON compliant''))"
| "write_json style level (JString s) = Inr (quote s)"
| "write_json style level (JList xs) =
     ebind (emap (write_json style (Suc level)) xs) (\<lambda>ts. Inr (bracketed style level 91 93 ts))"
| "write_json style level (JObject members) =
     ebind (emap (\<lambda>(k, v). ebind (write_json style (Suc level) v) (\<lambda>t. Inr (quote k @ js_colon style @ t))) members)
       (\<lambda>ts. Inr (bracketed style level 123 125 ts))"

definition dumps :: "json_style \<Rightarrow> json \<Rightarrow> ustr res" where
  "dumps style j = write_json style 0 (sorted_keys j)"

section \<open>Reading\<close>

definition is_json_space :: "int \<Rightarrow> bool" where
  "is_json_space c \<longleftrightarrow> c = 32 \<or> c = 9 \<or> c = 10 \<or> c = 13"

definition skip_space :: "ustr \<Rightarrow> ustr" where
  "skip_space s = dropWhile is_json_space s"

definition hex_value :: "int \<Rightarrow> int option" where
  "hex_value c =
     (if 48 \<le> c \<and> c \<le> 57 then Some (c - 48) else if 97 \<le> c \<and> c \<le> 102 then Some (c - 87)
      else if 65 \<le> c \<and> c \<le> 70 then Some (c - 55) else None)"

definition read_hex4 :: "ustr \<Rightarrow> (int \<times> ustr) option" where
  "read_hex4 s =
     (if length s < 4 then None else
      case those (map hex_value (take 4 s)) of
        None \<Rightarrow> None
      | Some ds \<Rightarrow> Some (foldl (\<lambda>n d. n * 16 + d) 0 ds, drop 4 s))"

text \<open>After \<open>\u\<close>: four digits, and the second half of a surrogate pair where it follows.\<close>

definition read_unicode :: "ustr \<Rightarrow> (int \<times> ustr) option" where
  "read_unicode s =
     (case read_hex4 s of
        None \<Rightarrow> None
      | Some (high, r) \<Rightarrow>
          if 55296 \<le> high \<and> high \<le> 56319 \<and> starts_with [92, 117] r
          then (case read_hex4 (drop 2 r) of
                  None \<Rightarrow> None
                | Some (low, r') \<Rightarrow>
                    if 56320 \<le> low \<and> low \<le> 57343
                    then Some (65536 + (high - 55296) * 1024 + (low - 56320), r') else Some (high, r))
          else Some (high, r))"

definition unescape_c :: "int \<Rightarrow> int option" where
  "unescape_c c =
     (if c = 34 \<or> c = 92 \<or> c = 47 then Some c else if c = 98 then Some 8 else if c = 102 then Some 12
      else if c = 110 then Some 10 else if c = 114 then Some 13 else if c = 116 then Some 9 else None)"

definition put_c :: "int \<Rightarrow> (ustr \<times> ustr) option \<Rightarrow> (ustr \<times> ustr) option" where
  "put_c c r = map_option (\<lambda>(s, rest). (c # s, rest)) r"

lemma read_hex4_length: "read_hex4 s = Some (n, r) \<Longrightarrow> length r < length s"
  by (auto simp: read_hex4_def split: if_splits option.splits)

lemma read_unicode_length: "read_unicode s = Some (n, r) \<Longrightarrow> length r < length s"
  by (auto simp: read_unicode_def split: if_splits option.splits dest!: read_hex4_length)

text \<open>The rest of a string literal after its opening quote.\<close>

function read_string :: "ustr \<Rightarrow> (ustr \<times> ustr) option" where
  "read_string [] = None"
| "read_string (c # s) =
     (if c = 34 then Some ([], s)
      else if c = 92 then
        (case s of
           [] \<Rightarrow> None
         | e # t \<Rightarrow>
             if e = 117 then (case read_unicode t of None \<Rightarrow> None | Some (x, r) \<Rightarrow> put_c x (read_string r))
             else (case unescape_c e of None \<Rightarrow> None | Some x \<Rightarrow> put_c x (read_string t)))
      else if c \<le> 31 then None
      else put_c c (read_string s))"
  by pat_completeness auto
termination
  by (relation "measure length") (auto dest: read_unicode_length)

definition take_sign :: "ustr \<Rightarrow> ustr \<times> ustr" where
  "take_sign s = (if s \<noteq> [] \<and> hd s = 45 then ([45], tl s) else ([], s))"

definition take_whole :: "ustr \<Rightarrow> ustr \<times> ustr" where
  "take_whole s =
     (if s \<noteq> [] \<and> hd s = 48 then ([48], tl s) else (takeWhile is_dec_c s, dropWhile is_dec_c s))"

definition take_fraction :: "ustr \<Rightarrow> ustr \<times> ustr" where
  "take_fraction s =
     (if 2 \<le> length s \<and> hd s = 46 \<and> is_dec_c (s ! 1)
      then (46 # takeWhile is_dec_c (tl s), dropWhile is_dec_c (tl s)) else ([], s))"

definition take_exponent :: "ustr \<Rightarrow> ustr \<times> ustr" where
  "take_exponent s =
     (if s = [] \<or> hd s \<noteq> 101 \<and> hd s \<noteq> 69 then ([], s)
      else
       (let t = tl s;
            sign = (if t \<noteq> [] \<and> (hd t = 43 \<or> hd t = 45) then [hd t] else []);
            t' = drop (length sign) t in
        if takeWhile is_dec_c t' = [] then ([], s)
        else (hd s # sign @ takeWhile is_dec_c t', dropWhile is_dec_c t')))"

definition read_number :: "(ustr \<Rightarrow> ustr option) \<Rightarrow> ustr \<Rightarrow> (json \<times> ustr) option" where
  "read_number flt s =
     (case take_sign s of (sign, s1) \<Rightarrow>
      case take_whole s1 of (whole, s2) \<Rightarrow>
      case take_fraction s2 of (fraction, s3) \<Rightarrow>
      case take_exponent s3 of (exponent, rest) \<Rightarrow>
      if whole = [] then None
      else if fraction = [] \<and> exponent = []
      then (case py_int_dec whole of
              Inl _ \<Rightarrow> None
            | Inr n \<Rightarrow> Some (JInt (if sign = [] then n else - n), rest))
      else Some (JFloat (flt (sign @ whole @ fraction @ exponent)), rest))"

text \<open>One value, the elements after \<open>[\<close>, the members after \<open>{\<close>. Every failure of the code is a
  \<open>ValueError\<close>: the value is None. Constants such as \<open>NaN\<close> are refused by the hook, as is an
  object with a repeated member name.\<close>

fun read_value :: "(ustr \<Rightarrow> ustr option) \<Rightarrow> nat \<Rightarrow> ustr \<Rightarrow> (json \<times> ustr) option"
and read_elements :: "(ustr \<Rightarrow> ustr option) \<Rightarrow> nat \<Rightarrow> ustr \<Rightarrow> (json list \<times> ustr) option"
and read_members :: "(ustr \<Rightarrow> ustr option) \<Rightarrow> nat \<Rightarrow> ustr \<Rightarrow> ((ustr \<times> json) list \<times> ustr) option" where
  "read_value flt 0 s = None"
| "read_value flt (Suc n) s =
     (if s = [] then None
      else if hd s = 34 then map_option (\<lambda>(x, r). (JString x, r)) (read_string (tl s))
      else if hd s = 123 then
        (let t = skip_space (tl s) in
         if t \<noteq> [] \<and> hd t = 125 then Some (JObject [], tl t)
         else (case read_members flt n t of
                 None \<Rightarrow> None
               | Some (members, r) \<Rightarrow> if distinct (map fst members) then Some (JObject members, r) else None))
      else if hd s = 91 then
        (let t = skip_space (tl s) in
         if t \<noteq> [] \<and> hd t = 93 then Some (JList [], tl t)
         else map_option (\<lambda>(xs, r). (JList xs, r)) (read_elements flt n t))
      else if starts_with (u ''null'') s then Some (JNull, drop 4 s)
      else if starts_with (u ''true'') s then Some (JBool True, drop 4 s)
      else if starts_with (u ''false'') s then Some (JBool False, drop 5 s)
      else read_number flt s)"
| "read_elements flt 0 s = None"
| "read_elements flt (Suc n) s =
     (case read_value flt n s of
        None \<Rightarrow> None
      | Some (x, r) \<Rightarrow>
          (let t = skip_space r in
           if t = [] then None
           else if hd t = 93 then Some ([x], tl t)
           else if hd t = 44 then map_option (\<lambda>(xs, r'). (x # xs, r')) (read_elements flt n (skip_space (tl t)))
           else None))"
| "read_members flt 0 s = None"
| "read_members flt (Suc n) s =
     (if s = [] \<or> hd s \<noteq> 34 then None
      else case read_string (tl s) of
        None \<Rightarrow> None
      | Some (k, r) \<Rightarrow>
          (let t = skip_space r in
           if t = [] \<or> hd t \<noteq> 58 then None
           else case read_value flt n (skip_space (tl t)) of
             None \<Rightarrow> None
           | Some (v, r') \<Rightarrow>
               (let t' = skip_space r' in
                if t' = [] then None
                else if hd t' = 125 then Some ([(k, v)], tl t')
                else if hd t' = 44
                then map_option (\<lambda>(kvs, r''). ((k, v) # kvs, r'')) (read_members flt n (skip_space (tl t')))
                else None)))"

definition loads :: "(ustr \<Rightarrow> ustr option) \<Rightarrow> ustr \<Rightarrow> json option" where
  "loads flt s =
     (if s \<noteq> [] \<and> hd s = 65279 then None
      else case read_value flt (Suc (2 * length s)) (skip_space s) of
        None \<Rightarrow> None
      | Some (j, r) \<Rightarrow> if skip_space r = [] then Some j else None)"

section \<open>UTF-8\<close>

definition continuation :: "int \<Rightarrow> bool" where
  "continuation c \<longleftrightarrow> 128 \<le> c \<and> c \<le> 191"

text \<open>Strict decoding: no overlong forms, no surrogates, nothing beyond the last code point.\<close>

fun decode_utf8_octets :: "int list \<Rightarrow> ustr option" where
  "decode_utf8_octets [] = Some []"
| "decode_utf8_octets (a # s) =
     (if a < 128 then map_option ((#) a) (decode_utf8_octets s)
      else if 194 \<le> a \<and> a \<le> 223 then
        (case s of
           b # s1 \<Rightarrow> if continuation b
                      then map_option ((#) ((a - 192) * 64 + (b - 128))) (decode_utf8_octets s1) else None
         | _ \<Rightarrow> None)
      else if 224 \<le> a \<and> a \<le> 239 then
        (case s of
           b # c # s2 \<Rightarrow>
             if continuation b \<and> continuation c \<and> (a = 224 \<longrightarrow> 160 \<le> b) \<and> (a = 237 \<longrightarrow> b \<le> 159)
             then map_option ((#) ((a - 224) * 4096 + (b - 128) * 64 + (c - 128))) (decode_utf8_octets s2) else None
         | _ \<Rightarrow> None)
      else if 240 \<le> a \<and> a \<le> 244 then
        (case s of
           b # c # d # s3 \<Rightarrow>
             if continuation b \<and> continuation c \<and> continuation d \<and> (a = 240 \<longrightarrow> 144 \<le> b) \<and> (a = 244 \<longrightarrow> b \<le> 143)
             then map_option ((#) ((a - 240) * 262144 + (b - 128) * 4096 + (c - 128) * 64 + (d - 128)))
               (decode_utf8_octets s3) else None
         | _ \<Rightarrow> None)
      else None)"

definition decode_utf8 :: "bytes \<Rightarrow> ustr option" where
  "decode_utf8 b = decode_utf8_octets (octets b)"

end
