(* ===== verification/Json_Rules.thy ===== *)
theory Json_Rules
  imports Json
begin

text \<open>
  Facts about the JSON codec: the scanner's fuel is enough, what is written is ASCII, and it
  reads back to the same value with sorted keys, in the compact and in the indented form.
\<close>

section \<open>The fuel is enough\<close>

lemma put_c_Some: "put_c c r = Some (s, rest) \<longleftrightarrow> (\<exists>s'. r = Some (s', rest) \<and> s = c # s')"
  by (auto simp: put_c_def)

lemma read_string_length: "read_string s = Some (x, r) \<Longrightarrow> length r < length s"
proof (induction s arbitrary: x r rule: read_string.induct)
  case (2 c s)
  show ?case
  proof (cases "c = 92")
    case True
    then obtain e t where s: "s = e # t" using "2.prems" by (auto split: list.splits)
    show ?thesis
    proof (cases "e = 117")
      case e: True
      then obtain x' r' where u: "read_unicode t = Some (x', r')" using "2.prems" True s by (auto split: option.splits)
      then obtain y where "read_string r' = Some (y, r)" using "2.prems" True s e by (auto simp: put_c_Some)
      from "2.IH"(1) [OF _ True s e u _ this] read_unicode_length [OF u] True s show ?thesis by simp
    next
      case False
      then obtain x' where u: "unescape_c e = Some x'" using "2.prems" True s by (auto split: option.splits)
      then obtain y where "read_string t = Some (y, r)" using "2.prems" True s False by (auto simp: put_c_Some)
      from "2.IH"(2) [OF _ True s False u this] True s show ?thesis by simp
    qed
  next
    case False
    with "2.prems" "2.IH"(3) [OF _ False] show ?thesis by (fastforce simp: put_c_Some split: if_splits)
  qed
qed simp

lemma take_lengths:
  "take_sign s = (p, r) \<Longrightarrow> length r \<le> length s"
  "take_whole s = (p, r) \<Longrightarrow> p \<noteq> [] \<Longrightarrow> length r < length s"
  "take_fraction s = (p, r) \<Longrightarrow> length r \<le> length s"
  "take_exponent s = (p, r) \<Longrightarrow> length r \<le> length s"
  subgoal by (auto simp: take_sign_def split: if_splits)
  subgoal by (cases s) (auto simp: take_whole_def length_dropWhile_le le_imp_less_Suc split: if_splits)
  subgoal using length_dropWhile_le [of is_dec_c "tl s"] by (auto simp: take_fraction_def split: if_splits)
  subgoal using length_dropWhile_le [of is_dec_c "tl s"] length_dropWhile_le [of is_dec_c "tl (tl s)"]
    by (auto simp: take_exponent_def Let_def drop_Suc split: if_splits)
  done

lemma read_number_length: "read_number flt s = Some (x, r) \<Longrightarrow> length r < length s"
  by (auto simp: read_number_def split: prod.splits if_splits sum.splits dest!: take_lengths)

lemma skip_space_length: "length (skip_space s) \<le> length s"
  by (simp add: skip_space_def length_dropWhile_le)

lemma tl_skip_length: "skip_space s \<noteq> [] \<Longrightarrow> length (tl (skip_space s)) < length s"
  using skip_space_length [of s] by (cases "skip_space s") auto

lemma read_length:
  "read_value flt n s = Some (j, r) \<Longrightarrow> length r < length s"
  "read_elements flt n s = Some (xs, r) \<Longrightarrow> length r < length s"
  "read_members flt n s = Some (members, r) \<Longrightarrow> length r < length s"
proof (induction flt n s and flt n s and flt n s arbitrary: j r and xs r and members r
    rule: read_value_read_elements_read_members.induct)
  case (2 flt n s)
  then have ne: "s \<noteq> []" by auto
  then have t: "length (skip_space (tl s)) < length s" "length (tl (skip_space (tl s))) < length s"
    using skip_space_length [of "tl s"] by (cases s; auto)+
  consider x where "read_string (tl s) = Some (x, r)"
    | "r = tl (skip_space (tl s))"
    | m where "hd s \<noteq> 34" "hd s = 123" "\<not> (skip_space (tl s) \<noteq> [] \<and> hd (skip_space (tl s)) = 125)"
        "read_members flt n (skip_space (tl s)) = Some (m, r)"
    | xs where "hd s \<noteq> 34" "hd s \<noteq> 123" "hd s = 91" "\<not> (skip_space (tl s) \<noteq> [] \<and> hd (skip_space (tl s)) = 93)"
        "read_elements flt n (skip_space (tl s)) = Some (xs, r)"
    | "r = drop 4 s \<or> r = drop 5 s"
    | "read_number flt s = Some (j, r)"
    using "2.prems" ne unfolding read_value.simps Let_def
    by (auto split: if_splits option.splits)
  then show ?case
  proof cases
    case (1 x)
    then show ?thesis using read_string_length [of "tl s"] by fastforce
  next
    case 2
    then show ?thesis using t by simp
  next
    case (3 m)
    then show ?thesis using "2.IH"(1) [OF ne 3(1,2) refl 3(3,4)] t by simp
  next
    case (4 xs)
    then show ?thesis using "2.IH"(2) [OF ne 4(1,2,3) refl 4(4,5)] t by simp
  next
    case 5
    then show ?thesis using ne by (cases s) auto
  next
    case 6
    then show ?thesis by (rule read_number_length)
  qed
next
  case (4 flt n s)
  then obtain x q where v: "read_value flt n s = Some (x, q)" by (auto split: option.splits)
  have q: "length q < length s" using "4.IH"(1) [OF v] .
  have t: "length (skip_space q) < length s" "skip_space q \<noteq> [] \<Longrightarrow> length (tl (skip_space q)) < length s"
    "skip_space q \<noteq> [] \<Longrightarrow> length (skip_space (tl (skip_space q))) < length s"
    using q skip_space_length [of q] skip_space_length [of "tl (skip_space q)"] tl_skip_length [of q] by auto
  show ?case
    using "4.prems" "4.IH"(2) [OF v refl refl] t by (fastforce simp: v Let_def split: if_splits)
next
  case (6 flt n s)
  then obtain k q where k: "s \<noteq> []" "hd s = 34" "read_string (tl s) = Some (k, q)" by (auto split: if_splits option.splits)
  then have q: "length q < length s" using read_string_length [OF k(3)] by (cases s) auto
  obtain v q' where v: "skip_space q \<noteq> []" "hd (skip_space q) = 58" "read_value flt n (skip_space (tl (skip_space q))) = Some (v, q')"
    using "6.prems" k by (auto simp: Let_def split: if_splits option.splits)
  have "length (skip_space (tl (skip_space q))) < length s"
    using q v(1) skip_space_length [of "tl (skip_space q)"] tl_skip_length [of q] by linarith
  then have q': "length q' < length s" using "6.IH"(1) [of "(k, q)"] k v by force
  have t: "length (skip_space q') < length s" "skip_space q' \<noteq> [] \<Longrightarrow> length (tl (skip_space q')) < length s"
    "skip_space q' \<noteq> [] \<Longrightarrow> length (skip_space (tl (skip_space q'))) < length s"
    using q' skip_space_length [of q'] skip_space_length [of "tl (skip_space q')"] tl_skip_length [of q'] by auto
  show ?case
    using "6.prems" "6.IH"(2) t k v by (fastforce simp: Let_def split: if_splits)
qed simp_all

text \<open>Reading a text of length \<open>n\<close> needs no more than \<open>2 n + 1\<close> units.\<close>

lemma read_fuel:
  "2 * length s < n \<Longrightarrow> 2 * length s < m \<Longrightarrow> read_value flt n s = read_value flt m s"
  "2 * length s + 1 < n \<Longrightarrow> 2 * length s + 1 < m \<Longrightarrow> read_elements flt n s = read_elements flt m s"
  "2 * length s + 1 < n \<Longrightarrow> 2 * length s + 1 < m \<Longrightarrow> read_members flt n s = read_members flt m s"
proof (induction "length s" arbitrary: s n m rule: less_induct)
  case less
  note IH = less.hyps
  have val: "read_value flt n s = read_value flt m s" if n: "2 * length s < n" "2 * length s < m" for n m
  proof -
    obtain n' m' where nm: "n = Suc n'" "m = Suc m'" using n by (cases n; cases m) auto
    show ?thesis
    proof (cases "s = []")
      case False
      have t: "length (skip_space (tl s)) < length s" using False skip_space_length [of "tl s"] by (cases s) auto
      then have "2 * length (skip_space (tl s)) + 1 < n'" "2 * length (skip_space (tl s)) + 1 < m'"
        using n nm by auto
      then have "read_members flt n' (skip_space (tl s)) = read_members flt m' (skip_space (tl s))"
        "read_elements flt n' (skip_space (tl s)) = read_elements flt m' (skip_space (tl s))"
        by (rule IH(3) [OF t], rule IH(2) [OF t])
      then show ?thesis by (simp only: nm read_value.simps Let_def)
    qed (simp add: nm)
  qed
  have rest: "length (skip_space (tl (skip_space r))) < length s" if "length r < length s" "skip_space r \<noteq> []" for r
    using that skip_space_length [of "tl (skip_space r)"] tl_skip_length [of r] by linarith
  {
    case 1 then show ?case by (rule val)
  next
    case 2
    then obtain n' m' where nm: "n = Suc n'" "m = Suc m'" by (cases n; cases m) auto
    have v: "read_value flt n' s = read_value flt m' s" using 2 nm by (intro val) auto
    show ?case
    proof (cases "read_value flt m' s")
      case (Some p)
      then obtain x r where p: "read_value flt m' s = Some (x, r)" by (cases p) auto
      have "read_elements flt n' (skip_space (tl (skip_space r))) = read_elements flt m' (skip_space (tl (skip_space r)))"
        if "skip_space r \<noteq> []"
        using rest [OF read_length(1) [OF p] that] 2 nm by (intro IH(2)) auto
      then show ?thesis by (auto simp: nm v p Let_def)
    qed (simp add: nm v)
  next
    case 3
    then obtain n' m' where nm: "n = Suc n'" "m = Suc m'" by (cases n; cases m) auto
    show ?case
    proof (cases "s \<noteq> [] \<and> hd s = 34 \<and> (\<exists>k r. read_string (tl s) = Some (k, r) \<and> skip_space r \<noteq> [])")
      case True
      then obtain k r where k: "s \<noteq> []" "hd s = 34" "read_string (tl s) = Some (k, r)" "skip_space r \<noteq> []" by blast
      then have r: "length r < length s" using read_string_length [OF k(3)] by (cases s) auto
      let ?t = "skip_space (tl (skip_space r))"
      have v: "read_value flt n' ?t = read_value flt m' ?t" using rest [OF r k(4)] 3 nm by (intro IH(1)) auto
      show ?thesis
      proof (cases "read_value flt m' ?t")
        case (Some p)
        then obtain x q where p: "read_value flt m' ?t = Some (x, q)" by (cases p) auto
        have "length q < length s" using read_length(1) [OF p] rest [OF r k(4)] by simp
        then have "read_members flt n' (skip_space (tl (skip_space q))) = read_members flt m' (skip_space (tl (skip_space q)))"
          if "skip_space q \<noteq> []"
          using rest [OF _ that] 3 nm by (intro IH(3)) auto
        then show ?thesis using k v p by (auto simp: nm Let_def)
      qed (use k v in \<open>simp add: nm Let_def\<close>)
    qed (auto simp: nm Let_def split: option.splits)
  }
qed

section \<open>Strings\<close>

definition high_half :: "int \<Rightarrow> bool" where
  "high_half c \<longleftrightarrow> 55296 \<le> c \<and> c \<le> 56319"

definition low_half :: "int \<Rightarrow> bool" where
  "low_half c \<longleftrightarrow> 56320 \<le> c \<and> c \<le> 57343"

text \<open>Code points, with no two adjacent halves of a surrogate pair.\<close>

fun text_ok :: "ustr \<Rightarrow> bool" where
  "text_ok [] = True"
| "text_ok (c # s) = (0 \<le> c \<and> c < 1114112 \<and> \<not> (high_half c \<and> s \<noteq> [] \<and> low_half (hd s)) \<and> text_ok s)"

lemma hex_value_digit: "0 \<le> n \<Longrightarrow> n < 16 \<Longrightarrow> hex_value (hex_digit n) = Some n"
  by (simp add: hex_value_def hex_digit_def)

lemma hex_sum:
  fixes n :: int
  assumes "0 \<le> n" "n < 65536"
  shows "((n div 4096 mod 16 * 16 + n div 256 mod 16) * 16 + n div 16 mod 16) * 16 + n mod 16 = n"
proof -
  have d: "n div 256 = n div 16 div 16" "n div 4096 = n div 256 div 16"
    using zdiv_zmult2_eq [of 16 n 16] zdiv_zmult2_eq [of 16 n 256] by simp_all
  have "n div 4096 < 16" "0 \<le> n div 4096" using assms zdiv_mono1 [of n 65535 4096] by (simp_all add: pos_imp_zdiv_nonneg_iff)
  then have "n div 4096 mod 16 = n div 4096" by simp
  then have e1: "n div 4096 mod 16 * 16 + n div 256 mod 16 = n div 256"
    using div_mult_mod_eq [of "n div 256" 16] by (simp only: d(2))
  have e2: "n div 256 * 16 + n div 16 mod 16 = n div 16"
    using div_mult_mod_eq [of "n div 16" 16] by (simp only: d(1))
  show ?thesis unfolding e1 e2 by (rule div_mult_mod_eq)
qed

lemma read_hex4_hex4:
  assumes "0 \<le> n" "n < 65536"
  shows "read_hex4 (hex4 n @ r) = Some (n, r)"
proof -
  have digits: "those (map hex_value (hex4 n)) = Some [n div 4096 mod 16, n div 256 mod 16, n div 16 mod 16, n mod 16]"
    by (simp add: hex4_def hex_value_digit)
  have parts: "take 4 (hex4 n @ r) = hex4 n" "drop 4 (hex4 n @ r) = r" "(length (hex4 n @ r) < 4) = False"
    by (simp_all add: hex4_def)
  have "foldl (\<lambda>n d. n * 16 + d) 0 [n div 4096 mod 16, n div 256 mod 16, n div 16 mod 16, n mod 16] = n"
    using hex_sum [OF assms] by (simp only: foldl.simps mult_zero_left add_0_left)
  then show ?thesis by (simp only: read_hex4_def parts digits option.case if_False)
qed

lemma length_hex4 [simp]: "length (hex4 n) = 4"
  by (simp add: hex4_def)

lemma escape_c_cases:
  obtains x where "escape_c c = [92, x]" "unescape_c x = Some c" "x \<noteq> 117" | "c \<notin> {34, 92}" "32 \<le> c" "c \<le> 126" "escape_c c = [c]"
    | "c < 65536" "escape_c c = 92 # 117 # hex4 c"
    | "65536 \<le> c" "escape_c c = 92 # 117 # hex4 (55296 + (c - 65536) div 1024)
        @ 92 # 117 # hex4 (56320 + (c - 65536) mod 1024)"
proof -
  consider "c \<in> {34, 92, 10, 13, 9, 12, 8}" | "c \<notin> {34, 92}" "32 \<le> c" "c \<le> 126"
    | "c \<notin> {34, 92, 10, 13, 9, 12, 8}" "\<not> (32 \<le> c \<and> c \<le> 126)" "c < 65536" | "65536 \<le> c" by force
  then show thesis
  proof cases
    case 1
    have "\<exists>x. escape_c c = [92, x] \<and> unescape_c x = Some c \<and> x \<noteq> 117"
      using 1 by (elim insertE) (simp_all add: escape_c_def unescape_c_def)
    then show thesis using that(1) by blast
  next
    case 2
    then have "escape_c c = [c]" by (simp add: escape_c_def)
    with 2 show thesis by (rule that(2))
  next
    case 3
    then have "escape_c c = 92 # 117 # hex4 c" by (simp add: escape_c_def)
    with 3(3) show thesis by (rule that(3))
  next
    case 4
    then have "escape_c c = 92 # 117 # hex4 (55296 + (c - 65536) div 1024)
        @ 92 # 117 # hex4 (56320 + (c - 65536) mod 1024)" by (simp add: escape_c_def)
    with 4 show thesis by (rule that(4))
  qed
qed

lemma escape_c_unicode:
  assumes "d < 65536" "starts_with [92, 117] (escape_c d @ r)"
  shows "escape_c d = 92 # 117 # hex4 d"
proof (cases d rule: escape_c_cases)
  case (1 x)
  then show ?thesis using assms(2) by (simp add: starts_with_def)
next
  case 2
  then show ?thesis using assms(2) by (simp add: starts_with_def)
qed (use assms in simp_all)

lemma read_unicode_hex4:
  assumes "0 \<le> c" "c < 65536" "text_ok (c # s)"
  shows "read_unicode (hex4 c @ concat (map escape_c s) @ 34 # rest) = Some (c, concat (map escape_c s) @ 34 # rest)"
proof (cases "high_half c \<and> starts_with [92, 117] (concat (map escape_c s) @ 34 # rest)")
  case True
  then obtain d s' where s: "s = d # s'" by (cases s) (auto simp: starts_with_def)
  have d: "0 \<le> d" "d < 1114112" "\<not> low_half d" using assms(3) True by (simp_all add: s)
  have "\<exists>m r. escape_c d = 92 # 117 # hex4 m @ r \<and> 0 \<le> m \<and> m < 65536 \<and> \<not> low_half m"
  proof (cases "d < 65536")
    case c: True
    have "starts_with [92, 117] (escape_c d @ concat (map escape_c s') @ 34 # rest)" using True by (simp add: s)
    then have "escape_c d = 92 # 117 # hex4 d @ []" using escape_c_unicode [OF c] by simp
    then show ?thesis by (intro exI [of _ d] exI [of _ "[]"] conjI) (rule d c | assumption)+
  next
    case False
    then have "escape_c d = 92 # 117 # hex4 (55296 + (d - 65536) div 1024)
        @ 92 # 117 # hex4 (56320 + (d - 65536) mod 1024)" by (simp add: escape_c_def)
    moreover have "0 \<le> (d - 65536) div 1024" "(d - 65536) div 1024 < 1024"
      using False d zdiv_mono1 [of "d - 65536" 1048575 1024] by (simp_all add: pos_imp_zdiv_nonneg_iff)
    ultimately show ?thesis by (intro exI [of _ "55296 + (d - 65536) div 1024"]) (auto simp: low_half_def)
  qed
  then obtain m r where m: "escape_c d = 92 # 117 # hex4 m @ r" "0 \<le> m" "m < 65536" "\<not> low_half m" by blast
  show ?thesis using True m assms
    by (auto simp: read_unicode_def read_hex4_hex4 s low_half_def)
next
  case False
  then show ?thesis using assms by (auto simp: read_unicode_def read_hex4_hex4 high_half_def)
qed

lemma read_unicode_pair:
  assumes "65536 \<le> c" "c < 1114112"
  shows "read_unicode (hex4 (55296 + (c - 65536) div 1024) @ 92 # 117 # hex4 (56320 + (c - 65536) mod 1024) @ r) = Some (c, r)"
proof -
  let ?v = "c - 65536"
  have "0 \<le> ?v div 1024" "?v div 1024 \<le> 1023" "0 \<le> ?v mod 1024" "?v mod 1024 \<le> 1023"
    using assms zdiv_mono1 [of ?v 1048575 1024] by (auto simp: pos_imp_zdiv_nonneg_iff)
  then show ?thesis by (simp add: read_unicode_def read_hex4_hex4 starts_with_def)
qed

lemma read_string_escape:
  assumes "text_ok (c # s)"
  shows "read_string (escape_c c @ concat (map escape_c s) @ 34 # rest) = put_c c (read_string (concat (map escape_c s) @ 34 # rest))"
proof -
  let ?r = "concat (map escape_c s) @ 34 # rest"
  show ?thesis
  proof (cases c rule: escape_c_cases)
    case (1 x)
    then show ?thesis by simp
  next
    case 2
    then show ?thesis by simp
  next
    case 3
    have "\<not> c < 0" using assms by simp
    with 3 assms show ?thesis by (simp add: read_unicode_hex4)
  next
    case 4
    then show ?thesis using assms read_unicode_pair [of c ?r] by simp
  qed
qed

lemma read_string_quote: "text_ok s \<Longrightarrow> read_string (concat (map escape_c s) @ 34 # rest) = Some (s, rest)"
proof (induction s)
  case (Cons c s)
  then show ?case using read_string_escape [OF Cons.prems] by (simp add: put_c_def)
qed simp

section \<open>Reading back what was written\<close>

fun json_ok :: "json \<Rightarrow> bool" where
  "json_ok (JInt n) = (length (dec_digits \<bar>n\<bar>) \<le> max_str_digits)"
| "json_ok (JFloat f) = False"
| "json_ok (JString s) = text_ok s"
| "json_ok (JList xs) = list_all json_ok xs"
| "json_ok (JObject members) =
     (distinct (map fst members) \<and> list_all (\<lambda>(k, v). text_ok k \<and> json_ok v) members)"
| "json_ok j = True"

definition style_ok :: "json_style \<Rightarrow> bool" where
  "style_ok style \<longleftrightarrow> (\<forall>l. list_all is_json_space (js_newline style l))
     \<and> (\<exists>sp. js_colon style = 58 # sp \<and> list_all is_json_space sp)"

lemma style_ok_compact: "style_ok compact_style" and style_ok_indented: "style_ok indented_style"
  by (simp_all add: style_ok_def compact_style_def indented_style_def is_json_space_def list_all_iff)

text \<open>What may follow a number.\<close>

definition ends_number :: "ustr \<Rightarrow> bool" where
  "ends_number rest \<longleftrightarrow> rest = [] \<or> \<not> is_dec_c (hd rest) \<and> hd rest \<noteq> 46 \<and> hd rest \<noteq> 101 \<and> hd rest \<noteq> 69"

lemma skip_spaces [simp]: "list_all is_json_space sp \<Longrightarrow> skip_space (sp @ s) = skip_space s"
  by (induction sp) (simp_all add: skip_space_def)

lemma skip_space_start: "s = [] \<or> \<not> is_json_space (hd s) \<Longrightarrow> skip_space s = s"
  by (cases s) (simp_all add: skip_space_def)

lemma take_whole_digits:
  assumes "0 \<le> n" "ends_number rest"
  shows "take_whole (dec_digits n @ rest) = (dec_digits n, rest)"
proof (cases "n = 0")
  case True
  then have "dec_digits n = [48]" by (simp add: dec_digits.simps)
  then show ?thesis by (simp add: take_whole_def)
next
  case False
  then have hd: "hd (dec_digits n) \<noteq> 48" using assms(1) dec_digits_head by simp
  have all: "\<And>c. c \<in> set (dec_digits n) \<Longrightarrow> is_dec_c c"
    using dec_digits_all_dec [OF assms(1)] by (simp add: all_dec_def list_all_iff)
  have "takeWhile is_dec_c rest = []" "dropWhile is_dec_c rest = rest"
    using assms(2) by (cases rest; auto simp: ends_number_def)+
  then have "takeWhile is_dec_c (dec_digits n @ rest) = dec_digits n" "dropWhile is_dec_c (dec_digits n @ rest) = rest"
    using all by (simp_all add: takeWhile_append2 dropWhile_append2)
  then show ?thesis using hd by (simp add: take_whole_def)
qed

lemma ends_number_takes: "ends_number rest \<Longrightarrow> take_fraction rest = ([], rest)"
    "ends_number rest \<Longrightarrow> take_exponent rest = ([], rest)"
  by (auto simp: ends_number_def take_fraction_def take_exponent_def)

lemma int_text_Inr: "int_text n = Inr t \<longleftrightarrow>
    length (dec_digits \<bar>n\<bar>) \<le> max_str_digits \<and> t = (if n < 0 then 45 # dec_digits \<bar>n\<bar> else dec_digits \<bar>n\<bar>)"
  by (auto simp: int_text_def py_str_nat_def result_simps)

lemma read_number_int:
  assumes "int_text n = Inr t" "ends_number rest"
  shows "read_number flt (t @ rest) = Some (JInt n, rest)"
proof -
  let ?d = "dec_digits \<bar>n\<bar>"
  have t: "t = (if n < 0 then 45 # ?d else ?d)" and len: "length ?d \<le> max_str_digits"
    using assms(1) by (auto simp: int_text_Inr)
  have "is_dec_c (hd ?d)"
    using dec_digits_all_dec [of "\<bar>n\<bar>"] by (cases ?d) (auto simp: all_dec_def)
  then have "take_sign (t @ rest) = (if n < 0 then [45] else [], ?d @ rest)"
    by (auto simp: t take_sign_def is_dec_c_def)
  then show ?thesis
    using len take_whole_digits [OF _ assms(2), of "\<bar>n\<bar>"] ends_number_takes [OF assms(2)]
    by (simp add: read_number_def py_int_dec_def)
qed

text \<open>How a written value starts.\<close>

definition starts_value :: "ustr \<Rightarrow> bool" where
  "starts_value t \<longleftrightarrow> t \<noteq> [] \<and> \<not> is_json_space (hd t) \<and> hd t \<noteq> 93 \<and> hd t \<noteq> 125"

lemma int_text_start: "int_text n = Inr t \<Longrightarrow> t \<noteq> [] \<and> (hd t = 45 \<or> is_dec_c (hd t))"
  using dec_digits_all_dec [of "\<bar>n\<bar>"] by (cases "dec_digits \<bar>n\<bar>") (auto simp: int_text_Inr all_dec_def)

lemma bracketed_start [simp]: "bracketed style level opening closing items \<noteq> []"
    "hd (bracketed style level opening closing items) = opening"
  by (simp_all add: bracketed_def)

lemma write_starts: "json_ok j \<Longrightarrow> write_json style level j = Inr t \<Longrightarrow> starts_value t"
proof (cases j)
  case (JInt n)
  assume "write_json style level j = Inr t"
  then have "t \<noteq> [] \<and> (hd t = 45 \<or> is_dec_c (hd t))" using JInt int_text_start by simp
  then show ?thesis by (auto simp: starts_value_def is_json_space_def is_dec_c_def)
qed (auto simp: starts_value_def is_json_space_def u_def quote_def result_simps split: if_splits)

text \<open>A text that reads back to a value whatever follows it.\<close>

definition reads_back :: "(ustr \<Rightarrow> ustr option) \<Rightarrow> json \<Rightarrow> ustr \<Rightarrow> bool" where
  "reads_back flt j t \<longleftrightarrow> starts_value t \<and> (\<forall>rest n. ends_number rest \<longrightarrow> 2 * length (t @ rest) < n
     \<longrightarrow> read_value flt n (t @ rest) = Some (j, rest))"

lemma reads_backD:
  "reads_back flt j t \<Longrightarrow> ends_number rest \<Longrightarrow> 2 * length (t @ rest) < n \<Longrightarrow> read_value flt n (t @ rest) = Some (j, rest)"
  by (simp add: reads_back_def)

lemma ends_number_space: "list_all is_json_space sp \<Longrightarrow> c \<in> {44, 93, 125} \<Longrightarrow> ends_number (sp @ c # rest)"
  by (cases sp) (auto simp: ends_number_def is_json_space_def is_dec_c_def)

lemma read_elements_join:
  assumes "list_all2 (reads_back flt) xs ts" "ts \<noteq> []"
    and sp: "list_all is_json_space sp" "list_all is_json_space sp'"
    and "2 * length (join_with (44 # sp) ts @ sp' @ 93 # rest) + 1 < n"
  shows "read_elements flt n (join_with (44 # sp) ts @ sp' @ 93 # rest) = Some (xs, rest)"
  using assms(1,2,5)
proof (induction xs ts arbitrary: n rule: list_all2_induct)
  case (Cons x xs t ts)
  obtain m where n: "n = Suc m" using Cons.prems by (cases n) auto
  show ?case
  proof (cases "ts = []")
    case True
    then have "xs = []" using Cons.hyps(2) by simp
    moreover have "read_value flt m (t @ sp' @ 93 # rest) = Some (x, sp' @ 93 # rest)"
      using Cons.prems True n ends_number_space [OF sp(2)] by (intro reads_backD [OF Cons.hyps(1)]) auto
    moreover have "skip_space (sp' @ 93 # rest) = 93 # rest"
      using sp(2) by (simp add: skip_space_start is_json_space_def)
    ultimately show ?thesis using True by (simp add: n)
  next
    case False
    let ?r = "join_with (44 # sp) ts @ sp' @ 93 # rest"
    have shape: "join_with (44 # sp) (t # ts) @ sp' @ 93 # rest = t @ 44 # sp @ ?r"
      using False by (cases ts) auto
    have "read_value flt m (t @ 44 # sp @ ?r) = Some (x, 44 # sp @ ?r)"
      using Cons.prems n shape ends_number_space [of "[]" 44 "sp @ ?r"]
      by (intro reads_backD [OF Cons.hyps(1)]) auto
    moreover have "skip_space (44 # sp @ ?r) = 44 # sp @ ?r" by (simp add: skip_space_start is_json_space_def)
    moreover have "skip_space (sp @ ?r) = ?r"
    proof -
      obtain t' ts' where ts: "ts = t' # ts'" using False by (cases ts) auto
      then have "starts_value t'" using Cons.hyps(2) by (auto simp: list_all2_Cons2 reads_back_def)
      then have "\<not> is_json_space (hd ?r)" by (cases ts'; cases t') (auto simp: ts starts_value_def)
      then show ?thesis using sp(1) by (simp add: skip_space_start)
    qed
    moreover have "read_elements flt m ?r = Some (xs, rest)"
      using Cons.prems n shape by (intro Cons.IH False) auto
    ultimately show ?thesis unfolding shape by (simp add: n)
  qed
qed simp

text \<open>Members are written as key, colon and value.\<close>

definition reads_member :: "(ustr \<Rightarrow> ustr option) \<Rightarrow> ustr \<times> json \<Rightarrow> ustr \<Rightarrow> bool" where
  "reads_member flt kv t \<longleftrightarrow> (\<exists>sp t'. t = quote (fst kv) @ 58 # sp @ t' \<and> list_all is_json_space sp
     \<and> text_ok (fst kv) \<and> reads_back flt (snd kv) t')"

lemma read_members_join:
  assumes "list_all2 (reads_member flt) kvs ts" "ts \<noteq> []"
    and sp: "list_all is_json_space sp" "list_all is_json_space sp'"
    and "2 * length (join_with (44 # sp) ts @ sp' @ 125 # rest) + 1 < n"
  shows "read_members flt n (join_with (44 # sp) ts @ sp' @ 125 # rest) = Some (kvs, rest)"
  using assms(1,2,5)
proof (induction kvs ts arbitrary: n rule: list_all2_induct)
  case (Cons kv kvs t ts)
  obtain m where n: "n = Suc m" using Cons.prems by (cases n) auto
  obtain k v where kv: "kv = (k, v)" by (cases kv)
  obtain cs t' where t: "t = 34 # concat (map escape_c k) @ 34 # 58 # cs @ t'" "list_all is_json_space cs" "text_ok k"
      and t': "reads_back flt v t'"
    using Cons.hyps(1) by (auto simp: reads_member_def kv quote_def)
  have key: "read_string (concat (map escape_c k) @ 34 # 58 # cs @ t' @ r) = Some (k, 58 # cs @ t' @ r)" for r
    using read_string_quote [OF t(3)] by simp
  have colon: "skip_space (58 # cs @ t' @ r) = 58 # cs @ t' @ r" for r
    by (simp add: skip_space_start is_json_space_def)
  have val: "skip_space (cs @ t' @ r) = t' @ r" for r
    using t(2) t' by (simp add: reads_back_def starts_value_def skip_space_start)
  show ?case
  proof (cases "ts = []")
    case True
    then have "kvs = []" using Cons.hyps(2) by simp
    moreover have "read_value flt m (t' @ sp' @ 125 # rest) = Some (v, sp' @ 125 # rest)"
      using Cons.prems True n ends_number_space [OF sp(2)] t by (intro reads_backD [OF t']) auto
    moreover have "skip_space (sp' @ 125 # rest) = 125 # rest"
      using sp(2) by (simp add: skip_space_start is_json_space_def)
    ultimately show ?thesis using True key [of "sp' @ 125 # rest"] by (simp add: n kv t(1) colon val)
  next
    case False
    let ?r = "join_with (44 # sp) ts @ sp' @ 125 # rest"
    have shape: "join_with (44 # sp) (t # ts) @ sp' @ 125 # rest = t @ 44 # sp @ ?r"
      using False by (cases ts) auto
    have "read_value flt m (t' @ 44 # sp @ ?r) = Some (v, 44 # sp @ ?r)"
      using Cons.prems n shape t ends_number_space [of "[]" 44 "sp @ ?r"]
      by (intro reads_backD [OF t']) auto
    moreover have "skip_space (44 # sp @ ?r) = 44 # sp @ ?r" by (simp add: skip_space_start is_json_space_def)
    moreover have "skip_space (sp @ ?r) = ?r"
    proof -
      obtain q ts' where ts: "ts = q # ts'" using False by (cases ts) auto
      then have "\<exists>q'. q = 34 # q'" using Cons.hyps(2) by (auto simp: list_all2_Cons2 reads_member_def quote_def)
      then have "hd ?r = 34" by (cases ts') (auto simp: ts)
      then show ?thesis using sp(1) by (simp add: skip_space_start is_json_space_def)
    qed
    moreover have "read_members flt m ?r = Some (kvs, rest)"
      using Cons.prems n shape by (intro Cons.IH False) auto
    ultimately show ?thesis unfolding shape using key [of "44 # sp @ ?r"] by (simp add: n kv t(1) colon val)
  qed
qed simp

lemma read_bracketed:
  assumes "style_ok style"
  shows "list_all2 (reads_back flt) xs ts \<Longrightarrow> reads_back flt (JList xs) (bracketed style level 91 93 ts)"
    and "list_all2 (reads_member flt) kvs ts \<Longrightarrow> distinct (map fst kvs) \<Longrightarrow>
      reads_back flt (JObject kvs) (bracketed style level 123 125 ts)"
proof -
  have sp: "list_all is_json_space (js_newline style l)" for l using assms by (simp add: style_ok_def)
  show "reads_back flt (JList xs) (bracketed style level 91 93 ts)" if ts: "list_all2 (reads_back flt) xs ts"
    unfolding reads_back_def
  proof (intro conjI allI impI)
    show "starts_value (bracketed style level 91 93 ts)" by (simp add: starts_value_def is_json_space_def)
    fix rest n assume len: "2 * length (bracketed style level 91 93 ts @ rest) < n"
    then obtain m where n: "n = Suc m" by (cases n) auto
    show "read_value flt n (bracketed style level 91 93 ts @ rest) = Some (JList xs, rest)"
    proof (cases ts)
      case Nil
      with ts show ?thesis by (simp add: n bracketed_def skip_space_def is_json_space_def)
    next
      case (Cons t ts')
      let ?r = "join_with (44 # js_newline style (Suc level)) ts @ js_newline style level @ 93 # rest"
      have shape: "bracketed style level 91 93 ts @ rest = 91 # js_newline style (Suc level) @ ?r"
        using Cons by (simp add: bracketed_def)
      have "starts_value t" using ts Cons by (auto simp: list_all2_Cons2 reads_back_def)
      then have hd: "\<not> is_json_space (hd ?r)" "hd ?r \<noteq> 93"
        by (cases ts'; cases t; auto simp: Cons starts_value_def)+
      then have "skip_space (js_newline style (Suc level) @ ?r) = ?r" using sp by (simp add: skip_space_start)
      moreover have "read_elements flt m ?r = Some (xs, rest)"
        using len n shape Cons by (intro read_elements_join ts sp) auto
      ultimately show ?thesis using hd unfolding shape by (simp add: n)
    qed
  qed
  show "reads_back flt (JObject kvs) (bracketed style level 123 125 ts)"
    if ts: "list_all2 (reads_member flt) kvs ts" and d: "distinct (map fst kvs)"
    unfolding reads_back_def
  proof (intro conjI allI impI)
    show "starts_value (bracketed style level 123 125 ts)" by (simp add: starts_value_def is_json_space_def)
    fix rest n assume len: "2 * length (bracketed style level 123 125 ts @ rest) < n"
    then obtain m where n: "n = Suc m" by (cases n) auto
    show "read_value flt n (bracketed style level 123 125 ts @ rest) = Some (JObject kvs, rest)"
    proof (cases ts)
      case Nil
      with ts show ?thesis by (simp add: n bracketed_def skip_space_def is_json_space_def)
    next
      case (Cons t ts')
      let ?r = "join_with (44 # js_newline style (Suc level)) ts @ js_newline style level @ 125 # rest"
      have shape: "bracketed style level 123 125 ts @ rest = 123 # js_newline style (Suc level) @ ?r"
        using Cons by (simp add: bracketed_def)
      have "\<exists>q. t = 34 # q" using ts Cons by (auto simp: list_all2_Cons2 reads_member_def quote_def)
      then have hd: "hd ?r = 34" by (cases ts') (auto simp: Cons)
      then have "skip_space (js_newline style (Suc level) @ ?r) = ?r"
        using sp by (simp add: skip_space_start is_json_space_def)
      moreover have "read_members flt m ?r = Some (kvs, rest)"
        using len n shape Cons by (intro read_members_join ts sp) auto
      ultimately show ?thesis using hd d unfolding shape by (simp add: n)
    qed
  qed
qed

lemma starts_with_append [simp]: "starts_with p (p @ s)"
  by (simp add: starts_with_def)

lemma read_constants:
  "2 * length (u ''null'' @ rest) < n \<Longrightarrow> read_value flt n (u ''null'' @ rest) = Some (JNull, rest)"
  "2 * length (u ''true'' @ rest) < n \<Longrightarrow> read_value flt n (u ''true'' @ rest) = Some (JBool True, rest)"
  "2 * length (u ''false'' @ rest) < n \<Longrightarrow> read_value flt n (u ''false'' @ rest) = Some (JBool False, rest)"
  by (cases n; simp add: u_def starts_with_def)+

lemma write_reads_back:
  assumes "style_ok style"
  shows "json_ok j \<Longrightarrow> write_json style level j = Inr t \<Longrightarrow> reads_back flt j t"
proof (induction j arbitrary: level t)
  case JNull
  then have t: "t = u ''null''" by simp
  have "starts_value (u ''null'')" by (simp add: starts_value_def u_def is_json_space_def)
  then show ?case by (simp add: reads_back_def t read_constants)
next
  case (JBool b)
  then have t: "t = u (if b then ''true'' else ''false'')" by simp
  have "starts_value (u ''true'')" "starts_value (u ''false'')" by (simp_all add: starts_value_def u_def is_json_space_def)
  then show ?case by (cases b) (simp_all add: reads_back_def t read_constants)
next
  case (JInt i)
  have s: "starts_value t" using write_starts [OF JInt] .
  have t: "int_text i = Inr t" using JInt by simp
  then have "t \<noteq> []" "hd t = 45 \<or> is_dec_c (hd t)" using int_text_start by blast+
  then have "read_value flt n (t @ rest) = read_number flt (t @ rest)" if "2 * length (t @ rest) < n" for n rest
    using that by (cases n; cases t) (auto simp: is_dec_c_def u_def starts_with_def)
  with s show ?case by (simp add: reads_back_def read_number_int [OF t])
next
  case (JString s)
  then have t: "t = 34 # concat (map escape_c s) @ [34]" by (simp add: quote_def)
  have "read_value flt n (t @ rest) = Some (JString s, rest)" if "2 * length (t @ rest) < n" for n rest
    using that read_string_quote [of s rest] JString.prems by (cases n) (simp_all add: t)
  then show ?case by (simp add: reads_back_def t starts_value_def is_json_space_def)
next
  case (JList xs)
  then obtain ts where e: "emap (write_json style (Suc level)) xs = Inr ts" and t: "t = bracketed style level 91 93 ts"
    by (auto simp: result_simps)
  have "list_all2 (reads_back flt) xs ts"
    using e JList.prems(1) unfolding emap_eq_Inr
    by (auto simp: list_all_iff intro!: list.rel_mono_strong [OF _ JList.IH])
  then show ?case unfolding t by (rule read_bracketed(1) [OF assms])
next
  case (JObject members)
  let ?w = "\<lambda>(k, v). ebind (write_json style (Suc level) v) (\<lambda>t. Inr (quote k @ js_colon style @ t))"
  obtain ts where e: "emap ?w members = Inr ts" and t: "t = bracketed style level 123 125 ts"
    using JObject.prems(2) by (auto simp: result_simps)
  obtain sp where sp: "js_colon style = 58 # sp" "list_all is_json_space sp" using assms by (auto simp: style_ok_def)
  have "list_all2 (reads_member flt) members ts"
  proof (rule list.rel_mono_strong [OF e [unfolded emap_eq_Inr]])
    fix kv t' assume kv: "kv \<in> set members" and w: "?w kv = Inr t'"
    obtain k v where k: "kv = (k, v)" by (cases kv)
    obtain tv where v: "write_json style (Suc level) v = Inr tv" and t': "t' = quote k @ 58 # sp @ tv"
      using w by (auto simp: k result_simps sp(1))
    have "text_ok k" "json_ok v" using JObject.prems(1) kv by (auto simp: k list_all_iff)
    moreover have "reads_back flt v tv"
      by (rule JObject.IH [OF kv]) (use v \<open>json_ok v\<close> in \<open>auto simp: k\<close>)
    ultimately show "reads_member flt kv t'" using sp(2) by (auto simp: reads_member_def k t')
  qed
  then show ?case unfolding t using JObject.prems(1) by (intro read_bracketed(2) [OF assms]) simp_all
qed simp

section \<open>Sorting the keys\<close>

lemma keys_of_map: "map fst (map (\<lambda>(k, v). (k, f v)) members) = map fst members"
  by (induction members) auto

lemma distinct_sorted_keys: "distinct (map fst (sort_key fst members)) = distinct (map fst members)"
  by (simp add: distinct_map)

lemma sorted_keys_ok: "json_ok j \<Longrightarrow> json_ok (sorted_keys j)"
proof (induction j)
  case (JList xs)
  then show ?case by (auto simp: list_all_iff)
next
  case (JObject members)
  let ?m = "map (\<lambda>(k, v). (k, sorted_keys v)) members"
  have "distinct (map fst (sort_key fst ?m))"
    using JObject.prems by (simp only: distinct_sorted_keys keys_of_map json_ok.simps)
  moreover have "list_all (\<lambda>(k, v). text_ok k \<and> json_ok v) (sort_key fst ?m)"
    using JObject by (fastforce simp: list_all_iff)
  ultimately show ?case by simp
qed simp_all

lemma emap_ex: "(\<And>x. x \<in> set xs \<Longrightarrow> \<exists>y. f x = Inr y) \<Longrightarrow> \<exists>ys. emap f xs = Inr ys"
  by (induction xs) (auto simp: result_simps)

lemma write_total: "json_ok j \<Longrightarrow> \<exists>t. write_json style level j = Inr t"
proof (induction j arbitrary: level)
  case (JInt n)
  then show ?case by (auto simp: int_text_Inr)
next
  case (JList xs)
  have "\<exists>ts. emap (write_json style (Suc level)) xs = Inr ts"
    using JList by (intro emap_ex) (auto simp: list_all_iff)
  then show ?case by auto
next
  case (JObject members)
  have "\<exists>ts. emap (\<lambda>(k, v). ebind (write_json style (Suc level) v) (\<lambda>t. Inr (quote k @ js_colon style @ t))) members = Inr ts"
  proof (intro emap_ex)
    fix kv assume kv: "kv \<in> set members"
    then have "\<exists>t. write_json style (Suc level) (snd kv) = Inr t"
      using JObject.prems by (intro JObject.IH [of kv]) (auto simp: list_all_iff)
    then show "\<exists>y. (\<lambda>(k, v). ebind (write_json style (Suc level) v) (\<lambda>t. Inr (quote k @ js_colon style @ t))) kv = Inr y"
      by (cases kv) auto
  qed
  then show ?case by auto
qed simp_all

section \<open>The output is ASCII\<close>

lemma hex_digit_ascii: "is_ascii_c (hex_digit (n mod 16))"
proof -
  have "0 \<le> n mod 16" "n mod 16 < 16" by simp_all
  then show ?thesis by (auto simp: hex_digit_def is_ascii_c_def)
qed

lemma hex4_ascii [simp]: "py_isascii (hex4 n)"
  by (simp add: hex4_def hex_digit_ascii)

lemma escape_c_ascii: "py_isascii (escape_c c)"
proof (cases c rule: escape_c_cases)
  case (1 x)
  then have "is_ascii_c x" by (auto simp: unescape_c_def is_ascii_c_def split: if_splits)
  with 1 show ?thesis by (simp add: is_ascii_c_def)
qed (simp_all add: is_ascii_c_def)

lemma quote_ascii: "py_isascii (quote s)"
proof -
  have "py_isascii (concat (map escape_c s))" by (induction s) (simp_all add: escape_c_ascii)
  then show ?thesis by (simp add: quote_def is_ascii_c_def)
qed

lemma spaces_ascii: "list_all is_json_space sp \<Longrightarrow> py_isascii sp"
  by (auto simp: list_all_iff py_isascii_def is_json_space_def is_ascii_c_def)

lemma join_with_ascii: "py_isascii sep \<Longrightarrow> list_all py_isascii ts \<Longrightarrow> py_isascii (join_with sep ts)"
  by (induction sep ts rule: join_with.induct) simp_all

lemma bracketed_ascii:
  "style_ok style \<Longrightarrow> list_all py_isascii ts \<Longrightarrow> opening \<in> {91, 123} \<Longrightarrow> closing \<in> {93, 125} \<Longrightarrow>
    py_isascii (bracketed style level opening closing ts)"
  using spaces_ascii by (auto simp: bracketed_def style_ok_def is_ascii_c_def intro!: join_with_ascii)

lemma int_text_ascii: "int_text n = Inr t \<Longrightarrow> py_isascii t"
  using all_dec_isascii [OF dec_digits_all_dec, of "\<bar>n\<bar>"] by (auto simp: int_text_Inr is_ascii_c_def)

lemma emap_list_all: "emap f xs = Inr ys \<Longrightarrow> (\<And>x y. x \<in> set xs \<Longrightarrow> f x = Inr y \<Longrightarrow> P y) \<Longrightarrow> list_all P ys"
  by (auto simp: list_all_iff emap_Inr_set)

lemma write_ascii:
  assumes "style_ok style"
  shows "json_ok j \<Longrightarrow> write_json style level j = Inr t \<Longrightarrow> py_isascii t"
proof (induction j arbitrary: level t)
  case (JInt n)
  then show ?case using int_text_ascii by simp
next
  case (JString s)
  then show ?case using quote_ascii by auto
next
  case (JList xs)
  then obtain ts where e: "emap (write_json style (Suc level)) xs = Inr ts" and t: "t = bracketed style level 91 93 ts"
    by (auto simp: result_simps)
  have "list_all py_isascii ts" using e JList.IH JList.prems(1) by (rule_tac emap_list_all) (auto simp: list_all_iff)
  then show ?case unfolding t by (simp add: bracketed_ascii [OF assms])
next
  case (JObject members)
  let ?w = "\<lambda>(k, v). ebind (write_json style (Suc level) v) (\<lambda>t. Inr (quote k @ js_colon style @ t))"
  obtain ts where e: "emap ?w members = Inr ts" and t: "t = bracketed style level 123 125 ts"
    using JObject.prems(2) by (auto simp: result_simps)
  have colon: "py_isascii (js_colon style)" using assms spaces_ascii by (auto simp: style_ok_def is_ascii_c_def)
  have "list_all py_isascii ts"
  proof (rule emap_list_all [OF e])
    fix kv t' assume kv: "kv \<in> set members" and w: "?w kv = Inr t'"
    obtain tv where v: "write_json style (Suc level) (snd kv) = Inr tv" and t': "t' = quote (fst kv) @ js_colon style @ tv"
      using w by (cases kv) (auto simp: result_simps)
    have "json_ok (snd kv)" using JObject.prems(1) kv by (auto simp: list_all_iff)
    then have "py_isascii tv" using JObject.IH [OF kv _ _ v] by (cases kv) auto
    then show "py_isascii t'" by (simp add: t' quote_ascii colon)
  qed
  then show ?case unfolding t by (simp add: bracketed_ascii [OF assms])
qed (auto simp: u_def is_ascii_c_def)

theorem loads_dumps_space:
  assumes "json_ok j" "style_ok style"
  shows "\<exists>t. dumps style j = Inr t \<and> py_isascii t
    \<and> (\<forall>sp. list_all is_json_space sp \<longrightarrow> loads flt (t @ sp) = Some (sorted_keys j))"
proof -
  note ok = sorted_keys_ok [OF assms(1)]
  from write_total [OF ok] obtain t where t: "write_json style 0 (sorted_keys j) = Inr t" by blast
  then have r: "reads_back flt (sorted_keys j) t" by (rule write_reads_back [OF assms(2) ok])
  have ascii: "py_isascii t" using write_ascii [OF assms(2) ok t] .
  have start: "starts_value t" using r by (simp add: reads_back_def)
  have "loads flt (t @ sp) = Some (sorted_keys j)" if sp: "list_all is_json_space sp" for sp
  proof -
    have "ends_number sp" using sp by (cases sp) (auto simp: ends_number_def is_json_space_def is_dec_c_def)
    then have "read_value flt (Suc (2 * length (t @ sp))) (t @ sp) = Some (sorted_keys j, sp)"
      by (intro reads_backD [OF r]) auto
    moreover have "skip_space (t @ sp) = t @ sp" using start by (simp add: starts_value_def skip_space_start)
    moreover have "skip_space sp = []" using sp by (simp add: skip_space_def list_all_iff dropWhile_eq_Nil_conv)
    moreover have "hd (t @ sp) \<noteq> 65279"
      using ascii start by (cases t) (auto simp: is_ascii_c_def starts_value_def)
    ultimately show ?thesis by (simp add: loads_def)
  qed
  with t ascii show ?thesis by (auto simp: dumps_def)
qed

corollary loads_dumps:
  assumes "json_ok j" "style_ok style"
  shows "\<exists>t. dumps style j = Inr t \<and> loads flt t = Some (sorted_keys j) \<and> py_isascii t"
proof -
  from loads_dumps_space [OF assms, of flt] obtain t where "dumps style j = Inr t" "py_isascii t"
    "\<forall>sp. list_all is_json_space sp \<longrightarrow> loads flt (t @ sp) = Some (sorted_keys j)" by blast
  then show ?thesis by (intro exI [of _ t]) (auto dest: spec [of _ "[]"])
qed

section \<open>UTF-8\<close>

lemma decode_utf8_octets_ascii: "py_isascii s \<Longrightarrow> decode_utf8_octets s = Some s"
  by (induction s) (simp_all add: is_ascii_c_def)

lemma octets_ascii: "py_isascii s \<Longrightarrow> octets (map char_of s) = s"
proof (induction s)
  case (Cons c s)
  then have "0 \<le> c" "c < 256" by (simp_all add: is_ascii_c_def)
  then have "octet (char_of c) = c" by (simp add: octet_def)
  with Cons show ?case by simp
qed simp

lemma decode_utf8_ascii: "encode_ascii s = Some b \<Longrightarrow> decode_utf8 b = Some s"
  by (auto simp: encode_ascii_def decode_utf8_def octets_ascii decode_utf8_octets_ascii split: if_splits)

end
