(* ===== verification/Decision_Evidence.thy ===== *)
theory Decision_Evidence
  imports Resolver_Rules Json_Rules
begin

text \<open>
  Model of \<open>src/egressweave/decision_evidence.py\<close>: the canonical JSON digest, the fingerprint of
  a policy, the evidence record and its construction from a validated result that is checked
  again. Reading the packaged schema (\<open>get_decision_evidence_json_schema\<close>) is file access only
  and is left out.
\<close>

definition DECISION_EVIDENCE_SCHEMA_VERSION :: ustr where
  "DECISION_EVIDENCE_SCHEMA_VERSION = u ''egressweave.decision-evidence.v1''"

definition sha256_canonical_json :: "pyenv \<Rightarrow> json \<Rightarrow> ustr res" where
  "sha256_canonical_json E payload =
     ebind (dumps compact_style payload) (\<lambda>text.
     ebind (of_option UnicodeEncodeError (encode_ascii text)) (\<lambda>serialized.
     Inr (sha256_hex E serialized)))"

definition policy_payload :: "pyenv \<Rightarrow> EgressPolicy \<Rightarrow> json" where
  "policy_payload E p = JObject
     [(u ''allowed_authorities'',
         JList (map (\<lambda>(hostname, port). JList [JString hostname, JInt port]) (sorted_list_of_set (allowed_authorities p)))),
      (u ''allowed_methods'', JList (map JString (sorted_list_of_set (allowed_methods p)))),
      (u ''allow_local'', JBool (allow_local p)),
      (u ''connection_pool_policy'', JObject
         [(u ''keepalive_expiry_seconds'',
             JString (float_repr E (keepalive_expiry_seconds (connection_pool_policy p)))),
          (u ''max_connections'', JInt (max_connections (connection_pool_policy p))),
          (u ''max_keepalive_connections'', JInt (max_keepalive_connections (connection_pool_policy p)))]),
      (u ''dns_timeout_seconds'', JString (float_repr E (dns_timeout_seconds p))),
      (u ''max_resolved_addresses'', JInt (max_resolved_addresses p)),
      (u ''max_request_bytes'', JInt (max_request_bytes p)),
      (u ''max_request_header_fields'', JInt (max_request_header_fields p)),
      (u ''max_request_header_bytes'', JInt (max_request_header_bytes p)),
      (u ''max_request_target_bytes'', JInt (max_request_target_bytes p)),
      (u ''max_response_bytes'', JInt (max_response_bytes p)),
      (u ''max_response_header_fields'', JInt (max_response_header_fields p)),
      (u ''max_response_header_bytes'', JInt (max_response_header_bytes p)),
      (u ''request_timeout_policy'', JObject
         (map (\<lambda>(key, value). (u key, JString (float_repr E value)))
            (as_httpcore_timeout (request_timeout_policy p))))]"

definition policy_fingerprint :: "pyenv \<Rightarrow> EgressPolicy \<Rightarrow> ustr res" where
  "policy_fingerprint E p = sha256_canonical_json E (policy_payload E p)"

record EgressDecisionEvidence =
  ev_schema_version :: ustr
  ev_authority :: ustr
  ev_allowed_methods :: "ustr list"
  ev_address_count :: int
  ev_ipv4_address_count :: int
  ev_ipv6_address_count :: int
  ev_policy_fingerprint :: ustr
  ev_decision_fingerprint :: ustr

definition evidence_as_dict :: "EgressDecisionEvidence \<Rightarrow> json" where
  "evidence_as_dict e = JObject
     [(u ''schema_version'', JString (ev_schema_version e)),
      (u ''authority'', JString (ev_authority e)),
      (u ''allowed_methods'', JList (map JString (ev_allowed_methods e))),
      (u ''address_count'', JInt (ev_address_count e)),
      (u ''ipv4_address_count'', JInt (ev_ipv4_address_count e)),
      (u ''ipv6_address_count'', JInt (ev_ipv6_address_count e)),
      (u ''policy_fingerprint'', JString (ev_policy_fingerprint e)),
      (u ''decision_fingerprint'', JString (ev_decision_fingerprint e))]"

fun ip_version :: "ip_addr \<Rightarrow> int" where
  "ip_version (IPv4 _) = 4"
| "ip_version (IPv6 _ _) = 6"

definition address_versions :: "ustr list \<Rightarrow> int list res" where
  "address_versions addresses =
     emap (\<lambda>a. of_option (ValueError ''not an IP address'') (map_option ip_version (ip_of_text a))) addresses"

definition evidence_payload :: "ustr \<Rightarrow> ustr list \<Rightarrow> int list \<Rightarrow> ustr \<Rightarrow> json" where
  "evidence_payload authority methods versions policy_digest = JObject
     [(u ''schema_version'', JString DECISION_EVIDENCE_SCHEMA_VERSION),
      (u ''authority'', JString authority),
      (u ''allowed_methods'', JList (map JString methods)),
      (u ''address_count'', JInt (int (length versions))),
      (u ''ipv4_address_count'', JInt (int (count_list versions 4))),
      (u ''ipv6_address_count'', JInt (int (count_list versions 6))),
      (u ''policy_fingerprint'', JString policy_digest)]"

definition build_egress_decision_evidence ::
  "pyenv \<Rightarrow> candidate \<Rightarrow> EgressPolicy \<Rightarrow> EgressDecisionEvidence res" where
  "build_egress_decision_evidence E validated p =
     ebind (revalidate_pinned_egress_url E validated p) (\<lambda>revalidated.
     ebind (address_versions (vu_addresses revalidated)) (\<lambda>versions.
     ebind (policy_fingerprint E p) (\<lambda>policy_digest.
     let authority = vu_hostname revalidated @ 58 # dec_digits (vu_port revalidated);
         methods = sorted_list_of_set (allowed_methods p) in
     ebind (sha256_canonical_json E (evidence_payload authority methods versions policy_digest)) (\<lambda>decision_digest.
     Inr \<lparr>ev_schema_version = DECISION_EVIDENCE_SCHEMA_VERSION, ev_authority = authority,
          ev_allowed_methods = methods, ev_address_count = int (length versions),
          ev_ipv4_address_count = int (count_list versions 4),
          ev_ipv6_address_count = int (count_list versions 6),
          ev_policy_fingerprint = policy_digest, ev_decision_fingerprint = decision_digest\<rparr>))))"

section \<open>Facts\<close>

lemma ip_version_cases: "ip_version a = 4 \<or> ip_version a = 6"
  by (cases a) simp_all

lemma address_versions_Inr:
  assumes "address_versions addrs = Inr versions"
  shows "length versions = length addrs \<and> set versions \<subseteq> {4, 6}"
proof -
  have "x \<in> {4, 6}" if "x \<in> set versions" for x
    using that assms ip_version_cases by (auto simp: address_versions_def emap_Inr_set result_simps)
  then show ?thesis using emap_Inr_length assms by (auto simp: address_versions_def)
qed

lemma count_versions: "set versions \<subseteq> {4, 6} \<Longrightarrow> count_list versions 4 + count_list versions (6::int) = length versions"
  by (induction versions) auto

text \<open>Addresses that pass the check parse, so their versions are found.\<close>

lemma address_versions_total:
  "\<forall>t \<in> set addrs. validated_address E p h t \<Longrightarrow> \<exists>versions. address_versions addrs = Inr versions"
  unfolding address_versions_def
  by (rule emap_ex) (auto simp: validated_address_def split: option.splits)

text \<open>The evidence as a function of what it may depend on.\<close>

definition evidence_of :: "pyenv \<Rightarrow> EgressPolicy \<Rightarrow> ustr \<Rightarrow> int \<Rightarrow> nat \<Rightarrow> nat \<Rightarrow> EgressDecisionEvidence res" where
  "evidence_of E p h n v4 v6 =
     (let authority = h @ 58 # dec_digits n; methods = sorted_list_of_set (allowed_methods p);
          versions = replicate v4 4 @ replicate v6 6 in
      ebind (policy_fingerprint E p) (\<lambda>policy_digest.
      ebind (sha256_canonical_json E (evidence_payload authority methods versions policy_digest)) (\<lambda>decision_digest.
      Inr \<lparr>ev_schema_version = DECISION_EVIDENCE_SCHEMA_VERSION, ev_authority = authority,
           ev_allowed_methods = methods, ev_address_count = int v4 + int v6,
           ev_ipv4_address_count = int v4, ev_ipv6_address_count = int v6,
           ev_policy_fingerprint = policy_digest, ev_decision_fingerprint = decision_digest\<rparr>)))"

definition version_count :: "int \<Rightarrow> ustr list \<Rightarrow> nat" where
  "version_count v addrs = length (filter (\<lambda>a. map_option ip_version (ip_of_text a) = Some v) addrs)"

lemma address_versions_count:
  "address_versions addrs = Inr versions \<Longrightarrow> count_list versions v = version_count v addrs"
proof (induction addrs arbitrary: versions)
  case Nil
  then show ?case by (simp add: address_versions_def version_count_def)
next
  case (Cons a addrs)
  then show ?case by (auto simp: address_versions_def version_count_def result_simps)
qed

lemma count_list_replicate: "count_list (replicate n x) y = (if x = y then n else 0)"
  by (induction n) auto

lemma evidence_payload_counts:
  assumes "set versions \<subseteq> {4, 6}"
  shows "evidence_payload a m versions d
    = evidence_payload a m (replicate (count_list versions 4) 4 @ replicate (count_list versions 6) 6) d"
  using count_versions [OF assms] by (simp add: evidence_payload_def count_list_replicate)

lemma build_evidence_of:
  "build_egress_decision_evidence E c p =
     ebind (revalidate_pinned_egress_url E c p) (\<lambda>v.
     ebind (address_versions (vu_addresses v)) (\<lambda>_.
     evidence_of E p (vu_hostname v) (vu_port v) (version_count 4 (vu_addresses v)) (version_count 6 (vu_addresses v))))"
proof (cases "revalidate_pinned_egress_url E c p")
  case (Inr v)
  show ?thesis
  proof (cases "address_versions (vu_addresses v)")
    case versions: (Inr versions)
    have s: "set versions \<subseteq> {4, 6}" using address_versions_Inr [OF versions] by simp
    note counts = address_versions_count [OF versions]
    have len: "int (length versions) = int (version_count 4 (vu_addresses v)) + int (version_count 6 (vu_addresses v))"
      using count_versions [OF s] by (simp add: counts flip: of_nat_add)
    show ?thesis
      using evidence_payload_counts [OF s]
      by (simp add: build_egress_decision_evidence_def evidence_of_def Inr versions Let_def counts len)
  qed (simp add: build_egress_decision_evidence_def Inr)
qed (simp add: build_egress_decision_evidence_def)

text \<open>What re-validation has checked about its result.\<close>

lemma revalidated_sound:
  assumes "revalidate_pinned_egress_url E cand p = Inr v" "policy_ok E p"
  shows "normalize_egress_url E (Some (vu_normalized_url v)) p
      = Inr (Some (vu_normalized_url v, vu_hostname v, vu_port v))
    \<and> vu_addresses v \<noteq> [] \<and> int (length (vu_addresses v)) \<le> max_resolved_addresses p
    \<and> (\<forall>t \<in> set (vu_addresses v). validated_address E p (vu_hostname v) t)"
proof -
  from assms(1) obtain c where cand: "cand = ResultObject c"
    by (cases cand) (simp_all add: revalidate_pinned_egress_url_def)
  obtain signature uv hv pv avs addrs where
    f: "checked_fields c = Inr (signature, uv, vu_normalized_url v, hv, vu_hostname v, pv, vu_port v, avs, addrs)"
    and n: "normalize_egress_url E (Some (vu_normalized_url v)) p
      = Inr (Some (vu_normalized_url v, vu_hostname v, vu_port v))"
    and a: "validate_bounded_unique_addresses E addrs p (vu_hostname v) = Inr (vu_addresses v)"
    using assms(1) unfolding cand by (rule revalidate_Inr)
  have "addrs \<noteq> []" using checked_fields_Inr [OF f] emap_Inr_length by fastforce
  then have "vu_addresses v \<noteq> []" using bounded_unique_nonempty [OF a] by blast
  with n bounded_unique_sound [OF a] assms(2) show ?thesis by (simp add: policy_ok_def)
qed

text \<open>A payload of well-formed texts and printable integers has a digest, and so every policy
  whose numbers CPython can print has evidence.\<close>

lemma sha256_canonical_json_total:
  "json_ok j \<Longrightarrow> \<exists>b. py_isascii (octets b) \<and> sha256_canonical_json E j = Inr (sha256_hex E b)"
proof -
  assume "json_ok j"
  then obtain t where t: "dumps compact_style j = Inr t" "py_isascii t"
    using loads_dumps [OF _ style_ok_compact, of j] by blast
  then show ?thesis
    by (intro exI [of _ "map char_of t"]) (simp add: sha256_canonical_json_def encode_ascii_def octets_ascii)
qed

lemma text_ok_ascii: "py_isascii s \<Longrightarrow> text_ok s"
  by (induction s) (auto simp: is_ascii_c_def high_half_def)

lemma decision_evidence_total:
  assumes re: "revalidate_pinned_egress_url E c p = Inr v" and ok: "policy_ok E p"
    and payload: "json_ok (policy_payload E p)" and hex: "\<And>b. py_isascii (octets b) \<Longrightarrow> py_isascii (sha256_hex E b)"
    and texts: "text_ok (vu_hostname v @ 58 # dec_digits (vu_port v))" "list_all text_ok (sorted_list_of_set (allowed_methods p))"
    and few: "length (vu_addresses v) < 10"
  shows "\<exists>ev. build_egress_decision_evidence E c p = Inr ev"
proof -
  obtain versions where versions: "address_versions (vu_addresses v) = Inr versions"
    using address_versions_total re ok revalidated_sound by meson
  obtain b where b: "py_isascii (octets b)" and digest: "policy_fingerprint E p = Inr (sha256_hex E b)"
    using sha256_canonical_json_total [OF payload, of E] by (auto simp: policy_fingerprint_def)
  have small: "length (dec_digits n) \<le> max_str_digits" if "n < 10" for n
    using that by (subst dec_digits.simps) (simp add: max_str_digits_def)
  have "length versions < 10" using address_versions_Inr [OF versions] few by simp
  moreover have "count_list versions x \<le> length versions" for x by (rule count_le_length)
  ultimately have "json_ok (evidence_payload (vu_hostname v @ 58 # dec_digits (vu_port v))
      (sorted_list_of_set (allowed_methods p)) versions (sha256_hex E b))"
    using texts text_ok_ascii [OF hex [OF b]] small le_less_trans [of "count_list versions _" "length versions" 10]
    by (simp add: evidence_payload_def u_def DECISION_EVIDENCE_SCHEMA_VERSION_def high_half_def list.pred_map comp_def)
  from sha256_canonical_json_total [OF this, of E] show ?thesis
    by (auto simp: build_egress_decision_evidence_def re versions digest Let_def)
qed

section \<open>Properties\<close>

text \<open>Decision evidence exists only for a result that re-validates under the policy, and says
  of it exactly the authority, the sorted methods of the policy and how many addresses of
  each family are pinned: at least one, no more than the policy permits, and the two counts
  add up. Its decision fingerprint is the digest of the canonical JSON of the other fields.\<close>

theorem decision_evidence_sound:
  assumes built: "build_egress_decision_evidence E c p = Inr ev" and ok: "policy_ok E p"
  shows "\<exists>v. revalidate_pinned_egress_url E c p = Inr v
    \<and> normalize_egress_url E (Some (vu_normalized_url v)) p = Inr (Some (vu_normalized_url v, vu_hostname v, vu_port v))
    \<and> ev_authority ev = vu_hostname v @ 58 # dec_digits (vu_port v)
    \<and> ev_allowed_methods ev = sorted_list_of_set (allowed_methods p)
    \<and> ev_address_count ev = int (length (vu_addresses v))
    \<and> ev_address_count ev = ev_ipv4_address_count ev + ev_ipv6_address_count ev
    \<and> 1 \<le> ev_address_count ev \<and> ev_address_count ev \<le> max_resolved_addresses p
    \<and> policy_fingerprint E p = Inr (ev_policy_fingerprint ev)
    \<and> (\<exists>text bytes. dumps compact_style (JObject (filter (\<lambda>(k, _). k \<noteq> u ''decision_fingerprint'')
            (case evidence_as_dict ev of JObject members \<Rightarrow> members | _ \<Rightarrow> []))) = Inr text
         \<and> encode_ascii text = Some bytes \<and> ev_decision_fingerprint ev = sha256_hex E bytes)"
proof -
  obtain v versions digest decision where v: "revalidate_pinned_egress_url E c p = Inr v"
    and versions: "address_versions (vu_addresses v) = Inr versions"
    and digest: "policy_fingerprint E p = Inr digest"
    and decision: "sha256_canonical_json E (evidence_payload (vu_hostname v @ 58 # dec_digits (vu_port v))
        (sorted_list_of_set (allowed_methods p)) versions digest) = Inr decision"
    and ev: "ev = \<lparr>ev_schema_version = DECISION_EVIDENCE_SCHEMA_VERSION,
        ev_authority = vu_hostname v @ 58 # dec_digits (vu_port v),
        ev_allowed_methods = sorted_list_of_set (allowed_methods p), ev_address_count = int (length versions),
        ev_ipv4_address_count = int (count_list versions 4), ev_ipv6_address_count = int (count_list versions 6),
        ev_policy_fingerprint = digest, ev_decision_fingerprint = decision\<rparr>"
    using built by (auto simp: build_egress_decision_evidence_def result_simps Let_def)
  note sound = revalidated_sound [OF v ok] and n = address_versions_Inr [OF versions]
  have "JObject (filter (\<lambda>(k, _). k \<noteq> u ''decision_fingerprint'')
      (case evidence_as_dict ev of JObject members \<Rightarrow> members | _ \<Rightarrow> []))
    = evidence_payload (vu_hostname v @ 58 # dec_digits (vu_port v)) (sorted_list_of_set (allowed_methods p)) versions digest"
    by (simp add: evidence_as_dict_def evidence_payload_def ev u_def)
  moreover have "int (length versions) = int (count_list versions 4) + int (count_list versions 6)"
    using count_versions [of versions] n by linarith
  ultimately show ?thesis
    using v sound n digest decision ev length_greater_0_conv [of "vu_addresses v"]
    by (auto simp: sha256_canonical_json_def result_simps simp del: length_greater_0_conv)
qed

text \<open>C25: decision evidence reveals neither the path nor the addresses: two results that re-validate
  with the same authority and the same numbers of addresses of each family give the same
  evidence.\<close>

theorem decision_evidence_confidential:
  assumes "revalidate_pinned_egress_url E c p = Inr v" "revalidate_pinned_egress_url E c' p = Inr v'"
    and "vu_hostname v = vu_hostname v'" "vu_port v = vu_port v'"
    and "version_count 4 (vu_addresses v) = version_count 4 (vu_addresses v')"
      "version_count 6 (vu_addresses v) = version_count 6 (vu_addresses v')"
    and "policy_ok E p"
  shows "build_egress_decision_evidence E c p = build_egress_decision_evidence E c' p"
proof -
  obtain ws ws' where "address_versions (vu_addresses v) = Inr ws" "address_versions (vu_addresses v') = Inr ws'"
    using address_versions_total revalidated_sound assms(1,2,7) by meson
  then show ?thesis using assms by (simp add: build_evidence_of)
qed

section \<open>Witnesses\<close>

definition other_result :: ValidatedEgressURL where
  "other_result = make_validated_egress_url ascii_env (u ''https://api.example.com/private/7'')
     (u ''api.example.com'') 443 [u ''2606:4700::2222'', u ''93.184.216.35'']"

lemma other_revalidate:
  "revalidate_pinned_egress_url ascii_env (as_candidate other_result) example_policy = Inr other_result"
  by code_simp

lemma decision_evidence_sound_witness:
  "\<exists>ev. build_egress_decision_evidence ascii_env (as_candidate example_result) example_policy = Inr ev
    \<and> ev_authority ev = u ''api.example.com:443'' \<and> ev_address_count ev = 2"
proof -
  have texts: "text_ok (vu_hostname example_result @ 58 # dec_digits (vu_port example_result))
      \<and> list_all text_ok (sorted_list_of_set (allowed_methods example_policy))
      \<and> length (vu_addresses example_result) < 10" by code_simp
  have payload: "json_ok (policy_payload ascii_env example_policy)" by code_simp
  have hex: "py_isascii (sha256_hex ascii_env b)" if "py_isascii (octets b)" for b
    using that by (simp add: ascii_env_def)
  obtain ev where ev: "build_egress_decision_evidence ascii_env (as_candidate example_result) example_policy = Inr ev"
    using decision_evidence_total [OF example_revalidate example_policy_ok payload hex] texts by blast
  obtain v where "revalidate_pinned_egress_url ascii_env (as_candidate example_result) example_policy = Inr v"
    and a: "ev_authority ev = vu_hostname v @ 58 # dec_digits (vu_port v)"
    and n: "ev_address_count ev = int (length (vu_addresses v))"
    using decision_evidence_sound [OF ev example_policy_ok] by blast
  then have v: "v = example_result" by (simp add: example_revalidate)
  have "vu_hostname example_result @ 58 # dec_digits (vu_port example_result) = u ''api.example.com:443''
      \<and> length (vu_addresses example_result) = 2" by code_simp
  with ev a n show ?thesis by (simp add: v)
qed

lemma decision_evidence_confidential_witness:
  "build_egress_decision_evidence ascii_env (as_candidate example_result) example_policy
     = build_egress_decision_evidence ascii_env (as_candidate other_result) example_policy
   \<and> vu_addresses example_result \<noteq> vu_addresses other_result"
proof -
  have "version_count 4 (vu_addresses example_result) = version_count 4 (vu_addresses other_result)"
    "version_count 6 (vu_addresses example_result) = version_count 6 (vu_addresses other_result)"
    "vu_hostname example_result = vu_hostname other_result" "vu_port example_result = vu_port other_result"
    "vu_addresses example_result \<noteq> vu_addresses other_result"
    by code_simp+
  with decision_evidence_confidential [OF example_revalidate other_revalidate] example_policy_ok show ?thesis by blast
qed

end
