(* ===== verification/Release_Files.thy ===== *)
theory Release_Files
  imports Json
begin

text \<open>
  The file boundary of \<open>src/egressweave/release_evidence.py\<close>: bounded reads of regular files,
  digests, the canonical evidence directory and the selection of the six evidence files.

  The file system may change between any two system calls. A world gives what each call would
  answer at each moment; a call observes the present moment and moves the clock by one. Writing
  is recorded in the state. A path is the list of its components below the root, where a
  relative path is taken with the working directory in front. Messages that quote a file name
  are kept without the quoted part.
\<close>

section \<open>Operations over a changing file system\<close>

type_synonym path = "ustr list"

datatype node_kind = Regular | Directory | Symlink | Special

record file_state =
  st_kind :: node_kind
  st_identity :: "nat \<times> nat"        \<comment> \<open>device and inode\<close>
  st_size :: int
  st_mode :: nat                     \<comment> \<open>the permission bits\<close>
  st_nlink :: nat

text \<open>What reading an opened file to its end yields, and whether reading then fails.\<close>

record opened_file =
  op_state :: file_state
  op_bytes :: bytes
  op_fails :: bool

text \<open>What the methods of an open stream answer at a moment.\<close>

record stream_view =
  sv_fileno :: "pyval res"
  sv_fstat :: "file_state res"
  sv_tell :: "pyval res"
  sv_read :: "int \<Rightarrow> pyval res"
  sv_seek :: "int \<Rightarrow> pyval res"
  sv_bytes :: bytes                  \<comment> \<open>what reading from the start to the end yields\<close>
  sv_fails :: bool                   \<comment> \<open>whether reading then fails\<close>

datatype created = Created opened_file | AlreadyExists | CreateFails

record file_view =
  fv_open :: "path \<Rightarrow> opened_file option"         \<comment> \<open>None: \<open>OSError\<close>\<close>
  fv_lstat :: "path \<Rightarrow> file_state option"
  fv_stat :: "path \<Rightarrow> file_state option"             \<comment> \<open>following links\<close>
  fv_read :: "path \<Rightarrow> bytes option"                  \<comment> \<open>opened, following links, and read to the end\<close>
  fv_stream :: "nat \<times> nat \<Rightarrow> stream_view"           \<comment> \<open>an open stream, by the identity of its file\<close>
  fv_is_dir :: "path \<Rightarrow> bool"
  fv_is_file :: "path \<Rightarrow> bool"
  fv_is_symlink :: "path \<Rightarrow> bool"
  fv_resolve :: "path \<Rightarrow> path option"             \<comment> \<open>\<open>resolve(strict=True)\<close>\<close>
  fv_resolve_lax :: "path \<Rightarrow> path option"         \<comment> \<open>\<open>resolve()\<close>; None: a loop of links\<close>
  fv_entries :: "path \<Rightarrow> path list option"        \<comment> \<open>\<open>iterdir\<close>\<close>
  fv_mkdir :: "path \<Rightarrow> bool"                      \<comment> \<open>\<open>mkdir(parents=True, exist_ok=True)\<close> succeeds\<close>
  fv_create :: "path \<Rightarrow> created"                  \<comment> \<open>exclusive creation without following links\<close>
  fv_temporary :: "path option"                     \<comment> \<open>a new private directory\<close>
  fv_write_fails :: "path \<Rightarrow> bool"                \<comment> \<open>writing, flushing or \<open>fsync\<close> raises \<open>OSError\<close>\<close>

type_synonym world = "nat \<Rightarrow> file_view"

record world_state =
  clock :: nat
  written :: "(path \<times> bytes) list"

type_synonym 'a fsm = "world \<Rightarrow> world_state \<Rightarrow> 'a res \<times> world_state"

definition fret :: "'a \<Rightarrow> 'a fsm" where
  "fret x = (\<lambda>w s. (Inr x, s))"

definition fraise :: "exn \<Rightarrow> 'a fsm" where
  "fraise e = (\<lambda>w s. (Inl e, s))"

definition fbind :: "'a fsm \<Rightarrow> ('a \<Rightarrow> 'b fsm) \<Rightarrow> 'b fsm" where
  "fbind m f = (\<lambda>w s. case m w s of (Inl e, s') \<Rightarrow> (Inl e, s') | (Inr x, s') \<Rightarrow> f x w s')"

definition flift :: "'a res \<Rightarrow> 'a fsm" where
  "flift r = (\<lambda>w s. (r, s))"

definition observe :: "(file_view \<Rightarrow> 'a) \<Rightarrow> 'a fsm" where
  "observe q = (\<lambda>w s. (Inr (q (w (clock s))), s\<lparr>clock := Suc (clock s)\<rparr>))"

definition fcheck :: "bool \<Rightarrow> string \<Rightarrow> unit fsm" where
  "fcheck b message = flift (ensure b (SystemExit message))"

text \<open>Exclusive creation leaves an empty file; a write that fails may leave a part of its bytes.
  Both are recorded, the write with all its bytes.\<close>

definition fcreate :: "path \<Rightarrow> created fsm" where
  "fcreate path = (\<lambda>w s.
     case fv_create (w (clock s)) path of
       Created stream \<Rightarrow> (Inr (Created stream), \<lparr>clock = Suc (clock s), written = written s @ [(path, [])]\<rparr>)
     | outcome \<Rightarrow> (Inr outcome, s\<lparr>clock := Suc (clock s)\<rparr>))"

definition fwrite :: "path \<Rightarrow> bytes \<Rightarrow> bool fsm" where
  "fwrite path payload = (\<lambda>w s.
     (Inr (\<not> fv_write_fails (w (clock s)) path),
      \<lparr>clock = Suc (clock s), written = written s @ [(path, payload)]\<rparr>))"

text \<open>\<open>except SystemExit: raise SystemExit(message)\<close>.\<close>

definition fmask :: "'a fsm \<Rightarrow> string \<Rightarrow> 'a fsm" where
  "fmask m message = (\<lambda>w s. case m w s of
       (Inl (SystemExit _), s') \<Rightarrow> (Inl (SystemExit message), s') | r \<Rightarrow> r)"

section \<open>Bounded reads\<close>

definition MAX_CHECKSUM_BYTES :: int where "MAX_CHECKSUM_BYTES = 65536"
definition MAX_EVIDENCE_MANIFEST_BYTES :: int where "MAX_EVIDENCE_MANIFEST_BYTES = 65536"
definition MAX_SOURCE_IDENTITY_BYTES :: int where "MAX_SOURCE_IDENTITY_BYTES = 4096"
definition MAX_SBOM_BYTES :: int where "MAX_SBOM_BYTES = 8 * 1024 * 1024"
definition MAX_ARTIFACT_BYTES :: int where "MAX_ARTIFACT_BYTES = 256 * 1024 * 1024"

definition BLOCK_BYTES :: nat where "BLOCK_BYTES = 1048576"

definition require_open_regular_file :: "path \<Rightarrow> opened_file \<Rightarrow> string \<Rightarrow> unit fsm" where
  "require_open_regular_file path stream label =
     fbind (observe (\<lambda>v. fv_lstat v path)) (\<lambda>state.
       case state of
         None \<Rightarrow> fraise (SystemExit (label @ '' is unreadable or unsafe''))
       | Some path_state \<Rightarrow>
           fcheck (st_kind path_state = Regular \<and> st_kind (op_state stream) = Regular
                   \<and> st_identity path_state = st_identity (op_state stream))
             (label @ '' is unreadable or unsafe''))"

text \<open>The loop that hashes block by block. \<open>BLOCK_BYTES\<close> is positive, so the rest shrinks.\<close>

function hash_loop :: "int \<Rightarrow> string \<Rightarrow> int \<Rightarrow> bytes \<Rightarrow> unit res" where
  "hash_loop maximum_bytes label total_bytes rest =
     (if rest = [] then Inr ()
      else
       (let total = total_bytes + int (length (take BLOCK_BYTES rest)) in
        if total > maximum_bytes then Inl (SystemExit (label @ '' exceeds the safety bound''))
        else hash_loop maximum_bytes label total (drop BLOCK_BYTES rest)))"
  by pat_completeness auto
termination
  by (relation "measure (\<lambda>(_, _, _, rest). length rest)") (auto simp: BLOCK_BYTES_def)

declare hash_loop.simps [simp del]

definition sha256_file :: "pyenv \<Rightarrow> path \<Rightarrow> int \<Rightarrow> string \<Rightarrow> ustr fsm" where
  "sha256_file E path maximum_bytes label =
     fbind (observe (\<lambda>v. fv_open v path)) (\<lambda>opened.
       case opened of
         None \<Rightarrow> fraise (SystemExit (label @ '' is unreadable''))
       | Some stream \<Rightarrow>
           fbind (require_open_regular_file path stream label) (\<lambda>_.
           fbind (flift (hash_loop maximum_bytes label 0 (op_bytes stream))) (\<lambda>_.
           fbind (fcheck (\<not> op_fails stream) (label @ '' is unreadable'')) (\<lambda>_.
           fret (sha256_hex E (op_bytes stream))))))"

text \<open>The loop that keeps the blocks: each request leaves room for one byte beyond the bound.\<close>

function read_loop :: "int \<Rightarrow> string \<Rightarrow> bytes list \<Rightarrow> int \<Rightarrow> bytes \<Rightarrow> bytes list res" where
  "read_loop maximum_bytes label chunks total_bytes rest =
     (let size = min BLOCK_BYTES (nat (maximum_bytes - total_bytes + 1)); block = take size rest in
      if block = [] then Inr chunks
      else
       (let total = total_bytes + int (length block) in
        if total > maximum_bytes then Inl (SystemExit (label @ '' exceeds the safety bound''))
        else read_loop maximum_bytes label (chunks @ [block]) total (drop size rest)))"
  by pat_completeness auto
termination
  by (relation "measure (\<lambda>(_, _, _, _, rest). length rest)") (auto simp: BLOCK_BYTES_def)

declare read_loop.simps [simp del]

definition read_bounded_file :: "path \<Rightarrow> int \<Rightarrow> string \<Rightarrow> bytes fsm" where
  "read_bounded_file path maximum_bytes label =
     fbind (observe (\<lambda>v. fv_open v path)) (\<lambda>opened.
       case opened of
         None \<Rightarrow> fraise (SystemExit (label @ '' is unreadable''))
       | Some stream \<Rightarrow>
           fbind (require_open_regular_file path stream label) (\<lambda>_.
           fbind (flift (read_loop maximum_bytes label [] 0 (op_bytes stream))) (\<lambda>chunks.
           fbind (fcheck (\<not> op_fails stream) (label @ '' is unreadable'')) (\<lambda>_.
           fret (concat chunks)))))"

definition require_stable_read :: "pyenv \<Rightarrow> bytes \<Rightarrow> ustr \<Rightarrow> ustr \<Rightarrow> string \<Rightarrow> unit fsm" where
  "require_stable_read E content digest_before digest_after label =
     fcheck (sha256_hex E content = digest_before \<and> sha256_hex E content = digest_after)
       (label @ '' changed during verification'')"

section \<open>The evidence directory\<close>

text \<open>\<open>os.path.abspath\<close>: \<open>..\<close> removes the component before it.\<close>

definition up :: ustr where "up = u ''..''"

definition abspath :: "path \<Rightarrow> path" where
  "abspath p = rev (foldl (\<lambda>acc c. if c = up then tl acc else c # acc) [] p)"

definition require_canonical_evidence_root :: "path \<Rightarrow> path fsm" where
  "require_canonical_evidence_root evidence_dir =
     fbind (observe (\<lambda>v. fv_is_dir v evidence_dir)) (\<lambda>is_dir.
     fbind (fcheck is_dir ''release evidence directory is missing or unsafe'') (\<lambda>_.
     fbind (observe (\<lambda>v. fv_is_symlink v evidence_dir)) (\<lambda>is_symlink.
     fbind (fcheck (\<not> is_symlink) ''release evidence directory is missing or unsafe'') (\<lambda>_.
     fbind (observe (\<lambda>v. fv_resolve v evidence_dir)) (\<lambda>resolved.
       case resolved of
         None \<Rightarrow> fraise (SystemExit ''release evidence directory is missing or unsafe'')
       | Some resolved_root \<Rightarrow>
           fbind (fcheck (abspath evidence_dir = resolved_root)
                    ''release evidence directory path must not traverse symlinks'') (\<lambda>_.
           fret resolved_root))))))"

text \<open>\<open>any(path.is_symlink() or not path.is_file() for path in entries)\<close>, negated.\<close>

fun require_regular_entries :: "path list \<Rightarrow> unit fsm" where
  "require_regular_entries [] = fret ()"
| "require_regular_entries (p # ps) =
     fbind (observe (\<lambda>v. fv_is_symlink v p)) (\<lambda>is_symlink.
     fbind (fcheck (\<not> is_symlink) ''release evidence must contain regular direct-child files only'') (\<lambda>_.
     fbind (observe (\<lambda>v. fv_is_file v p)) (\<lambda>is_file.
     fbind (fcheck is_file ''release evidence must contain regular direct-child files only'') (\<lambda>_.
     require_regular_entries ps))))"

section \<open>Names\<close>

definition path_name :: "path \<Rightarrow> ustr" where
  "path_name p = (if p = [] then [] else last p)"

text \<open>Three runs of digits separated by full stops.\<close>

definition is_version :: "ustr \<Rightarrow> bool" where
  "is_version s \<longleftrightarrow> (let parts = py_split 46 s in
     length parts = 3 \<and> list_all (\<lambda>p. p \<noteq> [] \<and> all_dec p) parts)"

definition between :: "ustr \<Rightarrow> ustr \<Rightarrow> ustr \<Rightarrow> ustr option" where
  "between before after s =
     (if length before + length after \<le> length s \<and> starts_with before s
         \<and> drop (length s - length after) s = after
      then Some (take (length s - length before - length after) (drop (length before) s)) else None)"

definition version_between :: "ustr \<Rightarrow> ustr \<Rightarrow> ustr \<Rightarrow> ustr option" where
  "version_between before after s =
     (case between before after s of Some v \<Rightarrow> if is_version v then Some v else None | None \<Rightarrow> None)"

definition wheel_version :: "ustr \<Rightarrow> ustr option" where
  "wheel_version name = version_between (u ''egressweave-'') (u ''-py3-none-any.whl'') name"

definition sdist_version :: "ustr \<Rightarrow> ustr option" where
  "sdist_version name = version_between (u ''egressweave-'') (u ''.tar.gz'') name"

definition SOURCE_IDENTITY_FILENAME :: ustr where
  "SOURCE_IDENTITY_FILENAME = u ''SOURCE_IDENTITY.json''"

record evidence_paths =
  wheel_path :: path
  sdist_path :: path
  wheel_sbom :: path
  sdist_sbom :: path
  source_identity_path :: path
  checksum_path :: path
  wheel_release :: ustr        \<comment> \<open>the version in both artifact names\<close>

definition choose_evidence_paths :: "path \<Rightarrow> path list \<Rightarrow> evidence_paths res" where
  "choose_evidence_paths evidence_dir entries =
     (let wheels = filter (\<lambda>p. wheel_version (path_name p) \<noteq> None) entries;
          sdists = filter (\<lambda>p. sdist_version (path_name p) \<noteq> None) entries in
      if length wheels \<noteq> 1 \<or> length sdists \<noteq> 1
      then Inl (SystemExit ''release evidence requires exactly one canonical wheel and sdist'')
      else
       (let wheel = hd wheels; sdist = hd sdists in
        case (wheel_version (path_name wheel), sdist_version (path_name sdist)) of
          (Some wv, Some sv) \<Rightarrow>
            if wv \<noteq> sv then Inl (SystemExit ''wheel and source distribution versions do not match'')
            else
             (let wsbom = evidence_dir @ [path_name wheel @ u ''.cdx.json''];
                  ssbom = evidence_dir @ [path_name sdist @ u ''.cdx.json''];
                  identity = evidence_dir @ [SOURCE_IDENTITY_FILENAME];
                  checksums = evidence_dir @ [u ''SHA256SUMS''];
                  legacy_expected = {wheel, sdist, wsbom, ssbom, checksums} in
              if set entries = legacy_expected
              then Inl (SystemExit ''release evidence lacks sealed source identity'')
              else if set entries \<noteq> insert identity legacy_expected
              then Inl (SystemExit ''release evidence cardinality mismatch'')
              else Inr \<lparr>wheel_path = wheel, sdist_path = sdist, wheel_sbom = wsbom, sdist_sbom = ssbom,
                        source_identity_path = identity, checksum_path = checksums, wheel_release = wv\<rparr>)
        | _ \<Rightarrow> Inl (SystemExit ''release evidence requires exactly one canonical wheel and sdist'')))"

definition select_evidence_paths :: "path \<Rightarrow> evidence_paths fsm" where
  "select_evidence_paths evidence_dir =
     fbind (require_canonical_evidence_root evidence_dir) (\<lambda>root.
     fbind (observe (\<lambda>v. fv_entries v root)) (\<lambda>listed.
       case listed of
         None \<Rightarrow> fraise (SystemExit ''release evidence directory is unreadable'')
       | Some children \<Rightarrow>
           (let entries = sort_key path_name children in
            fbind (require_regular_entries entries) (\<lambda>_.
            flift (choose_evidence_paths root entries)))))"

end
