(* ===== verification/Release_Manifest.thy ===== *)
theory Release_Manifest
  imports Release_Files Json_Rules "HOL-Library.Word"
begin

unbundle bit_operations_syntax

text \<open>
  The verifier of \<open>src/egressweave/release_evidence.py\<close>: the checksum file, the sealed source
  identity, the content-bound identity of an SBOM and its binding to an artifact, and the
  manifest built from them. SHA-1 (inside \<open>uuid.uuid5\<close>) and the conversion of a float literal
  are parameters, as SHA-256 is.
\<close>

record release_lib =
  rl_env :: pyenv
  rl_sha1 :: "bytes \<Rightarrow> bytes"              \<comment> \<open>\<open>hashlib.sha1(b).digest()\<close>\<close>
  rl_float :: "ustr \<Rightarrow> ustr option"        \<comment> \<open>\<open>repr(float(s))\<close>; None: infinite\<close>

definition DISTRIBUTION_NAME :: ustr where "DISTRIBUTION_NAME = u ''egressweave''"
definition EXPECTED_REPOSITORY :: ustr where "EXPECTED_REPOSITORY = u ''ContextualWisdomLab/EgressWeave''"
definition CYCLONEDX_SCHEMA :: ustr where "CYCLONEDX_SCHEMA = u ''https://cyclonedx.org/schema/bom-1.7.schema.json''"
definition CYCLONEDX_FORMAT :: ustr where "CYCLONEDX_FORMAT = u ''CycloneDX''"
definition CYCLONEDX_SPEC_VERSION :: ustr where "CYCLONEDX_SPEC_VERSION = u ''1.7''"
definition CYCLONEDX_DOCUMENT_VERSION :: int where "CYCLONEDX_DOCUMENT_VERSION = 1"
definition ATTESTATION_PREDICATE_TYPE :: ustr where "ATTESTATION_PREDICATE_TYPE = u ''https://cyclonedx.org/bom''"
definition EVIDENCE_MANIFEST_FORMAT :: ustr where "EVIDENCE_MANIFEST_FORMAT = u ''egressweave.release-evidence''"
definition EVIDENCE_MANIFEST_VERSION :: int where "EVIDENCE_MANIFEST_VERSION = 2"
definition SOURCE_IDENTITY_FORMAT :: ustr where "SOURCE_IDENTITY_FORMAT = u ''egressweave.release-source-identity''"
definition SOURCE_IDENTITY_VERSION :: int where "SOURCE_IDENTITY_VERSION = 1"
definition DOCUMENT_IDENTITY_URL_PREFIX :: ustr where
  "DOCUMENT_IDENTITY_URL_PREFIX = u ''https://github.com/ContextualWisdomLab/EgressWeave/sbom/sha256/''"

section \<open>The checksum file\<close>

definition is_lower_hex :: "int \<Rightarrow> bool" where
  "is_lower_hex c \<longleftrightarrow> is_dec_c c \<or> 97 \<le> c \<and> c \<le> 102"

definition is_alnum_c :: "int \<Rightarrow> bool" where
  "is_alnum_c c \<longleftrightarrow> is_dec_c c \<or> 65 \<le> c \<and> c \<le> 90 \<or> 97 \<le> c \<and> c \<le> 122"

definition is_file_name_c :: "int \<Rightarrow> bool" where
  "is_file_name_c c \<longleftrightarrow> is_alnum_c c \<or> c \<in> {46, 95, 43, 45}"

text \<open>\<open>CHECKSUM_LINE_PATTERN\<close>: 64 digits, two spaces, a file name.\<close>

definition match_checksum_line :: "ustr \<Rightarrow> (ustr \<times> ustr) option" where
  "match_checksum_line line =
     (let digest = take 64 line; filename = drop 66 line in
      if 66 < length line \<and> list_all is_lower_hex digest \<and> take 2 (drop 64 line) = [32, 32]
         \<and> is_alnum_c (hd filename) \<and> list_all is_file_name_c (tl filename)
      then Some (filename, digest) else None)"

text \<open>\<open>str.splitlines\<close> on ASCII text without carriage returns: line feed is not the only
  separator.\<close>

definition is_line_end :: "int \<Rightarrow> bool" where
  "is_line_end c \<longleftrightarrow> c = 10 \<or> c = 11 \<or> c = 12 \<or> c = 28 \<or> c = 29 \<or> c = 30"

fun splitlines :: "ustr \<Rightarrow> ustr list" where
  "splitlines [] = []"
| "splitlines (c # s) =
     (if is_line_end c then [] # splitlines s
      else (case splitlines s of [] \<Rightarrow> [[c]]
            | l # ls \<Rightarrow> (c # l) # ls))"

fun parse_checksum_lines :: "(ustr \<times> ustr) list \<Rightarrow> ustr list \<Rightarrow> (ustr \<times> ustr) list res" where
  "parse_checksum_lines parsed [] = Inr parsed"
| "parse_checksum_lines parsed (line # lines) =
     (case match_checksum_line line of
        None \<Rightarrow> Inl (SystemExit ''SHA256SUMS contains a noncanonical entry'')
      | Some (filename, digest) \<Rightarrow>
          if filename \<in> fst ` set parsed then Inl (SystemExit ''SHA256SUMS contains a duplicate filename'')
          else parse_checksum_lines (parsed @ [(filename, digest)]) lines)"

definition parse_checksums :: "ustr \<Rightarrow> ustr set \<Rightarrow> (ustr \<times> ustr) list res" where
  "parse_checksums content expected_names =
     (if content = [] \<or> last content \<noteq> 10 \<or> 13 \<in> set content
      then Inl (SystemExit ''SHA256SUMS must use LF lines with one trailing newline'')
      else ebind (parse_checksum_lines [] (splitlines content)) (\<lambda>parsed.
        if map fst parsed \<noteq> sort (map fst parsed)
        then Inl (SystemExit ''SHA256SUMS entries must be sorted by filename'')
        else if fst ` set parsed \<noteq> expected_names
        then Inl (SystemExit ''SHA256SUMS does not cover the exact evidence payload set'')
        else Inr parsed))"

definition load_checksums ::
  "release_lib \<Rightarrow> path \<Rightarrow> ustr set \<Rightarrow> ((ustr \<times> ustr) list \<times> ustr) fsm" where
  "load_checksums L checksum expected_names =
     fbind (sha256_file (rl_env L) checksum MAX_CHECKSUM_BYTES ''SHA256SUMS'') (\<lambda>digest_before.
     fbind (read_bounded_file checksum MAX_CHECKSUM_BYTES ''SHA256SUMS'') (\<lambda>raw_content.
     fbind (flift (of_option (SystemExit ''SHA256SUMS must be readable canonical ASCII'') (decode_ascii raw_content))) (\<lambda>content.
     fbind (sha256_file (rl_env L) checksum MAX_CHECKSUM_BYTES ''SHA256SUMS'') (\<lambda>digest_after.
     fbind (require_stable_read (rl_env L) raw_content digest_before digest_after ''SHA256SUMS'') (\<lambda>_.
     fbind (flift (parse_checksums content expected_names)) (\<lambda>parsed.
     fret (parsed, digest_after)))))))"

section \<open>Strict JSON files\<close>

text \<open>\<open>json.loads(raw.decode("utf-8"), ...)\<close> with every failure masked.\<close>

definition strict_loads :: "release_lib \<Rightarrow> bytes \<Rightarrow> json option" where
  "strict_loads L raw = (case decode_utf8 raw of None \<Rightarrow> None | Some content \<Rightarrow> loads (rl_float L) content)"

definition canonical_text :: "json \<Rightarrow> ustr res" where
  "canonical_text document = dumps compact_style document"

definition is_source_sha :: "ustr \<Rightarrow> bool" where
  "is_source_sha s \<longleftrightarrow> length s = 40 \<and> list_all is_lower_hex s"

text \<open>The exact profile of the source identity: its four members, each of its exact type.\<close>

definition identity_profile :: "(ustr \<times> json) list \<Rightarrow> (ustr \<times> ustr) option" where
  "identity_profile members =
     (if fst ` set members \<noteq> {u ''format'', u ''formatVersion'', u ''repository'', u ''sourceSha''} then None
      else case (json_get (u ''format'') members, json_get (u ''formatVersion'') members,
                 json_get (u ''repository'') members, json_get (u ''sourceSha'') members) of
        (Some (JString f), Some (JInt v), Some (JString r), Some (JString s)) \<Rightarrow>
          if f = SOURCE_IDENTITY_FORMAT \<and> v = SOURCE_IDENTITY_VERSION \<and> r = EXPECTED_REPOSITORY \<and> is_source_sha s
          then Some (r, s) else None
      | _ \<Rightarrow> None)"

definition load_source_identity :: "release_lib \<Rightarrow> path \<Rightarrow> ustr \<Rightarrow> (ustr \<times> ustr) fsm" where
  "load_source_identity L path expected_digest =
     fbind (sha256_file (rl_env L) path MAX_SOURCE_IDENTITY_BYTES ''sealed source identity'') (\<lambda>digest_before.
     fbind (read_bounded_file path MAX_SOURCE_IDENTITY_BYTES ''sealed source identity'') (\<lambda>raw_content.
     fbind (flift (of_option (SystemExit ''sealed source identity is not strict JSON'') (strict_loads L raw_content))) (\<lambda>document.
     fbind (sha256_file (rl_env L) path MAX_SOURCE_IDENTITY_BYTES ''sealed source identity'') (\<lambda>digest_after.
     fbind (require_stable_read (rl_env L) raw_content digest_before digest_after ''sealed source identity'') (\<lambda>_.
     fbind (fcheck (digest_after = expected_digest) ''sealed source identity changed during verification'') (\<lambda>_.
       case document of
         JObject members \<Rightarrow>
           (case identity_profile members of
              None \<Rightarrow> fraise (SystemExit ''sealed source identity has an invalid exact profile'')
            | Some result \<Rightarrow>
                fbind (flift (canonical_text document)) (\<lambda>canonical.
                fbind (fcheck (encode_ascii (canonical @ [10]) = Some raw_content)
                         ''sealed source identity is not canonical JSON'') (\<lambda>_.
                fret result)))
       | _ \<Rightarrow> fraise (SystemExit ''sealed source identity must be a JSON object'')))))))"

definition load_strict_json :: "release_lib \<Rightarrow> path \<Rightarrow> ustr \<Rightarrow> (ustr \<times> json) list fsm" where
  "load_strict_json L path expected_digest =
     fbind (sha256_file (rl_env L) path MAX_SBOM_BYTES ''SBOM'') (\<lambda>digest_before.
     fbind (read_bounded_file path MAX_SBOM_BYTES ''SBOM'') (\<lambda>raw_content.
     fbind (flift (of_option (SystemExit ''SBOM is not strict JSON'') (strict_loads L raw_content))) (\<lambda>document.
     fbind (sha256_file (rl_env L) path MAX_SBOM_BYTES ''SBOM'') (\<lambda>digest_after.
     fbind (require_stable_read (rl_env L) raw_content digest_before digest_after ''SBOM'') (\<lambda>_.
     fbind (fcheck (digest_after = expected_digest) ''SBOM does not match the sealed digest'') (\<lambda>_.
       case document of
         JObject members \<Rightarrow> fret members
       | _ \<Rightarrow> fraise (SystemExit ''SBOM must be a JSON object'')))))))"

section \<open>The identity of a document\<close>

definition canonical_pre_serial_digest :: "release_lib \<Rightarrow> (ustr \<times> json) list \<Rightarrow> ustr res" where
  "canonical_pre_serial_digest L document =
     (case canonical_text (JObject (filter (\<lambda>(k, _). k \<noteq> u ''serialNumber'') document)) of
        Inl _ \<Rightarrow> Inl (SystemExit ''SBOM contains a value outside strict JSON'')
      | Inr canonical \<Rightarrow>
          (case encode_ascii canonical of
             None \<Rightarrow> Inl (SystemExit ''SBOM contains a value outside strict JSON'')
           | Some b \<Rightarrow> Inr (sha256_hex (rl_env L) b)))"

text \<open>Version 5 of the RFC variant, from the first sixteen octets of a SHA-1 digest.\<close>

definition uuid_of_digest :: "bytes \<Rightarrow> 128 word" where
  "uuid_of_digest digest =
     (let n = foldl (\<lambda>acc c. push_bit 8 acc OR of_int c) 0 (octets (take 16 digest));
          n1 = (n AND NOT (push_bit 48 0xC000)) OR push_bit 48 0x8000 in
      (n1 AND NOT (push_bit 64 0xF000)) OR push_bit 76 5)"

definition NAMESPACE_URL :: bytes where
  "NAMESPACE_URL = map char_of [0x6B, 0xA7, 0xB8, 0x11, 0x9D, 0xAD, 0x11, 0xD1, 0x80, 0xB4, 0x00, 0xC0, 0x4F, 0xD4, 0x30, 0xC8::int]"

definition hex_digits :: "128 word \<Rightarrow> ustr" where
  "hex_digits v = map (\<lambda>i. hex_digit (uint (drop_bit (4 * (31 - i)) v AND 0xF))) [0..<32]"

definition uuid_text :: "128 word \<Rightarrow> ustr" where
  "uuid_text v = (let h = hex_digits v in
     take 8 h @ 45 # take 4 (drop 8 h) @ 45 # take 4 (drop 12 h) @ 45 # take 4 (drop 16 h) @ 45 # drop 20 h)"

definition expected_serial_number :: "release_lib \<Rightarrow> (ustr \<times> json) list \<Rightarrow> ustr res" where
  "expected_serial_number L document =
     ebind (canonical_pre_serial_digest L document) (\<lambda>digest.
     ebind (of_option UnicodeEncodeError (encode_ascii (DOCUMENT_IDENTITY_URL_PREFIX @ digest))) (\<lambda>identity_url.
     Inr (u ''urn:uuid:'' @ uuid_text (uuid_of_digest (rl_sha1 L (NAMESPACE_URL @ identity_url))))))"

text \<open>\<open>uuid.UUID\<close> on the text after \<open>urn:uuid:\<close>, for the hexadecimal forms; the other forms it
  accepts are never canonical and are refused one check later in the code.\<close>

definition parse_uuid :: "ustr \<Rightarrow> (128 word) option" where
  "parse_uuid s =
     (let h = filter (\<lambda>c. c \<noteq> 45) s in
      case those (map hex_value h) of
        None \<Rightarrow> None
      | Some ds \<Rightarrow> if length ds = 32 then Some (foldl (\<lambda>acc d. push_bit 4 acc OR of_int d) 0 ds) else None)"

definition uuid_rfc_variant :: "128 word \<Rightarrow> bool" where
  "uuid_rfc_variant v \<longleftrightarrow> v AND push_bit 48 0x8000 \<noteq> 0 \<and> v AND push_bit 48 0x4000 = 0"

definition uuid_version :: "128 word \<Rightarrow> int" where
  "uuid_version v = uint (drop_bit 76 v AND 0xF)"

section \<open>One SBOM\<close>

text \<open>Python equality of a member with the integer 1: \<open>True\<close> and \<open>1.0\<close> are equal to it.\<close>

definition equals_one :: "json \<Rightarrow> bool" where
  "equals_one j \<longleftrightarrow> j = JInt 1 \<or> j = JBool True \<or> j = JFloat (Some (u ''1.0''))"

definition exact_envelope :: "(ustr \<times> json) list \<Rightarrow> bool" where
  "exact_envelope document \<longleftrightarrow>
     json_get (u ''$schema'') document = Some (JString CYCLONEDX_SCHEMA)
     \<and> json_get (u ''bomFormat'') document = Some (JString CYCLONEDX_FORMAT)
     \<and> json_get (u ''specVersion'') document = Some (JString CYCLONEDX_SPEC_VERSION)
     \<and> (case json_get (u ''version'') document of None \<Rightarrow> False | Some v \<Rightarrow> equals_one v)"

definition require_mapping :: "json option \<Rightarrow> string \<Rightarrow> (ustr \<times> json) list res" where
  "require_mapping v label =
     (case v of Some (JObject members) \<Rightarrow> Inr members | _ \<Rightarrow> Inl (SystemExit (label @ '' must be a JSON object'')))"

definition verify_serial_number :: "release_lib \<Rightarrow> (ustr \<times> json) list \<Rightarrow> ustr res" where
  "verify_serial_number L document =
     (case json_get (u ''serialNumber'') document of
        Some (JString serial_number) \<Rightarrow>
          (let rest = (if starts_with (u ''urn:uuid:'') serial_number then drop 9 serial_number else serial_number) in
           case parse_uuid rest of
             None \<Rightarrow> Inl (SystemExit ''SBOM has an invalid serial number'')
           | Some parsed_uuid \<Rightarrow>
               if serial_number \<noteq> u ''urn:uuid:'' @ uuid_text parsed_uuid
               then Inl (SystemExit ''SBOM has a noncanonical UUID URN'')
               else if \<not> uuid_rfc_variant parsed_uuid
               then Inl (SystemExit ''SBOM does not use the RFC UUID variant'')
               else if uuid_version parsed_uuid \<noteq> 5
               then Inl (SystemExit ''SBOM does not use UUID version 5'')
               else ebind (expected_serial_number L document) (\<lambda>expected.
                 if serial_number \<noteq> expected
                 then Inl (SystemExit ''SBOM has the wrong content-bound identity'')
                 else Inr serial_number))
      | _ \<Rightarrow> Inl (SystemExit ''SBOM lacks a serial number''))"

text \<open>The values of the properties named after the artifact's file.\<close>

definition filename_values :: "json list \<Rightarrow> json option list" where
  "filename_values properties = List.map_filter (\<lambda>item.
     case item of
       JObject m \<Rightarrow> if json_get (u ''name'') m = Some (JString (u ''egressweave:release:artifact-filename''))
                    then Some (json_get (u ''value'') m) else None
     | _ \<Rightarrow> None) properties"

definition verify_component ::
  "(ustr \<times> json) list \<Rightarrow> ustr \<Rightarrow> ustr \<Rightarrow> ustr \<Rightarrow> unit res" where
  "verify_component component artifact_name artifact_digest version =
     (if json_get (u ''bom-ref'') component \<noteq> Some (JString (u ''urn:egressweave:artifact:sha256:'' @ artifact_digest))
      then Inl (SystemExit ''SBOM root reference does not bind the artifact'')
      else if json_get (u ''name'') component \<noteq> Some (JString DISTRIBUTION_NAME)
      then Inl (SystemExit ''SBOM package name does not match the artifact'')
      else if json_get (u ''version'') component \<noteq> Some (JString version)
      then Inl (SystemExit ''SBOM package version does not match the artifact'')
      else if json_get (u ''purl'') component \<noteq> Some (JString (u ''pkg:pypi/'' @ DISTRIBUTION_NAME @ 64 # version))
      then Inl (SystemExit ''SBOM package URL does not match the artifact'')
      else if map_option sorted_keys (json_get (u ''hashes'') component)
              \<noteq> Some (JList [JObject [(u ''alg'', JString (u ''SHA-256'')), (u ''content'', JString artifact_digest)]])
      then Inl (SystemExit ''SBOM root hash does not bind the artifact'')
      else case json_get (u ''properties'') component of
        Some (JList properties) \<Rightarrow>
          if filename_values properties \<noteq> [Some (JString artifact_name)]
          then Inl (SystemExit ''SBOM filename binding is not exact'') else Inr ()
      | _ \<Rightarrow> Inl (SystemExit ''SBOM root properties are malformed''))"

definition verify_document ::
  "release_lib \<Rightarrow> (ustr \<times> json) list \<Rightarrow> ustr \<Rightarrow> ustr \<Rightarrow> ustr \<Rightarrow> ustr res" where
  "verify_document L document artifact_name artifact_digest version =
     (if \<not> exact_envelope document then Inl (SystemExit ''SBOM is not the exact CycloneDX 1.7 profile'')
      else if json_get (u ''version'') document \<noteq> Some (JInt CYCLONEDX_DOCUMENT_VERSION)
      then Inl (SystemExit ''SBOM has a non-integer document version'')
      else ebind (verify_serial_number L document) (\<lambda>serial_number.
           ebind (require_mapping (json_get (u ''metadata'') document) ''SBOM metadata'') (\<lambda>metadata.
           ebind (require_mapping (json_get (u ''component'') metadata) ''SBOM root component'') (\<lambda>component.
           ebind (verify_component component artifact_name artifact_digest version) (\<lambda>_.
           Inr serial_number)))))"

definition verify_sbom ::
  "release_lib \<Rightarrow> path \<Rightarrow> ustr \<Rightarrow> ustr \<Rightarrow> ustr \<Rightarrow> ustr \<Rightarrow> ustr fsm" where
  "verify_sbom L sbom_path artifact_name artifact_digest version expected_digest =
     fbind (load_strict_json L sbom_path expected_digest) (\<lambda>document.
     flift (verify_document L document artifact_name artifact_digest version))"

section \<open>The manifest\<close>

fun payload_digests :: "release_lib \<Rightarrow> (path \<times> int \<times> string) list \<Rightarrow> (ustr \<times> ustr) list fsm" where
  "payload_digests L [] = fret []"
| "payload_digests L ((path, maximum_bytes, label) # specs) =
     fbind (sha256_file (rl_env L) path maximum_bytes label) (\<lambda>digest.
     fbind (payload_digests L specs) (\<lambda>rest.
     fret ((path_name path, digest) # rest)))"

definition payload_specs :: "evidence_paths \<Rightarrow> (path \<times> int \<times> string) list" where
  "payload_specs p =
     [(wheel_path p, MAX_ARTIFACT_BYTES, ''wheel''), (sdist_path p, MAX_ARTIFACT_BYTES, ''source distribution''),
      (wheel_sbom p, MAX_SBOM_BYTES, ''wheel SBOM''), (sdist_sbom p, MAX_SBOM_BYTES, ''source-distribution SBOM''),
      (source_identity_path p, MAX_SOURCE_IDENTITY_BYTES, ''sealed source identity'')]"

definition digest_of :: "(ustr \<times> ustr) list \<Rightarrow> path \<Rightarrow> ustr" where
  "digest_of digests p = (case map_of digests (path_name p) of Some d \<Rightarrow> d | None \<Rightarrow> [])"

record artifact_entry =
  ae_kind :: ustr
  ae_artifact :: path
  ae_artifact_digest :: ustr
  ae_sbom :: path
  ae_sbom_digest :: ustr
  ae_serial :: ustr

definition artifact_json :: "artifact_entry \<Rightarrow> json" where
  "artifact_json a = JObject
     [(u ''artifactFilename'', JString (path_name (ae_artifact a))),
      (u ''artifactSha256'', JString (ae_artifact_digest a)), (u ''kind'', JString (ae_kind a)),
      (u ''sbomFilename'', JString (path_name (ae_sbom a))), (u ''sbomSerialNumber'', JString (ae_serial a)),
      (u ''sbomSha256'', JString (ae_sbom_digest a))]"

fun verify_artifacts ::
  "release_lib \<Rightarrow> (ustr \<times> ustr) list \<Rightarrow> ustr \<Rightarrow> (ustr \<times> path \<times> path) list \<Rightarrow> artifact_entry list fsm" where
  "verify_artifacts L digests version [] = fret []"
| "verify_artifacts L digests version ((kind, artifact_path, sbom_path) # rest) =
     fbind (verify_sbom L sbom_path (path_name artifact_path) (digest_of digests artifact_path) version
              (digest_of digests sbom_path)) (\<lambda>serial_number.
     fbind (verify_artifacts L digests version rest) (\<lambda>entries.
     fret (\<lparr>ae_kind = kind, ae_artifact = artifact_path, ae_artifact_digest = digest_of digests artifact_path,
            ae_sbom = sbom_path, ae_sbom_digest = digest_of digests sbom_path, ae_serial = serial_number\<rparr> # entries)))"

definition manifest_json ::
  "evidence_paths \<Rightarrow> artifact_entry list \<Rightarrow> (ustr \<times> ustr) list \<Rightarrow> ustr \<Rightarrow> ustr \<Rightarrow> ustr \<Rightarrow> json" where
  "manifest_json p artifacts digests checksum_digest sealed_repository sealed_source_sha = JObject
     [(u ''artifacts'', JList (map artifact_json (sort_key (\<lambda>a. path_name (ae_artifact a)) artifacts))),
      (u ''checksumFilename'', JString (path_name (checksum_path p))),
      (u ''checksumSha256'', JString checksum_digest),
      (u ''format'', JString EVIDENCE_MANIFEST_FORMAT),
      (u ''formatVersion'', JInt EVIDENCE_MANIFEST_VERSION),
      (u ''cycloneDxSpecVersion'', JString CYCLONEDX_SPEC_VERSION),
      (u ''predicateType'', JString ATTESTATION_PREDICATE_TYPE),
      (u ''repository'', JString sealed_repository),
      (u ''sourceIdentityFilename'', JString (path_name (source_identity_path p))),
      (u ''sourceIdentitySha256'', JString (digest_of digests (source_identity_path p))),
      (u ''sourceSha'', JString sealed_source_sha)]"

definition build_evidence_manifest :: "release_lib \<Rightarrow> path \<Rightarrow> ustr \<Rightarrow> ustr \<Rightarrow> json fsm" where
  "build_evidence_manifest L evidence_dir repository source_sha =
     fbind (fcheck (repository = EXPECTED_REPOSITORY) ''repository must equal ContextualWisdomLab/EgressWeave'') (\<lambda>_.
     fbind (fcheck (is_source_sha source_sha) ''source SHA must be exactly 40 lowercase hexadecimal characters'') (\<lambda>_.
     fbind (select_evidence_paths evidence_dir) (\<lambda>p.
     fbind (load_checksums L (checksum_path p) (set (map (\<lambda>(path, _). path_name path) (payload_specs p))))
       (\<lambda>(checksums, checksum_digest).
     fbind (payload_digests L (payload_specs p)) (\<lambda>observed_digests.
     fbind (fcheck (map_of checksums = map_of observed_digests) ''release evidence digest mismatch'') (\<lambda>_.
     fbind (load_source_identity L (source_identity_path p) (digest_of observed_digests (source_identity_path p)))
       (\<lambda>(sealed_repository, sealed_source_sha).
     fbind (fcheck (sealed_repository = repository \<and> sealed_source_sha = source_sha)
              ''sealed source identity does not match caller expectations'') (\<lambda>_.
     fbind (verify_artifacts L observed_digests (wheel_release p)
              [(u ''sdist'', sdist_path p, sdist_sbom p), (u ''wheel'', wheel_path p, wheel_sbom p)]) (\<lambda>artifacts.
     fbind (payload_digests L (payload_specs p)) (\<lambda>final_digests.
     fbind (fcheck (map_of final_digests = map_of observed_digests) ''release evidence changed during verification'') (\<lambda>_.
     fbind (sha256_file (rl_env L) (checksum_path p) MAX_CHECKSUM_BYTES ''SHA256SUMS'') (\<lambda>final_checksum.
     fbind (fcheck (final_checksum = checksum_digest) ''SHA256SUMS changed during verification'') (\<lambda>_.
     fret (manifest_json p artifacts observed_digests checksum_digest sealed_repository sealed_source_sha))))))))))))))"

end
