(* ===== verification/Release_Output.thy ===== *)
theory Release_Output
  imports Release_Manifest
begin

text \<open>
  The publication half of \<open>src/egressweave/release_evidence.py\<close>: the encoding of the manifest, its
  exclusive creation outside the verified directory, and the verification of the whole set and of
  the published bytes afterwards. The directory that is verified again after publication is an
  absolute path, as \<open>main\<close> passes it.
\<close>

section \<open>Encoding\<close>

definition encode_evidence_manifest :: "release_lib \<Rightarrow> json \<Rightarrow> bytes res" where
  "encode_evidence_manifest L manifest =
     (let refusal = Inl (SystemExit ''evidence manifest must be a strict JSON object'') in
      case manifest of
        JObject _ \<Rightarrow>
          (case dumps indented_style manifest of
             Inl e \<Rightarrow> refusal
           | Inr content \<Rightarrow>
               (case loads (rl_float L) content of
                  None \<Rightarrow> refusal
                | Some snapshot \<Rightarrow>
                    if sorted_keys snapshot \<noteq> sorted_keys manifest then refusal
                    else of_option UnicodeEncodeError (encode_ascii (content @ [10]))))
      | _ \<Rightarrow> refusal)"

section \<open>The place of the output\<close>

definition parent :: "path \<Rightarrow> path" where
  "parent p = butlast p"

definition child :: "path \<Rightarrow> ustr \<Rightarrow> path" where
  "child p n = (if n = [] then p else p @ [n])"

text \<open>\<open>p == root or p.is_relative_to(root)\<close>.\<close>

definition inside :: "path \<Rightarrow> path \<Rightarrow> bool" where
  "inside dir p \<longleftrightarrow> take (length dir) p = dir"

definition require_output_outside_verified_set :: "path \<Rightarrow> path \<Rightarrow> unit fsm" where
  "require_output_outside_verified_set output_path verified_root =
     fbind (observe (\<lambda>v. fv_resolve v (parent output_path))) (\<lambda>resolved.
       case resolved of
         None \<Rightarrow> fraise (SystemExit ''evidence manifest parent directory is unavailable'')
       | Some resolved_parent \<Rightarrow>
           fcheck (\<not> inside verified_root (child resolved_parent (path_name output_path)))
             ''evidence manifest output must remain outside the verified set'')"

text \<open>Every named component is inspected, from the anchor (or the working directory) on.\<close>

fun require_no_links :: "path \<Rightarrow> path \<Rightarrow> unit fsm" where
  "require_no_links current [] = fret ()"
| "require_no_links current (component # parts) =
     (if component = up then require_no_links (current @ [component]) parts
      else
        fbind (observe (\<lambda>v. fv_is_symlink v (current @ [component]))) (\<lambda>is_symlink.
        fbind (fcheck (\<not> is_symlink) ''release evidence directory path must not traverse symlinks'') (\<lambda>_.
        require_no_links (current @ [component]) parts)))"

definition require_canonical_forbidden_root :: "path \<Rightarrow> path \<Rightarrow> path fsm" where
  "require_canonical_forbidden_root anchor parts =
     fmask (fbind (require_no_links anchor parts) (\<lambda>_. require_canonical_evidence_root (anchor @ parts)))
       ''evidence manifest forbidden root is missing or unsafe''"

section \<open>Publication\<close>

definition require_outside_optional :: "path \<Rightarrow> path option \<Rightarrow> unit fsm" where
  "require_outside_optional output_path forbidden =
     (case forbidden of None \<Rightarrow> fret () | Some dir \<Rightarrow> require_output_outside_verified_set output_path dir)"

definition write_open_manifest :: "path \<Rightarrow> path option \<Rightarrow> bytes \<Rightarrow> opened_file \<Rightarrow> unit fsm" where
  "write_open_manifest output_path forbidden payload stream =
     fbind (require_open_regular_file output_path stream ''evidence manifest output'') (\<lambda>_.
     fbind (require_outside_optional output_path forbidden) (\<lambda>_.
     fbind (fwrite output_path payload) (\<lambda>ok.
     fbind (fcheck ok ''evidence manifest output cannot be created safely'') (\<lambda>_.
     fbind (require_open_regular_file output_path stream ''evidence manifest output'') (\<lambda>_.
     require_outside_optional output_path forbidden)))))"

definition write_evidence_manifest ::
  "release_lib \<Rightarrow> json \<Rightarrow> path \<Rightarrow> (path \<times> path) option \<Rightarrow> unit fsm" where
  "write_evidence_manifest L manifest output_path forbidden_root =
     fbind (flift (encode_evidence_manifest L manifest)) (\<lambda>payload.
     fbind (case forbidden_root of
              None \<Rightarrow> fret None
            | Some (anchor, parts) \<Rightarrow> fbind (require_canonical_forbidden_root anchor parts) (\<lambda>dir. fret (Some dir)))
       (\<lambda>canonical.
     fbind (observe (\<lambda>v. fv_mkdir v (parent output_path))) (\<lambda>made.
     fbind (fcheck made ''evidence manifest parent directory is unavailable'') (\<lambda>_.
     fbind (require_outside_optional output_path canonical) (\<lambda>_.
     fbind (fcreate output_path) (\<lambda>outcome.
       case outcome of
         AlreadyExists \<Rightarrow> fraise (SystemExit ''evidence manifest output already exists'')
       | CreateFails \<Rightarrow> fraise (SystemExit ''evidence manifest output cannot be created safely'')
       | Created stream \<Rightarrow> write_open_manifest output_path canonical payload stream))))))"

section \<open>Verification after publication\<close>

definition observed_payload :: "release_lib \<Rightarrow> path \<Rightarrow> ustr \<Rightarrow> ustr \<Rightarrow> bytes fsm" where
  "observed_payload L evidence_dir repository source_sha =
     fmask (fbind (build_evidence_manifest L evidence_dir repository source_sha) (\<lambda>observed_manifest.
            flift (encode_evidence_manifest L observed_manifest)))
       ''release evidence changed after manifest publication''"

definition published_bytes :: "path \<Rightarrow> path \<Rightarrow> bytes fsm" where
  "published_bytes evidence_dir output_path =
     fmask (fbind (require_output_outside_verified_set output_path evidence_dir) (\<lambda>_.
            fbind (read_bounded_file output_path MAX_EVIDENCE_MANIFEST_BYTES ''evidence manifest output'') (\<lambda>content.
            fbind (require_output_outside_verified_set output_path evidence_dir) (\<lambda>_.
            fret content))))
       ''evidence manifest output changed after publication''"

definition require_post_publication_state ::
  "release_lib \<Rightarrow> path \<Rightarrow> path \<Rightarrow> ustr \<Rightarrow> ustr \<Rightarrow> bytes \<Rightarrow> unit fsm" where
  "require_post_publication_state L evidence_dir output_path repository source_sha expected_payload =
     fbind (observed_payload L evidence_dir repository source_sha) (\<lambda>payload.
     fbind (fcheck (payload = expected_payload) ''release evidence changed after manifest publication'') (\<lambda>_.
     fbind (published_bytes evidence_dir output_path) (\<lambda>published_payload.
     fcheck (published_payload = expected_payload) ''evidence manifest output changed after publication'')))"

definition reverify_published_evidence_manifest ::
  "release_lib \<Rightarrow> path \<Rightarrow> path \<Rightarrow> ustr \<Rightarrow> ustr \<Rightarrow> json \<Rightarrow> unit fsm" where
  "reverify_published_evidence_manifest L evidence_dir output_path repository source_sha expected_manifest =
     fbind (flift (encode_evidence_manifest L expected_manifest)) (\<lambda>expected_payload.
     require_post_publication_state L evidence_dir output_path repository source_sha expected_payload)"

text \<open>\<open>main\<close>, with the parsed arguments. Its result is the path it prints.\<close>

definition release_evidence_main :: "release_lib \<Rightarrow> path \<Rightarrow> ustr \<Rightarrow> ustr \<Rightarrow> path \<Rightarrow> path fsm" where
  "release_evidence_main L evidence_argument repository source_sha output_argument =
     fbind (require_canonical_evidence_root evidence_argument) (\<lambda>evidence_dir.
     fbind (observe (\<lambda>v. fv_resolve_lax v (parent output_argument))) (\<lambda>resolved.
       case resolved of
         None \<Rightarrow> fraise (OtherException 0)
       | Some resolved_parent \<Rightarrow>
           (let output_path = child resolved_parent (path_name output_argument) in
            fbind (fcheck (\<not> inside evidence_dir output_path)
                     ''evidence manifest output must remain outside the verified set'') (\<lambda>_.
            fbind (build_evidence_manifest L evidence_dir repository source_sha) (\<lambda>manifest.
            fbind (write_evidence_manifest L manifest output_path (Some ([], evidence_dir))) (\<lambda>_.
            fbind (reverify_published_evidence_manifest L evidence_dir output_path repository source_sha manifest) (\<lambda>_.
            fret output_path)))))))"

end
