(* ===== verification/Release_Rules.thy ===== *)
theory Release_Rules
  imports Release_Manifest "HOL-Library.Multiset"
begin

text \<open>
  What the release verifier establishes: its bounded reads, the exact bytes of the source
  identity, and that a manifest describes files whose bytes were the same at the beginning and
  at the end of the verification.
\<close>

section \<open>Running operations\<close>

lemma fret_run [simp]: "fret x w s = (Inr x, s)"
  and fraise_run [simp]: "fraise e w s = (Inl e, s)"
  and flift_run [simp]: "flift r w s = (r, s)"
  and observe_run [simp]: "observe q w s = (Inr (q (w (clock s))), s\<lparr>clock := Suc (clock s)\<rparr>)"
  and fcheck_run [simp]: "fcheck b m w s = (ensure b (SystemExit m), s)"
  by (simp_all add: fret_def fraise_def flift_def observe_def fcheck_def)

lemma fbind_Inr: "fbind m f w s = (Inr y, s') \<longleftrightarrow> (\<exists>x s1. m w s = (Inr x, s1) \<and> f x w s1 = (Inr y, s'))"
  by (auto simp: fbind_def split: prod.splits sum.splits)

lemma fbind_Inl: "fbind m f w s = (Inl e, s') \<longleftrightarrow>
    m w s = (Inl e, s') \<or> (\<exists>x s1. m w s = (Inr x, s1) \<and> f x w s1 = (Inl e, s'))"
  by (auto simp: fbind_def split: prod.splits sum.splits)

lemma fbind_run:
  "m w s = (Inr x, s1) \<Longrightarrow> fbind m f w s = f x w s1"
  "m w s = (Inl e, s1) \<Longrightarrow> fbind m f w s = (Inl e, s1)"
  by (simp_all add: fbind_def)

section \<open>Bounded reads\<close>

lemma hash_loop_eq:
  assumes "sofar \<le> cap"
  shows "hash_loop cap label sofar rest =
    (if sofar + int (length rest) > cap then Inl (SystemExit (label @ '' exceeds the safety bound'')) else Inr ())"
  using assms
proof (induction cap label sofar rest rule: hash_loop.induct)
  case (1 cap label sofar rest)
  show ?case
  proof (cases "rest = []")
    case True
    with 1 show ?thesis by (subst hash_loop.simps) simp
  next
    case False
    let ?sofar = "sofar + int (length (take BLOCK_BYTES rest))"
    have len: "?sofar + int (length (drop BLOCK_BYTES rest)) = sofar + int (length rest)" by (simp add: min_def)
    show ?thesis
    proof (cases "?sofar > cap")
      case True
      with len False show ?thesis by (subst hash_loop.simps) (simp add: Let_def)
    next
      case small: False
      then have "hash_loop cap label sofar rest = hash_loop cap label ?sofar (drop BLOCK_BYTES rest)"
        using False by (subst hash_loop.simps) (simp add: Let_def)
      with "1.IH" [OF False refl small] small len show ?thesis by simp
    qed
  qed
qed

text \<open>The reading loop returns the whole content, or refuses what is longer than the bound; the
  blocks it holds never exceed the bound.\<close>

lemma read_loop_more:
  assumes "room = min BLOCK_BYTES (nat (cap - sofar + 1))" "take room rest \<noteq> []"
    "\<not> sofar + int (length (take room rest)) > cap"
  shows "read_loop cap label chunks sofar rest
    = read_loop cap label (chunks @ [take room rest]) (sofar + int (length (take room rest))) (drop room rest)"
  by (subst read_loop.simps) (simp only: Let_def assms(1) [symmetric] assms(2,3) if_False)

lemma read_loop_eq:
  assumes "sofar \<le> cap"
  shows "(if sofar + int (length rest) > cap
      then read_loop cap label chunks sofar rest = Inl (SystemExit (label @ '' exceeds the safety bound''))
      else \<exists>blocks. read_loop cap label chunks sofar rest = Inr (chunks @ blocks) \<and> concat blocks = rest)"
  using assms
proof (induction cap label chunks sofar rest rule: read_loop.induct)
  case (1 cap label chunks sofar rest)
  let ?size = "min BLOCK_BYTES (nat (cap - sofar + 1))"
  have size: "0 < ?size" using "1.prems" by (simp add: BLOCK_BYTES_def)
  show ?case
  proof (cases "rest = []")
    case True
    then have "read_loop cap label chunks sofar rest = Inr chunks" by (subst read_loop.simps) (simp add: Let_def)
    with True "1.prems" show ?thesis by simp
  next
    case False
    then have block: "take ?size rest \<noteq> []" using size by simp
    let ?sofar = "sofar + int (length (take ?size rest))"
    have len: "?sofar + int (length (drop ?size rest)) = sofar + int (length rest)" by (simp add: min_def)
    show ?thesis
    proof (cases "?sofar > cap")
      case True
      then have "read_loop cap label chunks sofar rest = Inl (SystemExit (label @ '' exceeds the safety bound''))"
        using block by (subst read_loop.simps) (simp add: Let_def)
      with True len show ?thesis by simp
    next
      case small: False
      have step: "read_loop cap label chunks sofar rest
          = read_loop cap label (chunks @ [take ?size rest]) ?sofar (drop ?size rest)"
        by (rule read_loop_more [OF refl block]) (use small in simp)
      note IH = "1.IH" [OF refl refl block refl small]
      show ?thesis
      proof (cases "sofar + int (length rest) > cap")
        case True
        with IH small len show ?thesis unfolding step by simp
      next
        case False
        then obtain blocks where "read_loop cap label (chunks @ [take ?size rest]) ?sofar (drop ?size rest)
            = Inr ((chunks @ [take ?size rest]) @ blocks)" "concat blocks = drop ?size rest"
          using IH small len by auto
        then show ?thesis using False unfolding step
          by (auto intro!: exI [of _ "take ?size rest # blocks"])
      qed
    qed
  qed
qed

text \<open>At a moment an open yields a regular file with these bytes, and the path still names that
  file at the next.\<close>

definition reads_regular :: "world \<Rightarrow> nat \<Rightarrow> path \<Rightarrow> bytes \<Rightarrow> bool" where
  "reads_regular w t p c \<longleftrightarrow> (\<exists>f st. fv_open (w t) p = Some f \<and> fv_lstat (w (Suc t)) p = Some st
     \<and> st_kind st = Regular \<and> st_kind (op_state f) = Regular \<and> st_identity st = st_identity (op_state f)
     \<and> op_bytes f = c \<and> \<not> op_fails f)"

lemma reads_regular_unique: "reads_regular w t p c \<Longrightarrow> reads_regular w t p c' \<Longrightarrow> c = c'"
  by (auto simp: reads_regular_def)

lemma require_open_Inr:
  "require_open_regular_file p f label w s = (Inr (), s') \<longleftrightarrow>
     (\<exists>st. fv_lstat (w (clock s)) p = Some st \<and> st_kind st = Regular \<and> st_kind (op_state f) = Regular
       \<and> st_identity st = st_identity (op_state f)) \<and> s' = s\<lparr>clock := Suc (clock s)\<rparr>"
  by (auto simp: require_open_regular_file_def fbind_Inr ensure_eq_Inr split: option.splits)

lemma sha256_file_Inr:
  "sha256_file E p cap label w s = (Inr d, s') \<longleftrightarrow>
     0 \<le> cap \<and> (\<exists>c. reads_regular w (clock s) p c \<and> int (length c) \<le> cap \<and> d = sha256_hex E c)
       \<and> s' = s\<lparr>clock := clock s + 2\<rparr>" if "0 \<le> cap"
  using that hash_loop_eq [of 0 cap label]
  by (auto simp: sha256_file_def fbind_Inr require_open_Inr ensure_eq_Inr reads_regular_def split: option.splits if_splits)

lemma read_bounded_file_Inr:
  "read_bounded_file p cap label w s = (Inr c, s') \<longleftrightarrow>
     reads_regular w (clock s) p c \<and> int (length c) \<le> cap \<and> s' = s\<lparr>clock := clock s + 2\<rparr>" if "0 \<le> cap"
proof -
  have loopD: "concat chunks = b \<and> int (length b) \<le> cap" if "read_loop cap label [] 0 b = Inr chunks" for b chunks
    using read_loop_eq [OF \<open>0 \<le> cap\<close>, of b label "[]"] that by (auto split: if_splits)
  have loopI: "\<exists>chunks. read_loop cap label [] 0 b = Inr chunks \<and> concat chunks = b" if "int (length b) \<le> cap" for b
    using read_loop_eq [OF \<open>0 \<le> cap\<close>, of b label "[]"] that by (auto split: if_splits)
  show ?thesis
  proof
    assume "read_bounded_file p cap label w s = (Inr c, s')"
    then show "reads_regular w (clock s) p c \<and> int (length c) \<le> cap \<and> s' = s\<lparr>clock := clock s + 2\<rparr>"
      by (auto simp: read_bounded_file_def fbind_Inr require_open_Inr ensure_eq_Inr reads_regular_def
          split: option.splits dest!: loopD)
  next
    assume a: "reads_regular w (clock s) p c \<and> int (length c) \<le> cap \<and> s' = s\<lparr>clock := clock s + 2\<rparr>"
    then obtain chunks where "read_loop cap label [] 0 c = Inr chunks" "concat chunks = c" using loopI [of c] by auto
    with a show "read_bounded_file p cap label w s = (Inr c, s')"
      by (auto simp: read_bounded_file_def fbind_Inr require_open_Inr ensure_eq_Inr reads_regular_def)
  qed
qed


section \<open>The sealed source identity\<close>

lemma read_value_object: "read_value flt n s = Some (JObject members, r) \<Longrightarrow> distinct (map fst members)"
  by (cases n) (auto simp: Let_def read_number_def split: if_splits option.splits prod.splits sum.splits)

lemma loads_object: "loads flt s = Some (JObject members) \<Longrightarrow> distinct (map fst members)"
  by (auto simp: loads_def simp del: read_value.simps split: if_splits option.splits prod.splits dest: read_value_object)

lemma strict_loads_object: "strict_loads L raw = Some (JObject members) \<Longrightarrow> distinct (map fst members)"
  by (auto simp: strict_loads_def split: option.splits dest: loads_object)

text \<open>The members in the order of their names.\<close>

definition identity_members :: "ustr \<Rightarrow> (ustr \<times> json) list" where
  "identity_members source_sha =
     [(u ''format'', JString SOURCE_IDENTITY_FORMAT), (u ''formatVersion'', JInt SOURCE_IDENTITY_VERSION),
      (u ''repository'', JString EXPECTED_REPOSITORY), (u ''sourceSha'', JString source_sha)]"

text \<open>The one text a sealed identity may consist of.\<close>

definition identity_text :: "ustr \<Rightarrow> ustr" where
  "identity_text source_sha =
     u ''{\"format\":\"egressweave.release-source-identity\",\"formatVersion\":1,\"repository\":\"ContextualWisdomLab/EgressWeave\",\"sourceSha\":\"''
     @ source_sha @ u ''\"}'' @ [10]"

lemma escape_lower_hex: "list_all is_lower_hex s \<Longrightarrow> concat (map escape_c s) = s"
  by (induction s) (auto simp: is_lower_hex_def is_dec_c_def escape_c_def)

lemma sort_by_names:
  assumes "distinct (map fst xs)" "set xs = set ys" "sorted (map fst ys)" "distinct (map fst ys)"
  shows "sort_key fst xs = ys"
proof -
  have "distinct xs" "distinct ys" using assms by (simp_all add: distinct_map)
  then have "mset xs = mset ys" using assms(2) by (simp add: set_eq_iff_mset_eq_distinct)
  moreover have "inj_on fst (set xs)" using assms(1) by (simp add: distinct_map)
  ultimately show ?thesis using assms(3) by (intro sort_key_inj_key_eq)
qed

lemma identity_names:
  "map fst (identity_members sha) = [u ''format'', u ''formatVersion'', u ''repository'', u ''sourceSha'']"
  by (simp add: identity_members_def)

lemma identity_plain: "(k, v) \<in> set (identity_members sha) \<Longrightarrow> sorted_keys v = v"
  by (auto simp: identity_members_def)

lemma identity_names_sorted:
  "sorted [u ''format'', u ''formatVersion'', u ''repository'', u ''sourceSha'']"
  "distinct [u ''format'', u ''formatVersion'', u ''repository'', u ''sourceSha'']"
  by code_simp+

lemma identity_profile_members:
  assumes "identity_profile members = Some (r, sha)" "distinct (map fst members)"
  shows "r = EXPECTED_REPOSITORY" "is_source_sha sha" "set members = set (identity_members sha)"
proof -
  have keys: "fst ` set members = {u ''format'', u ''formatVersion'', u ''repository'', u ''sourceSha''}"
    and mem: "map_of members (u ''format'') = Some (JString SOURCE_IDENTITY_FORMAT)"
      "map_of members (u ''formatVersion'') = Some (JInt SOURCE_IDENTITY_VERSION)"
      "map_of members (u ''repository'') = Some (JString EXPECTED_REPOSITORY)"
      "map_of members (u ''sourceSha'') = Some (JString sha)"
    and r: "r = EXPECTED_REPOSITORY" "is_source_sha sha"
    using assms(1) by (auto simp: identity_profile_def json_get_def split: if_splits option.splits json.splits)
  show "r = EXPECTED_REPOSITORY" "is_source_sha sha" by (rule r)+
  show "set members = set (identity_members sha)"
  proof (rule set_eqI)
    fix kv :: "ustr \<times> json"
    obtain k v where kv: "kv = (k, v)" by (cases kv)
    have "kv \<in> set members \<longleftrightarrow> map_of members k = Some v" using assms(2) kv by simp
    also have "\<dots> \<longleftrightarrow> kv \<in> set (identity_members sha)"
    proof
      assume a: "map_of members k = Some v"
      then have "k \<in> fst ` set members" by (force dest: map_of_SomeD)
      then consider "k = u ''format''" | "k = u ''formatVersion''" | "k = u ''repository''" | "k = u ''sourceSha''"
        unfolding keys by blast
      then show "kv \<in> set (identity_members sha)"
        by cases (use a mem kv in \<open>simp_all add: identity_members_def\<close>)
    next
      assume "kv \<in> set (identity_members sha)"
      then show "map_of members k = Some v" using mem kv by (auto simp: identity_members_def)
    qed
    finally show "kv \<in> set members \<longleftrightarrow> kv \<in> set (identity_members sha)" .
  qed
qed

lemma identity_canonical:
  assumes "is_source_sha sha" "distinct (map fst members)" "set members = set (identity_members sha)"
  shows "canonical_text (JObject members) = Inr (butlast (identity_text sha))"
proof -
  have "map (\<lambda>(k, v). (k, sorted_keys v)) members = members"
    by (rule map_idI) (simp only: assms(3) identity_plain split_paired_all prod.case)
  moreover have "sort_key fst members = identity_members sha"
    by (rule sort_by_names [OF assms(2,3)]) (simp_all only: identity_names identity_names_sorted)
  ultimately have "canonical_text (JObject members) = write_json compact_style 0 (JObject (identity_members sha))"
    by (simp add: canonical_text_def dumps_def)
  moreover have "quote sha = 34 # sha @ [34]"
    using assms(1) by (simp add: quote_def escape_lower_hex is_source_sha_def)
  moreover have "quote (u ''format'') = 34 # u ''format'' @ [34]" "quote (u ''formatVersion'') = 34 # u ''formatVersion'' @ [34]"
    "quote (u ''repository'') = 34 # u ''repository'' @ [34]" "quote (u ''sourceSha'') = 34 # u ''sourceSha'' @ [34]"
    "quote SOURCE_IDENTITY_FORMAT = 34 # SOURCE_IDENTITY_FORMAT @ [34]" "quote EXPECTED_REPOSITORY = 34 # EXPECTED_REPOSITORY @ [34]"
    "int_text SOURCE_IDENTITY_VERSION = Inr [49]"
    by code_simp+
  ultimately show ?thesis
    by (simp add: identity_members_def bracketed_def compact_style_def identity_text_def butlast_append
        SOURCE_IDENTITY_FORMAT_def EXPECTED_REPOSITORY_def u_def)
qed

section \<open>Stable reads\<close>

text \<open>At this moment the path names a regular file within the bound whose bytes have this digest.\<close>

definition digest_at :: "pyenv \<Rightarrow> world \<Rightarrow> nat \<Rightarrow> path \<Rightarrow> int \<Rightarrow> ustr \<Rightarrow> bool" where
  "digest_at E w t p cap d \<longleftrightarrow> (\<exists>c. reads_regular w t p c \<and> int (length c) \<le> cap \<and> d = sha256_hex E c)"

lemma caps_nonneg [simp]:
  "0 \<le> MAX_CHECKSUM_BYTES" "0 \<le> MAX_EVIDENCE_MANIFEST_BYTES" "0 \<le> MAX_SOURCE_IDENTITY_BYTES"
  "0 \<le> MAX_SBOM_BYTES" "0 \<le> MAX_ARTIFACT_BYTES"
  by (simp_all add: MAX_CHECKSUM_BYTES_def MAX_EVIDENCE_MANIFEST_BYTES_def MAX_SOURCE_IDENTITY_BYTES_def
      MAX_SBOM_BYTES_def MAX_ARTIFACT_BYTES_def)

lemma sha256_file_digest:
  "sha256_file E p cap label w s = (Inr d, s') \<longleftrightarrow> digest_at E w (clock s) p cap d \<and> s' = s\<lparr>clock := clock s + 2\<rparr>"
  if "0 \<le> cap"
  using sha256_file_Inr [OF that] that by (auto simp: digest_at_def)

text \<open>The three readers share their shape: the content lies between two equal digests.\<close>

definition stable_read :: "pyenv \<Rightarrow> world \<Rightarrow> nat \<Rightarrow> path \<Rightarrow> int \<Rightarrow> bytes \<Rightarrow> bool" where
  "stable_read E w t p cap raw \<longleftrightarrow> digest_at E w t p cap (sha256_hex E raw)
     \<and> reads_regular w (t + 2) p raw \<and> int (length raw) \<le> cap \<and> digest_at E w (t + 4) p cap (sha256_hex E raw)"

lemma stable_read_run:
  assumes cap: "0 \<le> cap"
    and run: "fbind (sha256_file E p cap label) (\<lambda>before. fbind (read_bounded_file p cap label) (\<lambda>raw.
      fbind (flift (r raw)) (\<lambda>doc. fbind (sha256_file E p cap label) (\<lambda>after.
      fbind (require_stable_read E raw before after label) (\<lambda>_. k raw doc after))))) w s = (Inr x, s')"
  obtains raw doc where "stable_read E w (clock s) p cap raw" "r raw = Inr doc"
    "k raw doc (sha256_hex E raw) w (s\<lparr>clock := clock s + 6\<rparr>) = (Inr x, s')"
  using run
  by (auto simp: fbind_Inr sha256_file_digest [OF cap] read_bounded_file_Inr [OF cap] require_stable_read_def
      ensure_eq_Inr stable_read_def eval_nat_numeral)

lemma load_checksums_sound:
  assumes "load_checksums L p names w s = (Inr (parsed, d), s')"
  obtains raw content where "stable_read (rl_env L) w (clock s) p MAX_CHECKSUM_BYTES raw"
    "d = sha256_hex (rl_env L) raw" "decode_ascii raw = Some content" "parse_checksums content names = Inr parsed"
    "s' = s\<lparr>clock := clock s + 6\<rparr>"
  using assms unfolding load_checksums_def
  by (elim stable_read_run [rotated]) (auto simp: fbind_Inr of_option_eq_Inr)

lemma load_strict_json_sound:
  assumes "load_strict_json L p expected w s = (Inr members, s')"
  obtains raw where "stable_read (rl_env L) w (clock s) p MAX_SBOM_BYTES raw"
    "expected = sha256_hex (rl_env L) raw" "strict_loads L raw = Some (JObject members)"
    "s' = s\<lparr>clock := clock s + 6\<rparr>"
  using assms unfolding load_strict_json_def
  by (elim stable_read_run [rotated]) (auto simp: fbind_Inr of_option_eq_Inr ensure_eq_Inr split: json.splits)

lemma load_source_identity_sound:
  assumes "load_source_identity L p expected w s = (Inr (r, sha), s')"
  obtains raw where "stable_read (rl_env L) w (clock s) p MAX_SOURCE_IDENTITY_BYTES raw"
    "expected = sha256_hex (rl_env L) raw" "encode_ascii (identity_text sha) = Some raw"
    "r = EXPECTED_REPOSITORY" "is_source_sha sha" "s' = s\<lparr>clock := clock s + 6\<rparr>"
proof -
  from assms obtain raw members canonical where st: "stable_read (rl_env L) w (clock s) p MAX_SOURCE_IDENTITY_BYTES raw"
    "expected = sha256_hex (rl_env L) raw" "s' = s\<lparr>clock := clock s + 6\<rparr>"
    and doc: "strict_loads L raw = Some (JObject members)" "identity_profile members = Some (r, sha)"
    and canon: "canonical_text (JObject members) = Inr canonical" "encode_ascii (canonical @ [10]) = Some raw"
    unfolding load_source_identity_def
    by (elim stable_read_run [rotated]) (auto simp: fbind_Inr of_option_eq_Inr ensure_eq_Inr split: json.splits option.splits)
  note prof = identity_profile_members [OF doc(2) strict_loads_object [OF doc(1)]]
  have "butlast (identity_text sha) @ [10] = identity_text sha" by (simp add: identity_text_def butlast_append)
  then have "encode_ascii (identity_text sha) = Some raw"
    using canon identity_canonical [OF prof(2) strict_loads_object [OF doc(1)] prof(3)] by simp
  with st prof(1,2) that show thesis by blast
qed

section \<open>The chosen files\<close>

lemma between_Some: "between a b s = Some v \<Longrightarrow> s = a @ v @ b"
proof -
  assume "between a b s = Some v"
  then have le: "length a + length b \<le> length s" and pre: "take (length a) s = a"
    and suf: "drop (length s - length b) s = b"
    and v: "v = take (length s - length a - length b) (drop (length a) s)"
    by (auto simp: between_def starts_with_def split: if_splits)
  have "drop (length a) s = v @ drop (length s - length b) s"
    using le unfolding v by (subst append_take_drop_id [of "length s - length a - length b", symmetric]) simp
  then show ?thesis using pre suf by (metis append_take_drop_id)
qed

lemma artifact_names:
  "wheel_version name = Some v \<Longrightarrow> name = u ''egressweave-'' @ v @ u ''-py3-none-any.whl'' \<and> is_version v"
  "sdist_version name = Some v \<Longrightarrow> name = u ''egressweave-'' @ v @ u ''.tar.gz'' \<and> is_version v"
  by (auto simp: wheel_version_def sdist_version_def version_between_def dest: between_Some split: option.splits if_splits)

text \<open>One wheel and one source distribution of the same version, their SBOMs, the identity and the
  checksums, and nothing else.\<close>

definition chosen :: "path \<Rightarrow> path list \<Rightarrow> evidence_paths \<Rightarrow> bool" where
  "chosen dir entries p \<longleftrightarrow> is_version (wheel_release p)
     \<and> path_name (wheel_path p) = u ''egressweave-'' @ wheel_release p @ u ''-py3-none-any.whl''
     \<and> path_name (sdist_path p) = u ''egressweave-'' @ wheel_release p @ u ''.tar.gz''
     \<and> wheel_sbom p = dir @ [path_name (wheel_path p) @ u ''.cdx.json'']
     \<and> sdist_sbom p = dir @ [path_name (sdist_path p) @ u ''.cdx.json'']
     \<and> source_identity_path p = dir @ [SOURCE_IDENTITY_FILENAME] \<and> checksum_path p = dir @ [u ''SHA256SUMS'']
     \<and> set entries = {wheel_path p, sdist_path p, wheel_sbom p, sdist_sbom p, source_identity_path p, checksum_path p}"

lemma choose_evidence_paths_sound:
  assumes "choose_evidence_paths dir entries = Inr p"
  shows "chosen dir entries p"
proof -
  define wheel where "wheel = hd (filter (\<lambda>p. wheel_version (path_name p) \<noteq> None) entries)"
  define sdist where "sdist = hd (filter (\<lambda>p. sdist_version (path_name p) \<noteq> None) entries)"
  define expected where "expected = {wheel, sdist, dir @ [path_name wheel @ u ''.cdx.json''],
    dir @ [path_name sdist @ u ''.cdx.json''], dir @ [u ''SHA256SUMS'']}"
  from assms obtain v where v: "wheel_version (path_name wheel) = Some v" "sdist_version (path_name sdist) = Some v"
    and set: "set entries = insert (dir @ [SOURCE_IDENTITY_FILENAME]) expected"
    and p: "p = \<lparr>wheel_path = wheel, sdist_path = sdist, wheel_sbom = dir @ [path_name wheel @ u ''.cdx.json''],
      sdist_sbom = dir @ [path_name sdist @ u ''.cdx.json''], source_identity_path = dir @ [SOURCE_IDENTITY_FILENAME],
      checksum_path = dir @ [u ''SHA256SUMS''], wheel_release = v\<rparr>"
    unfolding choose_evidence_paths_def Let_def wheel_def [symmetric] sdist_def [symmetric] expected_def [symmetric]
    by (simp split: if_split_asm option.split_asm)
  have "set entries = {wheel, sdist, dir @ [path_name wheel @ u ''.cdx.json''],
    dir @ [path_name sdist @ u ''.cdx.json''], dir @ [SOURCE_IDENTITY_FILENAME], dir @ [u ''SHA256SUMS'']}"
    unfolding set expected_def by blast
  with artifact_names(1) [OF v(1)] artifact_names(2) [OF v(2)] show ?thesis
    unfolding p chosen_def by simp
qed

lemma name_snoc [simp]: "path_name (dir @ [n]) = n"
  by (simp add: path_name_def)

lemma name_parts:
  "u ''egressweave-'' \<noteq> []" "u ''-py3-none-any.whl'' \<noteq> []" "u ''.tar.gz'' \<noteq> []" "u ''.cdx.json'' \<noteq> []"
  "last (u ''-py3-none-any.whl'') = 108" "last (u ''.tar.gz'') = 122" "last (u ''.cdx.json'') = 110"
  "hd (u ''egressweave-'') = 101" "last (u ''SOURCE_IDENTITY.json'') = 110" "hd (u ''SOURCE_IDENTITY.json'') = 83"
  by code_simp+

lemma chosen_names:
  assumes "chosen dir entries p"
  shows "distinct (map (\<lambda>(path, _). path_name path) (payload_specs p))"
proof -
  have eqs: "path_name (wheel_path p) = u ''egressweave-'' @ wheel_release p @ u ''-py3-none-any.whl''"
    "path_name (sdist_path p) = u ''egressweave-'' @ wheel_release p @ u ''.tar.gz''"
    "path_name (wheel_sbom p) = path_name (wheel_path p) @ u ''.cdx.json''"
    "path_name (sdist_sbom p) = path_name (sdist_path p) @ u ''.cdx.json''"
    "path_name (source_identity_path p) = u ''SOURCE_IDENTITY.json''"
    using assms by (simp_all add: chosen_def SOURCE_IDENTITY_FILENAME_def)
  have last: "last (path_name (wheel_path p)) = 108" "last (path_name (sdist_path p)) = 122"
    "last (path_name (wheel_sbom p)) = 110" "last (path_name (sdist_sbom p)) = 110"
    "last (path_name (source_identity_path p)) = 110"
    and first: "hd (path_name (wheel_sbom p)) = 101" "hd (path_name (sdist_sbom p)) = 101"
      "hd (path_name (source_identity_path p)) = 83"
    by (simp_all add: eqs name_parts last_append hd_append)
  have "path_name (wheel_path p) \<noteq> path_name (sdist_path p)" using last by auto
  then have "path_name (wheel_sbom p) \<noteq> path_name (sdist_sbom p)" by (simp add: eqs(3,4))
  moreover have "path_name (wheel_sbom p) \<noteq> path_name (source_identity_path p)"
    "path_name (sdist_sbom p) \<noteq> path_name (source_identity_path p)" using first by auto
  moreover have "path_name (wheel_path p) \<noteq> path_name (wheel_sbom p)" "path_name (wheel_path p) \<noteq> path_name (sdist_sbom p)"
    "path_name (wheel_path p) \<noteq> path_name (source_identity_path p)"
    "path_name (sdist_path p) \<noteq> path_name (wheel_sbom p)" "path_name (sdist_path p) \<noteq> path_name (sdist_sbom p)"
    "path_name (sdist_path p) \<noteq> path_name (source_identity_path p)" using last by auto
  ultimately show ?thesis using last(1,2) by (auto simp: payload_specs_def)
qed

lemma require_regular_entries_state:
  "require_regular_entries ps w s = (Inr (), s') \<Longrightarrow> \<exists>n \<ge> clock s. s' = s\<lparr>clock := n\<rparr>"
proof (induction ps arbitrary: s)
  case Nil
  then show ?case by (auto intro!: exI [of _ "clock s"])
next
  case (Cons p ps)
  from Cons.prems have "require_regular_entries ps w (s\<lparr>clock := clock s + 2\<rparr>) = (Inr (), s')"
    by (auto simp: fbind_Inr ensure_eq_Inr eval_nat_numeral)
  from Cons.IH [OF this] obtain n where "clock s + 2 \<le> n" "s' = s\<lparr>clock := n\<rparr>" by auto
  then show ?case by (intro exI [of _ n]) simp
qed

lemma select_evidence_paths_sound:
  assumes "select_evidence_paths dir w s = (Inr p, s')"
  obtains n t children where "clock s \<le> n" "s' = s\<lparr>clock := n\<rparr>" "clock s \<le> t" "t < n"
    "fv_entries (w t) (abspath dir) = Some children" "chosen (abspath dir) children p"
proof -
  from assms obtain children n where e: "fv_entries (w (clock s + 3)) (abspath dir) = Some children"
    and n: "require_regular_entries (sort_key path_name children) w (s\<lparr>clock := clock s + 4\<rparr>) = (Inr (), s')"
    and c: "choose_evidence_paths (abspath dir) (sort_key path_name children) = Inr p"
    by (auto simp: select_evidence_paths_def require_canonical_evidence_root_def fbind_Inr ensure_eq_Inr Let_def
        eval_nat_numeral split: option.splits)
  from require_regular_entries_state [OF n] obtain m where m: "clock s + 4 \<le> m" "s' = s\<lparr>clock := m\<rparr>" by auto
  have "chosen (abspath dir) children p"
    using choose_evidence_paths_sound [OF c] by (simp add: chosen_def)
  with e m that [of m "clock s + 3" children] show thesis by simp
qed

section \<open>The manifest\<close>

lemma payload_digests_run:
  assumes "payload_digests L specs w s = (Inr ds, s')" "list_all (\<lambda>(_, cap, _). 0 \<le> cap) specs"
  shows "s' = s\<lparr>clock := clock s + 2 * length specs\<rparr>"
    and "map fst ds = map (\<lambda>(p, _). path_name p) specs"
    and "(p, cap, label) \<in> set specs \<Longrightarrow> \<exists>t d. clock s \<le> t \<and> t < clock s' \<and> (path_name p, d) \<in> set ds
      \<and> digest_at (rl_env L) w t p cap d"
proof -
  have "s' = s\<lparr>clock := clock s + 2 * length specs\<rparr> \<and> map fst ds = map (\<lambda>(p, _). path_name p) specs
    \<and> (\<forall>(p, cap, label) \<in> set specs. \<exists>t d. clock s \<le> t \<and> t < clock s' \<and> (path_name p, d) \<in> set ds
      \<and> digest_at (rl_env L) w t p cap d)"
    using assms
  proof (induction specs arbitrary: s ds)
    case (Cons spec specs)
    obtain p cap label where spec: "spec = (p, cap, label)" by (cases spec)
    with Cons.prems have cap: "0 \<le> cap" by simp
    from Cons.prems(1) obtain d rest where d: "digest_at (rl_env L) w (clock s) p cap d"
      and rest: "payload_digests L specs w (s\<lparr>clock := clock s + 2\<rparr>) = (Inr rest, s')"
      and ds: "ds = (path_name p, d) # rest"
      unfolding spec by (auto simp: fbind_Inr sha256_file_digest [OF cap])
    note IH = Cons.IH [OF rest]
    have "s' = s\<lparr>clock := clock s + 2 * length (spec # specs)\<rparr>"
      and names: "map fst rest = map (\<lambda>(p, _). path_name p) specs"
      and seen: "\<forall>(p, cap, label) \<in> set specs. \<exists>t d. clock s + 2 \<le> t \<and> t < clock s' \<and> (path_name p, d) \<in> set rest
        \<and> digest_at (rl_env L) w t p cap d"
      using IH Cons.prems(2) by auto
    moreover have "\<forall>(p, cap, label) \<in> set specs. \<exists>t d. clock s \<le> t \<and> t < clock s' \<and> (path_name p, d) \<in> set ds
        \<and> digest_at (rl_env L) w t p cap d"
    proof clarify
      fix q cap' label' assume "(q, cap', label') \<in> set specs"
      with seen obtain t d' where "clock s + 2 \<le> t" "t < clock s'" "(path_name q, d') \<in> set rest"
        "digest_at (rl_env L) w t q cap' d'" by blast
      then show "\<exists>t d. clock s \<le> t \<and> t < clock s' \<and> (path_name q, d) \<in> set ds \<and> digest_at (rl_env L) w t q cap' d"
        unfolding ds by (intro exI [of _ t] exI [of _ d']) simp
    qed
    moreover have "\<exists>t d. clock s \<le> t \<and> t < clock s' \<and> (path_name p, d) \<in> set ds \<and> digest_at (rl_env L) w t p cap d"
      using d ds calculation(1) by (auto intro!: exI [of _ "clock s"])
    ultimately show ?case by (simp add: spec ds)
  qed auto
  then show "s' = s\<lparr>clock := clock s + 2 * length specs\<rparr>" "map fst ds = map (\<lambda>(p, _). path_name p) specs"
    "(p, cap, label) \<in> set specs \<Longrightarrow> \<exists>t d. clock s \<le> t \<and> t < clock s' \<and> (path_name p, d) \<in> set ds
      \<and> digest_at (rl_env L) w t p cap d"
    by auto
qed

lemma payload_caps [simp]: "list_all (\<lambda>(_, cap, _). 0 \<le> cap) (payload_specs p)"
  by (simp add: payload_specs_def)

lemma payload_digests_at:
  assumes "payload_digests L (payload_specs p) w s = (Inr ds, s')" "chosen dir entries p" "map_of ds = map_of digests"
    "(path, cap, label) \<in> set (payload_specs p)"
  shows "\<exists>t. clock s \<le> t \<and> t < clock s' \<and> digest_at (rl_env L) w t path cap (digest_of digests path)"
proof -
  note run = payload_digests_run [OF assms(1) payload_caps]
  from run(3) [OF assms(4)] obtain t d where t: "clock s \<le> t" "t < clock s'" "digest_at (rl_env L) w t path cap d"
    and mem: "(path_name path, d) \<in> set ds" by blast
  have "distinct (map fst ds)" unfolding run(2) by (rule chosen_names [OF assms(2)])
  then have "digest_of digests path = d" using mem assms(3) by (simp add: digest_of_def flip: map_of_eq_Some_iff)
  with t show ?thesis by blast
qed

text \<open>An SBOM that was read stably and verified against the artifact.\<close>

definition sbom_verified ::
  "release_lib \<Rightarrow> world \<Rightarrow> nat \<Rightarrow> path \<Rightarrow> ustr \<Rightarrow> path \<Rightarrow> ustr \<Rightarrow> ustr \<Rightarrow> ustr \<Rightarrow> bool" where
  "sbom_verified L w t sbom_path sbom_digest artifact artifact_digest version serial \<longleftrightarrow>
     (\<exists>raw document. stable_read (rl_env L) w t sbom_path MAX_SBOM_BYTES raw \<and> sbom_digest = sha256_hex (rl_env L) raw
        \<and> strict_loads L raw = Some (JObject document)
        \<and> verify_document L document (path_name artifact) artifact_digest version = Inr serial)"

lemma verify_sbom_sound:
  "verify_sbom L sbom name artifact_digest version expected w s = (Inr serial, s') \<Longrightarrow> name = path_name artifact \<Longrightarrow>
     sbom_verified L w (clock s) sbom expected artifact artifact_digest version serial \<and> s' = s\<lparr>clock := clock s + 6\<rparr>"
  by (auto simp: verify_sbom_def fbind_Inr sbom_verified_def elim!: load_strict_json_sound)

text \<open>What a complete verification between the moments \<open>t0\<close> and \<open>t1\<close> has seen.\<close>

definition sealed_evidence ::
  "release_lib \<Rightarrow> world \<Rightarrow> nat \<Rightarrow> nat \<Rightarrow> evidence_paths \<Rightarrow> (ustr \<times> ustr) list \<Rightarrow> ustr \<Rightarrow> ustr \<Rightarrow> ustr \<Rightarrow> ustr \<Rightarrow> bool" where
  "sealed_evidence L w t0 t1 p digests checksum_digest source_sha sdist_serial wheel_serial \<longleftrightarrow>
     (\<exists>m1 m2. t0 \<le> m1 \<and> m1 < m2 \<and> m2 \<le> t1
      \<and> (\<forall>(path, cap, label) \<in> set (payload_specs p).
           (\<exists>t. t0 \<le> t \<and> t < m1 \<and> digest_at (rl_env L) w t path cap (digest_of digests path))
           \<and> (\<exists>t. m2 \<le> t \<and> t < t1 \<and> digest_at (rl_env L) w t path cap (digest_of digests path)))
      \<and> (\<exists>t raw content parsed. t0 \<le> t \<and> t < m1 \<and> stable_read (rl_env L) w t (checksum_path p) MAX_CHECKSUM_BYTES raw
           \<and> checksum_digest = sha256_hex (rl_env L) raw \<and> decode_ascii raw = Some content
           \<and> parse_checksums content (path_name ` {wheel_path p, sdist_path p, wheel_sbom p, sdist_sbom p, source_identity_path p})
               = Inr parsed
           \<and> map_of parsed = map_of digests)
      \<and> (\<exists>t. m2 \<le> t \<and> t < t1 \<and> digest_at (rl_env L) w t (checksum_path p) MAX_CHECKSUM_BYTES checksum_digest)
      \<and> (\<exists>t raw. m1 \<le> t \<and> t < m2 \<and> stable_read (rl_env L) w t (source_identity_path p) MAX_SOURCE_IDENTITY_BYTES raw
           \<and> encode_ascii (identity_text source_sha) = Some raw
           \<and> digest_of digests (source_identity_path p) = sha256_hex (rl_env L) raw)
      \<and> (\<exists>t. m1 \<le> t \<and> t < m2 \<and> sbom_verified L w t (sdist_sbom p) (digest_of digests (sdist_sbom p))
           (sdist_path p) (digest_of digests (sdist_path p)) (wheel_release p) sdist_serial)
      \<and> (\<exists>t. m1 \<le> t \<and> t < m2 \<and> sbom_verified L w t (wheel_sbom p) (digest_of digests (wheel_sbom p))
           (wheel_path p) (digest_of digests (wheel_path p)) (wheel_release p) wheel_serial))"

definition artifact_entries :: "evidence_paths \<Rightarrow> (ustr \<times> ustr) list \<Rightarrow> ustr \<Rightarrow> ustr \<Rightarrow> artifact_entry list" where
  "artifact_entries p digests sdist_serial wheel_serial =
     [\<lparr>ae_kind = u ''sdist'', ae_artifact = sdist_path p, ae_artifact_digest = digest_of digests (sdist_path p),
       ae_sbom = sdist_sbom p, ae_sbom_digest = digest_of digests (sdist_sbom p), ae_serial = sdist_serial\<rparr>,
      \<lparr>ae_kind = u ''wheel'', ae_artifact = wheel_path p, ae_artifact_digest = digest_of digests (wheel_path p),
       ae_sbom = wheel_sbom p, ae_sbom_digest = digest_of digests (wheel_sbom p), ae_serial = wheel_serial\<rparr>]"

lemma verify_artifacts_sound:
  assumes "verify_artifacts L digests (wheel_release p)
      [(u ''sdist'', sdist_path p, sdist_sbom p), (u ''wheel'', wheel_path p, wheel_sbom p)] w s = (Inr entries, s')"
  obtains sdist_serial wheel_serial where "entries = artifact_entries p digests sdist_serial wheel_serial"
    "sbom_verified L w (clock s) (sdist_sbom p) (digest_of digests (sdist_sbom p)) (sdist_path p)
       (digest_of digests (sdist_path p)) (wheel_release p) sdist_serial"
    "sbom_verified L w (clock s + 6) (wheel_sbom p) (digest_of digests (wheel_sbom p)) (wheel_path p)
       (digest_of digests (wheel_path p)) (wheel_release p) wheel_serial"
    "s' = s\<lparr>clock := clock s + 12\<rparr>"
  using assms by (auto simp: fbind_Inr artifact_entries_def dest!: verify_sbom_sound [OF _ refl])

lemma payload_specs_length [simp]: "length (payload_specs p) = 5"
  by (simp add: payload_specs_def)

lemma payload_names:
  "(\<lambda>(path, _). path_name path) ` set (payload_specs p)
   = path_name ` {wheel_path p, sdist_path p, wheel_sbom p, sdist_sbom p, source_identity_path p}"
  by (simp add: payload_specs_def)

lemma build_manifest_steps:
  assumes "build_evidence_manifest L dir repository source_sha w s = (Inr m, s')"
  obtains p s1 parsed cd s2 digests s3 artifacts s4 final s5 s6 where
    "repository = EXPECTED_REPOSITORY" "is_source_sha source_sha"
    "select_evidence_paths dir w s = (Inr p, s1)"
    "load_checksums L (checksum_path p) ((\<lambda>(path, _). path_name path) ` set (payload_specs p)) w s1 = (Inr (parsed, cd), s2)"
    "payload_digests L (payload_specs p) w s2 = (Inr digests, s3)" "map_of parsed = map_of digests"
    "load_source_identity L (source_identity_path p) (digest_of digests (source_identity_path p)) w s3
       = (Inr (EXPECTED_REPOSITORY, source_sha), s4)"
    "verify_artifacts L digests (wheel_release p)
       [(u ''sdist'', sdist_path p, sdist_sbom p), (u ''wheel'', wheel_path p, wheel_sbom p)] w s4 = (Inr artifacts, s5)"
    "payload_digests L (payload_specs p) w s5 = (Inr final, s6)" "map_of final = map_of digests"
    "digest_at (rl_env L) w (clock s6) (checksum_path p) MAX_CHECKSUM_BYTES cd"
    "s' = s6\<lparr>clock := Suc (Suc (clock s6))\<rparr>"
    "m = manifest_json p artifacts digests cd EXPECTED_REPOSITORY source_sha"
  using assms
  unfolding build_evidence_manifest_def
  by (auto simp: fbind_Inr ensure_eq_Inr sha256_file_digest simp del: verify_artifacts.simps intro: that)

lemma sealed_evidenceI:
  assumes chosen: "chosen dir entries p" and n: "t0 \<le> clock s1"
    and sums': "stable_read (rl_env L) w (clock s1) (checksum_path p) MAX_CHECKSUM_BYTES raw"
      "cd = sha256_hex (rl_env L) raw" "decode_ascii raw = Some content"
      "parse_checksums content (path_name ` {wheel_path p, sdist_path p, wheel_sbom p, sdist_sbom p, source_identity_path p})
        = Inr parsed"
    and s2: "s2 = s1\<lparr>clock := clock s1 + 6\<rparr>"
    and before: "payload_digests L (payload_specs p) w s2 = (Inr digests, s3)" "map_of parsed = map_of digests"
    and idr: "stable_read (rl_env L) w (clock s3) (source_identity_path p) MAX_SOURCE_IDENTITY_BYTES idraw"
      "digest_of digests (source_identity_path p) = sha256_hex (rl_env L) idraw"
      "encode_ascii (identity_text source_sha) = Some idraw"
    and s4: "s4 = s3\<lparr>clock := clock s3 + 6\<rparr>"
    and sboms: "sbom_verified L w (clock s4) (sdist_sbom p) (digest_of digests (sdist_sbom p)) (sdist_path p)
       (digest_of digests (sdist_path p)) (wheel_release p) ss"
      "sbom_verified L w (clock s4 + 6) (wheel_sbom p) (digest_of digests (wheel_sbom p)) (wheel_path p)
       (digest_of digests (wheel_path p)) (wheel_release p) ws"
    and s5: "s5 = s4\<lparr>clock := clock s4 + 12\<rparr>"
    and after: "payload_digests L (payload_specs p) w s5 = (Inr final, s6)" "map_of final = map_of digests"
    and again: "digest_at (rl_env L) w (clock s6) (checksum_path p) MAX_CHECKSUM_BYTES cd"
  shows "sealed_evidence L w t0 (Suc (Suc (clock s6))) p digests cd source_sha ss ws"
proof -
  have s3: "s3 = s2\<lparr>clock := clock s2 + 10\<rparr>" using payload_digests_run(1) [OF before(1)] by simp
  have s6: "s6 = s5\<lparr>clock := clock s5 + 10\<rparr>" using payload_digests_run(1) [OF after(1)] by simp
  note states = s6 s5 s4 s3 s2
  show ?thesis
    unfolding sealed_evidence_def
  proof (rule exI [of _ "clock s3"], rule exI [of _ "clock s5"], intro conjI)
    show "t0 \<le> clock s3" "clock s3 < clock s5" "clock s5 \<le> Suc (Suc (clock s6))" using n by (simp_all add: states)
    show "\<forall>(path, cap, label) \<in> set (payload_specs p).
        (\<exists>t. t0 \<le> t \<and> t < clock s3 \<and> digest_at (rl_env L) w t path cap (digest_of digests path))
        \<and> (\<exists>t. clock s5 \<le> t \<and> t < Suc (Suc (clock s6)) \<and> digest_at (rl_env L) w t path cap (digest_of digests path))"
    proof clarify
      fix path cap label assume mem: "(path, cap, label) \<in> set (payload_specs p)"
      have "t0 \<le> clock s2" "clock s6 \<le> Suc (Suc (clock s6))" using n by (simp_all add: states)
      with payload_digests_at [OF before(1) chosen refl mem] payload_digests_at [OF after(1) chosen after(2) mem]
      show "(\<exists>t. t0 \<le> t \<and> t < clock s3 \<and> digest_at (rl_env L) w t path cap (digest_of digests path))
        \<and> (\<exists>t. clock s5 \<le> t \<and> t < Suc (Suc (clock s6)) \<and> digest_at (rl_env L) w t path cap (digest_of digests path))"
        by (meson le_trans less_le_trans)
    qed
    show "\<exists>t raw content parsed. t0 \<le> t \<and> t < clock s3
        \<and> stable_read (rl_env L) w t (checksum_path p) MAX_CHECKSUM_BYTES raw
        \<and> cd = sha256_hex (rl_env L) raw \<and> decode_ascii raw = Some content
        \<and> parse_checksums content (path_name ` {wheel_path p, sdist_path p, wheel_sbom p, sdist_sbom p, source_identity_path p})
            = Inr parsed
        \<and> map_of parsed = map_of digests"
      using sums' before(2) n
      by (intro exI [of _ "clock s1"] exI [of _ raw] exI [of _ content] exI [of _ parsed]) (simp add: s2 s3)
    show "\<exists>t. clock s5 \<le> t \<and> t < Suc (Suc (clock s6)) \<and> digest_at (rl_env L) w t (checksum_path p) MAX_CHECKSUM_BYTES cd"
      using again by (intro exI [of _ "clock s6"]) (simp add: s6)
    show "\<exists>t raw. clock s3 \<le> t \<and> t < clock s5
        \<and> stable_read (rl_env L) w t (source_identity_path p) MAX_SOURCE_IDENTITY_BYTES raw
        \<and> encode_ascii (identity_text source_sha) = Some raw
        \<and> digest_of digests (source_identity_path p) = sha256_hex (rl_env L) raw"
      using idr by (intro exI [of _ "clock s3"] exI [of _ idraw]) (simp add: s4 s5)
    show "\<exists>t. clock s3 \<le> t \<and> t < clock s5 \<and> sbom_verified L w t (sdist_sbom p) (digest_of digests (sdist_sbom p))
           (sdist_path p) (digest_of digests (sdist_path p)) (wheel_release p) ss"
      using sboms(1) by (intro exI [of _ "clock s4"]) (simp add: s4 s5)
    show "\<exists>t. clock s3 \<le> t \<and> t < clock s5 \<and> sbom_verified L w t (wheel_sbom p) (digest_of digests (wheel_sbom p))
           (wheel_path p) (digest_of digests (wheel_path p)) (wheel_release p) ws"
      using sboms(2) by (intro exI [of _ "clock s4 + 6"]) (simp add: s4 s5)
  qed
qed

text \<open>C26: a manifest is only made when the six files of the evidence directory were bracketed by
  equal measurements: every payload file had the recorded digest at a moment before and at a moment
  after the documents were checked, the checksum file listed exactly these digests, the source
  identity consisted of the one canonical text for the given commit, and each SBOM, read between two
  measurements, described its artifact. Nothing is written.\<close>

theorem release_manifest_sound:
  assumes "build_evidence_manifest L dir repository source_sha w s = (Inr m, s')"
  shows "repository = EXPECTED_REPOSITORY \<and> is_source_sha source_sha \<and> written s' = written s
    \<and> (\<exists>children t p digests checksum_digest sdist_serial wheel_serial.
         clock s \<le> t \<and> t < clock s' \<and> fv_entries (w t) (abspath dir) = Some children
         \<and> chosen (abspath dir) children p
         \<and> sealed_evidence L w (clock s) (clock s') p digests checksum_digest source_sha sdist_serial wheel_serial
         \<and> m = manifest_json p (artifact_entries p digests sdist_serial wheel_serial) digests checksum_digest
                 EXPECTED_REPOSITORY source_sha)"
  using assms
proof (rule build_manifest_steps)
  fix p s1 parsed cd s2 digests s3 artifacts s4 final s5 s6
  assume repo: "repository = EXPECTED_REPOSITORY" and sha: "is_source_sha source_sha"
    and sel: "select_evidence_paths dir w s = (Inr p, s1)"
    and sums: "load_checksums L (checksum_path p) ((\<lambda>(path, _). path_name path) ` set (payload_specs p)) w s1
        = (Inr (parsed, cd), s2)"
    and before: "payload_digests L (payload_specs p) w s2 = (Inr digests, s3)" "map_of parsed = map_of digests"
    and identity: "load_source_identity L (source_identity_path p) (digest_of digests (source_identity_path p)) w s3
       = (Inr (EXPECTED_REPOSITORY, source_sha), s4)"
    and arts: "verify_artifacts L digests (wheel_release p)
       [(u ''sdist'', sdist_path p, sdist_sbom p), (u ''wheel'', wheel_path p, wheel_sbom p)] w s4 = (Inr artifacts, s5)"
    and after: "payload_digests L (payload_specs p) w s5 = (Inr final, s6)" "map_of final = map_of digests"
    and again: "digest_at (rl_env L) w (clock s6) (checksum_path p) MAX_CHECKSUM_BYTES cd"
    and s': "s' = s6\<lparr>clock := Suc (Suc (clock s6))\<rparr>"
    and m: "m = manifest_json p artifacts digests cd EXPECTED_REPOSITORY source_sha"
  from sel obtain n t children where n: "clock s \<le> n" "s1 = s\<lparr>clock := n\<rparr>" and t: "clock s \<le> t" "t < n"
    "fv_entries (w t) (abspath dir) = Some children" and chosen: "chosen (abspath dir) children p"
    by (rule select_evidence_paths_sound)
  from sums obtain raw content where sums': "stable_read (rl_env L) w (clock s1) (checksum_path p) MAX_CHECKSUM_BYTES raw"
    "cd = sha256_hex (rl_env L) raw" "decode_ascii raw = Some content"
    "parse_checksums content ((\<lambda>(path, _). path_name path) ` set (payload_specs p)) = Inr parsed"
    and s2: "s2 = s1\<lparr>clock := clock s1 + 6\<rparr>" by (rule load_checksums_sound)
  note sums' = sums' [unfolded payload_names]
  have s3: "s3 = s2\<lparr>clock := clock s2 + 10\<rparr>" using payload_digests_run(1) [OF before(1)] by simp
  from identity obtain idraw where idr: "stable_read (rl_env L) w (clock s3) (source_identity_path p) MAX_SOURCE_IDENTITY_BYTES idraw"
    "digest_of digests (source_identity_path p) = sha256_hex (rl_env L) idraw"
    "encode_ascii (identity_text source_sha) = Some idraw" and s4: "s4 = s3\<lparr>clock := clock s3 + 6\<rparr>"
    by (rule load_source_identity_sound)
  from arts obtain ss ws where entries: "artifacts = artifact_entries p digests ss ws"
    and sboms: "sbom_verified L w (clock s4) (sdist_sbom p) (digest_of digests (sdist_sbom p)) (sdist_path p)
       (digest_of digests (sdist_path p)) (wheel_release p) ss"
      "sbom_verified L w (clock s4 + 6) (wheel_sbom p) (digest_of digests (wheel_sbom p)) (wheel_path p)
       (digest_of digests (wheel_path p)) (wheel_release p) ws"
    and s5: "s5 = s4\<lparr>clock := clock s4 + 12\<rparr>" by (rule verify_artifacts_sound)
  have s6: "s6 = s5\<lparr>clock := clock s5 + 10\<rparr>" using payload_digests_run(1) [OF after(1)] by simp
  note states = s' s6 s5 s4 s3 s2 n(2)
  have sealed: "sealed_evidence L w (clock s) (clock s') p digests cd source_sha ss ws"
    using sealed_evidenceI [OF chosen _ sums' s2 before idr s4 sboms s5 after again, of "clock s"] n by (simp add: s')
  have "written s' = written s" "t < clock s'" using t by (simp_all add: states)
  with repo sha t chosen sealed m entries show ?thesis by blast
qed

end
