(* ===== verification/Release_Complete.thy ===== *)
theory Release_Complete
  imports Release_Output Release_Rules
begin

text \<open>
  The release verifier accepts: on a file system that does not change, every consistent evidence
  set gets its manifest, and the manifest encodes and reads back.
\<close>

section \<open>Unchanging files\<close>

definition steady :: "world \<Rightarrow> (path \<rightharpoonup> bytes) \<Rightarrow> bool" where
  "steady w files \<longleftrightarrow> (\<forall>t p c. files p = Some c \<longrightarrow> reads_regular w t p c)"

lemma steadyD: "steady w files \<Longrightarrow> files p = Some c \<Longrightarrow> reads_regular w t p c"
  by (auto simp: steady_def)

lemma sha256_file_steady:
  assumes "steady w files" "files p = Some c" "int (length c) \<le> cap"
  shows "sha256_file E p cap label w s = (Inr (sha256_hex E c), s\<lparr>clock := clock s + 2\<rparr>)"
proof -
  have "0 \<le> cap" using assms(3) by simp
  then show ?thesis using assms steadyD [OF assms(1,2)] by (auto simp: sha256_file_digest digest_at_def)
qed

lemma read_bounded_file_steady:
  assumes "steady w files" "files p = Some c" "int (length c) \<le> cap"
  shows "read_bounded_file p cap label w s = (Inr c, s\<lparr>clock := clock s + 2\<rparr>)"
proof -
  have "0 \<le> cap" using assms(3) by simp
  then show ?thesis using assms steadyD [OF assms(1,2)] by (auto simp: read_bounded_file_Inr)
qed

lemma stable_read_steady:
  assumes "steady w files" "files p = Some c" "int (length c) \<le> cap" "r c = Inr doc"
  shows "fbind (sha256_file E p cap label) (\<lambda>before. fbind (read_bounded_file p cap label) (\<lambda>raw.
      fbind (flift (r raw)) (\<lambda>doc. fbind (sha256_file E p cap label) (\<lambda>after.
      fbind (require_stable_read E raw before after label) (\<lambda>_. k raw doc after))))) w s
    = k c doc (sha256_hex E c) w (s\<lparr>clock := clock s + 6\<rparr>)"
  using assms(4)
  by (simp add: fbind_def sha256_file_steady [OF assms(1-3)] read_bounded_file_steady [OF assms(1-3)]
      require_stable_read_def eval_nat_numeral)

section \<open>Consistent evidence\<close>

text \<open>The directory as it is: real, canonical and with plain files only.\<close>

definition plain_directory :: "world \<Rightarrow> path \<Rightarrow> path list \<Rightarrow> bool" where
  "plain_directory w dir children \<longleftrightarrow> (\<forall>t. fv_is_dir (w t) dir \<and> \<not> fv_is_symlink (w t) dir
     \<and> fv_resolve (w t) dir = Some (abspath dir) \<and> fv_entries (w t) (abspath dir) = Some children
     \<and> list_all (\<lambda>p. \<not> fv_is_symlink (w t) p \<and> fv_is_file (w t) p) children)"

definition document_verifies :: "release_lib \<Rightarrow> bytes \<Rightarrow> ustr \<Rightarrow> ustr \<Rightarrow> ustr \<Rightarrow> ustr \<Rightarrow> bool" where
  "document_verifies L raw name artifact_digest version serial \<longleftrightarrow>
     (\<exists>document. strict_loads L raw = Some (JObject document)
        \<and> verify_document L document name artifact_digest version = Inr serial)"

text \<open>The bytes of the six files, and what they must be.\<close>

record evidence_bytes =
  eb_wheel :: bytes
  eb_sdist :: bytes
  eb_wheel_sbom :: bytes
  eb_sdist_sbom :: bytes
  eb_identity :: bytes
  eb_checksums :: bytes

definition evidence_digests :: "pyenv \<Rightarrow> evidence_paths \<Rightarrow> evidence_bytes \<Rightarrow> (ustr \<times> ustr) list" where
  "evidence_digests E p b =
     [(path_name (wheel_path p), sha256_hex E (eb_wheel b)), (path_name (sdist_path p), sha256_hex E (eb_sdist b)),
      (path_name (wheel_sbom p), sha256_hex E (eb_wheel_sbom b)), (path_name (sdist_sbom p), sha256_hex E (eb_sdist_sbom b)),
      (path_name (source_identity_path p), sha256_hex E (eb_identity b))]"

definition evidence_fits :: "(path \<rightharpoonup> bytes) \<Rightarrow> evidence_paths \<Rightarrow> evidence_bytes \<Rightarrow> bool" where
  "evidence_fits files p b \<longleftrightarrow>
     files (wheel_path p) = Some (eb_wheel b) \<and> int (length (eb_wheel b)) \<le> MAX_ARTIFACT_BYTES
     \<and> files (sdist_path p) = Some (eb_sdist b) \<and> int (length (eb_sdist b)) \<le> MAX_ARTIFACT_BYTES
     \<and> files (wheel_sbom p) = Some (eb_wheel_sbom b) \<and> int (length (eb_wheel_sbom b)) \<le> MAX_SBOM_BYTES
     \<and> files (sdist_sbom p) = Some (eb_sdist_sbom b) \<and> int (length (eb_sdist_sbom b)) \<le> MAX_SBOM_BYTES
     \<and> files (source_identity_path p) = Some (eb_identity b) \<and> int (length (eb_identity b)) \<le> MAX_SOURCE_IDENTITY_BYTES
     \<and> files (checksum_path p) = Some (eb_checksums b) \<and> int (length (eb_checksums b)) \<le> MAX_CHECKSUM_BYTES"

definition evidence_consistent ::
  "release_lib \<Rightarrow> evidence_paths \<Rightarrow> evidence_bytes \<Rightarrow> ustr \<Rightarrow> ustr \<Rightarrow> ustr \<Rightarrow> bool" where
  "evidence_consistent L p b source_sha sdist_serial wheel_serial \<longleftrightarrow>
     is_source_sha source_sha \<and> encode_ascii (identity_text source_sha) = Some (eb_identity b)
     \<and> (\<exists>content parsed. decode_ascii (eb_checksums b) = Some content
          \<and> parse_checksums content (path_name ` {wheel_path p, sdist_path p, wheel_sbom p, sdist_sbom p, source_identity_path p})
              = Inr parsed
          \<and> map_of parsed = map_of (evidence_digests (rl_env L) p b))
     \<and> document_verifies L (eb_sdist_sbom b) (path_name (sdist_path p)) (sha256_hex (rl_env L) (eb_sdist b))
         (wheel_release p) sdist_serial
     \<and> document_verifies L (eb_wheel_sbom b) (path_name (wheel_path p)) (sha256_hex (rl_env L) (eb_wheel b))
         (wheel_release p) wheel_serial"

section \<open>Each reader accepts\<close>

lemma require_regular_entries_steady:
  "(\<And>t. list_all (\<lambda>p. \<not> fv_is_symlink (w t) p \<and> fv_is_file (w t) p) ps) \<Longrightarrow>
   require_regular_entries ps w s = (Inr (), s\<lparr>clock := clock s + 2 * length ps\<rparr>)"
proof (induction ps arbitrary: s)
  case (Cons p ps)
  have "list_all (\<lambda>p. \<not> fv_is_symlink (w t) p \<and> fv_is_file (w t) p) ps"
    and "\<not> fv_is_symlink (w t) p" "fv_is_file (w t) p" for t using Cons.prems [of t] by simp_all
  then show ?case using Cons.IH by (simp add: fbind_def)
qed simp

lemma select_evidence_paths_steady:
  assumes "plain_directory w dir children" "choose_evidence_paths (abspath dir) (sort_key path_name children) = Inr p"
  shows "select_evidence_paths dir w s = (Inr p, s\<lparr>clock := clock s + 4 + 2 * length children\<rparr>)"
proof -
  have "require_regular_entries (sort_key path_name children) w s
      = (Inr (), s\<lparr>clock := clock s + 2 * length children\<rparr>)" for s
    using assms(1) require_regular_entries_steady [of w "sort_key path_name children" s]
    by (simp add: plain_directory_def list_all_iff)
  then show ?thesis using assms
    by (simp add: select_evidence_paths_def require_canonical_evidence_root_def fbind_def plain_directory_def Let_def)
qed

lemma identity_json_ok: "is_source_sha sha \<Longrightarrow> json_ok (JObject (identity_members sha))"
proof -
  assume sha: "is_source_sha sha"
  have "text_ok s" if "list_all is_lower_hex s" for s
    using that by (induction s) (auto simp: is_lower_hex_def is_dec_c_def high_half_def low_half_def)
  then have "text_ok sha" using sha by (simp add: is_source_sha_def)
  moreover have "text_ok (u ''format'')" "text_ok (u ''formatVersion'')" "text_ok (u ''repository'')" "text_ok (u ''sourceSha'')"
    "text_ok SOURCE_IDENTITY_FORMAT" "text_ok EXPECTED_REPOSITORY" "json_ok (JInt SOURCE_IDENTITY_VERSION)"
    by code_simp+
  ultimately show ?thesis using identity_names_sorted(2) unfolding json_ok.simps identity_names
    by (simp add: identity_members_def)
qed

lemma identity_loads:
  assumes "is_source_sha sha" "encode_ascii (identity_text sha) = Some raw"
  shows "strict_loads L raw = Some (JObject (identity_members sha))"
    and "canonical_text (JObject (identity_members sha)) = Inr (butlast (identity_text sha))"
proof -
  have dist: "distinct (map fst (identity_members sha))" using identity_names_sorted(2) by (simp only: identity_names)
  from identity_canonical [OF assms(1) dist refl]
  show c: "canonical_text (JObject (identity_members sha)) = Inr (butlast (identity_text sha))" .
  have sorted: "sorted_keys (JObject (identity_members sha)) = JObject (identity_members sha)"
  proof -
    have "map (\<lambda>(k, v). (k, sorted_keys v)) (identity_members sha) = identity_members sha"
      by (rule map_idI) (simp only: identity_plain split_paired_all prod.case)
    moreover have "sort_key fst (identity_members sha) = identity_members sha"
      by (rule sort_by_names [OF dist refl]) (simp_all only: identity_names identity_names_sorted)
    ultimately show ?thesis by simp
  qed
  have "style_ok compact_style" by (simp add: style_ok_def compact_style_def)
  from loads_dumps_space [OF identity_json_ok [OF assms(1)] this, of "rl_float L"] c
  have l: "\<forall>sp. list_all is_json_space sp \<longrightarrow>
      loads (rl_float L) (butlast (identity_text sha) @ sp) = Some (JObject (identity_members sha))"
    by (simp add: canonical_text_def sorted del: sorted_keys.simps)
  have "list_all is_json_space [10]" by (simp add: is_json_space_def)
  moreover have "identity_text sha = butlast (identity_text sha) @ [10]" by (simp add: identity_text_def butlast_append)
  ultimately have "loads (rl_float L) (identity_text sha) = Some (JObject (identity_members sha))" using l by metis
  then show "strict_loads L raw = Some (JObject (identity_members sha))"
    using decode_utf8_ascii [OF assms(2)] by (simp add: strict_loads_def)
qed

lemma load_source_identity_steady:
  assumes "steady w files" "files p = Some raw" "int (length raw) \<le> MAX_SOURCE_IDENTITY_BYTES"
    "is_source_sha sha" "encode_ascii (identity_text sha) = Some raw"
  shows "load_source_identity L p (sha256_hex (rl_env L) raw) w s
    = (Inr (EXPECTED_REPOSITORY, sha), s\<lparr>clock := clock s + 6\<rparr>)"
proof -
  note loaded = identity_loads(1) [OF assms(4,5), of L] identity_loads(2) [OF assms(4,5)]
  have prof: "identity_profile (identity_members sha) = Some (EXPECTED_REPOSITORY, sha)"
  proof -
    have "fst ` set (identity_members sha) = {u ''format'', u ''formatVersion'', u ''repository'', u ''sourceSha''}"
      by (simp add: identity_members_def)
    moreover have "json_get (u ''format'') (identity_members sha) = Some (JString SOURCE_IDENTITY_FORMAT)"
      "json_get (u ''formatVersion'') (identity_members sha) = Some (JInt SOURCE_IDENTITY_VERSION)"
      "json_get (u ''repository'') (identity_members sha) = Some (JString EXPECTED_REPOSITORY)"
      "json_get (u ''sourceSha'') (identity_members sha) = Some (JString sha)"
      by (simp_all add: json_get_def identity_members_def u_def)
    ultimately show ?thesis using assms(4) by (simp add: identity_profile_def)
  qed
  have joined: "butlast (identity_text sha) @ [10] = identity_text sha" by (simp add: identity_text_def butlast_append)
  show ?thesis
    unfolding load_source_identity_def
    by (subst stable_read_steady [OF assms(1-3), where doc = "JObject (identity_members sha)"])
      (simp_all add: loaded prof joined assms(5) fbind_def)
qed

lemma load_checksums_steady:
  assumes "steady w files" "files p = Some raw" "int (length raw) \<le> MAX_CHECKSUM_BYTES"
    "decode_ascii raw = Some content" "parse_checksums content names = Inr parsed"
  shows "load_checksums L p names w s = (Inr (parsed, sha256_hex (rl_env L) raw), s\<lparr>clock := clock s + 6\<rparr>)"
  unfolding load_checksums_def
  by (subst stable_read_steady [OF assms(1-3), where doc = content]) (simp_all add: assms(4,5) fbind_def)

lemma verify_sbom_steady:
  assumes "steady w files" "files p = Some raw" "int (length raw) \<le> MAX_SBOM_BYTES"
    "document_verifies L raw name artifact_digest version serial"
  shows "verify_sbom L p name artifact_digest version (sha256_hex (rl_env L) raw) w s
    = (Inr serial, s\<lparr>clock := clock s + 6\<rparr>)"
proof -
  from assms(4) obtain document where d: "strict_loads L raw = Some (JObject document)"
    "verify_document L document name artifact_digest version = Inr serial" by (auto simp: document_verifies_def)
  have "load_strict_json L p (sha256_hex (rl_env L) raw) w s = (Inr document, s\<lparr>clock := clock s + 6\<rparr>)"
    unfolding load_strict_json_def
    by (subst stable_read_steady [OF assms(1-3), where doc = "JObject document"]) (simp_all add: d fbind_def)
  then show ?thesis by (simp add: verify_sbom_def fbind_def d)
qed

lemma payload_digests_steady:
  assumes "steady w files" "evidence_fits files p b"
  shows "payload_digests L (payload_specs p) w s
    = (Inr (evidence_digests (rl_env L) p b), s\<lparr>clock := clock s + 10\<rparr>)"
  using assms(2) unfolding evidence_fits_def
  by (simp add: payload_specs_def evidence_digests_def fbind_def sha256_file_steady [OF assms(1)] eval_nat_numeral)

lemma evidence_digest_of:
  assumes "chosen dir entries p"
  shows "digest_of (evidence_digests E p b) (wheel_path p) = sha256_hex E (eb_wheel b)"
    "digest_of (evidence_digests E p b) (sdist_path p) = sha256_hex E (eb_sdist b)"
    "digest_of (evidence_digests E p b) (wheel_sbom p) = sha256_hex E (eb_wheel_sbom b)"
    "digest_of (evidence_digests E p b) (sdist_sbom p) = sha256_hex E (eb_sdist_sbom b)"
    "digest_of (evidence_digests E p b) (source_identity_path p) = sha256_hex E (eb_identity b)"
  using chosen_names [OF assms] by (auto simp: payload_specs_def evidence_digests_def digest_of_def)

lemma build_manifest_complete:
  assumes steady: "steady w files" and dir: "plain_directory w dir children"
    and choice: "choose_evidence_paths (abspath dir) (sort_key path_name children) = Inr p"
    and fits: "evidence_fits files p b"
    and ok: "evidence_consistent L p b source_sha sdist_serial wheel_serial"
  shows "build_evidence_manifest L dir EXPECTED_REPOSITORY source_sha w s
    = (Inr (manifest_json p (artifact_entries p (evidence_digests (rl_env L) p b) sdist_serial wheel_serial)
              (evidence_digests (rl_env L) p b) (sha256_hex (rl_env L) (eb_checksums b)) EXPECTED_REPOSITORY source_sha),
       s\<lparr>clock := clock s + 50 + 2 * length children\<rparr>)"
proof -
  let ?d = "evidence_digests (rl_env L) p b"
  note digests = evidence_digest_of [OF choose_evidence_paths_sound [OF choice], of "rl_env L" b]
  note fit = fits [unfolded evidence_fits_def]
  from ok obtain content parsed where sums: "decode_ascii (eb_checksums b) = Some content"
    "parse_checksums content (path_name ` {wheel_path p, sdist_path p, wheel_sbom p, sdist_sbom p, source_identity_path p}) = Inr parsed"
    "map_of parsed = map_of ?d" and sha: "is_source_sha source_sha"
    and identity: "encode_ascii (identity_text source_sha) = Some (eb_identity b)"
    and documents: "document_verifies L (eb_sdist_sbom b) (path_name (sdist_path p)) (sha256_hex (rl_env L) (eb_sdist b))
         (wheel_release p) sdist_serial"
      "document_verifies L (eb_wheel_sbom b) (path_name (wheel_path p)) (sha256_hex (rl_env L) (eb_wheel b))
         (wheel_release p) wheel_serial"
    by (auto simp: evidence_consistent_def)
  have checksums: "load_checksums L (checksum_path p) ((\<lambda>(path, _). path_name path) ` set (payload_specs p)) w s
      = (Inr (parsed, sha256_hex (rl_env L) (eb_checksums b)), s\<lparr>clock := clock s + 6\<rparr>)" for s
    using fit sums by (intro load_checksums_steady [OF steady]) (simp_all only: payload_names)
  have final: "sha256_file (rl_env L) (checksum_path p) MAX_CHECKSUM_BYTES ''SHA256SUMS'' w s
      = (Inr (sha256_hex (rl_env L) (eb_checksums b)), s\<lparr>clock := clock s + 2\<rparr>)" for s
    using fit by (intro sha256_file_steady [OF steady]) simp_all
  have sealed: "load_source_identity L (source_identity_path p) (digest_of ?d (source_identity_path p)) w s
      = (Inr (EXPECTED_REPOSITORY, source_sha), s\<lparr>clock := clock s + 6\<rparr>)" for s
    unfolding digests using fit sha identity by (intro load_source_identity_steady [OF steady]) simp_all
  have arts: "verify_artifacts L ?d (wheel_release p)
       [(u ''sdist'', sdist_path p, sdist_sbom p), (u ''wheel'', wheel_path p, wheel_sbom p)] w s
      = (Inr (artifact_entries p ?d sdist_serial wheel_serial), s\<lparr>clock := clock s + 12\<rparr>)" for s
  proof -
    have "verify_sbom L (sdist_sbom p) (path_name (sdist_path p)) (sha256_hex (rl_env L) (eb_sdist b)) (wheel_release p)
        (sha256_hex (rl_env L) (eb_sdist_sbom b)) w s = (Inr sdist_serial, s\<lparr>clock := clock s + 6\<rparr>)" for s
      using fit documents(1) by (intro verify_sbom_steady [OF steady]) simp_all
    moreover have "verify_sbom L (wheel_sbom p) (path_name (wheel_path p)) (sha256_hex (rl_env L) (eb_wheel b)) (wheel_release p)
        (sha256_hex (rl_env L) (eb_wheel_sbom b)) w s = (Inr wheel_serial, s\<lparr>clock := clock s + 6\<rparr>)" for s
      using fit documents(2) by (intro verify_sbom_steady [OF steady]) simp_all
    ultimately show ?thesis by (simp add: fbind_def digests artifact_entries_def)
  qed
  show ?thesis
    unfolding build_evidence_manifest_def set_map
    by (simp add: fbind_def sha select_evidence_paths_steady [OF dir choice] checksums
        payload_digests_steady [OF steady fits] sums(3) sealed arts final del: verify_artifacts.simps)
qed

text \<open>C27: the verifier accepts. On a file system that does not change, a directory of plain files
  whose six members are consistent (the checksum file lists the digests, the identity is the
  canonical text, both documents describe their artifacts) yields the manifest that lists them.\<close>

theorem consistent_evidence_accepted:
  assumes "steady w files" "plain_directory w dir children"
    "choose_evidence_paths (abspath dir) (sort_key path_name children) = Inr p"
    "evidence_fits files p b" "evidence_consistent L p b source_sha sdist_serial wheel_serial"
  shows "fst (build_evidence_manifest L dir EXPECTED_REPOSITORY source_sha w s)
    = Inr (manifest_json p (artifact_entries p (evidence_digests (rl_env L) p b) sdist_serial wheel_serial)
            (evidence_digests (rl_env L) p b) (sha256_hex (rl_env L) (eb_checksums b)) EXPECTED_REPOSITORY source_sha)"
  by (simp add: build_manifest_complete [OF assms])

section \<open>The encoding\<close>

lemma sorted_keys_idem: "json_ok j \<Longrightarrow> sorted_keys (sorted_keys j) = sorted_keys j"
proof (induction j)
  case (JList xs)
  then show ?case by (simp add: list_all_iff)
next
  case (JObject members)
  let ?m = "map (\<lambda>(k, v). (k, sorted_keys v)) members"
  have "map (\<lambda>(k, v). (k, sorted_keys v)) ?m = ?m"
    using JObject by (fastforce simp: list_all_iff)
  moreover have "map (\<lambda>(k, v). (k, sorted_keys v)) (sort_key fst ?m)
      = sort_key fst (map (\<lambda>(k, v). (k, sorted_keys v)) ?m)"
  proof (rule sort_by_names [symmetric])
    show "distinct (map fst (map (\<lambda>(k, v). (k, sorted_keys v)) ?m))"
      using JObject.prems by (simp only: keys_of_map json_ok.simps)
    show "distinct (map fst (map (\<lambda>(k, v). (k, sorted_keys v)) (sort_key fst ?m)))"
      using JObject.prems by (simp only: keys_of_map json_ok.simps distinct_sorted_keys)
  qed (simp_all only: keys_of_map set_map set_sort sorted_sort_key)
  ultimately have "map (\<lambda>(k, v). (k, sorted_keys v)) (sort_key fst ?m) = sort_key fst ?m" by (simp only:)
  then show ?case by (simp add: sort_key_id_if_sorted)
qed simp_all

text \<open>A strict value always encodes, and the encoding reads back to it.\<close>

lemma encoding_reads_back:
  assumes "json_ok (JObject members)"
  obtains payload content where "encode_evidence_manifest L (JObject members) = Inr payload"
    "decode_utf8 payload = Some content" "loads (rl_float L) content = Some (sorted_keys (JObject members))"
proof -
  have "style_ok indented_style" by (simp add: style_ok_def indented_style_def is_json_space_def list_all_iff)
  from loads_dumps_space [OF assms this, of "rl_float L"] obtain t where t: "dumps indented_style (JObject members) = Inr t"
    "py_isascii t" "\<forall>sp. list_all is_json_space sp \<longrightarrow> loads (rl_float L) (t @ sp) = Some (sorted_keys (JObject members))"
    by blast
  have l: "loads (rl_float L) t = Some (sorted_keys (JObject members))"
    "loads (rl_float L) (t @ [10]) = Some (sorted_keys (JObject members))"
    using t(3) [rule_format, of "[]"] t(3) [rule_format, of "[10]"] by (simp_all add: is_json_space_def)
  obtain b where b: "encode_ascii (t @ [10]) = Some b"
    using t(2) by (auto simp: encode_ascii_def py_isascii_def is_ascii_c_def)
  have "encode_evidence_manifest L (JObject members) = Inr b"
    unfolding encode_evidence_manifest_def Let_def
    by (simp add: t(1) l(1) sorted_keys_idem [OF assms] b of_option_def del: sorted_keys.simps)
  from that [OF this decode_utf8_ascii [OF b] l(2)] show thesis .
qed

end
