(* ===== verification/Output_Rules.thy ===== *)
theory Output_Rules
  imports Release_Output Release_Rules
begin

text \<open>
  What the publication of release evidence guarantees: the encoding loses nothing, a file is only
  created for a verified manifest, and success means that the published bytes were read back while
  the evidence still was what the manifest says.
\<close>

section \<open>Operations that write nothing\<close>

definition quiet :: "'a fsm \<Rightarrow> bool" where
  "quiet m \<longleftrightarrow> (\<forall>w s. written (snd (m w s)) = written s \<and> clock s \<le> clock (snd (m w s)))"

named_theorems quiet_rules \<open>operations that only observe\<close>

lemma quietD: "quiet m \<Longrightarrow> m w s = (r, s') \<Longrightarrow> written s' = written s \<and> clock s \<le> clock s'"
  unfolding quiet_def by (metis snd_conv)

lemma quiet_steps [quiet_rules]:
  "quiet (fret x)" "quiet (fraise e)" "quiet (flift r)" "quiet (observe q)" "quiet (fcheck b msg)"
  by (simp_all add: quiet_def)

lemma quietI: "(\<And>w s r s'. m w s = (r, s') \<Longrightarrow> written s' = written s \<and> clock s \<le> clock s') \<Longrightarrow> quiet m"
  unfolding quiet_def by (metis prod.collapse)

lemma quiet_fbind [quiet_rules]:
  assumes m: "quiet m" and f: "\<And>x. quiet (f x)"
  shows "quiet (fbind m f)"
proof (rule quietI)
  fix w s r s' assume run: "fbind m f w s = (r, s')"
  obtain r1 s1 where a: "m w s = (r1, s1)" by fastforce
  note q = quietD [OF m a]
  show "written s' = written s \<and> clock s \<le> clock s'"
  proof (cases r1)
    case Inl
    with run a q show ?thesis by (simp add: fbind_def)
  next
    case (Inr x)
    with run a have "f x w s1 = (r, s')" by (simp add: fbind_def)
    from quietD [OF f this] q show ?thesis by simp
  qed
qed

lemma quiet_fmask [quiet_rules]: "quiet m \<Longrightarrow> quiet (fmask m msg)"
  by (rule quietI) (auto simp: fmask_def dest: quietD split: prod.splits sum.splits exn.splits)

lemma quiet_option [quiet_rules]:
  "quiet a \<Longrightarrow> (\<And>x. quiet (b x)) \<Longrightarrow> quiet (case z of None \<Rightarrow> a | Some x \<Rightarrow> b x)"
  by (cases z) simp_all

lemma quiet_prod [quiet_rules]: "(\<And>x y. quiet (b x y)) \<Longrightarrow> quiet (case z of (x, y) \<Rightarrow> b x y)"
  by (cases z) simp

lemma quiet_json [quiet_rules]:
  "(\<And>m. quiet (f m)) \<Longrightarrow> quiet e \<Longrightarrow> quiet (case j of JObject m \<Rightarrow> f m | _ \<Rightarrow> e)"
  by (cases j) simp_all

lemma quiet_if [quiet_rules]: "quiet a \<Longrightarrow> quiet b \<Longrightarrow> quiet (if c then a else b)"
  by simp

section \<open>Operations that write to some places only\<close>

definition confined :: "world \<Rightarrow> path set \<Rightarrow> 'a fsm \<Rightarrow> bool" where
  "confined w P m \<longleftrightarrow> (\<forall>s r s'. m w s = (r, s') \<longrightarrow>
     clock s \<le> clock s' \<and> (\<exists>ws. written s' = written s @ ws \<and> fst ` set ws \<subseteq> P))"

lemma confinedI:
  "(\<And>s r s'. m w s = (r, s') \<Longrightarrow> clock s \<le> clock s' \<and> (\<exists>ws. written s' = written s @ ws \<and> fst ` set ws \<subseteq> P))
    \<Longrightarrow> confined w P m"
  by (simp add: confined_def)

lemma confinedE:
  assumes "confined w P m" "m w s = (r, s')"
  obtains ws where "clock s \<le> clock s'" "written s' = written s @ ws" "fst ` set ws \<subseteq> P"
  using assms unfolding confined_def by blast

lemma confined_quiet: "quiet m \<Longrightarrow> confined w P m"
  by (rule confinedI) (auto dest: quietD)

lemma confined_fbind:
  assumes m: "confined w P m" and f: "\<And>x s s1. m w s = (Inr x, s1) \<Longrightarrow> confined w P (f x)"
  shows "confined w P (fbind m f)"
proof (rule confinedI)
  fix s r s' assume run: "fbind m f w s = (r, s')"
  obtain r1 s1 where a: "m w s = (r1, s1)" by fastforce
  from m a obtain ws where ws: "clock s \<le> clock s1" "written s1 = written s @ ws" "fst ` set ws \<subseteq> P" by (rule confinedE)
  show "clock s \<le> clock s' \<and> (\<exists>ws. written s' = written s @ ws \<and> fst ` set ws \<subseteq> P)"
  proof (cases r1)
    case Inl
    with run a ws show ?thesis by (auto simp: fbind_def)
  next
    case (Inr x)
    with run a have k: "f x w s1 = (r, s')" by (simp add: fbind_def)
    from f [OF a [unfolded Inr]] k obtain vs where "clock s1 \<le> clock s'" "written s' = written s1 @ vs" "fst ` set vs \<subseteq> P"
      by (rule confinedE)
    with ws show ?thesis by (intro conjI exI [of _ "ws @ vs"]) auto
  qed
qed

lemma confined_writes:
  assumes "p \<in> P"
  shows "confined w P (fwrite p b)" "confined w P (fcreate p)"
proof -
  show "confined w P (fwrite p b)" using assms by (intro confinedI) (auto simp: fwrite_def)
  show "confined w P (fcreate p)"
    using assms by (intro confinedI) (auto simp: fcreate_def split: created.splits)
qed

lemma confined_if: "confined w P a \<Longrightarrow> confined w P b \<Longrightarrow> confined w P (if c then a else b)"
  by simp

lemma confined_created:
  "confined w P a \<Longrightarrow> confined w P b \<Longrightarrow> (\<And>f. confined w P (k f))
    \<Longrightarrow> confined w P (case z of Created f \<Rightarrow> k f | AlreadyExists \<Rightarrow> a | CreateFails \<Rightarrow> b)"
  by (cases z) simp_all

lemma confined_option: "confined w P a \<Longrightarrow> (\<And>x. confined w P (b x)) \<Longrightarrow> confined w P (case z of None \<Rightarrow> a | Some x \<Rightarrow> b x)"
  by (cases z) simp_all

text \<open>Runs that first write to some places only, and then fail or end in a described way.\<close>

definition prepares :: "world \<Rightarrow> path set \<Rightarrow> (world_state \<Rightarrow> 'a res \<Rightarrow> world_state \<Rightarrow> bool) \<Rightarrow> 'a fsm \<Rightarrow> bool" where
  "prepares w P H m \<longleftrightarrow> (\<forall>s r s'. m w s = (r, s') \<longrightarrow>
     (\<exists>ws s1. written s1 = written s @ ws \<and> fst ` set ws \<subseteq> P \<and> clock s \<le> clock s1
       \<and> ((\<exists>e. r = Inl e) \<and> written s' = written s1 \<or> H s1 r s')))"

lemma prepares_fbind:
  assumes m: "confined w P m" and f: "\<And>x s s1. m w s = (Inr x, s1) \<Longrightarrow> prepares w P H (f x)"
  shows "prepares w P H (fbind m f)"
  unfolding prepares_def
proof (intro allI impI)
  fix s r s' assume run: "fbind m f w s = (r, s')"
  obtain r1 s1 where a: "m w s = (r1, s1)" by fastforce
  from m a obtain ws where ws: "clock s \<le> clock s1" "written s1 = written s @ ws" "fst ` set ws \<subseteq> P" by (rule confinedE)
  show "\<exists>ws s1. written s1 = written s @ ws \<and> fst ` set ws \<subseteq> P \<and> clock s \<le> clock s1
       \<and> ((\<exists>e. r = Inl e) \<and> written s' = written s1 \<or> H s1 r s')"
  proof (cases r1)
    case Inl
    with run a ws show ?thesis by (intro exI [of _ ws] exI [of _ s1]) (auto simp: fbind_def)
  next
    case (Inr x)
    with run a have k: "f x w s1 = (r, s')" by (simp add: fbind_def)
    from f [OF a [unfolded Inr], unfolded prepares_def, rule_format, OF k] obtain vs s2 where
      "written s2 = written s1 @ vs" "fst ` set vs \<subseteq> P" "clock s1 \<le> clock s2"
      "(\<exists>e. r = Inl e) \<and> written s' = written s2 \<or> H s2 r s'" by auto
    with ws show ?thesis by (intro exI [of _ "ws @ vs"] exI [of _ s2]) auto
  qed
qed

lemma prepares_option:
  "prepares w P H a \<Longrightarrow> (\<And>x. z = Some x \<Longrightarrow> prepares w P H (f x)) \<Longrightarrow> prepares w P H (case z of None \<Rightarrow> a | Some x \<Rightarrow> f x)"
  by (cases z) simp_all

lemma prepares_fail: "prepares w P H (fraise e)"
  unfolding prepares_def by (auto intro!: exI [of _ "[]"])

lemma prepares_end:
  assumes "\<And>s r s'. m w s = (r, s') \<Longrightarrow> (\<exists>e. r = Inl e) \<and> written s' = written s \<or> H s r s'"
  shows "prepares w P H m"
  unfolding prepares_def
proof (intro allI impI)
  fix s r s' assume "m w s = (r, s')"
  from assms [OF this] show "\<exists>ws s1. written s1 = written s @ ws \<and> fst ` set ws \<subseteq> P \<and> clock s \<le> clock s1
      \<and> ((\<exists>e. r = Inl e) \<and> written s' = written s1 \<or> H s1 r s')"
    by (intro exI [of _ "[]"] exI [of _ s]) simp
qed

lemma prepares_quiet:
  "quiet m \<Longrightarrow> (\<And>x s s1. m w s = (Inr x, s1) \<Longrightarrow> prepares w P H (f x)) \<Longrightarrow> prepares w P H (fbind m f)"
  by (rule prepares_fbind [OF confined_quiet])

lemma prepares_run:
  assumes "prepares w P H m" "m w s = (r, s')"
  obtains ws s1 where "written s1 = written s @ ws" "fst ` set ws \<subseteq> P" "clock s \<le> clock s1"
    "(\<exists>e. r = Inl e) \<and> written s' = written s1 \<or> H s1 r s'"
proof -
  from assms(1) [unfolded prepares_def, rule_format, OF assms(2)] that show thesis by auto
qed

lemma prepares_mono:
  assumes "prepares w P H m" "\<And>s r s'. H s r s' \<Longrightarrow> H' s r s'"
  shows "prepares w P H' m"
  unfolding prepares_def
proof (intro allI impI)
  fix s r s' assume "m w s = (r, s')"
  with assms(1) obtain ws s1 where "written s1 = written s @ ws" "fst ` set ws \<subseteq> P" "clock s \<le> clock s1"
    "(\<exists>e. r = Inl e) \<and> written s' = written s1 \<or> H s1 r s'" by (rule prepares_run)
  with assms(2) show "\<exists>ws s1. written s1 = written s @ ws \<and> fst ` set ws \<subseteq> P \<and> clock s \<le> clock s1
      \<and> ((\<exists>e. r = Inl e) \<and> written s' = written s1 \<or> H' s1 r s')"
    by (intro exI [of _ ws] exI [of _ s1]) auto
qed

lemma quiet_files [quiet_rules]:
  "quiet (require_open_regular_file p f label)" "quiet (sha256_file E p cap label)"
  "quiet (read_bounded_file p cap label)" "quiet (require_stable_read E c a b label)"
  "quiet (require_canonical_evidence_root p)"
  unfolding require_open_regular_file_def sha256_file_def read_bounded_file_def require_stable_read_def
    require_canonical_evidence_root_def by (intro quiet_rules)+

lemma quiet_entries [quiet_rules]: "quiet (require_regular_entries ps)"
  by (induction ps) (simp_all only: require_regular_entries.simps, (intro quiet_rules | assumption)+)

lemma quiet_links [quiet_rules]: "quiet (require_no_links current parts)"
proof (induction current parts rule: require_no_links.induct)
  case (2 current component parts)
  show ?case unfolding require_no_links.simps by (intro quiet_rules) (use 2 in blast)+
qed (simp only: require_no_links.simps quiet_rules)

lemma quiet_payload [quiet_rules]: "quiet (payload_digests L specs)"
  by (induction L specs rule: payload_digests.induct)
    (simp_all only: payload_digests.simps, (intro quiet_rules | assumption)+)

lemma quiet_loaders [quiet_rules]:
  "quiet (select_evidence_paths p)" "quiet (load_checksums L p names)"
  "quiet (load_source_identity L p d)" "quiet (load_strict_json L p d)"
  unfolding select_evidence_paths_def load_checksums_def load_source_identity_def load_strict_json_def Let_def
  by (intro quiet_rules)+

lemma quiet_artifacts [quiet_rules]: "quiet (verify_artifacts L digests v specs)"
  by (induction L digests v specs rule: verify_artifacts.induct)
    (simp_all only: verify_artifacts.simps verify_sbom_def, (intro quiet_rules | assumption)+)

lemma quiet_build [quiet_rules]: "quiet (build_evidence_manifest L p r sha)"
  unfolding build_evidence_manifest_def by (intro quiet_rules)

lemma quiet_outside [quiet_rules]:
  "quiet (require_output_outside_verified_set p dir)" "quiet (require_outside_optional p forbidden)"
  "quiet (require_canonical_forbidden_root anchor parts)"
  unfolding require_output_outside_verified_set_def require_outside_optional_def require_canonical_forbidden_root_def
  by (intro quiet_rules)+

lemma quiet_reverify [quiet_rules]: "quiet (reverify_published_evidence_manifest L p q r sha m)"
  unfolding reverify_published_evidence_manifest_def require_post_publication_state_def observed_payload_def
    published_bytes_def by (intro quiet_rules)

section \<open>Encoding\<close>

text \<open>Equal encodings are encodings of equal values.\<close>

lemma encode_evidence_manifest_inj:
  assumes "encode_evidence_manifest L m = Inr payload" "encode_evidence_manifest L m' = Inr payload"
  shows "sorted_keys m = sorted_keys m'"
proof -
  have decode: "\<exists>t. encode_ascii (t @ [10]) = Some b \<and> (\<exists>j. loads (rl_float L) t = Some j \<and> sorted_keys j = sorted_keys x)"
    if "encode_evidence_manifest L x = Inr b" for x b
    using that by (auto simp: encode_evidence_manifest_def Let_def of_option_eq_Inr split: json.splits sum.splits
        option.splits if_splits)
  from decode [OF assms(1)] decode [OF assms(2)] obtain t t' where
    "encode_ascii (t @ [10]) = Some payload" "encode_ascii (t' @ [10]) = Some payload"
    and j: "\<exists>j. loads (rl_float L) t = Some j \<and> sorted_keys j = sorted_keys m"
      "\<exists>j. loads (rl_float L) t' = Some j \<and> sorted_keys j = sorted_keys m'" by blast
  then have "t = t'" using decode_utf8_ascii [of "t @ [10]"] decode_utf8_ascii [of "t' @ [10]"] by simp
  with j show ?thesis by auto
qed

section \<open>Publication\<close>

lemma outside_Inr:
  "require_output_outside_verified_set p dir w s = (Inr (), s') \<longleftrightarrow>
     (\<exists>rp. fv_resolve (w (clock s)) (parent p) = Some rp \<and> \<not> inside dir (child rp (path_name p)))
     \<and> s' = s\<lparr>clock := Suc (clock s)\<rparr>"
  by (auto simp: require_output_outside_verified_set_def fbind_Inr ensure_eq_Inr split: option.splits)

text \<open>However it ends, an open output receives nothing or the payload.\<close>

lemma write_open_written:
  "written (snd (write_open_manifest p forbidden payload f w s)) \<in> {written s, written s @ [(p, payload)]}
   \<and> clock s \<le> clock (snd (write_open_manifest p forbidden payload f w s))"
proof -
  obtain r1 s1 where a: "require_open_regular_file p f ''evidence manifest output'' w s = (r1, s1)" by fastforce
  note q1 = quietD [OF quiet_files(1) a]
  obtain r2 s2 where b: "require_outside_optional p forbidden w s1 = (r2, s2)" by fastforce
  note q2 = quietD [OF quiet_outside(2) b]
  define s3 where "s3 = \<lparr>clock = Suc (clock s2), written = written s2 @ [(p, payload)]\<rparr>"
  have rest: "quiet (fbind (fcheck ok msg) (\<lambda>_. fbind (require_open_regular_file p f label) (\<lambda>_. require_outside_optional p forbidden)))"
    for ok msg label by (intro quiet_rules)
  show ?thesis
  proof (cases r1)
    case Inl
    with a q1 show ?thesis by (simp add: write_open_manifest_def fbind_def)
  next
    case r1: (Inr u1)
    show ?thesis
    proof (cases r2)
      case Inl
      with a r1 b q1 q2 show ?thesis by (simp add: write_open_manifest_def fbind_def)
    next
      case r2: (Inr u2)
      let ?rest = "fbind (fcheck (\<not> fv_write_fails (w (clock s2)) p) ''evidence manifest output cannot be created safely'')
          (\<lambda>_. fbind (require_open_regular_file p f ''evidence manifest output'') (\<lambda>_. require_outside_optional p forbidden))"
      obtain r4 s4 where c: "?rest w s3 = (r4, s4)" by fastforce
      have "write_open_manifest p forbidden payload f w s = ?rest w s3"
        by (simp add: write_open_manifest_def fbind_def a b r1 r2 fwrite_def s3_def)
      with c quietD [OF rest c] q1 q2 show ?thesis by (simp add: s3_def)
    qed
  qed
qed

text \<open>A run of the writer that creates anything has an encodable manifest, and leaves an empty file
  or the whole payload at the output path.\<close>

lemma write_manifest_written:
  "written (snd (write_evidence_manifest L m out forbidden w s)) = written s
   \<or> (\<exists>payload. encode_evidence_manifest L m = Inr payload
       \<and> written (snd (write_evidence_manifest L m out forbidden w s))
           \<in> {written s @ [(out, [])], written s @ [(out, []), (out, payload)]})"
proof (cases "encode_evidence_manifest L m")
  case Inl
  then show ?thesis by (simp add: write_evidence_manifest_def fbind_def)
next
  case payload: (Inr payload)
  define canonical where "canonical = (case forbidden of None \<Rightarrow> fret None
    | Some (anchor, parts) \<Rightarrow> fbind (require_canonical_forbidden_root anchor parts) (\<lambda>dir. fret (Some dir)))"
  have q: "quiet canonical" unfolding canonical_def by (intro quiet_rules)
  obtain r1 s1 where a: "canonical w s = (r1, s1)" by fastforce
  note q1 = quietD [OF q a]
  show ?thesis
  proof (cases r1)
    case Inl
    with a q1 payload show ?thesis
      unfolding write_evidence_manifest_def canonical_def [symmetric] by (simp add: fbind_def)
  next
    case r1: (Inr dir)
    define s2 where "s2 = s1\<lparr>clock := Suc (clock s1)\<rparr>"
    have run: "write_evidence_manifest L m out forbidden w s =
      fbind (fcheck (fv_mkdir (w (clock s1)) (parent out)) ''evidence manifest parent directory is unavailable'')
       (\<lambda>_. fbind (require_outside_optional out dir) (\<lambda>_. fbind (fcreate out) (\<lambda>outcome.
       case outcome of
         AlreadyExists \<Rightarrow> fraise (SystemExit ''evidence manifest output already exists'')
       | CreateFails \<Rightarrow> fraise (SystemExit ''evidence manifest output cannot be created safely'')
       | Created stream \<Rightarrow> write_open_manifest out dir payload stream))) w s2"
      unfolding write_evidence_manifest_def canonical_def [symmetric]
      by (simp add: fbind_def a r1 payload s2_def)
    obtain r3 s3 where b: "require_outside_optional out dir w s2 = (r3, s3)" by fastforce
    note q3 = quietD [OF quiet_outside(2) b]
    have w3: "written s3 = written s" "written s2 = written s" using q1 q3 by (simp_all add: s2_def)
    show ?thesis
    proof (cases "fv_mkdir (w (clock s1)) (parent out) \<and> (\<exists>u. r3 = Inr u)")
      case False
      then show ?thesis unfolding run
        by (cases r3) (auto simp: fbind_def b w3 ensure_def)
    next
      case True
      define s4 where "s4 = \<lparr>clock = Suc (clock s3), written = written s3 @ [(out, [])]\<rparr>"
      show ?thesis
      proof (cases "fv_create (w (clock s3)) out")
        case (Created f)
        have "write_evidence_manifest L m out forbidden w s = write_open_manifest out dir payload f w s4"
          unfolding run using True Created by (auto simp: fbind_def b fcreate_def s4_def)
        with write_open_written [of out dir payload f w s4] payload show ?thesis
          by (auto simp: s4_def w3)
      qed (use True in \<open>auto simp: run fbind_def b fcreate_def w3\<close>)
    qed
  qed
qed

lemma fmask_Inr: "fmask m msg w s = (Inr x, s') \<longleftrightarrow> m w s = (Inr x, s')"
  by (auto simp: fmask_def split: prod.splits sum.splits exn.splits)

lemma canonical_root_Inr:
  "require_canonical_evidence_root p w s = (Inr d, s') \<Longrightarrow> d = abspath p \<and> clock s \<le> clock s' \<and> written s' = written s"
  by (auto simp: require_canonical_evidence_root_def fbind_Inr ensure_eq_Inr split: option.splits)

lemma fcreate_Inr:
  "fcreate p w s = (Inr made, s') \<longleftrightarrow> made = fv_create (w (clock s)) p
     \<and> s' = \<lparr>clock = Suc (clock s), written = written s @ (case made of Created f \<Rightarrow> [(p, [])] | _ \<Rightarrow> [])\<rparr>"
  by (cases "fv_create (w (clock s)) p") (auto simp: fcreate_def)

lemma created_Inr:
  "(case made of Created f \<Rightarrow> k f | AlreadyExists \<Rightarrow> fraise e | CreateFails \<Rightarrow> fraise e') w s = (Inr x, s')
     \<longleftrightarrow> (\<exists>f. made = Created f \<and> k f w s = (Inr x, s'))"
  by (cases made) auto

lemma write_manifest_Inr:
  assumes "write_evidence_manifest L m out (Some (anchor, parts)) w s = (Inr (), s')"
  obtains payload where "encode_evidence_manifest L m = Inr payload" "clock s \<le> clock s'"
    "written s' = written s @ [(out, []), (out, payload)]"
proof -
  from assms obtain payload d s1 f where e: "encode_evidence_manifest L m = Inr payload"
    and d: "require_canonical_forbidden_root anchor parts w s = (Inr d, s1)"
    and f: "write_open_manifest out (Some d) payload f w
      \<lparr>clock = clock s1 + 3, written = written s1 @ [(out, [])]\<rparr> = (Inr (), s')"
    by (auto simp: write_evidence_manifest_def fbind_Inr ensure_eq_Inr require_outside_optional_def outside_Inr fcreate_Inr
        created_Inr eval_nat_numeral dest: sym [of "Created _"])
  from f have "written s' = written s1 @ [(out, []), (out, payload)] \<and> clock s1 \<le> clock s'"
    by (auto simp: write_open_manifest_def fbind_Inr ensure_eq_Inr require_outside_optional_def outside_Inr fwrite_def
        require_open_Inr)
  with quietD [OF quiet_outside(3) d] e that show thesis by simp
qed

lemma reverify_Inr:
  assumes "reverify_published_evidence_manifest L dir out r sha m w s = (Inr (), s')"
    "encode_evidence_manifest L m = Inr payload"
  obtains m' s1 rp rp' where "build_evidence_manifest L dir r sha w s = (Inr m', s1)" "encode_evidence_manifest L m' = Inr payload"
    "fv_resolve (w (clock s1)) (parent out) = Some rp" "\<not> inside dir (child rp (path_name out))"
    "reads_regular w (clock s1 + 1) out payload" "int (length payload) \<le> MAX_EVIDENCE_MANIFEST_BYTES"
    "fv_resolve (w (clock s1 + 3)) (parent out) = Some rp'" "\<not> inside dir (child rp' (path_name out))"
    "s' = s1\<lparr>clock := clock s1 + 4\<rparr>"
  using assms
  by (auto simp: reverify_published_evidence_manifest_def require_post_publication_state_def observed_payload_def
      published_bytes_def fmask_Inr fbind_Inr ensure_eq_Inr outside_Inr read_bounded_file_Inr eval_nat_numeral intro: that)

text \<open>The steps from a verified directory to its published manifest.\<close>

lemma publication_ends:
  assumes run: "fbind (build_evidence_manifest L d repository source_sha) (\<lambda>m.
      fbind (write_evidence_manifest L m out (Some ([], d))) (\<lambda>_.
      fbind (reverify_published_evidence_manifest L d out repository source_sha m) (\<lambda>_. fret out))) w s = (r, s')"
  shows "(\<exists>e. r = Inl e) \<and> written s' = written s
    \<or> (\<exists>m s1 payload. build_evidence_manifest L d repository source_sha w s = (Inr m, s1) \<and> encode_evidence_manifest L m = Inr payload
         \<and> written s' \<in> {written s, written s @ [(out, [])], written s @ [(out, []), (out, payload)]})"
proof -
  obtain r1 s1 where b: "build_evidence_manifest L d repository source_sha w s = (r1, s1)" by fastforce
  note q1 = quietD [OF quiet_build b]
  show ?thesis
  proof (cases r1)
    case Inl
    with run b q1 show ?thesis by (auto simp: fbind_def)
  next
    case m: (Inr m)
    obtain r2 s2 where c: "write_evidence_manifest L m out (Some ([], d)) w s1 = (r2, s2)" by fastforce
    obtain r3 s3 where e: "reverify_published_evidence_manifest L d out repository source_sha m w s2 = (r3, s3)" by fastforce
    have "written s' = written s2 \<and> (r2 = Inr () \<or> (\<exists>e. r = Inl e))"
      using run b m c e quietD [OF quiet_reverify e] by (cases r2) (auto simp: fbind_def split: sum.splits)
    moreover have "written s2 = written s1 \<or> (\<exists>payload. encode_evidence_manifest L m = Inr payload
        \<and> written s2 \<in> {written s1 @ [(out, [])], written s1 @ [(out, []), (out, payload)]})"
      using write_manifest_written [of L m out "Some ([], d)" w s1] c by simp
    moreover have "\<exists>payload. encode_evidence_manifest L m = Inr payload" if "r2 = Inr ()"
      using write_manifest_Inr [OF c [unfolded that]] by blast
    ultimately show ?thesis using b m q1 by auto
  qed
qed

text \<open>C28: whatever happens, the command creates nothing unless the evidence directory was
  verified first, it writes nothing but the encoding of that manifest, once, at one place outside
  the directory, and a failure leaves an empty or a written file, never another.\<close>

theorem nothing_published_unverified:
  "written (snd (release_evidence_main L evidence repository source_sha output w s)) = written s
   \<or> (\<exists>out m s1 s2 payload. clock s \<le> clock s1
        \<and> build_evidence_manifest L (abspath evidence) repository source_sha w s1 = (Inr m, s2)
        \<and> encode_evidence_manifest L m = Inr payload
        \<and> inside (abspath evidence) out = False
        \<and> written (snd (release_evidence_main L evidence repository source_sha output w s))
            \<in> {written s @ [(out, [])], written s @ [(out, []), (out, payload)]})"
proof -
  let ?H = "\<lambda>s1 r s'. \<exists>out m s2 payload. build_evidence_manifest L (abspath evidence) repository source_sha w s1 = (Inr m, s2)
      \<and> encode_evidence_manifest L m = Inr payload \<and> inside (abspath evidence) out = False
      \<and> written s' \<in> {written s1, written s1 @ [(out, [])], written s1 @ [(out, []), (out, payload)]}"
  have all: "prepares w {} ?H (release_evidence_main L evidence repository source_sha output)"
    unfolding release_evidence_main_def
  proof (rule prepares_quiet, rule quiet_rules, rule prepares_quiet, rule quiet_rules, rule prepares_option, rule prepares_fail,
      unfold Let_def, rule prepares_quiet, rule quiet_rules, rule prepares_end)
    fix d s0 s0' x s1 s1' rp y s2 s2' s r s'
    assume "require_canonical_evidence_root evidence w s0 = (Inr d, s0')"
      and "fcheck (\<not> inside d (child rp (path_name output))) ''evidence manifest output must remain outside the verified set'' w s2 = (Inr y, s2')"
    then have "d = abspath evidence" "inside (abspath evidence) (child rp (path_name output)) = False"
      by (auto simp: ensure_eq_Inr fcheck_def flift_def dest!: canonical_root_Inr)
    moreover assume "fbind (build_evidence_manifest L d repository source_sha) (\<lambda>m.
        fbind (write_evidence_manifest L m (child rp (path_name output)) (Some ([], d))) (\<lambda>_.
        fbind (reverify_published_evidence_manifest L d (child rp (path_name output)) repository source_sha m)
          (\<lambda>_. fret (child rp (path_name output))))) w s = (r, s')"
    note publication_ends [OF this]
    ultimately show "(\<exists>e. r = Inl e) \<and> written s' = written s \<or> ?H s r s'" by blast
  qed
  obtain r s' where run: "release_evidence_main L evidence repository source_sha output w s = (r, s')" by (rule prod.exhaust)
  from all run obtain ws s1 where "written s1 = written s @ ws" "fst ` set ws \<subseteq> {}" "clock s \<le> clock s1"
    "(\<exists>e. r = Inl e) \<and> written s' = written s1 \<or> ?H s1 r s'" by (rule prepares_run)
  then show ?thesis unfolding run snd_conv by auto
qed

text \<open>C29: when the command succeeds, it has written one file, exactly the encoding of a verified
  manifest, at the path it prints; afterwards the evidence directory verified again to an equal
  manifest, and then the path, outside the directory before and after, named a regular file with
  exactly these bytes, within the bound.\<close>

theorem published_manifest_reverified:
  assumes "release_evidence_main L evidence repository source_sha output w s = (Inr out, s')"
  shows "\<exists>m s1 s2 payload m' s3 s4 rp rp'.
      build_evidence_manifest L (abspath evidence) repository source_sha w s1 = (Inr m, s2)
    \<and> encode_evidence_manifest L m = Inr payload
    \<and> written s' = written s @ [(out, []), (out, payload)]
    \<and> build_evidence_manifest L (abspath evidence) repository source_sha w s3 = (Inr m', s4)
    \<and> sorted_keys m' = sorted_keys m
    \<and> clock s \<le> clock s1 \<and> clock s2 \<le> clock s3 \<and> clock s4 + 4 = clock s'
    \<and> fv_resolve (w (clock s4)) (parent out) = Some rp \<and> \<not> inside (abspath evidence) (child rp (path_name out))
    \<and> reads_regular w (clock s4 + 1) out payload \<and> int (length payload) \<le> MAX_EVIDENCE_MANIFEST_BYTES
    \<and> fv_resolve (w (clock s4 + 3)) (parent out) = Some rp' \<and> \<not> inside (abspath evidence) (child rp' (path_name out))"
proof -
  from assms obtain d s0 m s2 s3 where a: "require_canonical_evidence_root evidence w s = (Inr d, s0)"
    and b: "build_evidence_manifest L d repository source_sha w (s0\<lparr>clock := Suc (clock s0)\<rparr>) = (Inr m, s2)"
    and c: "write_evidence_manifest L m out (Some ([], d)) w s2 = (Inr (), s3)"
    and e: "reverify_published_evidence_manifest L d out repository source_sha m w s3 = (Inr (), s')"
    by (auto simp: release_evidence_main_def fbind_Inr Let_def ensure_eq_Inr split: option.splits)
  note d = canonical_root_Inr [OF a]
  obtain payload where p: "encode_evidence_manifest L m = Inr payload" "clock s2 \<le> clock s3"
    "written s3 = written s2 @ [(out, []), (out, payload)]" using c by (rule write_manifest_Inr)
  from e p(1) obtain m' s4 rp rp' where r: "build_evidence_manifest L d repository source_sha w s3 = (Inr m', s4)"
    "encode_evidence_manifest L m' = Inr payload"
    "fv_resolve (w (clock s4)) (parent out) = Some rp" "\<not> inside d (child rp (path_name out))"
    "reads_regular w (clock s4 + 1) out payload" "int (length payload) \<le> MAX_EVIDENCE_MANIFEST_BYTES"
    "fv_resolve (w (clock s4 + 3)) (parent out) = Some rp'" "\<not> inside d (child rp' (path_name out))"
    "s' = s4\<lparr>clock := clock s4 + 4\<rparr>" by (rule reverify_Inr)
  have "written s' = written s @ [(out, []), (out, payload)]"
    using quietD [OF quiet_build b] quietD [OF quiet_build r(1)] d p(3) r(9) by simp
  moreover have "clock s \<le> clock (s0\<lparr>clock := Suc (clock s0)\<rparr>)" "clock s4 + 4 = clock s'" using d r(9) by simp_all
  ultimately show ?thesis
    using b p r encode_evidence_manifest_inj [OF r(2) p(1)] d by blast
qed

end
