(* ===== verification/Release_Example.thy ===== *)
theory Release_Example
  imports Release_Complete Output_Rules Policy_Normalization
begin

text \<open>
  A small evidence set on a file system where the output appears once it is created, and the
  theorems about the release verifier applied to it.
\<close>

definition example_lib :: release_lib where
  "example_lib = \<lparr>rl_env = ascii_env\<lparr>sha256_hex := (\<lambda>b. replicate 64 48)\<rparr>, rl_sha1 = (\<lambda>b. replicate 20 (CHR 0x00)),
     rl_float = (\<lambda>s. None)\<rparr>"

definition example_digest :: ustr where "example_digest = replicate 64 48"
definition example_sha :: ustr where "example_sha = replicate 40 97"
definition example_dir :: path where "example_dir = [u ''e'']"
definition example_wheel :: ustr where "example_wheel = u ''egressweave-1.0.0-py3-none-any.whl''"
definition example_sdist :: ustr where "example_sdist = u ''egressweave-1.0.0.tar.gz''"
definition example_serial :: ustr where "example_serial = u ''urn:uuid:00000000-0000-5000-8000-000000000000''"
definition example_output :: path where "example_output = [u ''o'', u ''m'']"

definition example_sbom :: "ustr \<Rightarrow> json" where
  "example_sbom name = JObject
     [(u ''$schema'', JString CYCLONEDX_SCHEMA), (u ''bomFormat'', JString CYCLONEDX_FORMAT),
      (u ''specVersion'', JString CYCLONEDX_SPEC_VERSION), (u ''version'', JInt 1),
      (u ''serialNumber'', JString example_serial),
      (u ''metadata'', JObject [(u ''component'', JObject
        [(u ''bom-ref'', JString (u ''urn:egressweave:artifact:sha256:'' @ example_digest)),
         (u ''name'', JString DISTRIBUTION_NAME), (u ''version'', JString (u ''1.0.0'')),
         (u ''purl'', JString (u ''pkg:pypi/egressweave@1.0.0'')),
         (u ''hashes'', JList [JObject [(u ''alg'', JString (u ''SHA-256'')), (u ''content'', JString example_digest)]]),
         (u ''properties'', JList [JObject [(u ''name'', JString (u ''egressweave:release:artifact-filename'')),
            (u ''value'', JString name)]])])])]"

definition json_bytes :: "json \<Rightarrow> bytes" where
  "json_bytes j = (case dumps compact_style j of Inr t \<Rightarrow> map char_of t | Inl _ \<Rightarrow> [])"

definition example_sums :: ustr where
  "example_sums = concat (map (\<lambda>name. example_digest @ [32, 32] @ name @ [10])
     [SOURCE_IDENTITY_FILENAME, example_wheel, example_wheel @ u ''.cdx.json'', example_sdist, example_sdist @ u ''.cdx.json''])"

definition example_bytes :: evidence_bytes where
  "example_bytes = \<lparr>eb_wheel = ''w'', eb_sdist = ''s'', eb_wheel_sbom = json_bytes (example_sbom example_wheel),
     eb_sdist_sbom = json_bytes (example_sbom example_sdist), eb_identity = map char_of (identity_text example_sha),
     eb_checksums = map char_of example_sums\<rparr>"

definition example_paths :: evidence_paths where
  "example_paths = \<lparr>wheel_path = example_dir @ [example_wheel], sdist_path = example_dir @ [example_sdist],
     wheel_sbom = example_dir @ [example_wheel @ u ''.cdx.json''], sdist_sbom = example_dir @ [example_sdist @ u ''.cdx.json''],
     source_identity_path = example_dir @ [SOURCE_IDENTITY_FILENAME], checksum_path = example_dir @ [u ''SHA256SUMS''],
     wheel_release = u ''1.0.0''\<rparr>"

definition example_children :: "path list" where
  "example_children = [checksum_path example_paths, wheel_path example_paths, sdist_path example_paths,
     wheel_sbom example_paths, sdist_sbom example_paths, source_identity_path example_paths]"

definition example_files :: "path \<rightharpoonup> bytes" where
  "example_files = map_of
     [(wheel_path example_paths, eb_wheel example_bytes), (sdist_path example_paths, eb_sdist example_bytes),
      (wheel_sbom example_paths, eb_wheel_sbom example_bytes), (sdist_sbom example_paths, eb_sdist_sbom example_bytes),
      (source_identity_path example_paths, eb_identity example_bytes), (checksum_path example_paths, eb_checksums example_bytes)]"

section \<open>The facts about the example\<close>

lemma example_choice:
  "choose_evidence_paths (abspath example_dir) (sort_key path_name example_children) = Inr example_paths"
  by code_simp

lemma example_checksums:
  "parse_checksums example_sums (set [example_wheel, example_sdist, example_wheel @ u ''.cdx.json'',
     example_sdist @ u ''.cdx.json'', SOURCE_IDENTITY_FILENAME])
   = Inr (map (\<lambda>name. (name, example_digest)) [SOURCE_IDENTITY_FILENAME, example_wheel, example_wheel @ u ''.cdx.json'',
       example_sdist, example_sdist @ u ''.cdx.json''])"
  by code_simp

lemma example_sbom_ok: "json_ok (example_sbom example_wheel)" "json_ok (example_sbom example_sdist)"
  by code_simp+

lemma example_sbom_small:
  "length (json_bytes (example_sbom example_wheel)) \<le> 1000" "length (json_bytes (example_sbom example_sdist)) \<le> 1000"
  by code_simp+

lemma example_sbom_verifies:
  "(case sorted_keys (example_sbom example_wheel) of JObject document \<Rightarrow>
     verify_document example_lib document example_wheel example_digest (u ''1.0.0'') | _ \<Rightarrow> Inl OverflowError) = Inr example_serial"
  "(case sorted_keys (example_sbom example_sdist) of JObject document \<Rightarrow>
     verify_document example_lib document example_sdist example_digest (u ''1.0.0'') | _ \<Rightarrow> Inl OverflowError) = Inr example_serial"
  by code_simp+

lemma example_texts_small:
  "length (identity_text example_sha) \<le> 1000" "length example_sums \<le> 1000" "py_isascii (identity_text example_sha)"
  "py_isascii example_sums" "is_source_sha example_sha"
  by code_simp+

lemma json_bytes_loads:
  assumes "json_ok j"
  shows "strict_loads L (json_bytes j) = Some (sorted_keys j)"
proof -
  have "style_ok compact_style" by (simp add: style_ok_def compact_style_def)
  from loads_dumps [OF assms this, of "rl_float L"] obtain t where
    t: "dumps compact_style j = Inr t" "loads (rl_float L) t = Some (sorted_keys j)" "py_isascii t" by blast
  then have "encode_ascii t = Some (json_bytes j)" by (simp add: json_bytes_def encode_ascii_def)
  from decode_utf8_ascii [OF this] t show ?thesis by (simp add: strict_loads_def)
qed

lemma example_sbom_object: "\<exists>document. sorted_keys (example_sbom name) = JObject document"
  by (simp add: example_sbom_def)

lemma example_documents:
  "document_verifies example_lib (json_bytes (example_sbom example_wheel)) example_wheel example_digest (u ''1.0.0'') example_serial"
  "document_verifies example_lib (json_bytes (example_sbom example_sdist)) example_sdist example_digest (u ''1.0.0'') example_serial"
  unfolding document_verifies_def
  using json_bytes_loads [OF example_sbom_ok(1), of example_lib] json_bytes_loads [OF example_sbom_ok(2), of example_lib]
    example_sbom_verifies example_sbom_object [of example_wheel] example_sbom_object [of example_sdist] by auto

lemma example_digest [simp]: "sha256_hex (rl_env example_lib) b = example_digest"
  by (simp add: example_lib_def example_digest_def)

lemma example_names [simp]:
  "path_name (wheel_path example_paths) = example_wheel" "path_name (sdist_path example_paths) = example_sdist"
  "path_name (wheel_sbom example_paths) = example_wheel @ u ''.cdx.json''"
  "path_name (sdist_sbom example_paths) = example_sdist @ u ''.cdx.json''"
  "path_name (source_identity_path example_paths) = SOURCE_IDENTITY_FILENAME"
  "wheel_release example_paths = u ''1.0.0''"
  by (simp_all add: example_paths_def)

lemma example_consistent:
  "evidence_consistent example_lib example_paths example_bytes example_sha example_serial example_serial"
proof -
  let ?names = "[example_wheel, example_sdist, example_wheel @ u ''.cdx.json'', example_sdist @ u ''.cdx.json'',
    SOURCE_IDENTITY_FILENAME]"
  let ?sorted = "[SOURCE_IDENTITY_FILENAME, example_wheel, example_wheel @ u ''.cdx.json'', example_sdist,
    example_sdist @ u ''.cdx.json'']"
  have digests: "evidence_digests (rl_env example_lib) example_paths example_bytes = map (\<lambda>n. (n, example_digest)) ?names"
    by (simp add: evidence_digests_def)
  have "map_of (map (\<lambda>n. (n, example_digest)) ?sorted) = map_of (map (\<lambda>n. (n, example_digest)) ?names)"
    unfolding map_of_map_restrict by (rule arg_cong [where f = "restrict_map _"]) auto
  moreover have "decode_ascii (eb_checksums example_bytes) = Some example_sums"
    using example_texts_small(4) by (simp add: example_bytes_def decode_ascii_def octets_char_of py_isascii_def)
  moreover have "encode_ascii (identity_text example_sha) = Some (eb_identity example_bytes)"
    using example_texts_small(3) by (simp add: encode_ascii_def example_bytes_def)
  moreover have "path_name ` {wheel_path example_paths, sdist_path example_paths, wheel_sbom example_paths,
      sdist_sbom example_paths, source_identity_path example_paths} = set ?names" by simp
  ultimately show ?thesis
    unfolding evidence_consistent_def digests
    using example_texts_small(5) example_checksums example_documents by (simp add: example_bytes_def del: list.set)
qed

section \<open>A world\<close>

definition example_manifest :: json where
  "example_manifest = manifest_json example_paths
     (artifact_entries example_paths (evidence_digests (rl_env example_lib) example_paths example_bytes) example_serial example_serial)
     (evidence_digests (rl_env example_lib) example_paths example_bytes) example_digest EXPECTED_REPOSITORY example_sha"

definition example_payload :: bytes where
  "example_payload = (case dumps indented_style example_manifest of Inr t \<Rightarrow> map char_of (t @ [10]) | Inl _ \<Rightarrow> [])"

definition plain_file :: "bytes \<Rightarrow> opened_file" where
  "plain_file b = \<lparr>op_state = \<lparr>st_kind = Regular, st_identity = (1, 1), st_size = int (length b), st_mode = 384, st_nlink = 1\<rparr>, op_bytes = b, op_fails = False\<rparr>"

text \<open>The output exists from the moment 73 on.\<close>

definition example_world :: world where
  "example_world t = \<lparr>
     fv_open = (\<lambda>p. if p = example_output then (if 72 < t then Some (plain_file example_payload) else None)
                     else map_option plain_file (example_files p)),
     fv_lstat = (\<lambda>p. Some (op_state (plain_file []))),
     fv_stat = (\<lambda>p. map_option (\<lambda>c. op_state (plain_file c)) (example_files p)), fv_read = example_files,
     fv_stream = (\<lambda>i. \<lparr>sv_fileno = Inr (VInt 3), sv_fstat = Inr (op_state (plain_file [])), sv_tell = Inr (VInt 0),
       sv_read = (\<lambda>n. Inr (VBytes [])), sv_seek = (\<lambda>n. Inr (VInt n)), sv_bytes = [], sv_fails = False\<rparr>),
     fv_is_dir = (\<lambda>p. p = example_dir), fv_is_file = (\<lambda>p. p \<noteq> example_dir), fv_is_symlink = (\<lambda>p. False),
     fv_resolve = Some, fv_resolve_lax = Some,
     fv_entries = (\<lambda>p. if p = example_dir then Some example_children else None),
     fv_mkdir = (\<lambda>p. True),
     fv_create = (\<lambda>p. if 72 < t then AlreadyExists else Created (plain_file [])),
     fv_temporary = None, fv_write_fails = (\<lambda>p. False)\<rparr>"

definition example_start :: world_state where "example_start = \<lparr>clock = 0, written = []\<rparr>"

lemma example_output_outside: "example_output \<notin> set example_children"
  by code_simp

lemma example_not_output: "example_files p = Some c \<Longrightarrow> p \<noteq> example_output"
  using example_output_outside by (auto simp: example_files_def example_children_def dest!: map_of_SomeD)

lemma example_no_output [simp]: "example_files example_output = None"
  using example_not_output by (metis option.exhaust)

lemma example_steady: "steady example_world example_files"
  by (auto simp: steady_def reads_regular_def example_world_def plain_file_def dest: example_not_output)

lemma example_abspath: "abspath example_dir = example_dir"
  by code_simp

lemma example_plain: "plain_directory example_world example_dir example_children"
  unfolding plain_directory_def example_abspath
  by (auto simp: example_world_def example_children_def example_paths_def example_dir_def)

lemma example_distinct: "distinct example_children"
  by code_simp

lemma example_fits: "evidence_fits example_files example_paths example_bytes"
proof -
  have "example_files (wheel_path example_paths) = Some (eb_wheel example_bytes)"
    "example_files (sdist_path example_paths) = Some (eb_sdist example_bytes)"
    "example_files (wheel_sbom example_paths) = Some (eb_wheel_sbom example_bytes)"
    "example_files (sdist_sbom example_paths) = Some (eb_sdist_sbom example_bytes)"
    "example_files (source_identity_path example_paths) = Some (eb_identity example_bytes)"
    "example_files (checksum_path example_paths) = Some (eb_checksums example_bytes)"
    using example_distinct by (auto simp: example_files_def example_children_def)
  moreover have "int (length (eb_wheel example_bytes)) \<le> MAX_ARTIFACT_BYTES" "int (length (eb_sdist example_bytes)) \<le> MAX_ARTIFACT_BYTES"
    "int (length (eb_wheel_sbom example_bytes)) \<le> MAX_SBOM_BYTES" "int (length (eb_sdist_sbom example_bytes)) \<le> MAX_SBOM_BYTES"
    "int (length (eb_identity example_bytes)) \<le> MAX_SOURCE_IDENTITY_BYTES"
    "int (length (eb_checksums example_bytes)) \<le> MAX_CHECKSUM_BYTES"
    using example_sbom_small example_texts_small(1,2)
    by (simp_all add: example_bytes_def MAX_ARTIFACT_BYTES_def MAX_SBOM_BYTES_def MAX_SOURCE_IDENTITY_BYTES_def MAX_CHECKSUM_BYTES_def)
  ultimately show ?thesis by (simp add: evidence_fits_def)
qed

lemma example_build:
  "build_evidence_manifest example_lib example_dir EXPECTED_REPOSITORY example_sha example_world s
   = (Inr example_manifest, s\<lparr>clock := clock s + 62\<rparr>)"
  using build_manifest_complete [OF example_steady example_plain example_choice example_fits example_consistent, of s]
  by (simp add: example_manifest_def example_children_def)

lemma consistent_evidence_accepted_witness:
  "fst (build_evidence_manifest example_lib example_dir EXPECTED_REPOSITORY example_sha example_world example_start)
   = Inr example_manifest"
  using consistent_evidence_accepted [OF example_steady example_plain example_choice example_fits example_consistent,
      of example_start]
  by (simp add: example_manifest_def)

lemma release_manifest_sound_witness:
  "\<exists>children p digests checksum_digest sdist_serial wheel_serial.
     chosen example_dir children p
     \<and> sealed_evidence example_lib example_world 0 62 p digests checksum_digest example_sha sdist_serial wheel_serial
     \<and> example_manifest = manifest_json p (artifact_entries p digests sdist_serial wheel_serial) digests checksum_digest
         EXPECTED_REPOSITORY example_sha"
proof -
  have "example_start\<lparr>clock := clock example_start + 62\<rparr> = \<lparr>clock = 62, written = []\<rparr>" by (simp add: example_start_def)
  with example_build [of example_start]
  have "build_evidence_manifest example_lib example_dir EXPECTED_REPOSITORY example_sha example_world example_start
    = (Inr example_manifest, \<lparr>clock = 62, written = []\<rparr>)" by simp
  from release_manifest_sound [OF this] show ?thesis
    by (simp only: example_abspath example_start_def world_state.simps) blast
qed

section \<open>A publication\<close>

lemma example_manifest_ok: "json_ok example_manifest" "length example_payload \<le> 2000"
  by code_simp+

lemma example_encoding: "encode_evidence_manifest example_lib example_manifest = Inr example_payload"
proof -
  obtain members where m: "example_manifest = JObject members" by (simp add: example_manifest_def manifest_json_def)
  from encoding_reads_back [OF example_manifest_ok(1) [unfolded m], of example_lib] obtain payload where
    p: "encode_evidence_manifest example_lib example_manifest = Inr payload" unfolding m by blast
  then have "payload = example_payload"
    unfolding encode_evidence_manifest_def Let_def m
    by (auto simp: example_payload_def m of_option_eq_Inr encode_ascii_def split: sum.splits option.splits if_splits
        simp del: sorted_keys.simps)
  with p show ?thesis by simp
qed

lemma example_root:
  "require_canonical_evidence_root example_dir example_world s = (Inr example_dir, s\<lparr>clock := clock s + 3\<rparr>)"
  by (simp add: require_canonical_evidence_root_def fbind_def example_world_def example_abspath eval_nat_numeral)

lemma example_place [simp]:
  "child (parent example_output) (path_name example_output) = example_output"
  "inside example_dir example_output = False"
  by code_simp+

lemma example_outside:
  "require_output_outside_verified_set example_output example_dir example_world s = (Inr (), s\<lparr>clock := Suc (clock s)\<rparr>)"
  by (simp add: require_output_outside_verified_set_def fbind_def example_world_def)

lemma example_same_file:
  "require_open_regular_file example_output (plain_file b) label example_world s = (Inr (), s\<lparr>clock := Suc (clock s)\<rparr>)"
  by (simp add: require_open_regular_file_def fbind_def example_world_def plain_file_def)

lemma example_write_open:
  "write_open_manifest example_output (Some example_dir) payload (plain_file []) example_world s
   = (Inr (), \<lparr>clock = clock s + 5, written = written s @ [(example_output, payload)]\<rparr>)"
proof -
  have "\<not> fv_write_fails (example_world t) p" for t p by (simp add: example_world_def)
  then show ?thesis
    by (simp add: write_open_manifest_def fbind_def example_same_file require_outside_optional_def example_outside fwrite_def
        eval_nat_numeral)
qed

lemma example_create:
  "fcreate example_output example_world \<lparr>clock = 72, written = ws\<rparr>
   = (Inr (Created (plain_file [])), \<lparr>clock = 73, written = ws @ [(example_output, [])]\<rparr>)"
  by (simp add: fcreate_def example_world_def)

lemma example_write:
  "write_evidence_manifest example_lib example_manifest example_output (Some ([], example_dir)) example_world
     \<lparr>clock = 66, written = []\<rparr>
   = (Inr (), \<lparr>clock = 78, written = [(example_output, []), (example_output, example_payload)]\<rparr>)"
proof -
  have links: "require_no_links [] example_dir example_world s = (Inr (), s\<lparr>clock := Suc (clock s)\<rparr>)" for s
    by (simp add: example_dir_def up_def u_def fbind_def example_world_def)
  have "fv_mkdir (example_world t) p" for t p by (simp add: example_world_def)
  then show ?thesis
    by (simp add: write_evidence_manifest_def fbind_def example_encoding require_canonical_forbidden_root_def fmask_def links
        example_root require_outside_optional_def example_outside example_create example_write_open)
qed

lemma example_reverify:
  "reverify_published_evidence_manifest example_lib example_dir example_output EXPECTED_REPOSITORY example_sha example_manifest
     example_world \<lparr>clock = 78, written = ws\<rparr> = (Inr (), \<lparr>clock = 144, written = ws\<rparr>)"
proof -
  have "reads_regular example_world 141 example_output example_payload"
    by (simp add: reads_regular_def example_world_def plain_file_def)
  moreover have "int (length example_payload) \<le> MAX_EVIDENCE_MANIFEST_BYTES"
    using example_manifest_ok(2) by (simp add: MAX_EVIDENCE_MANIFEST_BYTES_def)
  ultimately have "read_bounded_file example_output MAX_EVIDENCE_MANIFEST_BYTES ''evidence manifest output'' example_world
      \<lparr>clock = 141, written = ws\<rparr> = (Inr example_payload, \<lparr>clock = 143, written = ws\<rparr>)"
    by (simp add: read_bounded_file_Inr)
  then show ?thesis
    by (simp add: reverify_published_evidence_manifest_def require_post_publication_state_def observed_payload_def
        published_bytes_def fmask_def fbind_def example_encoding example_build example_outside)
qed

lemma example_main:
  "release_evidence_main example_lib example_dir EXPECTED_REPOSITORY example_sha example_output example_world example_start
   = (Inr example_output, \<lparr>clock = 144, written = [(example_output, []), (example_output, example_payload)]\<rparr>)"
proof -
  have lax: "fv_resolve_lax (example_world t) p = Some p" for t p by (simp add: example_world_def)
  show ?thesis
    by (simp add: release_evidence_main_def fbind_def example_root Let_def example_build example_write example_reverify
        example_start_def lax)
qed

lemma published_manifest_reverified_witness:
  "\<exists>m s1 s2 payload m' s3 s4.
      build_evidence_manifest example_lib example_dir EXPECTED_REPOSITORY example_sha example_world s1 = (Inr m, s2)
    \<and> encode_evidence_manifest example_lib m = Inr payload
    \<and> [(example_output, []), (example_output, example_payload)] = [(example_output, []), (example_output, payload)]
    \<and> build_evidence_manifest example_lib example_dir EXPECTED_REPOSITORY example_sha example_world s3 = (Inr m', s4)
    \<and> sorted_keys m' = sorted_keys m \<and> clock s2 \<le> clock s3 \<and> clock s4 + 4 = 144
    \<and> reads_regular example_world (clock s4 + 1) example_output payload"
  using published_manifest_reverified [OF example_main]
  by (simp only: example_abspath example_start_def world_state.simps append_Nil) blast

section \<open>Line ends of the checksum file\<close>

text \<open>Entries that are separated by form feeds are accepted, the last one ending with a line feed.\<close>

lemma checksums_form_feed:
  "parse_checksums (map (\<lambda>c. if c = 10 then 12 else c) (butlast example_sums) @ [10])
     (set [example_wheel, example_sdist, example_wheel @ u ''.cdx.json'', example_sdist @ u ''.cdx.json'', SOURCE_IDENTITY_FILENAME])
   = parse_checksums example_sums
     (set [example_wheel, example_sdist, example_wheel @ u ''.cdx.json'', example_sdist @ u ''.cdx.json'', SOURCE_IDENTITY_FILENAME])"
  by code_simp

end
