(* ===== verification/Sbom_Manifest.thy ===== *)
theory Sbom_Manifest
  imports Release_Manifest
begin

text \<open>
  The reviewed inputs of \<open>scripts/ci/generate_release_sbom.py\<close>: the runtime dependency manifest, its
  closure check, and the hash-locked requirements it must agree with. The package \<open>packaging\<close>
  (requirements and environment markers) is a parameter. Messages that quote a value are kept
  without it.
\<close>

section \<open>JSON without hooks\<close>

text \<open>\<open>json.loads\<close> as it is called without hooks: a repeated member replaces the earlier value
  in its place, and the three constants beyond JSON are floats. Malformed text is a
  \<open>JSONDecodeError\<close>; an integer literal beyond the interpreter's digit limit is another
  \<open>ValueError\<close>.\<close>

abbreviation JSONDecodeError :: exn where "JSONDecodeError \<equiv> OtherException 1"

definition put_member :: "(ustr \<times> json) list \<Rightarrow> ustr \<times> json \<Rightarrow> (ustr \<times> json) list" where
  "put_member members kv =
     (if fst kv \<in> fst ` set members then map (\<lambda>m. if fst m = fst kv then kv else m) members else members @ [kv])"

definition read_constant :: "ustr \<Rightarrow> (json \<times> ustr) option" where
  "read_constant s =
     (if starts_with (u ''null'') s then Some (JNull, drop 4 s)
      else if starts_with (u ''true'') s then Some (JBool True, drop 4 s)
      else if starts_with (u ''false'') s then Some (JBool False, drop 5 s)
      else if starts_with (u ''NaN'') s then Some (JFloat (Some (u ''nan'')), drop 3 s)
      else if starts_with (u ''Infinity'') s then Some (JFloat None, drop 8 s)
      else if starts_with (u ''-Infinity'') s then Some (JFloat None, drop 9 s)
      else None)"

definition number_too_long :: "ustr \<Rightarrow> bool" where
  "number_too_long s =
     (case take_sign s of (sign, s1) \<Rightarrow>
      case take_whole s1 of (whole, s2) \<Rightarrow>
        whole \<noteq> [] \<and> fst (take_fraction s2) = [] \<and> fst (take_exponent s2) = [] \<and> (\<exists>e. py_int_dec whole = Inl e))"

definition read_scalar :: "(ustr \<Rightarrow> ustr option) \<Rightarrow> ustr \<Rightarrow> (json \<times> ustr) res" where
  "read_scalar flt s =
     (case read_constant s of
        Some r \<Rightarrow> Inr r
      | None \<Rightarrow>
          (case read_number flt s of
             Some r \<Rightarrow> Inr r
           | None \<Rightarrow> Inl (if number_too_long s then ValueError ''integer string conversion'' else JSONDecodeError)))"

fun read_any :: "(ustr \<Rightarrow> ustr option) \<Rightarrow> nat \<Rightarrow> ustr \<Rightarrow> (json \<times> ustr) res"
and read_any_elements :: "(ustr \<Rightarrow> ustr option) \<Rightarrow> nat \<Rightarrow> ustr \<Rightarrow> (json list \<times> ustr) res"
and read_any_members :: "(ustr \<Rightarrow> ustr option) \<Rightarrow> nat \<Rightarrow> ustr \<Rightarrow> ((ustr \<times> json) list \<times> ustr) res" where
  "read_any flt 0 s = Inl JSONDecodeError"
| "read_any flt (Suc n) s =
     (if s = [] then Inl JSONDecodeError
      else if hd s = 34 then
        (case read_string (tl s) of None \<Rightarrow> Inl JSONDecodeError | Some (x, r) \<Rightarrow> Inr (JString x, r))
      else if hd s = 123 then
        (let t = skip_space (tl s) in
         if t \<noteq> [] \<and> hd t = 125 then Inr (JObject [], tl t)
         else ebind (read_any_members flt n t) (\<lambda>(members, r). Inr (JObject (foldl put_member [] members), r)))
      else if hd s = 91 then
        (let t = skip_space (tl s) in
         if t \<noteq> [] \<and> hd t = 93 then Inr (JList [], tl t)
         else ebind (read_any_elements flt n t) (\<lambda>(xs, r). Inr (JList xs, r)))
      else read_scalar flt s)"
| "read_any_elements flt 0 s = Inl JSONDecodeError"
| "read_any_elements flt (Suc n) s =
     ebind (read_any flt n s) (\<lambda>(x, r).
       let t = skip_space r in
       if t = [] then Inl JSONDecodeError
       else if hd t = 93 then Inr ([x], tl t)
       else if hd t = 44
       then ebind (read_any_elements flt n (skip_space (tl t))) (\<lambda>(xs, r'). Inr (x # xs, r'))
       else Inl JSONDecodeError)"
| "read_any_members flt 0 s = Inl JSONDecodeError"
| "read_any_members flt (Suc n) s =
     (if s = [] \<or> hd s \<noteq> 34 then Inl JSONDecodeError
      else case read_string (tl s) of
        None \<Rightarrow> Inl JSONDecodeError
      | Some (k, r) \<Rightarrow>
          (let t = skip_space r in
           if t = [] \<or> hd t \<noteq> 58 then Inl JSONDecodeError
           else ebind (read_any flt n (skip_space (tl t))) (\<lambda>(v, r').
             let t' = skip_space r' in
             if t' = [] then Inl JSONDecodeError
             else if hd t' = 125 then Inr ([(k, v)], tl t')
             else if hd t' = 44
             then ebind (read_any_members flt n (skip_space (tl t'))) (\<lambda>(kvs, r''). Inr ((k, v) # kvs, r''))
             else Inl JSONDecodeError)))"

definition plain_loads :: "(ustr \<Rightarrow> ustr option) \<Rightarrow> ustr \<Rightarrow> json res" where
  "plain_loads flt s =
     (if s \<noteq> [] \<and> hd s = 65279 then Inl JSONDecodeError
      else ebind (read_any flt (Suc (2 * length s)) (skip_space s)) (\<lambda>(j, r).
        if skip_space r = [] then Inr j else Inl JSONDecodeError))"

section \<open>The package \<open>packaging\<close>\<close>

record requirement =
  rq_name :: ustr
  rq_text :: ustr                     \<comment> \<open>\<open>str(requirement)\<close>\<close>
  rq_url :: bool                      \<comment> \<open>a URL is given\<close>
  rq_extras :: bool                   \<comment> \<open>extras are given\<close>
  rq_specifiers :: "(ustr \<times> ustr) list"   \<comment> \<open>operators and versions\<close>
  rq_marker :: "ustr option"          \<comment> \<open>\<open>str(requirement.marker)\<close>\<close>

record packaging =
  pk_requirement :: "ustr \<Rightarrow> requirement option"   \<comment> \<open>None: \<open>InvalidRequirement\<close>\<close>
  pk_marker :: "ustr \<Rightarrow> ustr option"               \<comment> \<open>\<open>str(Marker(value))\<close>; None: \<open>InvalidMarker\<close>\<close>

section \<open>Names, requirements and fields\<close>

text \<open>\<open>NAME_SEPARATORS.sub("-", value)\<close>; the flag says that the character before was a separator.\<close>

fun collapse_separators :: "bool \<Rightarrow> ustr \<Rightarrow> ustr" where
  "collapse_separators inside_run [] = []"
| "collapse_separators inside_run (c # s) =
     (if c = 45 \<or> c = 95 \<or> c = 46
      then (if inside_run then collapse_separators True s else 45 # collapse_separators True s)
      else c # collapse_separators False s)"

definition canonical_name :: "pyenv \<Rightarrow> ustr \<Rightarrow> ustr" where
  "canonical_name E v = py_lower E (collapse_separators False v)"

definition canonical_requirement :: "packaging \<Rightarrow> ustr \<Rightarrow> ustr res" where
  "canonical_requirement P v =
     (case pk_requirement P v of
        None \<Rightarrow> Inl (SystemExit ''invalid runtime requirement'')
      | Some parsed \<Rightarrow>
          if rq_url parsed \<or> rq_extras parsed then Inl (SystemExit ''runtime requirements must not use URLs or extras'')
          else Inr (rq_text parsed))"

definition requirement_name :: "pyenv \<Rightarrow> packaging \<Rightarrow> ustr \<Rightarrow> ustr res" where
  "requirement_name E P v =
     (case pk_requirement P v of
        None \<Rightarrow> Inl (SystemExit ''invalid runtime requirement'')
      | Some parsed \<Rightarrow> Inr (canonical_name E (rq_name parsed)))"

definition is_safe_text :: "ustr \<Rightarrow> bool" where
  "is_safe_text v \<longleftrightarrow> v \<noteq> [] \<and> 13 \<notin> set v \<and> 10 \<notin> set v \<and> 0 \<notin> set v"

definition text_field :: "(ustr \<times> json) list \<Rightarrow> string \<Rightarrow> string \<Rightarrow> ustr res" where
  "text_field data key context =
     (case json_get (u key) data of
        Some (JString v) \<Rightarrow>
          if is_safe_text v then Inr v else Inl (SystemExit (context @ '' requires safe string field '' @ key))
      | _ \<Rightarrow> Inl (SystemExit (context @ '' requires safe string field '' @ key)))"

definition REVIEWED_SPDX_LICENSE_IDS :: "ustr set" where
  "REVIEWED_SPDX_LICENSE_IDS = u ` {''Apache-2.0'', ''BSD-3-Clause'', ''MIT'', ''MPL-2.0'', ''PSF-2.0''}"

definition reviewed_spdx_license_id :: "(ustr \<times> json) list \<Rightarrow> string \<Rightarrow> string \<Rightarrow> ustr res" where
  "reviewed_spdx_license_id data key context =
     ebind (text_field data key context) (\<lambda>v.
     if v \<in> REVIEWED_SPDX_LICENSE_IDS then Inr v
     else Inl (SystemExit (context @ '' requires a reviewed SPDX license identifier'')))"

fun safe_strings :: "json list \<Rightarrow> ustr list option" where
  "safe_strings [] = Some []"
| "safe_strings (JString v # items) =
     (if is_safe_text v then map_option ((#) v) (safe_strings items) else None)"
| "safe_strings (_ # items) = None"

definition list_field :: "(ustr \<times> json) list \<Rightarrow> string \<Rightarrow> string \<Rightarrow> ustr list res" where
  "list_field data key context =
     (case json_get (u key) data of
        Some (JList items) \<Rightarrow>
          (case safe_strings items of
             None \<Rightarrow> Inl (SystemExit (context @ '' requires safe string-list field '' @ key))
           | Some vs \<Rightarrow>
               if distinct vs then Inr vs else Inl (SystemExit (context @ '' field '' @ key @ '' contains duplicates'')))
      | _ \<Rightarrow> Inl (SystemExit (context @ '' requires safe string-list field '' @ key)))"

definition names_field :: "pyenv \<Rightarrow> (ustr \<times> json) list \<Rightarrow> string \<Rightarrow> string \<Rightarrow> ustr list res" where
  "names_field E data key context =
     ebind (list_field data key context) (\<lambda>items.
     let vs = map (canonical_name E) items in
     if distinct vs then Inr vs else Inl (SystemExit (context @ '' field '' @ key @ '' contains duplicate names'')))"

section \<open>Components\<close>

record component =
  co_name :: ustr
  co_version :: ustr
  co_license :: ustr
  co_sha256 :: ustr
  co_artifact_filename :: ustr
  co_purl :: ustr
  co_depends_on :: "ustr list"
  co_marker :: "ustr option"

definition is_sha256 :: "ustr \<Rightarrow> bool" where
  "is_sha256 s \<longleftrightarrow> length s = 64 \<and> list_all is_lower_hex s"

definition package_url :: "ustr \<Rightarrow> ustr \<Rightarrow> ustr" where
  "package_url name version = u ''pkg:pypi/'' @ name @ 64 # version"

text \<open>A marker is absent, or a safe text of at most 200 characters.\<close>

definition runtime_marker :: "json option \<Rightarrow> ustr option res" where
  "runtime_marker v =
     (case v of
        None \<Rightarrow> Inr None
      | Some JNull \<Rightarrow> Inr None
      | Some (JString m) \<Rightarrow>
          if is_safe_text m \<and> length m \<le> 200 then Inr (Some m)
          else Inl (SystemExit ''component has an invalid runtime marker'')
      | _ \<Rightarrow> Inl (SystemExit ''component has an invalid runtime marker''))"

definition check_component :: "pyenv \<Rightarrow> json \<Rightarrow> component res" where
  "check_component E raw =
     (case raw of
        JObject data \<Rightarrow>
          ebind (text_field data ''name'' ''component'') (\<lambda>raw_name.
          let name = canonical_name E raw_name in
          ebind (text_field data ''version'' ''component'') (\<lambda>version.
          ebind (reviewed_spdx_license_id data ''license'' ''component'') (\<lambda>license_id.
          ebind (text_field data ''sha256'' ''component'') (\<lambda>digest.
          ebind (text_field data ''artifact_filename'' ''component'') (\<lambda>filename.
          ebind (text_field data ''purl'' ''component'') (\<lambda>purl.
          ebind (names_field E data ''depends_on'' ''component'') (\<lambda>depends_on.
          if \<not> is_sha256 digest then Inl (SystemExit ''component requires a lowercase SHA-256 digest'')
          else if 47 \<in> set filename \<or> 92 \<in> set filename
          then Inl (SystemExit ''component artifact filename must not contain a path'')
          else if purl \<noteq> package_url name version then Inl (SystemExit ''component purl is not the expected one'')
          else ebind (runtime_marker (json_get (u ''marker'') data)) (\<lambda>marker.
            Inr \<lparr>co_name = name, co_version = version, co_license = license_id, co_sha256 = digest,
                 co_artifact_filename = filename, co_purl = purl, co_depends_on = depends_on, co_marker = marker\<rparr>))))))))
      | _ \<Rightarrow> Inl (SystemExit ''manifest components must be objects''))"

section \<open>The closure of the roots\<close>

text \<open>The recursive \<open>visit\<close>, with the sets \<open>active\<close> and \<open>visited\<close> as lists. The names in \<open>active\<close> are
  distinct components, so a depth of the number of components is enough.\<close>

fun visit :: "(ustr \<Rightarrow> ustr list option) \<Rightarrow> nat \<Rightarrow> ustr list \<Rightarrow> ustr list \<Rightarrow> ustr \<Rightarrow> ustr list res"
and visit_each :: "(ustr \<Rightarrow> ustr list option) \<Rightarrow> nat \<Rightarrow> ustr list \<Rightarrow> ustr list \<Rightarrow> ustr list \<Rightarrow> ustr list res" where
  "visit depends depth active visited name =
     (if name \<in> set active then Inl (SystemExit ''runtime dependency manifest contains a cycle'')
      else if name \<in> set visited then Inr visited
      else case depends name of
        None \<Rightarrow> Inl (SystemExit ''runtime dependency manifest references an unknown component'')
      | Some dependencies \<Rightarrow>
          (case depth of
             0 \<Rightarrow> Inl (OtherException 0)
           | Suc d \<Rightarrow> ebind (visit_each depends d (name # active) visited dependencies) (\<lambda>visited'. Inr (name # visited'))))"
| "visit_each depends depth active visited [] = Inr visited"
| "visit_each depends depth active visited (name # names) =
     ebind (visit depends depth active visited name) (\<lambda>visited'. visit_each depends depth active visited' names)"

definition component_of :: "component list \<Rightarrow> ustr \<Rightarrow> component option" where
  "component_of components name = find (\<lambda>c. co_name c = name) components"

definition dependencies_of :: "component list \<Rightarrow> ustr \<Rightarrow> ustr list option" where
  "dependencies_of components name = map_option co_depends_on (component_of components name)"

definition reachable_names :: "ustr list \<Rightarrow> component list \<Rightarrow> ustr list res" where
  "reachable_names roots components = visit_each (dependencies_of components) (length components) [] [] roots"

section \<open>The manifest\<close>

record root_package =
  rt_name :: ustr
  rt_license :: ustr
  rt_depends_on :: "ustr list"
  rt_requires_dist :: "ustr list"

definition load_root :: "pyenv \<Rightarrow> packaging \<Rightarrow> (ustr \<times> json) list \<Rightarrow> root_package res" where
  "load_root E P raw_root =
     ebind (text_field raw_root ''name'' ''root'') (\<lambda>raw_name.
     ebind (reviewed_spdx_license_id raw_root ''license'' ''root'') (\<lambda>license_id.
     ebind (names_field E raw_root ''depends_on'' ''root'') (\<lambda>depends_on.
     ebind (list_field raw_root ''requires_dist'' ''root'') (\<lambda>raw_requires.
     ebind (emap (canonical_requirement P) raw_requires) (\<lambda>requires.
     ebind (emap (requirement_name E P) (sort requires)) (\<lambda>required_names.
     if sort required_names \<noteq> sort depends_on
     then Inl (SystemExit ''root requirement names must exactly match root dependencies'')
     else Inr \<lparr>rt_name = canonical_name E raw_name, rt_license = license_id, rt_depends_on = depends_on,
               rt_requires_dist = sort requires\<rparr>))))))"

fun load_components :: "pyenv \<Rightarrow> ustr \<Rightarrow> component list \<Rightarrow> json list \<Rightarrow> component list res" where
  "load_components E root_name components [] = Inr components"
| "load_components E root_name components (raw # raws) =
     ebind (check_component E raw) (\<lambda>item.
     if co_name item \<in> co_name ` set components then Inl (SystemExit ''runtime dependency manifest duplicates a component'')
     else if co_name item = root_name then Inl (SystemExit ''root package cannot also be a dependency'')
     else load_components E root_name (components @ [item]) raws)"

definition check_manifest :: "pyenv \<Rightarrow> packaging \<Rightarrow> json \<Rightarrow> (root_package \<times> component list) res" where
  "check_manifest E P raw =
     (case raw of
        JObject data \<Rightarrow>
          if \<not> (case json_get (u ''schema_version'') data of Some v \<Rightarrow> equals_one v | None \<Rightarrow> False)
          then Inl (SystemExit ''runtime dependency manifest schema_version must equal 1'')
          else
           (case json_get (u ''root'') data of
              Some (JObject raw_root) \<Rightarrow>
                ebind (load_root E P raw_root) (\<lambda>root_item.
                case json_get (u ''components'') data of
                  Some (JList raws) \<Rightarrow>
                    if raws = [] then Inl (SystemExit ''runtime dependency manifest requires components'')
                    else
                      ebind (load_components E (rt_name root_item) [] raws) (\<lambda>components.
                      ebind (reachable_names (rt_depends_on root_item) components) (\<lambda>reached.
                      if co_name ` set components - set reached \<noteq> {}
                      then Inl (SystemExit ''runtime dependency manifest contains unreachable components'')
                      else Inr (root_item, components)))
                | _ \<Rightarrow> Inl (SystemExit ''runtime dependency manifest requires components''))
            | _ \<Rightarrow> Inl (SystemExit ''runtime dependency manifest requires a root object''))
      | _ \<Rightarrow> Inl (SystemExit ''runtime dependency manifest schema_version must equal 1''))"

definition MAX_MANIFEST_BYTES :: int where "MAX_MANIFEST_BYTES = 1048576"

text \<open>\<open>Path.read_text\<close>: strict UTF-8 with universal newlines.\<close>

fun universal_newlines :: "ustr \<Rightarrow> ustr" where
  "universal_newlines [] = []"
| "universal_newlines (c # s) =
     (if c = 13 then 10 # universal_newlines (if s \<noteq> [] \<and> hd s = 10 then tl s else s)
      else c # universal_newlines s)"

definition read_text :: "path \<Rightarrow> int \<Rightarrow> string \<Rightarrow> string \<Rightarrow> ustr fsm" where
  "read_text path cap unreadable too_large =
     fbind (observe (\<lambda>v. fv_stat v path)) (\<lambda>state.
       case state of
         None \<Rightarrow> fraise (SystemExit unreadable)
       | Some st \<Rightarrow>
           fbind (fcheck (st_size st \<le> cap) too_large) (\<lambda>_.
           fbind (observe (\<lambda>v. fv_read v path)) (\<lambda>content.
             case content of
               None \<Rightarrow> fraise (SystemExit unreadable)
             | Some raw \<Rightarrow>
                 (case decode_utf8 raw of
                    None \<Rightarrow> fraise (SystemExit unreadable)
                  | Some s \<Rightarrow> fret (universal_newlines s)))))"

definition load_manifest :: "release_lib \<Rightarrow> packaging \<Rightarrow> path \<Rightarrow> (root_package \<times> component list) fsm" where
  "load_manifest L P path =
     fbind (read_text path MAX_MANIFEST_BYTES ''runtime dependency manifest is unreadable or invalid JSON''
              ''runtime dependency manifest exceeds the safety bound'') (\<lambda>content.
       case plain_loads (rl_float L) content of
         Inl e \<Rightarrow>
           fraise (if e = JSONDecodeError
                   then SystemExit ''runtime dependency manifest is unreadable or invalid JSON'' else e)
       | Inr raw \<Rightarrow> flift (check_manifest (rl_env L) P raw))"

section \<open>The lock\<close>

fun split_lines_by :: "(int \<Rightarrow> bool) \<Rightarrow> ustr \<Rightarrow> ustr list" where
  "split_lines_by is_end [] = []"
| "split_lines_by is_end (c # s) =
     (if is_end c then [] # split_lines_by is_end s
      else (case split_lines_by is_end s of [] \<Rightarrow> [[c]] | l # ls \<Rightarrow> (c # l) # ls))"

text \<open>The line ends of \<open>str.splitlines\<close> that universal newlines leave.\<close>

definition is_text_line_end :: "int \<Rightarrow> bool" where
  "is_text_line_end c \<longleftrightarrow> is_line_end c \<or> c = 133 \<or> c = 8232 \<or> c = 8233"

text \<open>\<open>content.replace("\\\n", " ")\<close>.\<close>

fun join_continuations :: "ustr \<Rightarrow> ustr" where
  "join_continuations (a # b # s) =
     (if a = 92 \<and> b = 10 then 32 # join_continuations s else a # join_continuations (b # s))"
| "join_continuations s = s"

definition HASH_OPTION :: ustr where "HASH_OPTION = u ''--hash=sha256:''"

text \<open>The occurrences of a text that cannot overlap itself, and the parts around the first one.\<close>

fun count_text :: "ustr \<Rightarrow> ustr \<Rightarrow> nat" where
  "count_text pat [] = 0"
| "count_text pat (c # s) = (if starts_with pat (c # s) then Suc (count_text pat s) else count_text pat s)"

fun split_text :: "ustr \<Rightarrow> ustr \<Rightarrow> ustr \<times> ustr" where
  "split_text pat [] = ([], [])"
| "split_text pat (c # s) =
     (if starts_with pat (c # s) then ([], drop (length pat) (c # s))
      else (case split_text pat s of (before, after) \<Rightarrow> (c # before, after)))"

record lock_entry =
  le_version :: "ustr option"
  le_sha256 :: ustr
  le_marker :: "ustr option"

definition locked_version :: "requirement \<Rightarrow> ustr option" where
  "locked_version r =
     (if \<not> rq_url r \<and> length (rq_specifiers r) = 1 \<and> fst (hd (rq_specifiers r)) = u ''==''
      then Some (snd (hd (rq_specifiers r))) else None)"

definition lock_line :: "pyenv \<Rightarrow> packaging \<Rightarrow> ustr \<Rightarrow> (ustr \<times> lock_entry) res" where
  "lock_line E P line =
     (if count_text HASH_OPTION line \<noteq> 1
      then Inl (SystemExit ''runtime lock entries require exactly one SHA-256 hash'')
      else case split_text HASH_OPTION line of (requirement_text, raw_digest) \<Rightarrow>
       (let digest = py_strip E raw_digest in
        if \<not> is_sha256 digest then Inl (SystemExit ''runtime lock contains a noncanonical SHA-256 hash'')
        else case pk_requirement P (py_strip E requirement_text) of
          None \<Rightarrow> Inl (SystemExit ''runtime lock contains an invalid requirement'')
        | Some r \<Rightarrow>
            if rq_extras r then Inl (SystemExit ''runtime lock requirements must not use extras'')
            else Inr (canonical_name E (rq_name r),
                      \<lparr>le_version = locked_version r, le_sha256 = digest, le_marker = rq_marker r\<rparr>)))"

fun lock_entries :: "pyenv \<Rightarrow> packaging \<Rightarrow> (ustr \<times> lock_entry) list \<Rightarrow> ustr list \<Rightarrow> (ustr \<times> lock_entry) list res" where
  "lock_entries E P entries [] = Inr entries"
| "lock_entries E P entries (raw_line # lines) =
     (let line = py_strip E raw_line in
      if line = [] \<or> hd line = 35 then lock_entries E P entries lines
      else
        ebind (lock_line E P line) (\<lambda>(name, entry).
        if name \<in> fst ` set entries then Inl (SystemExit ''runtime lock duplicates a package'')
        else lock_entries E P (entries @ [(name, entry)]) lines))"

definition load_runtime_lock :: "release_lib \<Rightarrow> packaging \<Rightarrow> path \<Rightarrow> (ustr \<times> lock_entry) list fsm" where
  "load_runtime_lock L P path =
     fbind (read_text path MAX_MANIFEST_BYTES ''runtime lock is unreadable'' ''runtime lock exceeds the safety bound'')
       (\<lambda>content. flift (lock_entries (rl_env L) P [] (split_lines_by is_text_line_end (join_continuations content))))"

definition canonical_marker :: "packaging \<Rightarrow> ustr option \<Rightarrow> ustr option res" where
  "canonical_marker P v =
     (case v of
        None \<Rightarrow> Inr None
      | Some m \<Rightarrow>
          (case pk_marker P m of
             None \<Rightarrow> Inl (SystemExit ''component contains an invalid environment marker'')
           | Some t \<Rightarrow> Inr (Some t)))"

fun match_lock :: "packaging \<Rightarrow> (ustr \<times> lock_entry) list \<Rightarrow> component list \<Rightarrow> unit res" where
  "match_lock P entries [] = Inr ()"
| "match_lock P entries (c # cs) =
     ebind (canonical_marker P (co_marker c)) (\<lambda>marker.
     if map_of entries (co_name c) \<noteq> Some \<lparr>le_version = Some (co_version c), le_sha256 = co_sha256 c, le_marker = marker\<rparr>
     then Inl (SystemExit ''component does not match the hash-locked runtime subset'')
     else match_lock P entries cs)"

definition validate_runtime_lock :: "release_lib \<Rightarrow> packaging \<Rightarrow> path \<Rightarrow> path \<Rightarrow> unit fsm" where
  "validate_runtime_lock L P manifest_path lock_path =
     fbind (load_manifest L P manifest_path) (\<lambda>(_, components).
     fbind (load_runtime_lock L P lock_path) (\<lambda>entries.
     flift (match_lock P entries components)))"

end
