(* ===== verification/Sbom_Closure.thy ===== *)
theory Sbom_Closure
  imports Sbom_Manifest
begin

text \<open>
  The depth-first search over the reviewed dependency manifest computes the closure of its roots:
  it succeeds exactly when every reachable name is a component and no reachable component depends
  on itself, and it then visits exactly the reachable names.
\<close>

section \<open>The dependency graph\<close>

definition dependency :: "(ustr \<Rightarrow> ustr list option) \<Rightarrow> (ustr \<times> ustr) set" where
  "dependency depends = {(a, b). \<exists>ds. depends a = Some ds \<and> b \<in> set ds}"

text \<open>Every name comes after the names it depends on.\<close>

fun topological :: "(ustr \<Rightarrow> ustr list option) \<Rightarrow> ustr list \<Rightarrow> bool" where
  "topological depends [] = True"
| "topological depends (x # xs) =
     (topological depends xs \<and> x \<notin> set xs \<and> (\<exists>ds. depends x = Some ds \<and> set ds \<subseteq> set xs))"

lemma topological_known: "topological depends xs \<Longrightarrow> x \<in> set xs \<Longrightarrow> depends x \<noteq> None"
  by (induction xs) auto

lemma topological_closed: "topological depends xs \<Longrightarrow> x \<in> set xs \<Longrightarrow> (x, y) \<in> dependency depends \<Longrightarrow> y \<in> set xs"
  by (induction xs) (auto simp: dependency_def)

lemma topological_reach:
  assumes "topological depends xs" "(x, y) \<in> (dependency depends)\<^sup>*" "x \<in> set xs"
  shows "y \<in> set xs"
  using assms(2,3) by (induction rule: rtrancl_induct) (auto dest: topological_closed [OF assms(1)])

lemma topological_acyclic: "topological depends xs \<Longrightarrow> x \<in> set xs \<Longrightarrow> (x, x) \<notin> (dependency depends)\<^sup>+"
proof (induction xs)
  case (Cons z zs)
  have zs: "topological depends zs" and z: "z \<notin> set zs" and ds: "\<exists>ds. depends z = Some ds \<and> set ds \<subseteq> set zs"
    using Cons.prems(1) by auto
  have leaves: "y \<in> set zs" if "(z, y) \<in> (dependency depends)\<^sup>+" for y
  proof -
    from that obtain m where "(z, m) \<in> dependency depends" "(m, y) \<in> (dependency depends)\<^sup>*" by (meson tranclD)
    then show ?thesis using ds topological_reach [OF zs] by (auto simp: dependency_def)
  qed
  show ?case
  proof (cases "x = z")
    case True
    then show ?thesis using leaves z by blast
  next
    case False
    with Cons zs show ?thesis by simp
  qed
qed simp

section \<open>One search\<close>

text \<open>A success extends the visited names by names reachable from the start.\<close>

lemma visit_sound:
  "visit depends n active visited name = Inr visited' \<Longrightarrow> topological depends visited \<Longrightarrow> set visited \<inter> set active = {} \<Longrightarrow>
     topological depends visited' \<and> set visited \<subseteq> set visited' \<and> name \<in> set visited' \<and> set visited' \<inter> set active = {}
     \<and> set visited' \<subseteq> set visited \<union> (dependency depends)\<^sup>* `` {name}"
  "visit_each depends n active visited names = Inr visited' \<Longrightarrow> topological depends visited \<Longrightarrow> set visited \<inter> set active = {} \<Longrightarrow>
     topological depends visited' \<and> set visited \<subseteq> set visited' \<and> set names \<subseteq> set visited' \<and> set visited' \<inter> set active = {}
     \<and> set visited' \<subseteq> set visited \<union> (dependency depends)\<^sup>* `` set names"
proof (induction depends n active visited name and depends n active visited names arbitrary: visited' and visited'
    rule: visit_visit_each.induct)
  case (1 depends n active visited name)
  show ?case
  proof (cases "name \<in> set visited")
    case True
    with "1.prems" show ?thesis by (auto split: if_splits)
  next
    case False
    with "1.prems"(1) obtain ds d visited1 where ds: "depends name = Some ds" and n: "n = Suc d"
      and inactive: "name \<notin> set active"
      and run: "visit_each depends d (name # active) visited ds = Inr visited1" and v: "visited' = name # visited1"
      by (auto simp: result_simps split: if_splits option.splits nat.splits)
    have "set visited \<inter> set (name # active) = {}" using False "1.prems"(3) by auto
    note IH = "1.IH" [OF inactive False ds n run "1.prems"(2) this]
    have "(name, x) \<in> (dependency depends)\<^sup>*" if "(d, x) \<in> (dependency depends)\<^sup>*" "d \<in> set ds" for d x
      using ds that by (auto simp: dependency_def intro: converse_rtrancl_into_rtrancl)
    with IH ds inactive "1.prems"(2,3) show ?thesis unfolding v by auto
  qed
next
  case (3 depends n active visited name names)
  from "3.prems"(1) obtain visited1 where a: "visit depends n active visited name = Inr visited1"
    and b: "visit_each depends n active visited1 names = Inr visited'" by (auto simp: result_simps)
  note A = "3.IH"(1) [OF a "3.prems"(2,3)]
  then have "topological depends visited1" "set visited1 \<inter> set active = {}" by auto
  note B = "3.IH"(2) [OF b this]
  have "(dependency depends)\<^sup>* `` set (name # names)
      = (dependency depends)\<^sup>* `` {name} \<union> (dependency depends)\<^sup>* `` set names" by auto
  with A B show ?case by auto
qed simp

text \<open>A failure is a reachable unknown name or a reachable cycle.\<close>

definition bad_name :: "(ustr \<Rightarrow> ustr list option) \<Rightarrow> ustr \<Rightarrow> bool" where
  "bad_name depends y \<longleftrightarrow> depends y = None \<or> (y, y) \<in> (dependency depends)\<^sup>+"

lemma visit_complete:
  "visit depends n active visited name = Inl e \<Longrightarrow> finite (dom depends) \<Longrightarrow> set active \<subseteq> dom depends \<Longrightarrow>
     card (dom depends - set active) \<le> n \<Longrightarrow> \<forall>a \<in> set active. (a, name) \<in> (dependency depends)\<^sup>+ \<Longrightarrow>
     \<exists>y. (name, y) \<in> (dependency depends)\<^sup>* \<and> bad_name depends y"
  "visit_each depends n active visited names = Inl e \<Longrightarrow> finite (dom depends) \<Longrightarrow> set active \<subseteq> dom depends \<Longrightarrow>
     card (dom depends - set active) \<le> n \<Longrightarrow> \<forall>a \<in> set active. \<forall>d \<in> set names. (a, d) \<in> (dependency depends)\<^sup>+ \<Longrightarrow>
     \<exists>d \<in> set names. \<exists>y. (d, y) \<in> (dependency depends)\<^sup>* \<and> bad_name depends y"
proof (induction depends n active visited name and depends n active visited names rule: visit_visit_each.induct)
  case (1 depends n active visited name)
  show ?case
  proof (cases "name \<in> set active \<or> depends name = None")
    case True
    then have "bad_name depends name" using "1.prems"(5) by (auto simp: bad_name_def)
    then show ?thesis by blast
  next
    case False
    then have inactive: "name \<notin> set active" by simp
    from False obtain ds where ds: "depends name = Some ds" by auto
    have nv: "name \<notin> set visited" using "1.prems"(1) False by auto
    have mem: "name \<in> dom depends - set active" using inactive ds by auto
    then have "card (dom depends - set active) \<noteq> 0" using "1.prems"(2) by auto
    then obtain d where n: "n = Suc d" using "1.prems"(4) by (cases n) auto
    have run: "visit_each depends d (name # active) visited ds = Inl e"
      using "1.prems"(1) inactive nv ds n by (auto simp: result_simps)
    have sub: "set (name # active) \<subseteq> dom depends" using "1.prems"(3) ds by auto
    have "dom depends - set (name # active) = (dom depends - set active) - {name}" by auto
    then have "card (dom depends - set (name # active)) < card (dom depends - set active)"
      using mem "1.prems"(2) by (metis card_Diff1_less finite_Diff)
    then have fuel: "card (dom depends - set (name # active)) \<le> d" using "1.prems"(4) n by simp
    have edge: "(name, b) \<in> dependency depends" if "b \<in> set ds" for b using that ds by (auto simp: dependency_def)
    have "\<forall>a \<in> set (name # active). \<forall>b \<in> set ds. (a, b) \<in> (dependency depends)\<^sup>+"
      using "1.prems"(5) edge by (auto intro: trancl_into_trancl)
    from "1.IH" [OF inactive nv ds n run "1.prems"(2) sub fuel this] edge
    show ?thesis by (meson converse_rtrancl_into_rtrancl)
  qed
next
  case (3 depends n active visited name names)
  show ?case
  proof (cases "visit depends n active visited name")
    case (Inl e')
    with "3.IH"(1) "3.prems" show ?thesis by auto
  next
    case (Inr visited1)
    with "3.prems"(1) have "visit_each depends n active visited1 names = Inl e" by (simp add: result_simps)
    from "3.IH"(2) [OF this] "3.prems" show ?thesis by auto
  qed
qed simp

section \<open>The closure\<close>

lemma components_finite: "finite (dom (dependencies_of components))"
  "card (dom (dependencies_of components)) \<le> length components"
proof -
  have sub: "dom (dependencies_of components) \<subseteq> co_name ` set components"
    by (auto simp: dependencies_of_def component_of_def find_Some_iff dest: nth_mem)
  then show "finite (dom (dependencies_of components))" by (rule finite_subset) simp
  have "card (dom (dependencies_of components)) \<le> card (co_name ` set components)" using sub by (intro card_mono) simp
  also have "\<dots> \<le> length components" by (meson List.finite_set card_image_le card_length le_trans)
  finally show "card (dom (dependencies_of components)) \<le> length components" .
qed

definition component_graph :: "component list \<Rightarrow> (ustr \<times> ustr) set" where
  "component_graph components = dependency (dependencies_of components)"

text \<open>C38: the recursive search over the reviewed dependencies is the closure of the roots. It
  succeeds exactly when every name reachable from a root is a reviewed component and none of them
  depends on itself, however indirectly; then it has visited exactly the reachable names, each
  once and after everything it depends on.\<close>

theorem dependency_closure_exact:
  "(case reachable_names roots components of
      Inr names \<Rightarrow> set names = (component_graph components)\<^sup>* `` set roots \<and> topological (dependencies_of components) names
        \<and> (component_graph components)\<^sup>* `` set roots
            \<subseteq> {y. component_of components y \<noteq> None \<and> (y, y) \<notin> (component_graph components)\<^sup>+}
    | Inl _ \<Rightarrow> (\<exists>y \<in> (component_graph components)\<^sup>* `` set roots. component_of components y = None \<or> (y, y) \<in> (component_graph components)\<^sup>+))"
proof (cases "reachable_names roots components")
  case (Inr names)
  from visit_sound(2) [OF Inr [unfolded reachable_names_def]]
  have t: "topological (dependencies_of components) names" "set roots \<subseteq> set names" "set names \<subseteq> (component_graph components)\<^sup>* `` set roots"
    by (auto simp: component_graph_def)
  have sub: "(component_graph components)\<^sup>* `` set roots \<subseteq> set names"
    using topological_reach [OF t(1)] t(2) by (auto simp: component_graph_def)
  then have "\<forall>y \<in> (component_graph components)\<^sup>* `` set roots. component_of components y \<noteq> None \<and> (y, y) \<notin> (component_graph components)\<^sup>+"
    using topological_known [OF t(1)] topological_acyclic [OF t(1)] by (auto simp: component_graph_def dependencies_of_def)
  with Inr t sub show ?thesis by auto
next
  case (Inl e)
  from visit_complete(2) [OF Inl [unfolded reachable_names_def] components_finite(1)] components_finite(2)
  have "\<exists>d \<in> set roots. \<exists>y. (d, y) \<in> (component_graph components)\<^sup>* \<and> bad_name (dependencies_of components) y"
    by (simp add: component_graph_def)
  with Inl show ?thesis by (auto simp: bad_name_def component_graph_def dependencies_of_def)
qed

end
