(* ===== verification/Sbom_Archive.thy ===== *)
theory Sbom_Archive
  imports Release_Files
begin

text \<open>
  The archive checks of \<open>scripts/ci/generate_release_sbom.py\<close> that run before the parsers of the
  standard library see an untrusted archive: the central directory of a wheel, the blocks of an
  expanded source distribution, and the names of the members. An archive is its bytes, those of
  the private snapshot the code parses. What \<open>gzip\<close> makes of the bytes is a parameter.
\<close>

definition MAX_METADATA_BYTES :: nat where "MAX_METADATA_BYTES = 1048576"
definition MAX_ARCHIVE_MEMBERS :: nat where "MAX_ARCHIVE_MEMBERS = 10000"
definition MAX_EXPANDED_TAR_BYTES :: nat where "MAX_EXPANDED_TAR_BYTES = 512 * 1024 * 1024"
definition MAX_TAR_EXTENSION_BYTES :: nat where "MAX_TAR_EXTENSION_BYTES = 1048576"

section \<open>Names of members\<close>

text \<open>\<open>PurePosixPath(value).parts\<close> of a relative path: empty components and single dots vanish.\<close>

definition posix_parts :: "ustr \<Rightarrow> ustr list" where
  "posix_parts v = filter (\<lambda>p. p \<noteq> [] \<and> p \<noteq> [46]) (py_split 47 v)"

definition safe_archive_name :: "ustr \<Rightarrow> bool" where
  "safe_archive_name v \<longleftrightarrow>
     v \<noteq> [] \<and> 92 \<notin> set v \<and> hd v \<noteq> 47 \<and> list_all (\<lambda>part. part \<notin> {[], [46], [46, 46]}) (posix_parts v)"

definition check_archive_names :: "ustr list \<Rightarrow> string \<Rightarrow> unit res" where
  "check_archive_names names source =
     (if length names > MAX_ARCHIVE_MEMBERS then Inl (SystemExit (source @ '' exceeds the archive-member safety bound''))
      else if \<not> distinct names then Inl (SystemExit (source @ '' contains duplicate archive paths''))
      else if \<not> list_all safe_archive_name names then Inl (SystemExit (source @ '' contains an unsafe archive path''))
      else Inr ())"

section \<open>ZIP\<close>

text \<open>A little-endian number of some bytes at an offset.\<close>

definition le_number :: "bytes \<Rightarrow> nat \<Rightarrow> nat \<Rightarrow> nat" where
  "le_number b offset amount = foldr (\<lambda>c acc. of_char c + 256 * acc) (take amount (drop offset b)) 0"

definition ZIP_EOCD_SIGNATURE :: bytes where "ZIP_EOCD_SIGNATURE = ''PK'' @ [CHR 0x05, CHR 0x06]"
definition ZIP64_EOCD_LOCATOR_SIGNATURE :: bytes where "ZIP64_EOCD_LOCATOR_SIGNATURE = ''PK'' @ [CHR 0x06, CHR 0x07]"
definition ZIP_CENTRAL_SIGNATURE :: bytes where "ZIP_CENTRAL_SIGNATURE = ''PK'' @ [CHR 0x01, CHR 0x02]"

abbreviation zip_invalid :: "'a res" where
  "zip_invalid \<equiv> Inl (SystemExit ''release wheel is not a valid ZIP archive'')"

definition read_exact :: "bytes \<Rightarrow> nat \<Rightarrow> nat \<Rightarrow> bytes res" where
  "read_exact b position amount =
     (if length (take amount (drop position b)) = amount then Inr (take amount (drop position b)) else zip_invalid)"

text \<open>The last candidate whose comment ends with the archive. The signature cannot overlap itself,
  so the loop over \<open>rfind\<close> sees every occurrence, from the last one on.\<close>

definition find_zip_eocd :: "bytes \<Rightarrow> (nat \<times> bytes) res" where
  "find_zip_eocd b =
     (let tail_size = min (length b) (22 + 65535); tail = drop (length b - tail_size) b;
          candidates = filter (\<lambda>i. take 4 (drop i tail) = ZIP_EOCD_SIGNATURE) (rev [0..<length tail]) in
      case find (\<lambda>i. i + 22 \<le> length tail \<and> i + 22 + le_number tail (i + 20) 2 = length tail) candidates of
        None \<Rightarrow> zip_invalid
      | Some i \<Rightarrow> Inr (length b - tail_size + i, take 22 (drop i tail)))"

function zip_extra_uses_zip64 :: "bytes \<Rightarrow> bool res" where
  "zip_extra_uses_zip64 extra =
     (if extra = [] then Inr False
      else if length extra < 4 then zip_invalid
      else
       (let field_id = le_number extra 0 2; field_size = le_number extra 2 2 in
        if length extra < 4 + field_size then zip_invalid
        else if field_id = 1 then Inr True
        else zip_extra_uses_zip64 (drop (4 + field_size) extra)))"
  by pat_completeness auto
termination by (relation "measure length") auto

declare zip_extra_uses_zip64.simps [simp del]

text \<open>One record of the central directory, its fixed part and the rest.\<close>

definition central_record :: "bytes \<Rightarrow> nat \<Rightarrow> nat \<Rightarrow> nat res" where
  "central_record b position rest =
     ebind (read_exact b position 46) (\<lambda>fixed.
     if take 4 fixed \<noteq> ZIP_CENTRAL_SIGNATURE then zip_invalid
     else
      (let name_size = le_number fixed 28 2; extra_size = le_number fixed 30 2; comment_size = le_number fixed 32 2;
           variable_size = name_size + extra_size + comment_size in
       if 46 + variable_size > rest then zip_invalid
       else
         ebind (read_exact b (position + 46) variable_size) (\<lambda>variable.
         let compressed_size = le_number fixed 20 4; uncompressed_size = le_number fixed 24 4;
             start_disk = le_number fixed 34 2; local_offset = le_number fixed 42 4 in
         if start_disk \<noteq> 0 \<or> compressed_size = 0xFFFFFFFF \<or> uncompressed_size = 0xFFFFFFFF \<or> local_offset = 0xFFFFFFFF
         then zip_invalid
         else
           ebind (zip_extra_uses_zip64 (take extra_size (drop name_size variable))) (\<lambda>zip64.
           if zip64 then zip_invalid else Inr (46 + variable_size)))))"

lemma central_record_size: "central_record b position rest = Inr n \<Longrightarrow> 46 \<le> n \<and> n \<le> rest"
  by (auto simp: central_record_def Let_def result_simps split: if_splits)

function central_loop :: "bytes \<Rightarrow> nat \<Rightarrow> nat \<Rightarrow> nat \<Rightarrow> nat \<Rightarrow> (nat \<times> nat) res" where
  "central_loop b offset amount consumed entries =
     (if consumed \<ge> amount then Inr (consumed, entries)
      else
       (case central_record b (offset + consumed) (amount - consumed) of
          Inl e \<Rightarrow> Inl e
        | Inr n \<Rightarrow>
            if Suc entries > MAX_ARCHIVE_MEMBERS
            then Inl (SystemExit ''wheel exceeds the archive-member safety bound'')
            else central_loop b offset amount (consumed + n) (Suc entries)))"
  by pat_completeness auto
termination
  by (relation "measure (\<lambda>(b, offset, amount, consumed, entries). amount - consumed)")
    (auto dest: central_record_size)

declare central_loop.simps [simp del]

text \<open>The bytes just before an offset, at most so many.\<close>

definition zip_tail_before :: "bytes \<Rightarrow> nat \<Rightarrow> nat \<Rightarrow> bytes" where
  "zip_tail_before b offset amount = take (min amount offset) (drop (offset - amount) b)"

definition contains :: "bytes \<Rightarrow> bytes \<Rightarrow> bool" where
  "contains pat b \<longleftrightarrow> list_ex (\<lambda>i. take (length pat) (drop i b) = pat) [0..<length b]"

definition preflight_wheel_members :: "bytes \<Rightarrow> unit res" where
  "preflight_wheel_members b =
     ebind (find_zip_eocd b) (\<lambda>(eocd_offset, record_bytes).
     let disk_number = le_number record_bytes 4 2; directory_disk = le_number record_bytes 6 2;
         disk_entries = le_number record_bytes 8 2; total_entries = le_number record_bytes 10 2;
         amount = le_number record_bytes 12 4; offset = le_number record_bytes 16 4 in
     if disk_number \<noteq> 0 \<or> directory_disk \<noteq> 0 \<or> disk_entries \<noteq> total_entries
        \<or> contains ZIP64_EOCD_LOCATOR_SIGNATURE (zip_tail_before b eocd_offset 20)
     then zip_invalid
     else if total_entries = 0xFFFF \<or> amount = 0xFFFFFFFF \<or> offset = 0xFFFFFFFF \<or> offset + amount \<noteq> eocd_offset
     then zip_invalid
     else if total_entries > MAX_ARCHIVE_MEMBERS
     then Inl (SystemExit ''wheel exceeds the archive-member safety bound'')
     else
       ebind (central_loop b offset amount 0 0) (\<lambda>(consumed, actual_entries).
       if consumed \<noteq> amount \<or> actual_entries \<noteq> total_entries then zip_invalid else Inr ()))"

section \<open>Tar\<close>

abbreviation tar_invalid :: "'a res" where
  "tar_invalid \<equiv> Inl (SystemExit ''release source distribution is not a valid gzip tar'')"

abbreviation nul :: char where "nul \<equiv> CHR 0x00"

fun octal_value :: "bytes \<Rightarrow> nat \<Rightarrow> nat option" where
  "octal_value [] acc = Some acc"
| "octal_value (c # s) acc =
     (if 48 \<le> (of_char c :: nat) \<and> (of_char c :: nat) \<le> 55 then octal_value s (8 * acc + (of_char c - 48)) else None)"

definition tar_number :: "bytes \<Rightarrow> nat res" where
  "tar_number field =
     (if field \<noteq> [] \<and> (of_char (hd field) :: nat) \<ge> 128 then tar_invalid
      else
       (let stripped = dropWhile (\<lambda>c. c = CHR '' '') (rev (dropWhile (\<lambda>c. c = nul \<or> c = CHR '' '') (rev field))) in
        case octal_value stripped 0 of None \<Rightarrow> tar_invalid | Some n \<Rightarrow> Inr n))"

definition byte_sum :: "bytes \<Rightarrow> nat" where
  "byte_sum b = sum_list (map of_char b)"

definition require_tar_checksum :: "bytes \<Rightarrow> unit res" where
  "require_tar_checksum header =
     ebind (tar_number (take 8 (drop 148 header))) (\<lambda>expected.
     if byte_sum (take 148 header) + 8 * 32 + byte_sum (drop 156 header) \<noteq> expected then tar_invalid else Inr ())"

text \<open>Reading a number of expanded bytes: what was read and what is left. The end of the data, and a
  failure of the decompressor, which the code turns into the same refusal, leave it short.\<close>

definition read_expanded :: "bytes \<Rightarrow> nat \<Rightarrow> nat \<Rightarrow> (bytes \<times> bytes) res" where
  "read_expanded rest amount consumed =
     (if consumed + amount > MAX_EXPANDED_TAR_BYTES
      then Inl (SystemExit ''source distribution exceeds the expanded-tar safety bound'')
      else if length rest < amount then tar_invalid
      else Inr (take amount rest, drop amount rest))"

text \<open>The checks on one header that is not zero: its data amount.\<close>

definition tar_header :: "bytes \<Rightarrow> nat \<Rightarrow> nat res" where
  "tar_header header members =
     ebind (require_tar_checksum header) (\<lambda>_.
     if Suc members > MAX_ARCHIVE_MEMBERS
     then Inl (SystemExit ''source distribution exceeds the archive-member safety bound'')
     else
       ebind (tar_number (take 12 (drop 124 header))) (\<lambda>amount.
       let type_flag = header ! 156 in
       if type_flag \<in> set ''123467S'' then Inl (SystemExit ''source distribution contains a link or special file'')
       else if type_flag \<noteq> nul \<and> type_flag \<notin> set ''05xgL''
       then Inl (SystemExit ''source distribution contains an unsupported tar form'')
       else if type_flag \<in> set ''xgL'' \<and> amount > MAX_TAR_EXTENSION_BYTES
       then Inl (SystemExit ''source distribution extension header exceeds the safety bound'')
       else Inr amount))"

definition padded :: "nat \<Rightarrow> nat" where
  "padded amount = (amount + 511) div 512 * 512"

definition sparse_payload :: "bytes \<Rightarrow> bytes \<Rightarrow> nat \<Rightarrow> bool" where
  "sparse_payload header payload amount \<longleftrightarrow> header ! 156 \<in> set ''xg'' \<and> contains ''GNU.sparse.'' (take amount payload)"

text \<open>The loop over the headers, until two zero blocks in a row. It returns what is left, and the
  bytes and the members it consumed.\<close>

function tar_loop :: "bytes \<Rightarrow> nat \<Rightarrow> nat \<Rightarrow> nat \<Rightarrow> (bytes \<times> nat \<times> nat) res" where
  "tar_loop rest consumed members zero_headers =
     (if zero_headers \<ge> 2 then Inr (rest, consumed, members)
      else
       (case read_expanded rest 512 consumed of
          Inl e \<Rightarrow> Inl e
        | Inr (header, rest1) \<Rightarrow>
            if header = replicate 512 nul then tar_loop rest1 (consumed + 512) members (Suc zero_headers)
            else
             (case tar_header header members of
                Inl e \<Rightarrow> Inl e
              | Inr amount \<Rightarrow>
                  (case read_expanded rest1 (padded amount) (consumed + 512) of
                     Inl e \<Rightarrow> Inl e
                   | Inr (payload, rest2) \<Rightarrow>
                       if sparse_payload header payload amount
                       then Inl (SystemExit ''source distribution contains a sparse archive form'')
                       else tar_loop rest2 (consumed + 512 + padded amount) (Suc members) 0))))"
  by pat_completeness auto
termination
  by (relation "measure (\<lambda>(rest, consumed, members, zero_headers). length rest)")
    (auto simp: read_expanded_def split: if_splits)

declare tar_loop.simps [simp del]

function tar_trailing :: "bytes \<Rightarrow> nat \<Rightarrow> unit res" where
  "tar_trailing rest consumed =
     (let trailing = take 1048576 rest in
      if trailing = [] then Inr ()
      else if consumed + length trailing > MAX_EXPANDED_TAR_BYTES
      then Inl (SystemExit ''source distribution exceeds the expanded-tar safety bound'')
      else if list_ex (\<lambda>c. c \<noteq> nul) trailing then tar_invalid
      else tar_trailing (drop 1048576 rest) (consumed + length trailing))"
  by pat_completeness auto
termination by (relation "measure (\<lambda>(rest, consumed). length rest)") auto

declare tar_trailing.simps [simp del]

text \<open>The expanded bytes, and whether the decompressor fails after them. The result is the spooled
  copy, all the bytes that were read.\<close>

definition preflight_sdist_members_detailed :: "bytes \<times> bool \<Rightarrow> bytes res" where
  "preflight_sdist_members_detailed expanded =
     (case expanded of (content, fails) \<Rightarrow>
        ebind (tar_loop content 0 0 0) (\<lambda>(rest, consumed, _).
        ebind (tar_trailing rest consumed) (\<lambda>_.
        if fails then tar_invalid else Inr content)))"

definition direct_rejection :: "'a res \<Rightarrow> 'a res" where
  "direct_rejection r =
     (case r of Inl (SystemExit _) \<Rightarrow> Inl (SystemExit ''release artifact failed verification'') | r' \<Rightarrow> r')"

definition preflight_sdist_members :: "bytes \<times> bool \<Rightarrow> bytes res" where
  "preflight_sdist_members expanded = direct_rejection (preflight_sdist_members_detailed expanded)"

end
