(* ===== verification/Sbom_Document.thy ===== *)
theory Sbom_Document
  imports Sbom_Manifest Sbom_Archive Release_Output Egress_Values
begin

text \<open>
  The rest of \<open>scripts/ci/generate_release_sbom.py\<close>: the reader that bounds a live artifact, the
  metadata of a wheel or a source distribution, and the CycloneDX document; and the adapter
  \<open>scripts/ci/generate_attestable_release_sbom.py\<close> that adds its content-bound identity.
  The parsers of the standard library (\<open>gzip\<close>, \<open>zipfile\<close>, \<open>tarfile\<close>, \<open>email\<close>) are parameters: they
  see only what the checks before them have accepted.
\<close>

section \<open>The live artifact\<close>

definition MAX_RELEASE_ARTIFACT_BYTES :: int where "MAX_RELEASE_ARTIFACT_BYTES = 256 * 1024 * 1024"

type_synonym handle = "nat \<times> nat"

definition ask :: "handle \<Rightarrow> (stream_view \<Rightarrow> 'a) \<Rightarrow> 'a fsm" where
  "ask h q = observe (\<lambda>v. q (fv_stream v h))"

definition unsafe_artifact :: "'a fsm" where
  "unsafe_artifact = fraise (SystemExit ''release artifact is missing or unsafe'')"

definition too_large_artifact :: "'a fsm" where
  "too_large_artifact = fraise (SystemExit ''release artifact exceeds the compressed-byte safety bound'')"

text \<open>\<open>except (OSError, TypeError, ValueError)\<close>.\<close>

fun is_OSError :: "exn \<Rightarrow> bool" where
  "is_OSError (OSError _) = True"
| "is_OSError _ = False"

definition stream_error :: "exn \<Rightarrow> bool" where
  "stream_error e \<longleftrightarrow> is_OSError e \<or> is_TypeError e \<or> is_ValueError e"

definition answered :: "'a res \<Rightarrow> ('a \<Rightarrow> 'b fsm) \<Rightarrow> 'b fsm" where
  "answered r f = (case r of Inl e \<Rightarrow> if stream_error e then unsafe_artifact else fraise e | Inr x \<Rightarrow> f x)"

definition require_live_artifact_descriptor :: "handle \<Rightarrow> int fsm" where
  "require_live_artifact_descriptor h =
     fbind (ask h sv_fileno) (\<lambda>r. answered r (\<lambda>descriptor.
     fbind (ask h sv_fstat) (\<lambda>m. answered m (\<lambda>metadata.
     if (case descriptor of VInt n \<Rightarrow> n < 0 | VIntSub n \<Rightarrow> n < 0 | _ \<Rightarrow> True) \<or> st_kind metadata \<noteq> Regular
     then unsafe_artifact
     else if st_size metadata > MAX_RELEASE_ARTIFACT_BYTES then too_large_artifact
     else fret (st_size metadata)))))"

definition safe_position :: "pyval \<Rightarrow> int option" where
  "safe_position v =
     (case v of
        VInt n \<Rightarrow> if 0 \<le> n \<and> n \<le> MAX_RELEASE_ARTIFACT_BYTES then Some n else None
      | VIntSub n \<Rightarrow> if 0 \<le> n \<and> n \<le> MAX_RELEASE_ARTIFACT_BYTES then Some n else None
      | _ \<Rightarrow> None)"

definition require_artifact_position :: "handle \<Rightarrow> int fsm" where
  "require_artifact_position h =
     fbind (ask h sv_tell) (\<lambda>r. answered r (\<lambda>position.
     case safe_position position of None \<Rightarrow> unsafe_artifact | Some n \<Rightarrow> fret n))"

definition bounded_amount :: "int \<Rightarrow> int \<Rightarrow> int" where
  "bounded_amount position amount =
     (let remaining_with_tripwire = MAX_RELEASE_ARTIFACT_BYTES - position + 1 in
      if amount < 0 \<or> amount > remaining_with_tripwire then remaining_with_tripwire else amount)"

text \<open>\<open>read\<close> of the bounded reader; a buffer of another type counts as its bytes.\<close>

definition live_read :: "handle \<Rightarrow> int \<Rightarrow> bytes fsm" where
  "live_read h amount =
     fbind (require_live_artifact_descriptor h) (\<lambda>_.
     fbind (require_artifact_position h) (\<lambda>position_before.
     let bounded = bounded_amount position_before amount in
     fbind (ask h (\<lambda>v. sv_read v bounded)) (\<lambda>r. answered r (\<lambda>payload.
     case as_bytes payload of
       None \<Rightarrow> unsafe_artifact
     | Some b \<Rightarrow>
         if int (length b) > bounded then unsafe_artifact
         else
           fbind (require_live_artifact_descriptor h) (\<lambda>_.
           fbind (require_artifact_position h) (\<lambda>position_after.
           if position_after \<noteq> position_before + int (length b) then unsafe_artifact
           else if int (length b) > MAX_RELEASE_ARTIFACT_BYTES then too_large_artifact
           else fret b))))))"

definition live_seek :: "handle \<Rightarrow> int \<Rightarrow> int fsm" where
  "live_seek h offset =
     fbind (require_live_artifact_descriptor h) (\<lambda>_.
     fbind (ask h (\<lambda>v. sv_seek v offset)) (\<lambda>r. answered r (\<lambda>answer.
     case safe_position answer of
       None \<Rightarrow> unsafe_artifact
     | Some position \<Rightarrow>
         fbind (require_live_artifact_descriptor h) (\<lambda>_.
         fbind (require_artifact_position h) (\<lambda>now_at.
         if now_at \<noteq> position then unsafe_artifact else fret position)))))"

text \<open>Copying to the private snapshot. Every block moves the position, which is bounded, so this many
  rounds are enough.\<close>

fun snapshot_loop :: "nat \<Rightarrow> handle \<Rightarrow> bytes \<Rightarrow> bytes fsm" where
  "snapshot_loop 0 h copied = fraise (OtherException 0)"
| "snapshot_loop (Suc n) h copied =
     fbind (live_read h 1048576) (\<lambda>block.
     if block = [] then fret copied else snapshot_loop n h (copied @ block))"

definition snapshot_rounds :: nat where
  "snapshot_rounds = nat MAX_RELEASE_ARTIFACT_BYTES + 2"

definition snapshot_release_artifact :: "pyenv \<Rightarrow> handle \<Rightarrow> (bytes \<times> ustr) fsm" where
  "snapshot_release_artifact E h =
     fbind (live_seek h 0) (\<lambda>_.
     fbind (snapshot_loop snapshot_rounds h []) (\<lambda>copied. fret (copied, sha256_hex E copied)))"

text \<open>Hashing the opened stream itself; here an \<open>OSError\<close> is let through.\<close>

fun live_hash_loop :: "nat \<Rightarrow> handle \<Rightarrow> bytes \<Rightarrow> bytes fsm" where
  "live_hash_loop 0 h consumed = fraise (OtherException 0)"
| "live_hash_loop (Suc n) h consumed =
     fbind (ask h (\<lambda>v. sv_read v 1048576)) (\<lambda>r.
       case r of
         Inl e \<Rightarrow> fraise e
       | Inr payload \<Rightarrow>
           (case as_bytes payload of
              None \<Rightarrow> fraise (TypeError ''object supporting the buffer API required'')
            | Some block \<Rightarrow>
                if block = [] then fret consumed
                else if int (length (consumed @ block)) > MAX_RELEASE_ARTIFACT_BYTES then too_large_artifact
                else live_hash_loop n h (consumed @ block)))"

definition sha256_live :: "pyenv \<Rightarrow> handle \<Rightarrow> ustr fsm" where
  "sha256_live E h =
     fbind (ask h (\<lambda>v. sv_seek v 0)) (\<lambda>r0. case r0 of Inl e \<Rightarrow> fraise e | Inr _ \<Rightarrow>
     fbind (live_hash_loop snapshot_rounds h []) (\<lambda>consumed.
     fbind (ask h (\<lambda>v. sv_seek v 0)) (\<lambda>r1. case r1 of Inl e \<Rightarrow> fraise e | Inr _ \<Rightarrow>
     fret (sha256_hex E consumed))))"

text \<open>Opening does not follow a link in the last component.\<close>

definition open_release_artifact :: "path \<Rightarrow> handle fsm" where
  "open_release_artifact path =
     fbind (observe (\<lambda>v. fv_lstat v path)) (\<lambda>state.
       case state of
         None \<Rightarrow> unsafe_artifact
       | Some path_metadata \<Rightarrow>
           if st_kind path_metadata \<noteq> Regular then unsafe_artifact
           else if st_size path_metadata > MAX_RELEASE_ARTIFACT_BYTES then too_large_artifact
           else
             fbind (observe (\<lambda>v. fv_open v path)) (\<lambda>opened_stream.
               case opened_stream of
                 None \<Rightarrow> unsafe_artifact
               | Some stream \<Rightarrow>
                   (let opened_metadata = op_state stream in
                    if st_kind opened_metadata \<noteq> Regular \<or> st_identity opened_metadata \<noteq> st_identity path_metadata
                    then unsafe_artifact
                    else if st_size opened_metadata > MAX_RELEASE_ARTIFACT_BYTES then too_large_artifact
                    else fret (st_identity opened_metadata))))"

section \<open>Metadata\<close>

text \<open>Exceptions of the standard library's archive parsers.\<close>

abbreviation BadZipFile :: exn where "BadZipFile \<equiv> OtherException 2"
abbreviation TarError :: exn where "TarError \<equiv> OtherException 3"

record zip_member =
  zm_name :: ustr
  zm_size :: nat
  zm_content :: "bytes res"

datatype tar_kind = TFile | TDirectory | TSymlink | THardlink | TDevice | TFifo | TOther

record tar_member =
  tm_name :: ustr
  tm_kind :: tar_kind
  tm_sparse :: bool
  tm_size :: nat
  tm_content :: "bytes option"          \<comment> \<open>\<open>extractfile\<close>\<close>

record archive_lib =
  al_gunzip :: "bytes \<Rightarrow> bytes \<times> bool"           \<comment> \<open>the expanded bytes, and whether expanding then fails\<close>
  al_zip :: "bytes \<Rightarrow> zip_member list res"
  al_tar :: "bytes \<Rightarrow> tar_member list \<times> exn option"   \<comment> \<open>the members, and how the iteration fails after them\<close>
  al_message :: "bytes \<Rightarrow> (ustr \<times> ustr) list"        \<comment> \<open>the header fields of core metadata\<close>

definition parse_metadata :: "archive_lib \<Rightarrow> bytes \<Rightarrow> string \<Rightarrow> (ustr \<times> ustr) list res" where
  "parse_metadata A payload source =
     (if length payload > MAX_METADATA_BYTES then Inl (SystemExit (source @ '' metadata exceeds the safety bound''))
      else Inr (al_message A payload))"

definition ends_with :: "ustr \<Rightarrow> ustr \<Rightarrow> bool" where
  "ends_with suffix s \<longleftrightarrow> length suffix \<le> length s \<and> drop (length s - length suffix) s = suffix"

definition bad_zip :: "'a res \<Rightarrow> 'a res" where
  "bad_zip r = (case r of Inl e \<Rightarrow> if e = BadZipFile then zip_invalid else Inl e | Inr x \<Rightarrow> Inr x)"

definition wheel_metadata :: "archive_lib \<Rightarrow> bytes \<Rightarrow> (ustr \<times> ustr) list res" where
  "wheel_metadata A b =
     ebind (preflight_wheel_members b) (\<lambda>_.
     bad_zip
      (ebind (al_zip A b) (\<lambda>members.
       ebind (check_archive_names (map zm_name members) ''wheel'') (\<lambda>_.
       let selected = filter (\<lambda>m. ends_with (u ''.dist-info/METADATA'') (zm_name m)) members in
       if length selected \<noteq> 1 then Inl (SystemExit ''wheel must contain exactly one core METADATA member'')
       else if zm_size (hd selected) > MAX_METADATA_BYTES then Inl (SystemExit ''wheel metadata exceeds the safety bound'')
       else ebind (zm_content (hd selected)) (\<lambda>payload. parse_metadata A payload ''wheel'')))))"

text \<open>One member of a source distribution, with the names seen before and what was selected.\<close>

definition check_tar_member :: "ustr list \<Rightarrow> bytes option \<Rightarrow> tar_member \<Rightarrow> bytes option res" where
  "check_tar_member seen selected m =
     (if Suc (length seen) > MAX_ARCHIVE_MEMBERS
      then Inl (SystemExit ''source distribution exceeds the archive-member safety bound'')
      else if tm_name m \<in> set seen then Inl (SystemExit ''source distribution contains duplicate archive paths'')
      else if \<not> safe_archive_name (tm_name m) then Inl (SystemExit ''source distribution contains an unsafe archive path'')
      else if tm_kind m \<in> {TSymlink, THardlink, TDevice, TFifo}
      then Inl (SystemExit ''source distribution contains a link or special file'')
      else if tm_sparse m then Inl (SystemExit ''source distribution contains a sparse archive form'')
      else if tm_kind m \<notin> {TFile, TDirectory}
      then Inl (SystemExit ''source distribution contains an unsupported tar form'')
      else
       (let parts = posix_parts (tm_name m) in
        if tm_kind m = TFile \<and> length parts = 2 \<and> parts ! 1 = u ''PKG-INFO''
        then
         (if selected \<noteq> None then Inl (SystemExit ''source distribution must contain one root PKG-INFO'')
          else if tm_size m > MAX_METADATA_BYTES
          then Inl (SystemExit ''source distribution metadata exceeds the safety bound'')
          else (case tm_content m of
                  None \<Rightarrow> Inl (SystemExit ''source distribution metadata could not be read'')
                | Some payload \<Rightarrow> Inr (Some (take (Suc MAX_METADATA_BYTES) payload))))
        else Inr selected))"

fun select_pkg_info :: "ustr list \<Rightarrow> bytes option \<Rightarrow> tar_member list \<Rightarrow> bytes option res" where
  "select_pkg_info seen selected [] = Inr selected"
| "select_pkg_info seen selected (m # ms) =
     ebind (check_tar_member seen selected m) (\<lambda>selected'. select_pkg_info (seen @ [tm_name m]) selected' ms)"

definition sdist_metadata_detailed :: "archive_lib \<Rightarrow> bytes \<Rightarrow> (ustr \<times> ustr) list res" where
  "sdist_metadata_detailed A b =
     ebind (preflight_sdist_members (al_gunzip A b)) (\<lambda>expanded.
     case al_tar A expanded of (members, failure) \<Rightarrow>
       ebind (select_pkg_info [] None members) (\<lambda>selected.
       case failure of
         Some e \<Rightarrow> if e = TarError then tar_invalid else Inl e
       | None \<Rightarrow>
           (case selected of
              None \<Rightarrow> Inl (SystemExit ''source distribution must contain one root PKG-INFO'')
            | Some payload \<Rightarrow> parse_metadata A payload ''source distribution'')))"

definition sdist_metadata :: "archive_lib \<Rightarrow> bytes \<Rightarrow> (ustr \<times> ustr) list res" where
  "sdist_metadata A b = direct_rejection (sdist_metadata_detailed A b)"

definition artifact_metadata :: "archive_lib \<Rightarrow> bytes \<Rightarrow> ustr \<Rightarrow> (ustr \<times> ustr) list res" where
  "artifact_metadata A b filename =
     (if ends_with (u ''.whl'') filename then wheel_metadata A b
      else if ends_with (u ''.tar.gz'') filename then sdist_metadata A b
      else Inl (SystemExit ''release artifact must be a .whl or .tar.gz distribution''))"

text \<open>\<open>message.get\<close> and \<open>message.get_all\<close>: names compare without case.\<close>

definition header_values :: "(ustr \<times> ustr) list \<Rightarrow> string \<Rightarrow> ustr list" where
  "header_values metadata name =
     map snd (filter (\<lambda>(n, _). map lower_c n = map lower_c (u name)) metadata)"

definition header_value :: "(ustr \<times> ustr) list \<Rightarrow> string \<Rightarrow> ustr" where
  "header_value metadata name = (case header_values metadata name of [] \<Rightarrow> [] | v # _ \<Rightarrow> v)"

record package_identity =
  pi_name :: ustr
  pi_version :: ustr
  pi_license :: ustr
  pi_requirements :: "ustr list"

definition identity_of_metadata :: "pyenv \<Rightarrow> packaging \<Rightarrow> (ustr \<times> ustr) list \<Rightarrow> package_identity res" where
  "identity_of_metadata E P metadata =
     (let name = header_value metadata ''Name''; version = header_value metadata ''Version'';
          license_id = header_value metadata ''License-Expression'' in
      if name = [] \<or> version = [] \<or> license_id = []
      then Inl (SystemExit ''artifact metadata lacks identity or license fields'')
      else
        ebind (emap (canonical_requirement P) (header_values metadata ''Requires-Dist'')) (\<lambda>requirements.
        if \<not> distinct requirements
        then Inl (SystemExit ''artifact metadata contains duplicate runtime requirements'')
        else Inr \<lparr>pi_name = canonical_name E name, pi_version = version, pi_license = license_id,
                  pi_requirements = sort requirements\<rparr>))"

section \<open>The document\<close>

definition name_value :: "string \<Rightarrow> ustr \<Rightarrow> json" where
  "name_value name v = JObject [(u ''name'', JString (u name)), (u ''value'', JString v)]"

definition sha256_hashes :: "ustr \<Rightarrow> json" where
  "sha256_hashes digest = JList [JObject [(u ''alg'', JString (u ''SHA-256'')), (u ''content'', JString digest)]]"

definition license_json :: "ustr \<Rightarrow> json" where
  "license_json license_id = JList [JObject [(u ''license'', JObject [(u ''id'', JString license_id)])]]"

definition component_json :: "component \<Rightarrow> json" where
  "component_json c = JObject
     [(u ''type'', JString (u ''library'')), (u ''bom-ref'', JString (co_purl c)), (u ''name'', JString (co_name c)),
      (u ''version'', JString (co_version c)), (u ''purl'', JString (co_purl c)), (u ''hashes'', sha256_hashes (co_sha256 c)),
      (u ''licenses'', license_json (co_license c)),
      (u ''properties'', JList (name_value ''egressweave:release:dependency-artifact'' (co_artifact_filename c)
          # (case co_marker c of None \<Rightarrow> [] | Some m \<Rightarrow> [name_value ''egressweave:release:runtime-marker'' m])))]"

text \<open>A name that is no component is a \<open>KeyError\<close>.\<close>

definition purls_of :: "component list \<Rightarrow> ustr list \<Rightarrow> ustr list res" where
  "purls_of components names =
     emap (\<lambda>n. of_option (OtherException 4) (map_option co_purl (component_of components n))) names"

definition dependency_json :: "component list \<Rightarrow> ustr \<Rightarrow> ustr list \<Rightarrow> json res" where
  "dependency_json components reference names =
     ebind (purls_of components names) (\<lambda>purls.
     Inr (JObject [(u ''ref'', JString reference), (u ''dependsOn'', JList (map JString (sort purls)))]))"

definition SBOM_GENERATOR_VERSION :: ustr where "SBOM_GENERATOR_VERSION = u ''1''"

definition root_reference :: "ustr \<Rightarrow> ustr" where
  "root_reference digest = u ''urn:egressweave:artifact:sha256:'' @ digest"

definition root_component_json :: "package_identity \<Rightarrow> ustr \<Rightarrow> ustr \<Rightarrow> json" where
  "root_component_json identity digest filename = JObject
     [(u ''type'', JString (u ''library'')), (u ''bom-ref'', JString (root_reference digest)),
      (u ''name'', JString (pi_name identity)), (u ''version'', JString (pi_version identity)),
      (u ''purl'', JString (package_url (pi_name identity) (pi_version identity))), (u ''hashes'', sha256_hashes digest),
      (u ''licenses'', license_json (pi_license identity)),
      (u ''properties'', JList
        [name_value ''egressweave:release:artifact-filename'' filename,
         name_value ''egressweave:release:dependency-scope'' (u ''supported-python-runtime-union''),
         name_value ''egressweave:release:generator-version'' SBOM_GENERATOR_VERSION])]"

text \<open>The document of an artifact whose snapshot had this digest and identity.\<close>

definition sbom_document ::
  "pyenv \<Rightarrow> packaging \<Rightarrow> root_package \<times> component list \<Rightarrow> package_identity \<Rightarrow> ustr \<Rightarrow> ustr \<Rightarrow> (ustr \<times> json) list res" where
  "sbom_document E P manifest identity digest filename =
     (case manifest of (root_item, components) \<Rightarrow>
        if pi_name identity \<noteq> rt_name root_item \<or> pi_license identity \<noteq> rt_license root_item
        then Inl (SystemExit ''artifact identity or license does not match the manifest'')
        else
          ebind (emap (requirement_name E P) (pi_requirements identity)) (\<lambda>names.
          if sort names \<noteq> sort (rt_depends_on root_item)
          then Inl (SystemExit ''artifact direct runtime dependencies do not match the manifest'')
          else if pi_requirements identity \<noteq> rt_requires_dist root_item
          then Inl (SystemExit ''artifact runtime requirement declarations do not match the manifest'')
          else
           (let ordered = sort_key co_purl components in
            ebind (dependency_json components (root_reference digest) (rt_depends_on root_item)) (\<lambda>root_dependency.
            ebind (emap (\<lambda>c. dependency_json components (co_purl c) (co_depends_on c)) ordered) (\<lambda>dependencies.
            Inr [(u ''$schema'', JString CYCLONEDX_SCHEMA), (u ''bomFormat'', JString CYCLONEDX_FORMAT),
                 (u ''specVersion'', JString CYCLONEDX_SPEC_VERSION), (u ''version'', JInt 1),
                 (u ''metadata'', JObject [(u ''component'', root_component_json identity digest filename)]),
                 (u ''components'', JList (map component_json ordered)),
                 (u ''dependencies'', JList (root_dependency # dependencies))])))))"

definition build_sbom ::
  "release_lib \<Rightarrow> packaging \<Rightarrow> archive_lib \<Rightarrow> path \<Rightarrow> path \<Rightarrow> (ustr \<times> json) list fsm" where
  "build_sbom L P A artifact_path manifest_path =
     fbind (open_release_artifact artifact_path) (\<lambda>h.
     fbind (sha256_live (rl_env L) h) (\<lambda>digest_before.
     fbind (snapshot_release_artifact (rl_env L) h) (\<lambda>(snapshot, digest).
     fbind (fcheck (digest = digest_before) ''release artifact changed during verification'') (\<lambda>_.
     fbind (flift (ebind (artifact_metadata A snapshot (path_name artifact_path)) (identity_of_metadata (rl_env L) P))) (\<lambda>identity.
     fbind (sha256_live (rl_env L) h) (\<lambda>live_digest.
     fbind (fcheck (live_digest = digest) ''release artifact changed during verification'') (\<lambda>_.
     fbind (load_manifest L P manifest_path) (\<lambda>manifest.
     flift (sbom_document (rl_env L) P manifest identity digest (path_name artifact_path))))))))))"

text \<open>\<open>write_sbom\<close> for a document without floats: the directories, the text, and one write that
  replaces what was there. The outcome of opening and writing is that of the write.\<close>

definition write_sbom :: "json \<Rightarrow> path \<Rightarrow> unit fsm" where
  "write_sbom sbom output_path =
     fbind (observe (\<lambda>v. fv_mkdir v (parent output_path))) (\<lambda>made.
     if \<not> made then fraise (OSError '''')
     else
       fbind (flift (dumps indented_style sbom)) (\<lambda>t.
       fbind (flift (of_option UnicodeEncodeError (encode_ascii (t @ [10])))) (\<lambda>b.
       fbind (fwrite output_path b) (\<lambda>ok.
       if ok then fret () else fraise (OSError '''')))))"

text \<open>\<open>Path.resolve()\<close>; a loop of links is a \<open>RuntimeError\<close>.\<close>

definition resolve_path :: "path \<Rightarrow> path fsm" where
  "resolve_path p = fbind (observe (\<lambda>v. fv_resolve_lax v p)) (\<lambda>r.
     case r of None \<Rightarrow> fraise (OtherException 0) | Some q \<Rightarrow> fret q)"

definition generate_release_sbom_main ::
  "release_lib \<Rightarrow> packaging \<Rightarrow> archive_lib \<Rightarrow> path \<Rightarrow> path \<Rightarrow> path \<Rightarrow> path \<Rightarrow> path fsm" where
  "generate_release_sbom_main L P A artifact_argument manifest_argument lock_argument output_argument =
     fbind (resolve_path manifest_argument) (\<lambda>manifest_path.
     fbind (resolve_path lock_argument) (\<lambda>lock_path.
     fbind (validate_runtime_lock L P manifest_path lock_path) (\<lambda>_.
     fbind (resolve_path manifest_argument) (\<lambda>manifest_path'.
     fbind (build_sbom L P A artifact_argument manifest_path') (\<lambda>sbom.
     fbind (resolve_path output_argument) (\<lambda>output_path.
     fbind (write_sbom (JObject sbom) output_path) (\<lambda>_.
     fret output_argument)))))))"

section \<open>The content-bound identity\<close>

abbreviation strict_json_error :: exn where
  "strict_json_error \<equiv> SystemExit ''release SBOM foundation must produce strict JSON evidence''"

abbreviation foundation_profile_error :: exn where
  "foundation_profile_error \<equiv> SystemExit ''release SBOM foundation must produce exact CycloneDX 1.7 evidence''"

definition validate_foundation_sbom :: "(ustr \<times> json) list \<Rightarrow> unit res" where
  "validate_foundation_sbom sbom =
     ensure (exact_envelope sbom \<and> json_get (u ''version'') sbom = Some (JInt CYCLONEDX_DOCUMENT_VERSION))
       foundation_profile_error"

text \<open>A value of type \<open>json\<close> has no foreign types, no cycles and no keys that are not texts; what
  is left of the strict check is that floats are finite.\<close>

fun strict_value :: "json \<Rightarrow> bool" where
  "strict_value (JFloat f) = (case f of None \<Rightarrow> False | Some t \<Rightarrow> t \<noteq> u ''nan'')"
| "strict_value (JList xs) = list_all strict_value xs"
| "strict_value (JObject members) = list_all (\<lambda>(_, v). strict_value v) members"
| "strict_value j = True"

definition canonical_document :: "(ustr \<times> json) list \<Rightarrow> ustr res" where
  "canonical_document sbom =
     (if \<not> strict_value (JObject sbom) then Inl strict_json_error
      else case canonical_text (JObject sbom) of Inl _ \<Rightarrow> Inl strict_json_error | Inr t \<Rightarrow> Inr t)"

definition canonical_document_digest :: "release_lib \<Rightarrow> (ustr \<times> json) list \<Rightarrow> ustr res" where
  "canonical_document_digest L sbom =
     ebind (canonical_document sbom) (\<lambda>t.
     ebind (of_option strict_json_error (encode_ascii t)) (\<lambda>b. Inr (sha256_hex (rl_env L) b)))"

definition serial_number :: "release_lib \<Rightarrow> (ustr \<times> json) list \<Rightarrow> ustr res" where
  "serial_number L sbom =
     ebind (canonical_document_digest L sbom) (\<lambda>digest.
     ebind (of_option UnicodeEncodeError (encode_ascii (DOCUMENT_IDENTITY_URL_PREFIX @ digest))) (\<lambda>identity_url.
     Inr (u ''urn:uuid:'' @ uuid_text (uuid_of_digest (rl_sha1 L (NAMESPACE_URL @ identity_url))))))"

definition attest_document :: "release_lib \<Rightarrow> (ustr \<times> json) list \<Rightarrow> (ustr \<times> json) list res" where
  "attest_document L sbom =
     ebind (validate_foundation_sbom sbom) (\<lambda>_.
     if u ''serialNumber'' \<in> fst ` set sbom
     then Inl (SystemExit ''release SBOM foundation unexpectedly supplied document identity'')
     else ebind (serial_number L sbom) (\<lambda>serial. Inr (sbom @ [(u ''serialNumber'', JString serial)])))"

definition build_attestable_sbom ::
  "release_lib \<Rightarrow> packaging \<Rightarrow> archive_lib \<Rightarrow> path \<Rightarrow> path \<Rightarrow> path \<Rightarrow> (ustr \<times> json) list fsm" where
  "build_attestable_sbom L P A artifact_path manifest_path lock_path =
     fbind (validate_runtime_lock L P manifest_path lock_path) (\<lambda>_.
     fbind (build_sbom L P A artifact_path manifest_path) (\<lambda>sbom.
     flift (attest_document L sbom)))"

definition validate_attestable_sbom :: "release_lib \<Rightarrow> (ustr \<times> json) list \<Rightarrow> unit res" where
  "validate_attestable_sbom L sbom =
     (case json_get (u ''serialNumber'') sbom of
        Some (JString serial) \<Rightarrow>
          (let unsigned_sbom = filter (\<lambda>(k, _). k \<noteq> u ''serialNumber'') sbom in
           ebind (validate_foundation_sbom unsigned_sbom) (\<lambda>_.
           ebind (serial_number L unsigned_sbom) (\<lambda>expected.
           ensure (serial = expected) (SystemExit ''attestable SBOM serialNumber does not match complete document''))))
      | _ \<Rightarrow> Inl (SystemExit ''attestable SBOM requires a deterministic serialNumber''))"

text \<open>The detached copy that \<open>write_attestable_sbom\<close> makes and validates.\<close>

definition detached_sbom :: "release_lib \<Rightarrow> (ustr \<times> json) list \<Rightarrow> json res" where
  "detached_sbom L sbom =
     ebind (canonical_document sbom) (\<lambda>canonical.
     ebind (plain_loads (rl_float L) canonical) (\<lambda>snapshot.
     case snapshot of
       JObject members \<Rightarrow> ebind (validate_attestable_sbom L members) (\<lambda>_. Inr snapshot)
     | _ \<Rightarrow> Inl (OtherException 5)))"

definition write_attestable_sbom :: "release_lib \<Rightarrow> (ustr \<times> json) list \<Rightarrow> path \<Rightarrow> unit fsm" where
  "write_attestable_sbom L sbom output_path =
     fbind (flift (detached_sbom L sbom)) (\<lambda>validated_sbom. write_sbom validated_sbom output_path)"

definition generate_attestable_sbom_main ::
  "release_lib \<Rightarrow> packaging \<Rightarrow> archive_lib \<Rightarrow> path \<Rightarrow> path \<Rightarrow> path \<Rightarrow> path \<Rightarrow> path fsm" where
  "generate_attestable_sbom_main L P A artifact_argument manifest_argument lock_argument output_argument =
     fbind (resolve_path artifact_argument) (\<lambda>artifact_path.
     fbind (resolve_path manifest_argument) (\<lambda>manifest_path.
     fbind (resolve_path lock_argument) (\<lambda>lock_path.
     fbind (build_attestable_sbom L P A artifact_path manifest_path lock_path) (\<lambda>sbom.
     fbind (resolve_path output_argument) (\<lambda>output_path.
     fbind (write_attestable_sbom L sbom output_path) (\<lambda>_.
     fret output_argument))))))"

end
