(* ===== verification/Sbom_Rules.thy ===== *)
theory Sbom_Rules
  imports Sbom_Document Release_Complete
begin

text \<open>
  What the generator and the verifier agree on: the identity the adapter adds is a canonical
  version 5 UUID of the RFC variant, it does not depend on the order of the members, and the
  verifier reads a generated document back and accepts it.
\<close>

section \<open>UUIDs\<close>

lemma nibble_join: "push_bit 4 (drop_bit 4 w) OR (w AND 0xF) = (w :: 128 word)"
proof (rule bit_word_eqI)
  fix n assume "n < LENGTH(128)"
  have "bit (0xF :: 128 word) n \<longleftrightarrow> n < 4"
  proof -
    have "(0xF :: 128 word) = mask 4" by (simp add: mask_eq_exp_minus_1)
    then show ?thesis using \<open>n < LENGTH(128)\<close> by (simp only: bit_mask_iff) simp
  qed
  then show "bit (push_bit 4 (drop_bit 4 w) OR (w AND 0xF)) n = bit w n"
    using \<open>n < LENGTH(128)\<close> by (auto simp: bit_or_iff bit_and_iff bit_push_bit_iff bit_drop_bit_eq)
qed

definition nibble :: "128 word \<Rightarrow> nat \<Rightarrow> int" where
  "nibble v i = uint (drop_bit (4 * (31 - i)) v AND 0xF)"

lemma nibble_range: "0 \<le> nibble v i" "nibble v i < 16"
proof -
  have "nibble v i = uint (drop_bit (4 * (31 - i)) v) AND mask 4"
    by (simp add: nibble_def uint_and mask_eq_exp_minus_1)
  also have "\<dots> = uint (drop_bit (4 * (31 - i)) v) mod 16" by (simp add: take_bit_eq_mod flip: take_bit_eq_mask)
  finally show "0 \<le> nibble v i" "nibble v i < 16" by simp_all
qed

lemma nibbles_join:
  "k \<le> 32 \<Longrightarrow> foldl (\<lambda>acc d. push_bit 4 acc OR of_int d) 0 (map (nibble v) [0..<k]) = drop_bit (4 * (32 - k)) v"
proof (induction k)
  case 0
  then show ?case by (intro bit_word_eqI) (auto simp: bit_drop_bit_eq dest: bit_imp_le_length)
next
  case (Suc k)
  let ?w = "drop_bit (4 * (31 - k)) v"
  have "4 * (32 - k) = 4 * (31 - k) + 4" using Suc.prems by simp
  then have w: "drop_bit (4 * (32 - k)) v = drop_bit 4 ?w" by (simp only: drop_bit_drop_bit add.commute)
  have "foldl (\<lambda>acc d. push_bit 4 acc OR of_int d) 0 (map (nibble v) [0..<Suc k])
      = push_bit 4 (foldl (\<lambda>acc d. push_bit 4 acc OR of_int d) 0 (map (nibble v) [0..<k])) OR of_int (nibble v k)"
    by simp
  also have "\<dots> = push_bit 4 (drop_bit 4 ?w) OR (?w AND 0xF)" using Suc by (simp only: w) (simp add: nibble_def)
  also have "\<dots> = ?w" by (rule nibble_join)
  finally show ?case by simp
qed

lemma those_map_Some: "(\<And>x. x \<in> set xs \<Longrightarrow> f x = Some (g x)) \<Longrightarrow> those (map f xs) = Some (map g xs)"
  by (induction xs) simp_all

lemma hex_digits_nibbles: "hex_digits v = map (\<lambda>i. hex_digit (nibble v i)) [0..<32]"
  by (simp add: hex_digits_def nibble_def)

lemma hex_digit_no_dash: "0 \<le> n \<Longrightarrow> n < 16 \<Longrightarrow> hex_digit n \<noteq> 45"
  by (simp add: hex_digit_def)

lemma uuid_text_digits: "filter (\<lambda>c. c \<noteq> 45) (uuid_text v) = hex_digits v"
proof -
  let ?h = "hex_digits v"
  have dash: "filter (\<lambda>c. c \<noteq> 45) ?h = ?h"
    by (auto simp: hex_digits_nibbles filter_id_conv hex_digit_no_dash nibble_range)
  then have keep: "filter (\<lambda>c. c \<noteq> 45) (take n (drop m ?h)) = take n (drop m ?h)" 
    "filter (\<lambda>c. c \<noteq> 45) (drop m ?h) = drop m ?h" for n m
    by (auto simp: filter_id_conv dest: in_set_takeD in_set_dropD)
  have parts: "take n (drop m ?h) @ drop (m + n) ?h = drop m ?h" for m n
    by (metis append_take_drop_id drop_drop add.commute)
  have "take 8 ?h @ take 4 (drop 8 ?h) @ take 4 (drop 12 ?h) @ take 4 (drop 16 ?h) @ drop 20 ?h = ?h"
    using parts [of 4 16] parts [of 4 12] parts [of 4 8] by simp
  then show ?thesis using keep(1) [of 8 0] keep(1) [of 4] keep(2)
    by (simp add: uuid_text_def Let_def)
qed

lemma parse_uuid_text: "parse_uuid (uuid_text v) = Some v"
proof -
  have "those (map hex_value (hex_digits v)) = Some (map (nibble v) [0..<32])"
    unfolding hex_digits_nibbles map_map o_def
    by (rule those_map_Some) (simp add: hex_value_digit nibble_range)
  then show ?thesis by (simp add: parse_uuid_def uuid_text_digits Let_def nibbles_join del: upt_Suc)
qed

text \<open>The identity the code computes is of the RFC variant and of version 5.\<close>

lemma bit_single: "bit (push_bit k 1 :: 128 word) n \<longleftrightarrow> n = k \<and> k < 128"
  by (auto simp: bit_push_bit_iff bit_1_iff simp del: push_bit_of_1)

lemma uuid_of_digest_variant: "uuid_rfc_variant (uuid_of_digest d)"
proof -
  let ?v = "uuid_of_digest d"
  have powers: "push_bit 48 0x8000 = (push_bit 63 1 :: 128 word)" "push_bit 48 0x4000 = (push_bit 62 1 :: 128 word)"
    by simp_all
  have "bit (?v AND push_bit 63 1) 63"
    by (simp only: bit_and_iff bit_single) (simp add: uuid_of_digest_def Let_def bit_simps)
  moreover have "\<not> bit ?v 62" by (simp add: uuid_of_digest_def Let_def bit_simps)
  then have "?v AND push_bit 62 1 = 0" by (intro bit_word_eqI) (auto simp: bit_and_iff bit_single simp del: push_bit_of_1)
  ultimately show ?thesis unfolding uuid_rfc_variant_def powers by (metis bit_0_eq bot_apply bot_bool_def)
qed

lemma uuid_of_digest_version: "uuid_version (uuid_of_digest d) = 5"
proof -
  let ?v = "uuid_of_digest d"
  have bits: "bit ?v 76" "\<not> bit ?v 77" "bit ?v 78" "\<not> bit ?v 79"
    by (simp_all add: uuid_of_digest_def Let_def bit_simps)
  have "drop_bit 76 ?v AND 0xF = (5 :: 128 word)"
  proof (rule bit_word_eqI)
    fix n assume n: "n < LENGTH(128)"
    show "bit (drop_bit 76 ?v AND 0xF) n = bit (5 :: 128 word) n"
    proof (cases "n < 4")
      case True
      then have "n = 0 \<or> n = 1 \<or> n = 2 \<or> n = 3" by auto
      then show ?thesis using bits by (auto simp: bit_and_iff bit_drop_bit_eq)
    next
      case False
      have small: "\<not> bit (w :: 128 word) n" if "take_bit 4 w = w" for w
        using False bit_take_bit_iff [of 4 w n] that by simp
      have "\<not> bit (0xF :: 128 word) n" "\<not> bit (5 :: 128 word) n"
        by (rule small, simp)+
      then show ?thesis by (auto simp only: bit_and_iff)
    qed
  qed
  then show ?thesis by (simp add: uuid_version_def)
qed

section \<open>The plain reader extends the strict one\<close>

lemma put_members_distinct: "distinct (map fst (members @ kvs)) \<Longrightarrow> foldl put_member members kvs = members @ kvs"
proof (induction kvs arbitrary: members)
  case (Cons kv kvs)
  then have "put_member members kv = members @ [kv]" by (auto simp: put_member_def)
  with Cons show ?case by simp
qed simp

lemma no_whole: "take_sign s = (sign, s1) \<Longrightarrow> take_whole s1 = ([], s2) \<Longrightarrow> read_number flt s = None"
  by (simp add: read_number_def split: prod.split)

lemma no_number:
  assumes "starts_with (u ''NaN'') s \<or> starts_with (u ''Infinity'') s \<or> starts_with (u ''-Infinity'') s"
  shows "read_number flt s = None"
proof -
  obtain c e r where s: "s = c # e # r" and
    c: "c = 78 \<or> c = 73 \<or> c = 45 \<and> e = 73"
    using assms by (cases s; cases "tl s") (auto simp: starts_with_def u_def)
  have "take_whole (x # t) = ([], x # t)" if "x = 78 \<or> x = 73" for x t
    using that by (auto simp: take_whole_def is_dec_c_def)
  with c show ?thesis unfolding s
    by (elim disjE conjE) (rule no_whole, simp add: take_sign_def, simp)+
qed

lemma read_scalar_strict:
  "read_number flt s = Some x \<Longrightarrow> \<not> starts_with (u ''null'') s \<Longrightarrow> \<not> starts_with (u ''true'') s
    \<Longrightarrow> \<not> starts_with (u ''false'') s \<Longrightarrow> read_scalar flt s = Inr x"
  using no_number [of s flt] by (auto simp: read_scalar_def read_constant_def)

lemma read_scalar_named:
  "starts_with (u ''null'') s \<Longrightarrow> read_scalar flt s = Inr (JNull, drop 4 s)"
  "starts_with (u ''true'') s \<Longrightarrow> \<not> starts_with (u ''null'') s \<Longrightarrow> read_scalar flt s = Inr (JBool True, drop 4 s)"
  "starts_with (u ''false'') s \<Longrightarrow> \<not> starts_with (u ''null'') s \<Longrightarrow> \<not> starts_with (u ''true'') s
    \<Longrightarrow> read_scalar flt s = Inr (JBool False, drop 5 s)"
  by (simp_all add: read_scalar_def read_constant_def)

lemma read_any_strict:
  "read_value flt n s = Some (j, r) \<Longrightarrow> read_any flt n s = Inr (j, r)"
  "read_elements flt n s = Some (js, r) \<Longrightarrow> read_any_elements flt n s = Inr (js, r)"
  "read_members flt n s = Some (kvs, r) \<Longrightarrow> read_any_members flt n s = Inr (kvs, r)"
proof (induction n arbitrary: s j r js kvs)
  case (Suc n)
  { case 1
    then show ?case
      by (auto simp: Let_def Suc.IH read_scalar_strict read_scalar_named put_members_distinct
            split: if_splits option.splits prod.splits)
  next
    case 2
    then show ?case by (auto simp: Let_def Suc.IH split: if_splits option.splits prod.splits)
  next
    case 3
    then show ?case by (auto simp: Let_def Suc.IH split: if_splits option.splits prod.splits)
  }
qed simp_all

lemma plain_loads_strict: "loads flt s = Some j \<Longrightarrow> plain_loads flt s = Inr j"
  by (auto simp: loads_def plain_loads_def read_any_strict simp del: read_value.simps read_any.simps
        split: if_splits option.splits)

section \<open>Order of the members\<close>

definition sorted_members :: "(ustr \<times> json) list \<Rightarrow> (ustr \<times> json) list" where
  "sorted_members members = sort_key fst (map (\<lambda>(k, v). (k, sorted_keys v)) members)"

lemma sorted_object: "sorted_keys (JObject members) = JObject (sorted_members members)"
  by (simp add: sorted_members_def)

lemma sorted_single: "sorted_members [(k, JObject m)] = [(k, JObject (sorted_members m))]"
  by (simp add: sorted_members_def)

lemma json_get_sorted:
  assumes "distinct (map fst members)"
  shows "json_get k (sorted_members members) = map_option sorted_keys (json_get k members)"
proof -
  let ?m = "map (\<lambda>(k, v). (k, sorted_keys v)) members"
  have d: "distinct (map fst ?m)" using assms by (simp only: keys_of_map)
  then have "map_of (sort_key fst ?m) = map_of ?m"
    by (subst map_of_inject_set) (simp_all only: distinct_sorted_keys set_sort)
  moreover have "map_of ?m k = map_option sorted_keys (map_of members k)"
    by (induction members) auto
  ultimately show ?thesis by (simp add: json_get_def sorted_members_def)
qed

lemma without_sorted:
  "filter (\<lambda>(k, _). k \<noteq> key) (sorted_members members) = sorted_members (filter (\<lambda>(k, _). k \<noteq> key) members)"
proof -
  have "filter (\<lambda>(k, _). k \<noteq> key) (map (\<lambda>(k, v). (k, sorted_keys v)) members)
      = map (\<lambda>(k, v). (k, sorted_keys v)) (filter (\<lambda>(k, _). k \<noteq> key) members)"
    by (induction members) auto
  then show ?thesis by (simp add: sorted_members_def filter_sort)
qed

lemma dumps_sorted: "json_ok (JObject m) \<Longrightarrow> dumps style (JObject (sorted_members m)) = dumps style (JObject m)"
  using sorted_keys_idem [of "JObject m"] by (simp only: dumps_def sorted_object [symmetric])

lemma json_ok_strict: "json_ok j \<Longrightarrow> strict_value j"
proof (induction j)
  case (JObject members)
  then show ?case by (fastforce simp: list_all_iff)
qed (simp_all add: list_all_iff)

lemma canonical_document_sorted:
  "json_ok (JObject m) \<Longrightarrow> canonical_document (sorted_members m) = canonical_document m"
  using json_ok_strict [of "JObject m"] json_ok_strict [OF sorted_keys_ok [of "JObject m"]]
  by (simp only: canonical_document_def canonical_text_def dumps_sorted sorted_object not_True_eq_False if_False)

lemma serial_number_sorted: "json_ok (JObject m) \<Longrightarrow> serial_number L (sorted_members m) = serial_number L m"
  by (simp only: serial_number_def canonical_document_digest_def canonical_document_sorted)

lemma canonical_document_ok:
  assumes "json_ok (JObject m)"
  obtains t where "canonical_document m = Inr t" "canonical_text (JObject m) = Inr t" "py_isascii t"
    "loads flt t = Some (JObject (sorted_members m))"
proof -
  from loads_dumps [OF assms style_ok_compact, of flt] obtain t where
    t: "dumps compact_style (JObject m) = Inr t" "loads flt t = Some (sorted_keys (JObject m))" "py_isascii t" by blast
  then have "canonical_document m = Inr t"
    using json_ok_strict [OF assms] by (simp only: canonical_document_def canonical_text_def) simp
  with t that show thesis by (simp only: canonical_text_def sorted_object)
qed

section \<open>The two identities agree\<close>

lemma json_ok_filter: "json_ok (JObject m) \<Longrightarrow> json_ok (JObject (filter P m))"
  by (auto simp: list_all_iff intro: distinct_map_filter)

lemma serial_number_expected:
  assumes "json_ok (JObject m)"
  shows "expected_serial_number L m = serial_number L (filter (\<lambda>(k, _). k \<noteq> u ''serialNumber'') m)"
proof -
  from canonical_document_ok [OF json_ok_filter [OF assms]] obtain t where
    "canonical_document (filter (\<lambda>(k, _). k \<noteq> u ''serialNumber'') m) = Inr t"
    "canonical_text (JObject (filter (\<lambda>(k, _). k \<noteq> u ''serialNumber'') m)) = Inr t" "py_isascii t" by blast
  moreover from this obtain b where "encode_ascii t = Some b"
    by (auto simp: encode_ascii_def py_isascii_def is_ascii_c_def)
  ultimately show ?thesis
    by (simp add: expected_serial_number_def canonical_pre_serial_digest_def serial_number_def
          canonical_document_digest_def of_option_def)
qed

lemma serial_number_urn:
  "serial_number L m = Inr s \<Longrightarrow> \<exists>d. s = u ''urn:uuid:'' @ uuid_text (uuid_of_digest d)"
  by (auto simp: serial_number_def ebind_eq_Inr)

lemma verify_serial_numberI:
  assumes "json_get (u ''serialNumber'') m = Some (JString s)" "expected_serial_number L m = Inr s"
    "s = u ''urn:uuid:'' @ uuid_text (uuid_of_digest d)"
  shows "verify_serial_number L m = Inr s"
proof -
  have "length (u ''urn:uuid:'') = 9" by (simp add: u_def)
  then have "starts_with (u ''urn:uuid:'') s" "drop 9 s = uuid_text (uuid_of_digest d)"
    by (simp_all add: assms(3) starts_with_def)
  then show ?thesis using assms
    by (simp add: verify_serial_number_def parse_uuid_text uuid_of_digest_variant uuid_of_digest_version)
qed

section \<open>The shape of a generated document\<close>

definition root_members :: "package_identity \<Rightarrow> ustr \<Rightarrow> ustr \<Rightarrow> (ustr \<times> json) list" where
  "root_members identity digest filename =
     (case root_component_json identity digest filename of JObject m \<Rightarrow> m | _ \<Rightarrow> [])"

definition document_members :: "package_identity \<Rightarrow> ustr \<Rightarrow> ustr \<Rightarrow> json \<Rightarrow> json \<Rightarrow> (ustr \<times> json) list" where
  "document_members identity digest filename components dependencies =
     [(u ''$schema'', JString CYCLONEDX_SCHEMA), (u ''bomFormat'', JString CYCLONEDX_FORMAT),
      (u ''specVersion'', JString CYCLONEDX_SPEC_VERSION), (u ''version'', JInt 1),
      (u ''metadata'', JObject [(u ''component'', JObject (root_members identity digest filename))]),
      (u ''components'', components), (u ''dependencies'', dependencies)]"

lemma sbom_document_shape:
  assumes "sbom_document E P manifest identity digest filename = Inr document"
  obtains cs ds where "document = document_members identity digest filename cs ds"
  using assms that
  by (cases manifest)
    (auto simp: sbom_document_def ebind_eq_Inr Let_def document_members_def root_members_def root_component_json_def split: if_splits)

lemma document_get:
  "json_get (u ''$schema'') (document_members i d f cs ds) = Some (JString CYCLONEDX_SCHEMA)"
  "json_get (u ''bomFormat'') (document_members i d f cs ds) = Some (JString CYCLONEDX_FORMAT)"
  "json_get (u ''specVersion'') (document_members i d f cs ds) = Some (JString CYCLONEDX_SPEC_VERSION)"
  "json_get (u ''version'') (document_members i d f cs ds) = Some (JInt 1)"
  "json_get (u ''metadata'') (document_members i d f cs ds)
    = Some (JObject [(u ''component'', JObject (root_members i d f))])"
  "json_get (u ''serialNumber'') (document_members i d f cs ds) = None"
  by (simp_all add: json_get_def document_members_def u_def)

lemma root_get:
  "json_get (u ''bom-ref'') (root_members i d f) = Some (JString (u ''urn:egressweave:artifact:sha256:'' @ d))"
  "json_get (u ''name'') (root_members i d f) = Some (JString (pi_name i))"
  "json_get (u ''version'') (root_members i d f) = Some (JString (pi_version i))"
  "json_get (u ''purl'') (root_members i d f) = Some (JString (package_url (pi_name i) (pi_version i)))"
  "json_get (u ''hashes'') (root_members i d f) = Some (sha256_hashes d)"
  "json_get (u ''properties'') (root_members i d f) = Some (JList
        [name_value ''egressweave:release:artifact-filename'' f,
         name_value ''egressweave:release:dependency-scope'' (u ''supported-python-runtime-union''),
         name_value ''egressweave:release:generator-version'' SBOM_GENERATOR_VERSION])"
  "distinct (map fst (root_members i d f))"
  by (simp_all add: json_get_def root_members_def root_component_json_def root_reference_def u_def)

lemma sorted_name_value: "sorted_keys (name_value n v) = name_value n v"
  by (simp add: name_value_def u_def)

lemma verify_generated_component:
  assumes "pi_name i = DISTRIBUTION_NAME"
  shows "verify_component (sorted_members (root_members i d f)) f d (pi_version i) = Inr ()"
proof -
  have "filename_values (map sorted_keys
      [name_value ''egressweave:release:artifact-filename'' f,
       name_value ''egressweave:release:dependency-scope'' (u ''supported-python-runtime-union''),
       name_value ''egressweave:release:generator-version'' SBOM_GENERATOR_VERSION]) = [Some (JString f)]"
    by (simp add: sorted_name_value del: sorted_keys.simps)
      (simp add: filename_values_def map_filter_def name_value_def json_get_def u_def)
  moreover have "sorted_keys (sorted_keys (sha256_hashes d))
      = JList [JObject [(u ''alg'', JString (u ''SHA-256'')), (u ''content'', JString d)]]"
    by (simp add: sha256_hashes_def u_def)
  ultimately show ?thesis
    by (simp add: verify_component_def json_get_sorted root_get assms package_url_def)
qed

lemma verify_generated_document:
  assumes ok: "json_ok (JObject sbom)"
    and sbom: "sbom = document_members i d f cs ds @ [(u ''serialNumber'', JString s)]"
    and s: "serial_number L (document_members i d f cs ds) = Inr s"
    and name: "pi_name i = DISTRIBUTION_NAME"
  shows "verify_document L (sorted_members sbom) f d (pi_version i) = Inr s"
    and "validate_attestable_sbom L (sorted_members sbom) = Inr ()"
proof -
  let ?doc = "document_members i d f cs ds"
  have keys: "distinct (map fst sbom)" using ok by (simp only: json_ok.simps)
  have doc_ok: "json_ok (JObject ?doc)" using ok by (simp add: sbom)
  have sorted_ok: "json_ok (JObject (sorted_members sbom))" using sorted_keys_ok [OF ok] by (simp only: sorted_object)
  have doc_get: "json_get k sbom = (case json_get k ?doc of None \<Rightarrow> map_of [(u ''serialNumber'', JString s)] k | Some v \<Rightarrow> Some v)"
    for k by (simp add: sbom json_get_def map_add_def split: option.split)
  have "filter (\<lambda>(k, _). k \<noteq> u ''serialNumber'') sbom = ?doc"
    by (simp add: sbom document_members_def u_def)
  then have rest: "filter (\<lambda>(k, _). k \<noteq> u ''serialNumber'') (sorted_members sbom) = sorted_members ?doc"
    by (simp add: without_sorted)
  have serial: "json_get (u ''serialNumber'') (sorted_members sbom) = Some (JString s)"
    by (simp add: json_get_sorted keys doc_get document_get)
  have expected: "serial_number L (sorted_members ?doc) = Inr s" using s by (simp only: serial_number_sorted [OF doc_ok])
  obtain x where "s = u ''urn:uuid:'' @ uuid_text (uuid_of_digest x)" using serial_number_urn [OF s] by blast
  moreover have "expected_serial_number L (sorted_members sbom) = Inr s"
    by (simp only: serial_number_expected [OF sorted_ok] rest expected)
  ultimately have "verify_serial_number L (sorted_members sbom) = Inr s"
    using serial by (intro verify_serial_numberI)
  moreover have "exact_envelope (sorted_members sbom)" "json_get (u ''version'') (sorted_members sbom) = Some (JInt 1)"
    by (simp_all add: exact_envelope_def json_get_sorted keys doc_get document_get equals_one_def)
  moreover have "json_get (u ''metadata'') (sorted_members sbom)
      = Some (JObject [(u ''component'', JObject (sorted_members (root_members i d f)))])"
    by (simp add: json_get_sorted keys doc_get document_get sorted_object sorted_single del: sorted_keys.simps)
  ultimately show "verify_document L (sorted_members sbom) f d (pi_version i) = Inr s"
    by (simp add: verify_document_def CYCLONEDX_DOCUMENT_VERSION_def require_mapping_def json_get_def
          verify_generated_component name)
  have doc_keys: "distinct (map fst ?doc)" using doc_ok by (simp only: json_ok.simps)
  have "validate_foundation_sbom (sorted_members ?doc) = Inr ()"
    by (simp add: validate_foundation_sbom_def exact_envelope_def json_get_sorted doc_keys document_get equals_one_def
          CYCLONEDX_DOCUMENT_VERSION_def ensure_def)
  then show "validate_attestable_sbom L (sorted_members sbom) = Inr ()"
    by (simp add: validate_attestable_sbom_def serial rest expected ensure_def)
qed

lemma write_attestable_sbom_run:
  assumes ok: "json_ok (JObject sbom)" and valid: "validate_attestable_sbom L (sorted_members sbom) = Inr ()"
    and works: "fv_mkdir (w (clock s)) (parent out)" "\<not> fv_write_fails (w (Suc (clock s))) out"
  obtains b where "write_attestable_sbom L sbom out w s = (Inr (), \<lparr>clock = clock s + 2, written = written s @ [(out, b)]\<rparr>)"
    "strict_loads L b = Some (JObject (sorted_members sbom))"
proof -
  from canonical_document_ok [OF ok, where flt = "rl_float L"] obtain t where t: "canonical_document sbom = Inr t"
    "loads (rl_float L) t = Some (JObject (sorted_members sbom))" by blast
  from loads_dumps_space [OF ok style_ok_indented, of "rl_float L"] obtain t' where t':
    "dumps indented_style (JObject sbom) = Inr t'" "py_isascii t'"
    "\<forall>sp. list_all is_json_space sp \<longrightarrow> loads (rl_float L) (t' @ sp) = Some (sorted_keys (JObject sbom))" by blast
  obtain b where b: "encode_ascii (t' @ [10]) = Some b"
    using t'(2) by (auto simp: encode_ascii_def py_isascii_def is_ascii_c_def)
  have "dumps indented_style (JObject (sorted_members sbom)) = Inr t'" using t'(1) dumps_sorted [OF ok] by (simp only:)
  moreover have "detached_sbom L sbom = Inr (JObject (sorted_members sbom))"
    by (simp add: detached_sbom_def t plain_loads_strict [OF t(2)] valid)
  ultimately have "write_attestable_sbom L sbom out w s = (Inr (), \<lparr>clock = clock s + 2, written = written s @ [(out, b)]\<rparr>)"
    using works by (simp add: write_attestable_sbom_def write_sbom_def fbind_def flift_def observe_def fwrite_def fret_def
        b of_option_def)
  moreover have "strict_loads L b = Some (JObject (sorted_members sbom))"
    using t'(3) [rule_format, of "[10]"]
    by (simp add: strict_loads_def decode_utf8_ascii [OF b] is_json_space_def sorted_object del: sorted_keys.simps)
  ultimately show thesis by (rule that)
qed

text \<open>C37: the two tools agree. A document that the generator builds for an artifact of the package and
  the adapter signs with its content-bound serial number passes the adapter's own validation and is
  written once, where the file system lets it; the bytes written read back, strictly, as a document
  that the release verifier accepts for exactly this file name, digest and version, with this
  serial number.\<close>

theorem generated_sbom_verifies:
  assumes "sbom_document (rl_env L) P manifest identity digest filename = Inr document"
    and "attest_document L document = Inr sbom" and "json_ok (JObject sbom)" and "pi_name identity = DISTRIBUTION_NAME"
    and "fv_mkdir (w (clock s)) (parent out)" and "\<not> fv_write_fails (w (Suc (clock s))) out"
  shows "\<exists>b members serial. write_attestable_sbom L sbom out w s
      = (Inr (), \<lparr>clock = clock s + 2, written = written s @ [(out, b)]\<rparr>)
    \<and> strict_loads L b = Some (JObject members)
    \<and> verify_document L members filename digest (pi_version identity) = Inr serial
    \<and> json_get (u ''serialNumber'') sbom = Some (JString serial)"
proof -
  obtain cs ds where document: "document = document_members identity digest filename cs ds"
    using sbom_document_shape [OF assms(1)] .
  obtain x where x: "serial_number L document = Inr x" "sbom = document @ [(u ''serialNumber'', JString x)]"
    using assms(2) by (auto simp: attest_document_def ebind_eq_Inr split: if_splits)
  note verified = verify_generated_document [OF assms(3) x(2) [unfolded document] x(1) [unfolded document] assms(4)]
  obtain b where "write_attestable_sbom L sbom out w s = (Inr (), \<lparr>clock = clock s + 2, written = written s @ [(out, b)]\<rparr>)"
    "strict_loads L b = Some (JObject (sorted_members sbom))"
    using write_attestable_sbom_run [OF assms(3) verified(2) assms(5,6)] .
  moreover have "json_get (u ''serialNumber'') sbom = Some (JString x)"
    using document_get(6) by (simp add: x(2) document json_get_def map_add_def)
  ultimately show ?thesis using verified(1) by blast
qed

end
