(* ===== verification/Archive_Rules.thy ===== *)
theory Archive_Rules
  imports Sbom_Archive
begin

text \<open>
  What the archive checks establish: a wheel that passes ends with a central directory of exactly
  the declared number of complete records, and an expanded source distribution that passes
  consists of complete, checked blocks and zeros, all within the bounds.
\<close>

section \<open>Numbers in byte strings\<close>

lemma le_number_take [simp]: "i + k \<le> n \<Longrightarrow> le_number (take n b) i k = le_number b i k"
  by (simp add: le_number_def drop_take min_def)

lemma le_number_drop [simp]: "le_number (drop p b) i k = le_number b (p + i) k"
  by (simp add: le_number_def add.commute)

lemma take_within: "i + k \<le> n \<Longrightarrow> take k (drop i (take n b)) = take k (drop i b)"
  by (simp add: drop_take min_def)

section \<open>The end record\<close>

lemma find_SomeD: "find P xs = Some x \<Longrightarrow> x \<in> set xs \<and> P x"
  by (induction xs) (auto split: if_splits)

lemma find_zip_eocd_Inr:
  assumes "find_zip_eocd b = Inr (offset, r)"
  shows "take 4 (drop offset b) = ZIP_EOCD_SIGNATURE" "r = take 22 (drop offset b)"
    "offset + 22 + le_number b (offset + 20) 2 = length b"
proof -
  define k where "k = length b - min (length b) (22 + 65535)"
  from assms obtain i where i: "find (\<lambda>i. i + 22 \<le> length (drop k b) \<and> i + 22 + le_number (drop k b) (i + 20) 2 = length (drop k b))
      (filter (\<lambda>i. take 4 (drop i (drop k b)) = ZIP_EOCD_SIGNATURE) (rev [0..<length (drop k b)])) = Some i"
    and r: "offset = k + i" "r = take 22 (drop i (drop k b))"
    unfolding find_zip_eocd_def Let_def k_def [symmetric] by (auto split: option.splits)
  from i have "i \<in> set (filter (\<lambda>i. take 4 (drop i (drop k b)) = ZIP_EOCD_SIGNATURE) (rev [0..<length (drop k b)]))"
    and fit: "i + 22 + le_number (drop k b) (i + 20) 2 = length (drop k b)"
    using find_SomeD [OF i] by blast+
  then show "take 4 (drop offset b) = ZIP_EOCD_SIGNATURE" "r = take 22 (drop offset b)"
    using r by (simp_all add: add.commute)
  have "k \<le> length b" by (simp add: k_def)
  then show "offset + 22 + le_number b (offset + 20) 2 = length b" using fit r(1) by (simp add: algebra_simps)
qed

section \<open>The central directory\<close>

text \<open>A complete record without any ZIP64 form.\<close>

definition plain_record :: "bytes \<Rightarrow> bool" where
  "plain_record r \<longleftrightarrow> length r = 46 + le_number r 28 2 + le_number r 30 2 + le_number r 32 2
     \<and> take 4 r = ZIP_CENTRAL_SIGNATURE \<and> le_number r 34 2 = 0 \<and> le_number r 20 4 \<noteq> 0xFFFFFFFF
     \<and> le_number r 24 4 \<noteq> 0xFFFFFFFF \<and> le_number r 42 4 \<noteq> 0xFFFFFFFF
     \<and> zip_extra_uses_zip64 (take (le_number r 30 2) (drop (46 + le_number r 28 2) r)) = Inr False"

lemma read_exact_Inr: "read_exact b p n = Inr x \<longleftrightarrow> x = take n (drop p b) \<and> length (take n (drop p b)) = n"
  by (auto simp: read_exact_def)

lemma central_record_plain:
  assumes "central_record b p rest = Inr n"
  shows "plain_record (take n (drop p b))" "length (take n (drop p b)) = n"
proof -
  let ?vs = "le_number b (p + 28) 2 + le_number b (p + 30) 2 + le_number b (p + 32) 2"
  from assms have n: "n = 46 + ?vs" and sig: "take 4 (drop p b) = ZIP_CENTRAL_SIGNATURE"
    and nums: "le_number b (p + 34) 2 = 0" "le_number b (p + 20) 4 \<noteq> 0xFFFFFFFF" "le_number b (p + 24) 4 \<noteq> 0xFFFFFFFF"
      "le_number b (p + 42) 4 \<noteq> 0xFFFFFFFF"
    and len: "length (take ?vs (drop (p + 46) b)) = ?vs"
    and extra: "zip_extra_uses_zip64 (take (le_number b (p + 30) 2) (drop (le_number b (p + 28) 2) (take ?vs (drop (p + 46) b))))
      = Inr False"
    by (auto simp: central_record_def Let_def result_simps read_exact_Inr split: if_splits)
  have "?vs \<le> length b - (p + 46)" using len by simp
  moreover have "46 \<le> length b - p" using assms by (auto simp: central_record_def result_simps read_exact_Inr)
  ultimately show "length (take n (drop p b)) = n" using n by simp
  have "drop (46 + le_number b (p + 28) 2) (take n (drop p b)) = drop (le_number b (p + 28) 2) (take ?vs (drop (p + 46) b))"
    unfolding n by (simp add: drop_take ac_simps)
  then show "plain_record (take n (drop p b))"
    using nums sig extra \<open>length (take n (drop p b)) = n\<close> n
    by (simp add: plain_record_def take_within [of 0, simplified] min_def)
qed

lemma central_loop_records:
  "central_loop b offset amount consumed entries = Inr (c, e) \<Longrightarrow> consumed \<le> amount \<Longrightarrow> entries \<le> MAX_ARCHIVE_MEMBERS \<Longrightarrow>
   \<exists>rs. c = amount \<and> concat rs = take (amount - consumed) (drop (offset + consumed) b) \<and> e = entries + length rs
     \<and> e \<le> MAX_ARCHIVE_MEMBERS \<and> list_all plain_record rs"
proof (induction b offset amount consumed entries rule: central_loop.induct)
  case (1 b offset amount consumed entries)
  show ?case
  proof (cases "consumed \<ge> amount")
    case True
    then have "c = consumed" "e = entries" using "1.prems"(1) by (simp_all add: central_loop.simps)
    with True "1.prems" show ?thesis by (intro exI [of _ "[]"]) auto
  next
    case False
    with "1.prems"(1) obtain n where n: "central_record b (offset + consumed) (amount - consumed) = Inr n"
      and few: "\<not> Suc entries > MAX_ARCHIVE_MEMBERS"
      and run: "central_loop b offset amount (consumed + n) (Suc entries) = Inr (c, e)"
      by (subst (asm) central_loop.simps) (auto split: sum.splits if_splits)
    note size = central_record_size [OF n] and plain = central_record_plain [OF n]
    have "consumed + n \<le> amount" "Suc entries \<le> MAX_ARCHIVE_MEMBERS" using size few False by linarith+
    from "1.IH" [OF False n few run this] obtain rs where
      rs: "c = amount" "concat rs = take (amount - (consumed + n)) (drop (offset + (consumed + n)) b)"
        "e = Suc entries + length rs" "e \<le> MAX_ARCHIVE_MEMBERS" "list_all plain_record rs" by blast
    have "take (amount - consumed) (drop (offset + consumed) b)
        = take n (drop (offset + consumed) b) @ take (amount - consumed - n) (drop n (drop (offset + consumed) b))"
      using size by (metis add_diff_inverse_nat linorder_not_less take_add)
    then have "take (amount - consumed) (drop (offset + consumed) b) = concat (take n (drop (offset + consumed) b) # rs)"
      using rs(2) by (simp add: algebra_simps)
    with rs plain(1) show ?thesis by (intro exI [of _ "take n (drop (offset + consumed) b) # rs"]) simp
  qed
qed

text \<open>C39: an accepted wheel is a prefix, a central directory and one end record, nothing else. The
  directory consists of exactly the declared number of complete records, at most ten thousand,
  fills exactly the declared bytes, and has no ZIP64 form in any of its fields.\<close>

theorem wheel_directory_exact:
  assumes "preflight_wheel_members b = Inr ()"
  shows "\<exists>contents records ending. b = contents @ concat records @ ending
    \<and> list_all plain_record records \<and> length records \<le> MAX_ARCHIVE_MEMBERS
    \<and> take 4 ending = ZIP_EOCD_SIGNATURE \<and> length ending = 22 + le_number ending 20 2
    \<and> le_number ending 4 2 = 0 \<and> le_number ending 6 2 = 0
    \<and> le_number ending 8 2 = length records \<and> le_number ending 10 2 = length records
    \<and> le_number ending 12 4 = length (concat records) \<and> le_number ending 16 4 = length contents"
proof -
  from assms obtain eocd r where f: "find_zip_eocd b = Inr (eocd, r)"
    by (auto simp: preflight_wheel_members_def result_simps)
  note found = find_zip_eocd_Inr [OF f]
  let ?ending = "drop eocd b" and ?amount = "le_number b (eocd + 12) 4" and ?offset = "le_number b (eocd + 16) 4"
  from assms f have disks: "le_number b (eocd + 4) 2 = 0" "le_number b (eocd + 6) 2 = 0"
    "le_number b (eocd + 8) 2 = le_number b (eocd + 10) 2" and place: "?offset + ?amount = eocd"
    and few: "le_number b (eocd + 10) 2 \<le> MAX_ARCHIVE_MEMBERS"
    and loop: "central_loop b ?offset ?amount 0 0 = Inr (?amount, le_number b (eocd + 10) 2)"
    by (auto simp: preflight_wheel_members_def result_simps found(2) Let_def split: if_splits)
  from central_loop_records [OF loop] obtain rs where rs: "concat rs = take ?amount (drop ?offset b)"
    "le_number b (eocd + 10) 2 = length rs" "list_all plain_record rs" by auto
  have "eocd \<le> length b" using found(3) by simp
  then have "length (concat rs) = ?amount" unfolding rs(1) using place by simp
  moreover have "b = take ?offset b @ concat rs @ ?ending"
    unfolding rs(1) using place by (metis append_take_drop_id drop_drop add.commute)
  moreover have "length (take ?offset b) = ?offset" using place \<open>eocd \<le> length b\<close> by simp
  moreover have "length ?ending = 22 + le_number b (eocd + 20) 2" using found(3) by simp
  ultimately show ?thesis using rs(2,3) found(1) disks few
    by (intro exI [of _ "take ?offset b"] exI [of _ rs] exI [of _ ?ending]) simp
qed

section \<open>Tar\<close>

datatype tar_block = ZeroBlock | MemberBlock bytes bytes    \<comment> \<open>a header and its padded data\<close>

fun block_bytes :: "tar_block \<Rightarrow> bytes" where
  "block_bytes ZeroBlock = replicate 512 nul"
| "block_bytes (MemberBlock header payload) = header @ payload"

text \<open>A header with a right checksum and an accepted form, followed by exactly its data.\<close>

fun checked_block :: "tar_block \<Rightarrow> bool" where
  "checked_block ZeroBlock = True"
| "checked_block (MemberBlock header payload) =
     (length header = 512 \<and> require_tar_checksum header = Inr ()
      \<and> header ! 156 \<in> insert nul (set ''05xgL'')
      \<and> (case tar_number (take 12 (drop 124 header)) of Inl _ \<Rightarrow> False
         | Inr n \<Rightarrow> length payload = padded n \<and> (header ! 156 \<in> set ''xgL'' \<longrightarrow> n \<le> MAX_TAR_EXTENSION_BYTES)
             \<and> \<not> sparse_payload header payload n))"

definition member_count :: "tar_block list \<Rightarrow> nat" where
  "member_count blocks = length (filter (\<lambda>b. b \<noteq> ZeroBlock) blocks)"

lemma read_expanded_Inr:
  "read_expanded rest n consumed = Inr (x, rest') \<longleftrightarrow>
     consumed + n \<le> MAX_EXPANDED_TAR_BYTES \<and> n \<le> length rest \<and> x = take n rest \<and> rest' = drop n rest"
  by (auto simp: read_expanded_def)

lemma tar_header_Inr:
  assumes "tar_header h members = Inr n"
  shows "require_tar_checksum h = Inr ()" "Suc members \<le> MAX_ARCHIVE_MEMBERS"
    "tar_number (take 12 (drop 124 h)) = Inr n" "h ! 156 \<in> insert nul (set ''05xgL'')"
    "h ! 156 \<in> set ''xgL'' \<Longrightarrow> n \<le> MAX_TAR_EXTENSION_BYTES"
  using assms unfolding tar_header_def Let_def
  by (auto simp: result_simps simp del: list.set split: if_split_asm)

lemma tar_loop_blocks:
  "tar_loop rest consumed members zeros = Inr (rest', consumed', members') \<Longrightarrow>
   consumed \<le> MAX_EXPANDED_TAR_BYTES \<Longrightarrow> members \<le> MAX_ARCHIVE_MEMBERS \<Longrightarrow>
   \<exists>blocks. rest = concat (map block_bytes blocks) @ rest' \<and> consumed' = consumed + length (concat (map block_bytes blocks))
     \<and> members' = members + member_count blocks \<and> consumed' \<le> MAX_EXPANDED_TAR_BYTES \<and> members' \<le> MAX_ARCHIVE_MEMBERS
     \<and> list_all checked_block blocks"
proof (induction rest consumed members zeros rule: tar_loop.induct)
  case (1 rest consumed members zeros)
  show ?case
  proof (cases "zeros \<ge> 2")
    case True
    with "1.prems" show ?thesis by (intro exI [of _ "[]"]) (auto simp: tar_loop.simps member_count_def)
  next
    case False
    with "1.prems"(1) obtain h rest1 where h: "read_expanded rest 512 consumed = Inr (h, rest1)"
      by (subst (asm) tar_loop.simps) (auto split: sum.splits)
    note rd = h [unfolded read_expanded_Inr]
    show ?thesis
    proof (cases "h = replicate 512 nul")
      case zero: True
      have run: "tar_loop rest1 (consumed + 512) members (Suc zeros) = Inr (rest', consumed', members')"
        using "1.prems"(1) False h zero by (subst (asm) tar_loop.simps) simp
      have "consumed + 512 \<le> MAX_EXPANDED_TAR_BYTES" using rd by simp
      from "1.IH"(1) [OF False h refl zero run this "1.prems"(3)] obtain blocks where
        b: "rest1 = concat (map block_bytes blocks) @ rest'" "consumed' = consumed + 512 + length (concat (map block_bytes blocks))"
          "members' = members + member_count blocks" "consumed' \<le> MAX_EXPANDED_TAR_BYTES" "members' \<le> MAX_ARCHIVE_MEMBERS"
          "list_all checked_block blocks" by blast
      have "rest = block_bytes ZeroBlock @ rest1" using rd zero by (metis append_take_drop_id block_bytes.simps(1))
      with b show ?thesis by (intro exI [of _ "ZeroBlock # blocks"]) (simp add: member_count_def)
    next
      case nonzero: False
      with "1.prems"(1) False h obtain n payload rest2 where n: "tar_header h members = Inr n"
        and p: "read_expanded rest1 (padded n) (consumed + 512) = Inr (payload, rest2)"
        and dense: "\<not> sparse_payload h payload n"
        and run: "tar_loop rest2 (consumed + 512 + padded n) (Suc members) 0 = Inr (rest', consumed', members')"
        by (subst (asm) tar_loop.simps) (auto split: sum.splits if_splits)
      note rp = p [unfolded read_expanded_Inr] and hd = tar_header_Inr [OF n]
      have "consumed + 512 + padded n \<le> MAX_EXPANDED_TAR_BYTES" "Suc members \<le> MAX_ARCHIVE_MEMBERS" using rp hd by simp_all
      from "1.IH"(2) [OF False h refl nonzero n p refl dense run this] obtain blocks where
        b: "rest2 = concat (map block_bytes blocks) @ rest'"
          "consumed' = consumed + 512 + padded n + length (concat (map block_bytes blocks))"
          "members' = Suc members + member_count blocks" "consumed' \<le> MAX_EXPANDED_TAR_BYTES" "members' \<le> MAX_ARCHIVE_MEMBERS"
          "list_all checked_block blocks" by blast
      have "rest = h @ rest1" "rest1 = payload @ rest2" using rd rp by (metis append_take_drop_id)+
      then have "rest = block_bytes (MemberBlock h payload) @ rest2" by simp
      moreover have "checked_block (MemberBlock h payload)"
        using rd rp hd dense by (simp only: checked_block.simps sum.case) simp
      moreover have "length (block_bytes (MemberBlock h payload)) = 512 + padded n" using rd rp by simp
      ultimately show ?thesis using b
        by (intro exI [of _ "MemberBlock h payload # blocks"]) (simp add: member_count_def del: block_bytes.simps checked_block.simps)
    qed
  qed
qed

lemma tar_trailing_zeros:
  "tar_trailing rest consumed = Inr () \<Longrightarrow> consumed \<le> MAX_EXPANDED_TAR_BYTES \<Longrightarrow>
     set rest \<subseteq> {nul} \<and> consumed + length rest \<le> MAX_EXPANDED_TAR_BYTES"
proof (induction rest consumed rule: tar_trailing.induct)
  case (1 rest consumed)
  let ?t = "take 1048576 rest"
  show ?case
  proof (cases "?t = []")
    case True
    then show ?thesis using "1.prems" by simp
  next
    case False
    with "1.prems"(1) have small: "\<not> consumed + length ?t > MAX_EXPANDED_TAR_BYTES"
      and zeros: "\<not> list_ex (\<lambda>c. c \<noteq> nul) ?t"
      and run: "tar_trailing (drop 1048576 rest) (consumed + length ?t) = Inr ()"
      by (subst (asm) tar_trailing.simps; auto simp: Let_def split: if_splits)+
    have "consumed + length ?t \<le> MAX_EXPANDED_TAR_BYTES" using small by linarith
    from "1.IH" [OF refl False small zeros run this]
    have ih: "set (drop 1048576 rest) \<subseteq> {nul}" "consumed + length ?t + length (drop 1048576 rest) \<le> MAX_EXPANDED_TAR_BYTES"
      by simp_all
    have "set ?t \<subseteq> {nul}" using zeros by (auto simp: list_ex_iff)
    then have "set (?t @ drop 1048576 rest) \<subseteq> {nul}" using ih(1) by (simp only: set_append Un_subset_iff)
    moreover have "length ?t + length (drop 1048576 rest) = length rest" by (metis append_take_drop_id length_append)
    ultimately show ?thesis using ih(2) by (simp only: append_take_drop_id) simp
  qed
qed

text \<open>An expanded source distribution that is accepted is spooled unchanged, is no longer than
  the bound, and consists of complete blocks and zeros: at most ten thousand members, each with a
  right checksum, an accepted form and its padded data, extension headers within their bound and
  none of them sparse. A failing decompressor is never accepted.\<close>

theorem expanded_tar_checked:
  assumes "preflight_sdist_members (content, fails) = Inr spooled"
  shows "spooled = content \<and> fails = False \<and> length content \<le> MAX_EXPANDED_TAR_BYTES
    \<and> (\<exists>blocks padding. content = concat (map block_bytes blocks) @ padding \<and> set padding \<subseteq> {nul}
         \<and> list_all checked_block blocks \<and> member_count blocks \<le> MAX_ARCHIVE_MEMBERS)"
proof -
  from assms obtain rest consumed members where loop: "tar_loop content 0 0 0 = Inr (rest, consumed, members)"
    and trailing: "tar_trailing rest consumed = Inr ()" and ok: "fails = False" "spooled = content"
    by (auto simp: preflight_sdist_members_def direct_rejection_def preflight_sdist_members_detailed_def result_simps
        split: sum.splits exn.splits if_splits)
  from tar_loop_blocks [OF loop] obtain blocks where b: "content = concat (map block_bytes blocks) @ rest"
    "consumed = length (concat (map block_bytes blocks))" "members = member_count blocks"
    "consumed \<le> MAX_EXPANDED_TAR_BYTES" "members \<le> MAX_ARCHIVE_MEMBERS" "list_all checked_block blocks" by auto
  note zeros = tar_trailing_zeros [OF trailing b(4)]
  then have "length content \<le> MAX_EXPANDED_TAR_BYTES" using b(1,2) by simp
  with zeros b ok show ?thesis by blast
qed

end
