(* ===== verification/Reader_Rules.thy ===== *)
theory Reader_Rules
  imports Sbom_Document Release_Rules
begin

text \<open>
  What the bounded reader of a live artifact guarantees: every read moves the position by exactly
  the bytes it returns, within the bound; a snapshot of a stream that nobody else moves is within
  the bound, and the fuel of the loops is enough.
\<close>

section \<open>One read\<close>

lemma ask_run: "ask h q w s = (Inr (q (fv_stream (w (clock s)) h)), s\<lparr>clock := Suc (clock s)\<rparr>)"
  by (simp add: ask_def observe_def)

lemma answered_Inr: "answered r f w s = (Inr y, s') \<longleftrightarrow> (\<exists>x. r = Inr x \<and> f x w s = (Inr y, s'))"
  by (auto simp: answered_def unsafe_artifact_def fraise_def split: sum.split)

lemma descriptor_Inr:
  "require_live_artifact_descriptor h w s = (Inr n, s') \<Longrightarrow> n \<le> MAX_RELEASE_ARTIFACT_BYTES \<and> s' = s\<lparr>clock := clock s + 2\<rparr>"
  by (auto simp: require_live_artifact_descriptor_def fbind_Inr ask_run answered_Inr unsafe_artifact_def
      too_large_artifact_def fraise_def split: if_splits)

lemma position_Inr:
  "require_artifact_position h w s = (Inr n, s') \<Longrightarrow>
    (\<exists>v. sv_tell (fv_stream (w (clock s)) h) = Inr v \<and> safe_position v = Some n) \<and> s' = s\<lparr>clock := Suc (clock s)\<rparr>"
  by (auto simp: require_artifact_position_def fbind_Inr ask_run answered_Inr unsafe_artifact_def fraise_def
      split: option.splits)

lemma safe_position_range: "safe_position v = Some n \<Longrightarrow> 0 \<le> n \<and> n \<le> MAX_RELEASE_ARTIFACT_BYTES"
  by (auto simp: safe_position_def split: pyval.splits if_splits)

text \<open>The position that the stream reports at a moment.\<close>

definition position_at :: "world \<Rightarrow> handle \<Rightarrow> nat \<Rightarrow> int option" where
  "position_at w h t = (case sv_tell (fv_stream (w t) h) of Inl _ \<Rightarrow> None | Inr v \<Rightarrow> safe_position v)"

lemma live_read_Inr:
  assumes "live_read h amount w s = (Inr b, s')"
  obtains before after where "position_at w h (clock s + 2) = Some before" "position_at w h (clock s + 6) = Some after"
    "after = before + int (length b)" "int (length b) \<le> bounded_amount before amount" "s' = s\<lparr>clock := clock s + 7\<rparr>"
proof -
  from assms obtain n1 s1 where 1: "require_live_artifact_descriptor h w s = (Inr n1, s1)"
    and r1: "fbind (require_artifact_position h) (\<lambda>position_before.
       let bounded = bounded_amount position_before amount in
       fbind (ask h (\<lambda>v. sv_read v bounded)) (\<lambda>r. answered r (\<lambda>payload.
       case as_bytes payload of
         None \<Rightarrow> unsafe_artifact
       | Some b \<Rightarrow>
           if int (length b) > bounded then unsafe_artifact
           else
             fbind (require_live_artifact_descriptor h) (\<lambda>_.
             fbind (require_artifact_position h) (\<lambda>position_after.
             if position_after \<noteq> position_before + int (length b) then unsafe_artifact
             else if int (length b) > MAX_RELEASE_ARTIFACT_BYTES then too_large_artifact
             else fret b))))) w s1 = (Inr b, s')"
    unfolding live_read_def fbind_Inr by blast
  from r1 obtain before s2 where 2: "require_artifact_position h w s1 = (Inr before, s2)"
    and r2: "answered (sv_read (fv_stream (w (clock s2)) h) (bounded_amount before amount)) (\<lambda>payload.
       case as_bytes payload of
         None \<Rightarrow> unsafe_artifact
       | Some b \<Rightarrow>
           if int (length b) > bounded_amount before amount then unsafe_artifact
           else
             fbind (require_live_artifact_descriptor h) (\<lambda>_.
             fbind (require_artifact_position h) (\<lambda>position_after.
             if position_after \<noteq> before + int (length b) then unsafe_artifact
             else if int (length b) > MAX_RELEASE_ARTIFACT_BYTES then too_large_artifact
             else fret b))) w (s2\<lparr>clock := Suc (clock s2)\<rparr>) = (Inr b, s')"
    unfolding fbind_Inr Let_def by (auto simp: ask_run)
  from r2 obtain n3 s3 where 3: "require_live_artifact_descriptor h w (s2\<lparr>clock := Suc (clock s2)\<rparr>) = (Inr n3, s3)"
    and r3: "fbind (require_artifact_position h) (\<lambda>position_after.
             if position_after \<noteq> before + int (length b) then unsafe_artifact
             else if int (length b) > MAX_RELEASE_ARTIFACT_BYTES then too_large_artifact
             else fret b) w s3 = (Inr b, s')" and small: "int (length b) \<le> bounded_amount before amount"
    by (auto simp: answered_Inr fbind_Inr unsafe_artifact_def too_large_artifact_def split: option.splits if_splits)
  from r3 obtain after where 4: "require_artifact_position h w s3 = (Inr after, s')" "after = before + int (length b)"
    by (auto simp: fbind_Inr unsafe_artifact_def too_large_artifact_def split: if_splits)
  note steps = descriptor_Inr [OF 1] position_Inr [OF 2] descriptor_Inr [OF 3] position_Inr [OF 4(1)]
  have "position_at w h (clock s + 2) = Some before" "position_at w h (clock s + 6) = Some after" "s' = s\<lparr>clock := clock s + 7\<rparr>"
    using steps by (auto simp: position_at_def numeral_eq_Suc)
  with 4(2) small that show thesis by blast
qed

text \<open>A read within the bounds never asks for more than is left, one octet more as a tripwire.\<close>

lemma bounded_amount_range:
  "0 \<le> before \<Longrightarrow> before \<le> MAX_RELEASE_ARTIFACT_BYTES \<Longrightarrow> 0 \<le> bounded_amount before amount
    \<and> bounded_amount before amount \<le> MAX_RELEASE_ARTIFACT_BYTES - before + 1"
  by (simp add: bounded_amount_def Let_def)

section \<open>The loops\<close>

text \<open>Between two reads of a loop that begins at a moment nobody else moves the position: what the
  stream reports before a read is what it reported after the one before.\<close>

definition position_kept :: "world \<Rightarrow> handle \<Rightarrow> nat \<Rightarrow> bool" where
  "position_kept w h t \<longleftrightarrow> (\<forall>k. position_at w h (t + 7 * k + 9) = position_at w h (t + 7 * k + 6))"

lemma position_kept_next: "position_kept w h t \<Longrightarrow> position_kept w h (t + 7)"
  unfolding position_kept_def
proof
  fix k assume "\<forall>k. position_at w h (t + 7 * k + 9) = position_at w h (t + 7 * k + 6)"
  from this [rule_format, of "Suc k"]
  show "position_at w h (t + 7 + 7 * k + 9) = position_at w h (t + 7 + 7 * k + 6)" by (simp add: algebra_simps)
qed

lemma position_at_range: "position_at w h t = Some n \<Longrightarrow> 0 \<le> n \<and> n \<le> MAX_RELEASE_ARTIFACT_BYTES"
  by (auto simp: position_at_def safe_position_range split: sum.splits)

lemma snapshot_loop_bounded:
  assumes "snapshot_loop n h copied w s = (Inr b, s')" "position_kept w h (clock s)"
    "position_at w h (clock s + 2) = Some p" "int (length copied) \<le> p"
  shows "int (length b) \<le> MAX_RELEASE_ARTIFACT_BYTES"
  using assms
proof (induction n arbitrary: copied s p)
  case (Suc n)
  obtain block s1 where r: "live_read h 1048576 w s = (Inr block, s1)"
    and run: "(if block = [] then fret copied else snapshot_loop n h (copied @ block)) w s1 = (Inr b, s')"
    using Suc.prems(1) by (auto simp: fbind_Inr)
  from live_read_Inr [OF r] Suc.prems(3) obtain after where after: "position_at w h (clock s + 6) = Some after"
    "after = p + int (length block)" "s1 = s\<lparr>clock := clock s + 7\<rparr>" by auto
  note range = position_at_range [OF after(1)]
  show ?case
  proof (cases "block = []")
    case True
    then show ?thesis using run Suc.prems(4) range after(2) by auto
  next
    case False
    have "position_at w h (clock s + 9) = position_at w h (clock s + 6)"
      using Suc.prems(2) [unfolded position_kept_def, rule_format, of 0] by simp
    then have "position_at w h (clock s1 + 2) = Some after" using after by (simp add: numeral_eq_Suc)
    moreover have "position_kept w h (clock s1)" using position_kept_next [OF Suc.prems(2)] after(3) by simp
    moreover have "int (length (copied @ block)) \<le> after" using Suc.prems(4) after(2) by simp
    ultimately show ?thesis using Suc.IH run False by auto
  qed
qed simp

text \<open>More fuel changes nothing.\<close>

lemma snapshot_loop_fuel:
  assumes "position_kept w h (clock s)" "MAX_RELEASE_ARTIFACT_BYTES - p < int n" "n \<le> m"
    "position_at w h (clock s + 2) = Some p \<or> position_at w h (clock s + 2) = None \<and> 0 < n"
  shows "snapshot_loop m h copied w s = snapshot_loop n h copied w s"
  using assms
proof (induction n arbitrary: m copied s p)
  case 0
  then show ?case using position_at_range [of w h "clock s + 2" p] by auto
next
  case (Suc n)
  obtain m' where m: "m = Suc m'" "n \<le> m'" using Suc.prems(3) by (cases m) auto
  obtain r s1 where r: "live_read h 1048576 w s = (r, s1)" by fastforce
  show ?case
  proof (cases r)
    case (Inl e)
    then show ?thesis by (simp add: m(1) fbind_def r)
  next
    case (Inr block)
    from live_read_Inr [OF r [unfolded Inr]] Suc.prems(4) obtain after where
      after: "position_at w h (clock s + 2) = Some p" "position_at w h (clock s + 6) = Some after"
      "after = p + int (length block)" "s1 = s\<lparr>clock := clock s + 7\<rparr>" by (metis option.distinct(1) option.inject)
    have "snapshot_loop m' h (copied @ block) w s1 = snapshot_loop n h (copied @ block) w s1" if "block \<noteq> []"
    proof (rule Suc.IH)
      show "position_kept w h (clock s1)" using position_kept_next [OF Suc.prems(1)] after(4) by simp
      show "MAX_RELEASE_ARTIFACT_BYTES - after < int n" using Suc.prems(2) after(3) that by (cases block) auto
      have "position_at w h (clock s + 9) = position_at w h (clock s + 6)"
        using Suc.prems(1) [unfolded position_kept_def, rule_format, of 0] by simp
      then show "position_at w h (clock s1 + 2) = Some after \<or> position_at w h (clock s1 + 2) = None \<and> 0 < n"
        using after by (simp add: numeral_eq_Suc)
    qed (rule m(2))
    then show ?thesis by (simp add: m(1) fbind_def r Inr)
  qed
qed

lemma live_hash_loop_fuel:
  assumes "int (length consumed) \<le> MAX_RELEASE_ARTIFACT_BYTES"
    "MAX_RELEASE_ARTIFACT_BYTES < int n + int (length consumed)" "n \<le> m"
  shows "live_hash_loop m h consumed w s = live_hash_loop n h consumed w s"
  using assms
proof (induction n arbitrary: m consumed s)
  case (Suc n)
  obtain m' where m: "m = Suc m'" "n \<le> m'" using Suc.prems(3) by (cases m) auto
  have "live_hash_loop m' h (consumed @ block) w s1 = live_hash_loop n h (consumed @ block) w s1"
    if "block \<noteq> []" "int (length (consumed @ block)) \<le> MAX_RELEASE_ARTIFACT_BYTES" for block s1
    using that Suc.prems(2) m(2) by (intro Suc.IH) (cases block; auto)+
  then show ?case
    by (simp add: m(1) fbind_def ask_run not_less del: length_append split: sum.split option.split)
qed simp

section \<open>The snapshot\<close>

lemma live_seek_Inr: "live_seek h offset w s = (Inr n, s') \<Longrightarrow> s' = s\<lparr>clock := clock s + 6\<rparr>"
  by (auto simp: live_seek_def fbind_Inr ask_run answered_Inr unsafe_artifact_def numeral_eq_Suc split: option.splits if_splits
      dest!: descriptor_Inr position_Inr)

text \<open>C40: the private snapshot of a live artifact is bounded. Whatever the stream answers, a snapshot
  that is taken while nobody else moves its position holds at most the accepted number of bytes,
  its digest is that of these bytes, and no amount of further rounds would change the outcome.\<close>

theorem snapshot_bounded:
  assumes "snapshot_release_artifact E h w s = (Inr (b, digest), s')" and "position_kept w h (clock s + 6)"
  shows "int (length b) \<le> MAX_RELEASE_ARTIFACT_BYTES \<and> digest = sha256_hex E b
    \<and> snapshot_loop (snapshot_rounds + extra) h [] w (s\<lparr>clock := clock s + 6\<rparr>) = (Inr b, s')"
proof -
  let ?s = "s\<lparr>clock := clock s + 6\<rparr>"
  from assms(1) have loop: "snapshot_loop snapshot_rounds h [] w ?s = (Inr b, s')" and digest: "digest = sha256_hex E b"
    by (auto simp: snapshot_release_artifact_def fbind_Inr dest!: live_seek_Inr)
  obtain n where n: "snapshot_rounds = Suc n" by (simp add: snapshot_rounds_def)
  from loop obtain block s1 where "live_read h 1048576 w ?s = (Inr block, s1)" by (auto simp: n fbind_Inr)
  then obtain p where p: "position_at w h (clock ?s + 2) = Some p" by (auto elim: live_read_Inr)
  note range = position_at_range [OF p]
  have "int (length b) \<le> MAX_RELEASE_ARTIFACT_BYTES"
    using snapshot_loop_bounded [OF loop _ p] assms(2) range by simp
  moreover have "snapshot_loop (snapshot_rounds + extra) h [] w ?s = snapshot_loop snapshot_rounds h [] w ?s"
    using range assms(2) p by (intro snapshot_loop_fuel [where p = p]) (auto simp: snapshot_rounds_def)
  ultimately show ?thesis using loop digest by simp
qed

end
