(* ===== verification/Sbom_Example.thy ===== *)
theory Sbom_Example
  imports Sbom_Rules Archive_Rules Reader_Rules Policy_Normalization
begin

text \<open>
  The theorems about the SBOM tools applied: a wheel with one entry, a source distribution with one
  member, and a document with one dependency.
\<close>

section \<open>Archives\<close>

lemma zeros_number: "((*) (256::nat) ^^ n) 0 = 0"
  by (induction n) simp_all

definition example_record :: bytes where
  "example_record = ZIP_CENTRAL_SIGNATURE @ replicate 24 nul @ [CHR 0x01] @ replicate 17 nul @ ''a''"

definition example_ending :: bytes where
  "example_ending = ZIP_EOCD_SIGNATURE @ replicate 4 nul @ [CHR 0x01, nul, CHR 0x01, nul, CHR 0x2F, nul, nul, nul,
     nul, nul, nul, nul, nul, nul]"

definition example_zip :: bytes where "example_zip = example_record @ example_ending"

lemma example_zip_length: "length example_zip = 69" by code_simp

lemma example_zip_end:
  "find (\<lambda>i. i + 22 \<le> 69 \<and> i + 22 + le_number example_zip (i + 20) 2 = 69)
    (filter (\<lambda>i. take 4 (drop i example_zip) = ZIP_EOCD_SIGNATURE) (rev [0..<69])) = Some 47"
  "take 22 (drop 47 example_zip) = example_ending"
  by code_simp+

lemma example_zip_found: "find_zip_eocd example_zip = Inr (47, example_ending)"
proof -
  have "min (length example_zip) (22 + 65535) = 69" by (simp add: example_zip_length)
  then show ?thesis
    using example_zip_end by (simp only: find_zip_eocd_def Let_def diff_self_eq_0 drop_0 example_zip_length) simp
qed

lemma example_ending_text: "example_ending = CHR ''P'' # CHR ''K'' # CHR 0x05 # CHR 0x06 # nul # nul # nul # nul # CHR 0x01 # nul # CHR 0x01 # nul
    # CHR 0x2F # replicate 9 nul"
  by code_simp

lemma example_ending_numbers:
  "le_number example_ending 4 2 = 0" "le_number example_ending 6 2 = 0" "le_number example_ending 8 2 = 1"
  "le_number example_ending 10 2 = 1" "le_number example_ending 12 4 = 47" "le_number example_ending 16 4 = 0"
  by (simp_all add: le_number_def example_ending_text zeros_number)

lemma example_zip_no_locator: "contains ZIP64_EOCD_LOCATOR_SIGNATURE (zip_tail_before example_zip 47 20) = False"
  by code_simp

lemma example_record_text: "take 46 example_record = ''PK'' @ CHR 0x01 # CHR 0x02 # replicate 24 nul @ CHR 0x01 # replicate 17 nul"
  by code_simp

lemma example_record_parts:
  "take 46 example_zip = take 46 example_record" "length (take 46 example_record) = 46"
  "take 4 (take 46 example_record) = ZIP_CENTRAL_SIGNATURE" "length (take 1 (drop 46 example_zip)) = 1"
  by code_simp+

lemma example_record_numbers:
  "le_number (take 46 example_record) 20 4 = 0" "le_number (take 46 example_record) 24 4 = 0"
  "le_number (take 46 example_record) 28 2 = 1" "le_number (take 46 example_record) 30 2 = 0"
  "le_number (take 46 example_record) 32 2 = 0" "le_number (take 46 example_record) 34 2 = 0"
  "le_number (take 46 example_record) 42 4 = 0"
  by (simp_all add: le_number_def example_record_text zeros_number)

lemma example_zip_record: "central_record example_zip 0 47 = Inr 47"
  using example_record_parts example_record_numbers
  by (simp add: central_record_def read_exact_def zip_extra_uses_zip64.simps)

lemma example_wheel_ok: "preflight_wheel_members example_zip = Inr ()"
proof -
  have "central_loop example_zip 0 47 0 0 = Inr (47, 1)"
    by (simp add: central_loop.simps example_zip_record MAX_ARCHIVE_MEMBERS_def)
  then show ?thesis
    by (simp add: preflight_wheel_members_def example_zip_found example_ending_numbers example_zip_no_locator MAX_ARCHIVE_MEMBERS_def)
qed

theorem wheel_directory_exact_witness:
  "\<exists>contents records ending. example_zip = contents @ concat records @ ending \<and> list_all plain_record records"
  using wheel_directory_exact [OF example_wheel_ok] by blast

definition example_header :: bytes where
  "example_header = ''a'' @ replicate 147 nul @ ''0000621'' @ [nul] @ ''0'' @ replicate 355 nul"

lemma example_header_length: "length example_header = 512" by code_simp

lemma example_header_checksum: "require_tar_checksum example_header = Inr ()"
  by code_simp

lemma example_header_facts:
  "tar_number (take 12 (drop 124 example_header)) = Inr 0" "example_header ! 156 = CHR ''0''"
  "example_header \<noteq> replicate 512 nul"
  by code_simp+

lemma example_header_ok: "tar_header example_header 0 = Inr 0"
  by (simp add: tar_header_def example_header_checksum example_header_facts MAX_ARCHIVE_MEMBERS_def)

lemma example_sdist_ok:
  "preflight_sdist_members (example_header @ replicate 1024 nul, False) = Inr (example_header @ replicate 1024 nul)"
proof -
  have "tar_loop (example_header @ replicate 1024 nul) 0 0 0 = Inr ([], 1536, 1)"
    by (simp add: tar_loop.simps read_expanded_def example_header_length example_header_ok example_header_facts
        MAX_EXPANDED_TAR_BYTES_def padded_def sparse_payload_def)
  then show ?thesis
    by (simp add: preflight_sdist_members_def direct_rejection_def preflight_sdist_members_detailed_def tar_trailing.simps)
qed

theorem expanded_tar_checked_witness:
  "\<exists>blocks padding. example_header @ replicate 1024 nul = concat (map block_bytes blocks) @ padding
    \<and> list_all checked_block blocks"
  using expanded_tar_checked [OF example_sdist_ok] by blast

section \<open>A document\<close>

definition sbom_lib :: release_lib where
  "sbom_lib = \<lparr>rl_env = ascii_env\<lparr>sha256_hex := (\<lambda>b. replicate 64 48)\<rparr>, rl_sha1 = (\<lambda>b. replicate 20 nul), rl_float = (\<lambda>s. None)\<rparr>"

definition plain_packaging :: packaging where
  "plain_packaging = \<lparr>pk_requirement = (\<lambda>s. Some \<lparr>rq_name = s, rq_text = s, rq_url = False, rq_extras = False,
     rq_specifiers = [], rq_marker = None\<rparr>), pk_marker = Some\<rparr>"

definition example_manifest :: "root_package \<times> component list" where
  "example_manifest =
     (\<lparr>rt_name = DISTRIBUTION_NAME, rt_license = u ''Apache-2.0'', rt_depends_on = [u ''httpcore''],
       rt_requires_dist = [u ''httpcore'']\<rparr>,
      [\<lparr>co_name = u ''httpcore'', co_version = u ''1.0'', co_license = u ''BSD-3-Clause'', co_sha256 = replicate 64 48,
        co_artifact_filename = u ''httpcore.whl'', co_purl = package_url (u ''httpcore'') (u ''1.0''), co_depends_on = [],
        co_marker = None\<rparr>])"

definition example_identity :: package_identity where
  "example_identity = \<lparr>pi_name = DISTRIBUTION_NAME, pi_version = u ''1.0.0'', pi_license = u ''Apache-2.0'',
     pi_requirements = [u ''httpcore'']\<rparr>"

definition built_document :: "(ustr \<times> json) list" where
  "built_document = document_members example_identity (replicate 64 48) (u ''egressweave.whl'')
     (JList (map component_json (snd example_manifest)))
     (JList [JObject [(u ''ref'', JString (root_reference (replicate 64 48))),
               (u ''dependsOn'', JList [JString (package_url (u ''httpcore'') (u ''1.0''))])],
             JObject [(u ''ref'', JString (package_url (u ''httpcore'') (u ''1.0''))), (u ''dependsOn'', JList [])]])"

definition signed_document :: "(ustr \<times> json) list" where
  "signed_document = built_document @ [(u ''serialNumber'', JString (u ''urn:uuid:00000000-0000-5000-8000-000000000000''))]"

lemma document_built:
  "sbom_document (rl_env sbom_lib) plain_packaging example_manifest example_identity (replicate 64 48) (u ''egressweave.whl'')
   = Inr built_document"
  by code_simp

lemma document_signed: "attest_document sbom_lib built_document = Inr signed_document"
  by code_simp

lemma document_texts: "json_ok (JObject signed_document)"
  by code_simp

definition open_view :: file_view where
  "open_view = \<lparr>fv_open = (\<lambda>_. None), fv_lstat = (\<lambda>_. None), fv_stat = (\<lambda>_. None), fv_read = (\<lambda>_. None),
     fv_stream = (\<lambda>_. \<lparr>sv_fileno = Inr (VInt 3), sv_fstat = Inl (OSError []), sv_tell = Inr (VInt 0), sv_read = (\<lambda>_. Inl (OSError [])),
       sv_seek = (\<lambda>_. Inl (OSError [])), sv_bytes = [], sv_fails = False\<rparr>),
     fv_is_dir = (\<lambda>_. True), fv_is_file = (\<lambda>_. False), fv_is_symlink = (\<lambda>_. False), fv_resolve = Some, fv_resolve_lax = Some,
     fv_entries = (\<lambda>_. Some []), fv_mkdir = (\<lambda>_. True), fv_create = (\<lambda>_. CreateFails), fv_temporary = None,
     fv_write_fails = (\<lambda>_. False)\<rparr>"

theorem generated_sbom_verifies_witness:
  "\<exists>b members serial. written (snd (write_attestable_sbom sbom_lib signed_document [u ''o''] (\<lambda>_. open_view)
      \<lparr>clock = 0, written = []\<rparr>)) = [([u ''o''], b)]
    \<and> strict_loads sbom_lib b = Some (JObject members)
    \<and> verify_document sbom_lib members (u ''egressweave.whl'') (replicate 64 48) (u ''1.0.0'') = Inr serial"
proof -
  have "pi_name example_identity = DISTRIBUTION_NAME" "fv_mkdir open_view (parent [u ''o''])" "\<not> fv_write_fails open_view [u ''o'']"
    by (simp_all add: example_identity_def open_view_def)
  from generated_sbom_verifies [OF document_built document_signed document_texts this(1), where w = "\<lambda>_. open_view"
      and s = "\<lparr>clock = 0, written = []\<rparr>" and out = "[u ''o'']"] this
  show ?thesis by (fastforce simp: example_identity_def)
qed

section \<open>A live artifact\<close>

text \<open>A stream of three bytes that are read at the tenth call.\<close>

definition reading_world :: world where
  "reading_world t = open_view\<lparr>fv_stream := (\<lambda>_. \<lparr>sv_fileno = Inr (VInt 3),
     sv_fstat = Inr \<lparr>st_kind = Regular, st_identity = (0, 0), st_size = 3, st_mode = 384, st_nlink = 1\<rparr>,
     sv_tell = Inr (VInt (if t < 10 then 0 else 3)), sv_read = (\<lambda>_. Inr (VBytes (if t < 10 then ''abc'' else []))),
     sv_seek = (\<lambda>_. Inr (VInt 0)), sv_bytes = [], sv_fails = False\<rparr>)\<rparr>"

lemma reading_descriptor:
  "require_live_artifact_descriptor h reading_world s = (Inr 3, s\<lparr>clock := clock s + 2\<rparr>)"
  by (simp add: require_live_artifact_descriptor_def fbind_def ask_run answered_def reading_world_def
      MAX_RELEASE_ARTIFACT_BYTES_def)

lemma reading_position:
  "require_artifact_position h reading_world s = (Inr (if clock s < 10 then 0 else 3), s\<lparr>clock := Suc (clock s)\<rparr>)"
  by (simp add: require_artifact_position_def fbind_def ask_run answered_def reading_world_def safe_position_def
      MAX_RELEASE_ARTIFACT_BYTES_def)

lemma reading_stream:
  "sv_read (fv_stream (reading_world t) h) n = Inr (VBytes (if t < 10 then ''abc'' else []))"
  "sv_seek (fv_stream (reading_world t) h) k = Inr (VInt 0)"
  by (simp_all add: reading_world_def)

lemma reading_steps:
  "live_seek h 0 reading_world \<lparr>clock = 0, written = []\<rparr> = (Inr 0, \<lparr>clock = 6, written = []\<rparr>)"
  "live_read h 1048576 reading_world \<lparr>clock = 6, written = []\<rparr> = (Inr ''abc'', \<lparr>clock = 13, written = []\<rparr>)"
  "live_read h 1048576 reading_world \<lparr>clock = 13, written = []\<rparr> = (Inr [], \<lparr>clock = 20, written = []\<rparr>)"
  by (simp_all add: live_seek_def live_read_def fbind_def reading_descriptor reading_position ask_run answered_def
      reading_stream safe_position_def bounded_amount_def MAX_RELEASE_ARTIFACT_BYTES_def)

lemma reading_snapshot:
  "snapshot_release_artifact ascii_env h reading_world \<lparr>clock = 0, written = []\<rparr>
   = (Inr (''abc'', sha256_hex ascii_env ''abc''), \<lparr>clock = 20, written = []\<rparr>)"
proof -
  have n: "snapshot_rounds = Suc (Suc (nat MAX_RELEASE_ARTIFACT_BYTES))" by (simp add: snapshot_rounds_def)
  then have "snapshot_loop snapshot_rounds h [] reading_world \<lparr>clock = 6, written = []\<rparr> = (Inr ''abc'', \<lparr>clock = 20, written = []\<rparr>)"
    unfolding n snapshot_loop.simps by (simp add: fbind_def reading_steps)
  then show ?thesis by (simp add: snapshot_release_artifact_def fbind_def reading_steps)
qed

lemma reading_kept: "position_kept reading_world h 6"
  by (simp add: position_kept_def position_at_def reading_world_def)

theorem snapshot_bounded_witness:
  "int (length ''abc'') \<le> MAX_RELEASE_ARTIFACT_BYTES
    \<and> snapshot_loop (snapshot_rounds + 5) (0, 0) [] reading_world \<lparr>clock = 6, written = []\<rparr>
      = (Inr ''abc'', \<lparr>clock = 20, written = []\<rparr>)"
  using snapshot_bounded [OF reading_snapshot, of "(0, 0)" 5] reading_kept by simp

end
