(* ===== verification/Release_Prepare.thy ===== *)
theory Release_Prepare
  imports Release_Output Sbom_Document
begin

text \<open>
  \<open>scripts/ci/prepare_release_evidence.py\<close>: two built distributions are bound to what was accepted,
  copied into a private directory, described by the generator of \<open>Sbom_Document\<close>, sealed with the
  source identity and the checksums, and handed to the verifier of \<open>Release_Manifest\<close>. The
  removal of the private directory at the end is not recorded.
\<close>

section \<open>Inputs\<close>

definition prepare_source_identity :: "ustr \<Rightarrow> ustr \<Rightarrow> unit fsm" where
  "prepare_source_identity repository source_sha =
     fcheck (repository = EXPECTED_REPOSITORY \<and> is_source_sha source_sha) ''release repository or source identity is invalid''"

definition require_canonical_directory :: "path \<Rightarrow> string \<Rightarrow> path fsm" where
  "require_canonical_directory path label =
     fbind (observe (\<lambda>v. fv_is_dir v path)) (\<lambda>is_dir.
     fbind (fcheck is_dir (label @ '' is missing or unsafe'')) (\<lambda>_.
     fbind (observe (\<lambda>v. fv_is_symlink v path)) (\<lambda>is_symlink.
     fbind (fcheck (\<not> is_symlink) (label @ '' is missing or unsafe'')) (\<lambda>_.
     fbind (observe (\<lambda>v. fv_resolve v path)) (\<lambda>resolved.
       case resolved of
         None \<Rightarrow> fraise (SystemExit (label @ '' is missing or unsafe''))
       | Some resolved_path \<Rightarrow>
           fbind (fcheck (abspath path = resolved_path) (label @ '' must not traverse symbolic links'')) (\<lambda>_.
           fret resolved_path))))))"

definition require_canonical_file :: "path \<Rightarrow> string \<Rightarrow> path fsm" where
  "require_canonical_file path label =
     fbind (observe (\<lambda>v. fv_is_file v path)) (\<lambda>is_file.
     fbind (fcheck is_file (label @ '' is missing or unsafe'')) (\<lambda>_.
     fbind (observe (\<lambda>v. fv_is_symlink v path)) (\<lambda>is_symlink.
     fbind (fcheck (\<not> is_symlink) (label @ '' is missing or unsafe'')) (\<lambda>_.
     fbind (observe (\<lambda>v. fv_resolve v path)) (\<lambda>resolved.
       case resolved of
         None \<Rightarrow> fraise (SystemExit (label @ '' is missing or unsafe''))
       | Some resolved_path \<Rightarrow>
           fbind (observe (\<lambda>v. fv_lstat v path)) (\<lambda>state.
           case state of
             None \<Rightarrow> fraise (SystemExit (label @ '' is missing or unsafe''))
           | Some path_state \<Rightarrow>
               fbind (fcheck (abspath path = resolved_path \<and> st_kind path_state = Regular)
                        (label @ '' is missing or unsafe'')) (\<lambda>_.
               fret resolved_path)))))))"

definition require_handoff_outside_evidence :: "path \<Rightarrow> path \<Rightarrow> path fsm" where
  "require_handoff_outside_evidence handoff_path evidence_root =
     fbind (fcheck (path_name handoff_path \<notin> {[], up}) ''handoff manifest path must name one regular file'') (\<lambda>_.
     fbind (require_canonical_directory (parent handoff_path) ''handoff manifest parent'') (\<lambda>dir.
     let resolved_output = child dir (path_name handoff_path) in
     fbind (fcheck (\<not> inside evidence_root resolved_output)
              ''handoff manifest must remain outside the sealed evidence set'') (\<lambda>_.
     fret resolved_output)))"

fun require_regular_inputs :: "path list \<Rightarrow> unit fsm" where
  "require_regular_inputs [] = fret ()"
| "require_regular_inputs (p # ps) =
     fbind (observe (\<lambda>v. fv_is_symlink v p)) (\<lambda>is_symlink.
     fbind (fcheck (\<not> is_symlink) ''release evidence inputs must be regular direct-child files'') (\<lambda>_.
     fbind (observe (\<lambda>v. fv_is_file v p)) (\<lambda>is_file.
     fbind (fcheck is_file ''release evidence inputs must be regular direct-child files'') (\<lambda>_.
     require_regular_inputs ps))))"

definition choose_distributions :: "path list \<Rightarrow> (path \<times> path) res" where
  "choose_distributions entries =
     (let wheels = filter (\<lambda>p. wheel_version (path_name p) \<noteq> None) entries;
          sdists = filter (\<lambda>p. sdist_version (path_name p) \<noteq> None) entries in
      if length entries \<noteq> 2 \<or> length wheels \<noteq> 1 \<or> length sdists \<noteq> 1
      then Inl (SystemExit ''release evidence inputs require exactly one wheel and source distribution'')
      else if wheel_version (path_name (hd wheels)) \<noteq> sdist_version (path_name (hd sdists))
      then Inl (SystemExit ''release wheel and source distribution versions do not match'')
      else Inr (hd wheels, hd sdists))"

definition select_distributions :: "path \<Rightarrow> (path \<times> path) fsm" where
  "select_distributions evidence_root =
     fbind (observe (\<lambda>v. fv_entries v evidence_root)) (\<lambda>listed.
       case listed of
         None \<Rightarrow> fraise (SystemExit ''release evidence input directory is unreadable'')
       | Some children \<Rightarrow>
           (let entries = sort_key path_name children in
            fbind (require_regular_inputs entries) (\<lambda>_. flift (choose_distributions entries))))"

section \<open>Distributions\<close>

text \<open>Device and inode, and the size.\<close>

type_synonym distribution_identity = "(nat \<times> nat) \<times> int"

definition require_distribution_metadata :: "file_state \<Rightarrow> distribution_identity res" where
  "require_distribution_metadata metadata =
     (if st_kind metadata \<noteq> Regular then Inl (SystemExit ''release distribution is unreadable or unsafe'')
      else if st_size metadata > MAX_ARTIFACT_BYTES then Inl (SystemExit ''release distribution exceeds the safety bound'')
      else Inr (st_identity metadata, st_size metadata))"

definition unsafe_distribution :: "'a fsm" where
  "unsafe_distribution = fraise (SystemExit ''release distribution is unreadable or unsafe'')"

text \<open>The metadata of a path or of an open descriptor; an \<open>OSError\<close> makes the distribution unsafe.\<close>

definition path_metadata :: "path \<Rightarrow> distribution_identity fsm" where
  "path_metadata path =
     fbind (observe (\<lambda>v. fv_lstat v path)) (\<lambda>state.
       case state of None \<Rightarrow> unsafe_distribution | Some st \<Rightarrow> flift (require_distribution_metadata st))"

definition descriptor_state :: "opened_file \<Rightarrow> file_state fsm" where
  "descriptor_state stream =
     fbind (observe (\<lambda>v. sv_fstat (fv_stream v (st_identity (op_state stream))))) (\<lambda>r.
       case r of Inl _ \<Rightarrow> unsafe_distribution | Inr st \<Rightarrow> fret st)"

definition require_distribution_preflight :: "path \<Rightarrow> distribution_identity fsm" where
  "require_distribution_preflight path = path_metadata path"

text \<open>The copy, block by block.\<close>

function copy_blocks :: "path \<Rightarrow> int \<Rightarrow> bytes \<Rightarrow> int fsm" where
  "copy_blocks snapshot_path copied_bytes rest =
     (if rest = [] then fret copied_bytes
      else
       (let block = take BLOCK_BYTES rest; total_bytes = copied_bytes + int (length block) in
        if total_bytes > MAX_ARTIFACT_BYTES then fraise (SystemExit ''release distribution exceeds the safety bound'')
        else
          fbind (fwrite snapshot_path block) (\<lambda>ok.
          if ok then copy_blocks snapshot_path total_bytes (drop BLOCK_BYTES rest) else unsafe_distribution)))"
  by pat_completeness auto
termination
  by (relation "measure (\<lambda>(_, _, rest). length rest)") (auto simp: BLOCK_BYTES_def)

declare copy_blocks.simps [simp del]

text \<open>The permission bits \<open>0o600\<close>.\<close>

definition OWNER_ONLY :: nat where "OWNER_ONLY = 6 * 8 * 8"

definition check_snapshot ::
  "path \<Rightarrow> distribution_identity \<Rightarrow> opened_file \<Rightarrow> opened_file \<Rightarrow> int \<Rightarrow> unit fsm" where
  "check_snapshot path accepted_identity source snapshot copied_bytes =
     fbind (descriptor_state source) (\<lambda>opened_state.
     fbind (flift (require_distribution_metadata opened_state)) (\<lambda>final_opened_identity.
     fbind (path_metadata path) (\<lambda>final_path_identity.
     fbind (descriptor_state snapshot) (\<lambda>snapshot_state.
     if final_opened_identity \<noteq> accepted_identity \<or> final_path_identity \<noteq> accepted_identity
        \<or> st_kind snapshot_state \<noteq> Regular \<or> st_mode snapshot_state \<noteq> OWNER_ONLY \<or> st_size snapshot_state \<noteq> copied_bytes
     then unsafe_distribution else fret ()))))"

text \<open>\<open>fchmod\<close> before and \<open>fsync\<close> after the copy fail like a write.\<close>

definition copy_distribution ::
  "path \<Rightarrow> path \<Rightarrow> distribution_identity \<Rightarrow> opened_file \<Rightarrow> opened_file \<Rightarrow> path fsm" where
  "copy_distribution path snapshot_path accepted_identity source snapshot =
     fbind (observe (\<lambda>v. fv_write_fails v snapshot_path)) (\<lambda>chmod_fails.
     if chmod_fails then unsafe_distribution
     else
       fbind (copy_blocks snapshot_path 0 (op_bytes source)) (\<lambda>copied_bytes.
       if op_fails source then unsafe_distribution
       else
         fbind (observe (\<lambda>v. fv_write_fails v snapshot_path)) (\<lambda>sync_fails.
         if sync_fails then unsafe_distribution
         else
           fbind (check_snapshot path accepted_identity source snapshot copied_bytes) (\<lambda>_.
           fret snapshot_path))))"

definition snapshot_distribution :: "path \<Rightarrow> path \<Rightarrow> distribution_identity \<Rightarrow> path fsm" where
  "snapshot_distribution path snapshot_root accepted_identity =
     (let snapshot_path = snapshot_root @ [path_name path] in
      fbind (observe (\<lambda>v. fv_open v path)) (\<lambda>opened_source.
        case opened_source of
          None \<Rightarrow> unsafe_distribution
        | Some source \<Rightarrow>
            fbind (flift (require_distribution_metadata (op_state source))) (\<lambda>opened_identity.
            fbind (path_metadata path) (\<lambda>current_identity.
            if opened_identity \<noteq> accepted_identity \<or> current_identity \<noteq> accepted_identity then unsafe_distribution
            else
              fbind (fcreate snapshot_path) (\<lambda>outcome.
                case outcome of
                  AlreadyExists \<Rightarrow> fraise (SystemExit ''release distribution parser snapshot already exists'')
                | CreateFails \<Rightarrow> unsafe_distribution
                | Created snapshot \<Rightarrow> copy_distribution path snapshot_path accepted_identity source snapshot)))))"

section \<open>Payloads\<close>

definition strict_pretty_json_bytes :: "(ustr \<times> json) list \<Rightarrow> bytes res" where
  "strict_pretty_json_bytes document =
     (case dumps indented_style (JObject document) of
        Inl _ \<Rightarrow> Inl (SystemExit ''generated release evidence is not strict JSON'')
      | Inr t \<Rightarrow> of_option (SystemExit ''generated release evidence is not strict JSON'') (encode_ascii (t @ [10])))"

definition source_identity_bytes :: "ustr \<Rightarrow> ustr \<Rightarrow> bytes res" where
  "source_identity_bytes repository source_sha =
     ebind (dumps compact_style (JObject
       [(u ''format'', JString SOURCE_IDENTITY_FORMAT), (u ''formatVersion'', JInt SOURCE_IDENTITY_VERSION),
        (u ''repository'', JString repository), (u ''sourceSha'', JString source_sha)])) (\<lambda>t.
     of_option UnicodeEncodeError (encode_ascii (t @ [10])))"

definition sha256_distribution :: "pyenv \<Rightarrow> path \<Rightarrow> ustr fsm" where
  "sha256_distribution E path =
     fbind (observe (\<lambda>v. fv_open v path)) (\<lambda>opened_stream.
       case opened_stream of
         None \<Rightarrow> fraise (SystemExit ''release distribution is unreadable'')
       | Some stream \<Rightarrow>
           fbind (observe (\<lambda>v. fv_lstat v path)) (\<lambda>state.
           case state of
             None \<Rightarrow> fraise (SystemExit ''release distribution is unreadable'')
           | Some path_state \<Rightarrow>
               fbind (fcheck (st_kind path_state = Regular \<and> st_kind (op_state stream) = Regular
                              \<and> st_identity path_state = st_identity (op_state stream))
                        ''release distribution is unreadable or unsafe'') (\<lambda>_.
               fbind (flift (hash_loop MAX_ARTIFACT_BYTES ''release distribution'' 0 (op_bytes stream))) (\<lambda>_.
               fbind (fcheck (\<not> op_fails stream) ''release distribution is unreadable'') (\<lambda>_.
               fret (sha256_hex E (op_bytes stream)))))))"

text \<open>Exclusive creation, writing, and the identity of what was written.\<close>

definition check_private_file :: "path \<Rightarrow> opened_file \<Rightarrow> unit fsm" where
  "check_private_file path stream =
     fbind (observe (\<lambda>v. sv_fstat (fv_stream v (st_identity (op_state stream))))) (\<lambda>r.
     fbind (observe (\<lambda>v. fv_lstat v path)) (\<lambda>state.
       case (r, state) of
         (Inr opened_state, Some path_state) \<Rightarrow>
           fcheck (st_kind opened_state = Regular \<and> st_kind path_state = Regular
                   \<and> st_identity opened_state = st_identity path_state \<and> st_mode opened_state = OWNER_ONLY)
             ''release evidence cannot be created safely''
       | _ \<Rightarrow> fraise (SystemExit ''release evidence cannot be created safely'')))"

definition write_private_file :: "path \<Rightarrow> bytes \<Rightarrow> unit fsm" where
  "write_private_file path payload =
     fbind (fcreate path) (\<lambda>outcome.
       case outcome of
         AlreadyExists \<Rightarrow> fraise (SystemExit ''release evidence already exists'')
       | CreateFails \<Rightarrow> fraise (SystemExit ''release evidence cannot be created safely'')
       | Created stream \<Rightarrow>
           fbind (fwrite path payload) (\<lambda>ok.
           if ok then check_private_file path stream
           else fraise (SystemExit ''release evidence cannot be created safely'')))"

fun write_private_files :: "path \<Rightarrow> (ustr \<times> bytes) list \<Rightarrow> unit fsm" where
  "write_private_files dir [] = fret ()"
| "write_private_files dir ((filename, payload) # rest) =
     fbind (write_private_file (dir @ [filename]) payload) (\<lambda>_. write_private_files dir rest)"

text \<open>The lines of the payloads in their order: bytes are hashed, paths are read.\<close>

fun checksum_lines :: "pyenv \<Rightarrow> (ustr \<times> (bytes + path)) list \<Rightarrow> ustr fsm" where
  "checksum_lines E [] = fret []"
| "checksum_lines E ((filename, payload) # rest) =
     fbind (case payload of Inl b \<Rightarrow> fret (sha256_hex E b) | Inr path \<Rightarrow> sha256_distribution E path) (\<lambda>digest.
     fbind (checksum_lines E rest) (\<lambda>lines.
     fret (digest @ [32, 32] @ filename @ [10] @ lines)))"

definition checksum_bytes :: "pyenv \<Rightarrow> (ustr \<times> (bytes + path)) list \<Rightarrow> bytes fsm" where
  "checksum_bytes E payloads =
     fbind (checksum_lines E (sort_key fst payloads)) (\<lambda>lines. flift (of_option UnicodeEncodeError (encode_ascii lines)))"

section \<open>Preparation\<close>

definition sbom_filename :: "path \<Rightarrow> ustr" where
  "sbom_filename distribution = path_name distribution @ u ''.cdx.json''"

definition describe_distribution ::
  "release_lib \<Rightarrow> packaging \<Rightarrow> archive_lib \<Rightarrow> path \<Rightarrow> path \<Rightarrow> path \<Rightarrow> bytes fsm" where
  "describe_distribution L P A snapshot dependency_manifest runtime_lock =
     fbind (build_attestable_sbom L P A snapshot dependency_manifest runtime_lock) (\<lambda>sbom.
     flift (strict_pretty_json_bytes sbom))"

text \<open>Inside the private directory: both snapshots first, then both documents.\<close>

definition describe_distributions ::
  "release_lib \<Rightarrow> packaging \<Rightarrow> archive_lib \<Rightarrow> path \<times> distribution_identity \<Rightarrow> path \<times> distribution_identity
    \<Rightarrow> path \<Rightarrow> path \<Rightarrow> (bytes \<times> bytes) fsm" where
  "describe_distributions L P A wheel sdist dependency_manifest runtime_lock =
     fbind (observe fv_temporary) (\<lambda>made.
       case made of
         None \<Rightarrow> fraise (OSError [])
       | Some snapshot_root \<Rightarrow>
           fbind (snapshot_distribution (fst wheel) snapshot_root (snd wheel)) (\<lambda>wheel_snapshot.
           fbind (snapshot_distribution (fst sdist) snapshot_root (snd sdist)) (\<lambda>sdist_snapshot.
           fbind (describe_distribution L P A wheel_snapshot dependency_manifest runtime_lock) (\<lambda>wheel_document.
           fbind (describe_distribution L P A sdist_snapshot dependency_manifest runtime_lock) (\<lambda>sdist_document.
           fret (wheel_document, sdist_document))))))"

definition seal_evidence ::
  "release_lib \<Rightarrow> path \<Rightarrow> path \<Rightarrow> path \<Rightarrow> ustr \<Rightarrow> ustr \<Rightarrow> bytes \<Rightarrow> bytes \<Rightarrow> unit fsm" where
  "seal_evidence L evidence_root wheel sdist repository source_sha wheel_document sdist_document =
     fbind (flift (source_identity_bytes repository source_sha)) (\<lambda>source_identity.
     let generated_payloads = [(sbom_filename wheel, wheel_document), (sbom_filename sdist, sdist_document),
           (SOURCE_IDENTITY_FILENAME, source_identity)];
         checksum_payloads = [(path_name wheel, Inr wheel), (path_name sdist, Inr sdist)]
           @ map (\<lambda>(filename, payload). (filename, Inl payload)) generated_payloads in
     fbind (checksum_bytes (rl_env L) checksum_payloads) (\<lambda>checksums.
     fbind (write_private_files evidence_root generated_payloads) (\<lambda>_.
     write_private_file (evidence_root @ [u ''SHA256SUMS'']) checksums)))"

text \<open>The handoff of the sealed directory.\<close>

definition hand_off :: "release_lib \<Rightarrow> path \<Rightarrow> path \<Rightarrow> ustr \<Rightarrow> ustr \<Rightarrow> json fsm" where
  "hand_off L evidence_root resolved_handoff repository source_sha =
     fbind (build_evidence_manifest L evidence_root repository source_sha) (\<lambda>prepared_manifest.
     fbind (write_evidence_manifest L prepared_manifest resolved_handoff (Some ([], evidence_root))) (\<lambda>_.
     fbind (reverify_published_evidence_manifest L evidence_root resolved_handoff repository source_sha prepared_manifest) (\<lambda>_.
     fret prepared_manifest)))"

definition prepare_release_evidence ::
  "release_lib \<Rightarrow> packaging \<Rightarrow> archive_lib \<Rightarrow> path \<Rightarrow> path \<Rightarrow> ustr \<Rightarrow> ustr \<Rightarrow> path \<Rightarrow> path \<Rightarrow> json fsm" where
  "prepare_release_evidence L P A evidence_dir handoff_path repository source_sha dependency_manifest_path runtime_lock_path =
     fbind (prepare_source_identity repository source_sha) (\<lambda>_.
     fbind (require_canonical_directory evidence_dir ''release evidence input directory'') (\<lambda>evidence_root.
     fbind (require_handoff_outside_evidence handoff_path evidence_root) (\<lambda>resolved_handoff.
     fbind (require_canonical_file dependency_manifest_path ''reviewed runtime dependency manifest'') (\<lambda>dependency_manifest.
     fbind (require_canonical_file runtime_lock_path ''hash-locked runtime requirements'') (\<lambda>runtime_lock.
     fbind (select_distributions evidence_root) (\<lambda>(wheel, sdist).
     fbind (require_distribution_preflight wheel) (\<lambda>wheel_identity.
     fbind (require_distribution_preflight sdist) (\<lambda>sdist_identity.
     fbind (describe_distributions L P A (wheel, wheel_identity) (sdist, sdist_identity) dependency_manifest runtime_lock)
       (\<lambda>(wheel_document, sdist_document).
     fbind (seal_evidence L evidence_root wheel sdist repository source_sha wheel_document sdist_document) (\<lambda>_.
     hand_off L evidence_root resolved_handoff repository source_sha))))))))))"

end
