(* ===== verification/Prepare_Rules.thy ===== *)
theory Prepare_Rules
  imports Release_Prepare Output_Rules Policy_Normalization
begin

text \<open>
  What a preparation can write, whatever the file system answers: files of its own in the private
  directory and generated files in the evidence directory, and, after the verifier has accepted
  the directory, the handoff outside of it.
\<close>

section \<open>Operations of the preparation that only observe\<close>

lemma quiet_sum [quiet_rules]:
  "(\<And>e. quiet (a e)) \<Longrightarrow> (\<And>x. quiet (b x)) \<Longrightarrow> quiet (case z of Inl e \<Rightarrow> a e | Inr x \<Rightarrow> b x)"
  by (cases z) simp_all

lemma quiet_answered [quiet_rules]: "(\<And>x. quiet (f x)) \<Longrightarrow> quiet (answered r f)"
  unfolding answered_def unsafe_artifact_def by (intro quiet_rules)

lemma quiet_reader [quiet_rules]:
  "quiet (ask h q)" "quiet unsafe_artifact" "quiet too_large_artifact" "quiet (require_live_artifact_descriptor h)"
  "quiet (require_artifact_position h)" "quiet (live_read h n)" "quiet (live_seek h k)"
  unfolding ask_def unsafe_artifact_def too_large_artifact_def require_live_artifact_descriptor_def
    require_artifact_position_def live_read_def live_seek_def Let_def
  by (intro quiet_rules)+

lemma quiet_loops [quiet_rules]: "quiet (snapshot_loop n h c)" "quiet (live_hash_loop n h c)"
proof -
  show "quiet (snapshot_loop n h c)"
    by (induction n arbitrary: c) (simp_all only: snapshot_loop.simps, (intro quiet_rules | assumption)+)
  show "quiet (live_hash_loop n h c)"
    by (induction n arbitrary: c) (simp_all only: live_hash_loop.simps, (intro quiet_rules | assumption)+)
qed

lemma quiet_generator [quiet_rules]:
  "quiet (sha256_live E h)" "quiet (snapshot_release_artifact E h)" "quiet (open_release_artifact p)"
  "quiet (read_text p cap a b)" "quiet (load_manifest L P p)" "quiet (load_runtime_lock L P p)"
  "quiet (validate_runtime_lock L P p q)" "quiet (build_sbom L P A p q)" "quiet (build_attestable_sbom L P A p q q')"
  unfolding sha256_live_def snapshot_release_artifact_def open_release_artifact_def read_text_def load_manifest_def
    load_runtime_lock_def validate_runtime_lock_def build_sbom_def build_attestable_sbom_def Let_def
  by (intro quiet_rules)+

lemma quiet_inputs [quiet_rules]:
  "quiet (prepare_source_identity r sha)" "quiet (require_canonical_directory p l)" "quiet (require_canonical_file p l)"
  "quiet (require_handoff_outside_evidence p q)"
  unfolding prepare_source_identity_def require_canonical_directory_def require_canonical_file_def
    require_handoff_outside_evidence_def Let_def by (intro quiet_rules)+

lemma quiet_regular_inputs [quiet_rules]: "quiet (require_regular_inputs ps)"
  by (induction ps) (simp_all only: require_regular_inputs.simps, (intro quiet_rules | assumption)+)

lemma quiet_distributions [quiet_rules]:
  "quiet (select_distributions p)" "quiet unsafe_distribution" "quiet (path_metadata p)" "quiet (descriptor_state f)"
  "quiet (require_distribution_preflight p)" "quiet (check_snapshot p i f g n)" "quiet (sha256_distribution E p)"
  "quiet (describe_distribution L P A p q q')"
  unfolding select_distributions_def unsafe_distribution_def path_metadata_def descriptor_state_def
    require_distribution_preflight_def check_snapshot_def sha256_distribution_def describe_distribution_def Let_def
  by (intro quiet_rules)+

lemma quiet_check_private [quiet_rules]: "quiet (check_private_file p f)"
  unfolding check_private_file_def by (auto intro!: quiet_rules split: sum.split option.split)

lemma quiet_checksums [quiet_rules]: "quiet (checksum_lines E ps)" "quiet (checksum_bytes E ps)"
proof -
  show lines: "quiet (checksum_lines E ps)" for ps
    by (induction E ps rule: checksum_lines.induct)
      (simp_all only: checksum_lines.simps, (intro quiet_rules | assumption)+)
  show "quiet (checksum_bytes E ps)" unfolding checksum_bytes_def by (intro quiet_rules lines)
qed

section \<open>Operations of the preparation that write\<close>

lemmas confined_observing =
  quiet_steps [THEN confined_quiet] quiet_distributions [THEN confined_quiet] quiet_check_private [THEN confined_quiet]

lemma confined_copy_blocks: "p \<in> P \<Longrightarrow> confined w P (copy_blocks p n rest)"
proof (induction p n rest rule: copy_blocks.induct)
  case (1 p n rest)
  show ?case
  proof (cases "rest = [] \<or> n + int (length (take BLOCK_BYTES rest)) > MAX_ARTIFACT_BYTES")
    case True
    then show ?thesis by (subst copy_blocks.simps) (auto simp: Let_def intro: confined_observing)
  next
    case False
    have "confined w P (if ok then copy_blocks p (n + int (length (take BLOCK_BYTES rest))) (drop BLOCK_BYTES rest)
        else unsafe_distribution)" for ok
      using 1 False by (cases ok) (auto intro: confined_observing)
    then show ?thesis
      using False "1.prems" by (subst copy_blocks.simps) (auto simp: Let_def intro!: confined_fbind confined_writes)
  qed
qed

lemma confined_snapshot:
  assumes "dir @ [path_name p] \<in> P"
  shows "confined w P (snapshot_distribution p dir i)"
  unfolding snapshot_distribution_def copy_distribution_def Let_def
  by (intro confined_fbind confined_option confined_if confined_created confined_writes confined_copy_blocks
      confined_observing assms)

lemma confined_private: "p \<in> P \<Longrightarrow> confined w P (write_private_file p b)"
  unfolding write_private_file_def
  by (intro confined_fbind confined_if confined_created confined_writes confined_observing)

lemma confined_private_files: "(\<lambda>(n, b). dir @ [n]) ` set fs \<subseteq> P \<Longrightarrow> confined w P (write_private_files dir fs)"
proof (induction dir fs rule: write_private_files.induct)
  case (2 dir filename payload rest)
  then show ?case unfolding write_private_files.simps by (intro confined_fbind confined_private) auto
qed (simp only: write_private_files.simps confined_observing)

section \<open>The whole preparation\<close>

text \<open>Where a preparation may write before the directory is verified: one file per distribution in a
  private directory, and the generated files in the evidence directory.\<close>

definition generated_name :: "ustr \<Rightarrow> bool" where
  "generated_name n \<longleftrightarrow> n = SOURCE_IDENTITY_FILENAME \<or> n = u ''SHA256SUMS'' \<or> (\<exists>d. n = d @ u ''.cdx.json'')"

definition preparation_outputs :: "world \<Rightarrow> path \<Rightarrow> path set" where
  "preparation_outputs w dir =
     {p. \<exists>t tmp n. fv_temporary (w t) = Some tmp \<and> p = tmp @ [n]} \<union> {p. \<exists>n. p = dir @ [n] \<and> generated_name n}"

lemma confined_describe: "confined w (preparation_outputs w dir) (describe_distributions L P A wheel sdist q q')"
  unfolding describe_distributions_def
proof (intro confined_fbind confined_observing)
  fix made s s1 assume "observe fv_temporary w s = (Inr made, s1)"
  then have made: "made = fv_temporary (w (clock s))" by simp
  show "confined w (preparation_outputs w dir) (case made of None \<Rightarrow> fraise (OSError [])
    | Some snapshot_root \<Rightarrow>
        fbind (snapshot_distribution (fst wheel) snapshot_root (snd wheel)) (\<lambda>wheel_snapshot.
        fbind (snapshot_distribution (fst sdist) snapshot_root (snd sdist)) (\<lambda>sdist_snapshot.
        fbind (describe_distribution L P A wheel_snapshot q q') (\<lambda>wheel_document.
        fbind (describe_distribution L P A sdist_snapshot q q') (\<lambda>sdist_document.
        fret (wheel_document, sdist_document))))))"
  proof (cases made)
    case None
    then show ?thesis by (simp add: confined_observing)
  next
    case (Some tmp)
    with made have "tmp @ [n] \<in> preparation_outputs w dir" for n by (auto simp: preparation_outputs_def)
    with Some show ?thesis by (simp only: option.case) (intro confined_fbind confined_snapshot confined_observing)
  qed
qed

lemma generated_names:
  "generated_name (sbom_filename d)" "generated_name SOURCE_IDENTITY_FILENAME" "generated_name (u ''SHA256SUMS'')"
  by (auto simp: generated_name_def sbom_filename_def)

lemma confined_seal: "confined w (preparation_outputs w dir) (seal_evidence L dir wheel sdist repository sha b b')"
  unfolding seal_evidence_def Let_def
  by (intro confined_fbind confined_observing quiet_checksums [THEN confined_quiet] confined_private confined_private_files)
    (auto simp: preparation_outputs_def generated_names)

section \<open>The handoff\<close>

text \<open>What a run ends with: a verified manifest whose encoding is at the output, the output empty after
  a failure, or no output at all.\<close>

definition handed_off ::
  "release_lib \<Rightarrow> path \<Rightarrow> path \<Rightarrow> ustr \<Rightarrow> ustr \<Rightarrow> world \<Rightarrow> world_state \<Rightarrow> json res \<Rightarrow> world_state \<Rightarrow> bool" where
  "handed_off L dir out repository source_sha w s r s' \<longleftrightarrow>
     (\<exists>m s1 payload. build_evidence_manifest L dir repository source_sha w s = (Inr m, s1)
        \<and> encode_evidence_manifest L m = Inr payload
        \<and> written s' \<in> {written s @ [(out, [])], written s @ [(out, []), (out, payload)]}
        \<and> ((\<exists>e. r = Inl e)
           \<or> r = Inr m \<and> written s' = written s @ [(out, []), (out, payload)]
             \<and> (\<exists>m' s2 s3. clock s1 \<le> clock s2
                  \<and> build_evidence_manifest L dir repository source_sha w s2 = (Inr m', s3)
                  \<and> sorted_keys m' = sorted_keys m \<and> reads_regular w (clock s3 + 1) out payload)))"

lemma hand_off_cases:
  assumes "hand_off L dir out repository source_sha w s = (r, s')"
  shows "(\<exists>e. r = Inl e) \<and> written s' = written s \<or> handed_off L dir out repository source_sha w s r s'"
proof -
  obtain r1 s1 where b: "build_evidence_manifest L dir repository source_sha w s = (r1, s1)" by fastforce
  note q1 = quietD [OF quiet_build b]
  show ?thesis
  proof (cases r1)
    case Inl
    with assms b q1 show ?thesis by (auto simp: hand_off_def fbind_def)
  next
    case m: (Inr m)
    obtain r2 s2 where c: "write_evidence_manifest L m out (Some ([], dir)) w s1 = (r2, s2)" by fastforce
    have wr: "written s2 = written s1 \<or> (\<exists>payload. encode_evidence_manifest L m = Inr payload
        \<and> written s2 \<in> {written s1 @ [(out, [])], written s1 @ [(out, []), (out, payload)]})"
      using write_manifest_written [of L m out "Some ([], dir)" w s1] c by simp
    show ?thesis
    proof (cases r2)
      case (Inl e)
      with assms b m c have "r = Inl e" "s' = s2" by (auto simp: hand_off_def fbind_def)
      with wr b m q1 show ?thesis by (auto simp: handed_off_def)
    next
      case (Inr u)
      from c have c': "write_evidence_manifest L m out (Some ([], dir)) w s1 = (Inr (), s2)" by (simp add: Inr)
      from c' obtain payload where p: "encode_evidence_manifest L m = Inr payload" "clock s1 \<le> clock s2"
        "written s2 = written s1 @ [(out, []), (out, payload)]" by (rule write_manifest_Inr)
      obtain r3 s3 where e: "reverify_published_evidence_manifest L dir out repository source_sha m w s2 = (r3, s3)" by fastforce
      note q3 = quietD [OF quiet_reverify e]
      have run: "s' = s3" "r = (case r3 of Inl e \<Rightarrow> Inl e | Inr _ \<Rightarrow> Inr m)"
        using assms b m c Inr e by (auto simp: hand_off_def fbind_def split: sum.splits)
      show ?thesis
      proof (cases r3)
        case Inl
        with run b m p q1 q3 show ?thesis by (auto simp: handed_off_def)
      next
        case (Inr v)
        from e have e': "reverify_published_evidence_manifest L dir out repository source_sha m w s2 = (Inr (), s3)" by (simp add: Inr)
        from e' p(1) obtain m' s4 where "build_evidence_manifest L dir repository source_sha w s2 = (Inr m', s4)"
          "encode_evidence_manifest L m' = Inr payload" "reads_regular w (clock s4 + 1) out payload" by (rule reverify_Inr)
        moreover from this have "sorted_keys m' = sorted_keys m" using encode_evidence_manifest_inj p(1) by blast
        ultimately show ?thesis using run Inr b m p q1 q3 unfolding handed_off_def by auto
      qed
    qed
  qed
qed

lemma prepares_hand_off: "prepares w P (handed_off L dir out repository source_sha w) (hand_off L dir out repository source_sha)"
  unfolding prepares_def
proof (intro allI impI)
  fix s r s' assume "hand_off L dir out repository source_sha w s = (r, s')"
  from hand_off_cases [OF this]
  show "\<exists>ws s1. written s1 = written s @ ws \<and> fst ` set ws \<subseteq> P \<and> clock s \<le> clock s1
      \<and> ((\<exists>e. r = Inl e) \<and> written s' = written s1 \<or> handed_off L dir out repository source_sha w s1 r s')"
    by (intro exI [of _ "[]"] exI [of _ s]) simp
qed

lemma canonical_directory_Inr: "require_canonical_directory p l w s = (Inr d, s') \<Longrightarrow> d = abspath p"
  by (auto simp: require_canonical_directory_def fbind_Inr ensure_eq_Inr split: option.splits)

lemma handoff_outside_Inr:
  "require_handoff_outside_evidence p dir w s = (Inr out, s') \<Longrightarrow>
    out = child (abspath (parent p)) (path_name p) \<and> \<not> inside dir out"
  by (auto simp: require_handoff_outside_evidence_def fbind_Inr ensure_eq_Inr Let_def dest!: canonical_directory_Inr)

lemma confined_seal_at:
  "require_canonical_directory e l w s0 = (Inr d, s0') \<Longrightarrow>
    confined w (preparation_outputs w (abspath e)) (seal_evidence L d wheel sdist repository sha b b')"
  by (drule canonical_directory_Inr) (simp add: confined_seal)

lemma prepares_hand_off_at:
  "require_canonical_directory e l w s0 = (Inr d, s0') \<Longrightarrow> require_handoff_outside_evidence h d w s1 = (Inr out, s1') \<Longrightarrow>
    prepares w P (\<lambda>s2 r s'. inside (abspath e) (child (abspath (parent h)) (path_name h)) = False
      \<and> handed_off L (abspath e) (child (abspath (parent h)) (path_name h)) repository sha w s2 r s')
     (hand_off L d out repository sha)"
  using prepares_hand_off [of w P L d out repository sha]
  by (auto dest!: canonical_directory_Inr handoff_outside_Inr)

text \<open>C30: whatever the file system answers, a preparation first writes only to its private directory
  and to the generated names of the evidence directory. It touches the handoff, outside of this
  directory, only after the verifier has accepted the directory as it was left, and then writes
  nothing but the encoding of that manifest; when it succeeds, it returns this manifest, the directory
  verified again to an equal one, and the handoff was read back with exactly these bytes.\<close>

theorem prepare_publishes_verified:
  "\<exists>ws s1. written s1 = written s @ ws \<and> fst ` set ws \<subseteq> preparation_outputs w (abspath evidence_dir) \<and> clock s \<le> clock s1
     \<and> (case prepare_release_evidence L P A evidence_dir handoff repository source_sha manifest lock w s of (r, s') \<Rightarrow>
          (\<exists>e. r = Inl e) \<and> written s' = written s1
        \<or> inside (abspath evidence_dir) (child (abspath (parent handoff)) (path_name handoff)) = False
          \<and> handed_off L (abspath evidence_dir) (child (abspath (parent handoff)) (path_name handoff)) repository source_sha
              w s1 r s')"
proof -
  let ?dir = "abspath evidence_dir" and ?out = "child (abspath (parent handoff)) (path_name handoff)"
  let ?P = "preparation_outputs w ?dir"
  let ?H = "\<lambda>s1 r s'. inside ?dir ?out = False \<and> handed_off L ?dir ?out repository source_sha w s1 r s'"
  have all: "prepares w ?P ?H (prepare_release_evidence L P A evidence_dir handoff repository source_sha manifest lock)"
    unfolding prepare_release_evidence_def case_prod_beta
    by (intro prepares_fbind confined_seal confined_describe confined_observing quiet_inputs [THEN confined_quiet])
      (erule confined_seal_at [where e = evidence_dir], rule prepares_hand_off_at [where e = evidence_dir and h = handoff], assumption+)
  obtain r s' where
    run: "prepare_release_evidence L P A evidence_dir handoff repository source_sha manifest lock w s = (r, s')" by (rule prod.exhaust)
  show ?thesis unfolding run prod.case by (rule all [unfolded prepares_def, rule_format, OF run])
qed

section \<open>What is sealed reads back\<close>

definition canonical_file_name :: "ustr \<Rightarrow> bool" where
  "canonical_file_name n \<longleftrightarrow> n \<noteq> [] \<and> is_alnum_c (hd n) \<and> list_all is_file_name_c (tl n)"

definition sha256_text :: "ustr \<Rightarrow> bool" where
  "sha256_text d \<longleftrightarrow> length d = 64 \<and> list_all is_lower_hex d"

definition checksum_line :: "ustr \<times> ustr \<Rightarrow> ustr" where
  "checksum_line nd = snd nd @ [32, 32] @ fst nd"

lemma match_checksum_line_line:
  assumes "canonical_file_name n" "sha256_text d"
  shows "match_checksum_line (checksum_line (n, d)) = Some (n, d)"
proof -
  have "66 < length (d @ [32, 32] @ n)" using assms by (cases n) (simp_all add: canonical_file_name_def sha256_text_def)
  then show ?thesis
    using assms by (simp add: match_checksum_line_def checksum_line_def canonical_file_name_def sha256_text_def numeral_eq_Suc)
qed

lemma splitlines_line: "\<not> list_ex is_line_end l \<Longrightarrow> splitlines (l @ 10 # rest) = l # splitlines rest"
  by (induction l) (auto simp: is_line_end_def)

lemma checksum_line_plain:
  assumes "canonical_file_name n" "sha256_text d"
  shows "\<not> list_ex is_line_end (checksum_line (n, d))" "13 \<notin> set (checksum_line (n, d))"
proof -
  have "c \<in> set (checksum_line (n, d)) \<Longrightarrow> 32 \<le> c \<and> c \<noteq> 133" for c
    using assms by (cases n)
      (auto simp: checksum_line_def canonical_file_name_def sha256_text_def list_all_iff is_lower_hex_def is_alnum_c_def
        is_file_name_c_def is_dec_c_def)
  then show "\<not> list_ex is_line_end (checksum_line (n, d))" "13 \<notin> set (checksum_line (n, d))"
    by (fastforce simp: list_ex_iff is_line_end_def)+
qed

definition checksum_text :: "(ustr \<times> ustr) list \<Rightarrow> ustr" where
  "checksum_text nds = concat (map (\<lambda>nd. checksum_line nd @ [10]) nds)"

definition canonical_entries :: "(ustr \<times> ustr) list \<Rightarrow> bool" where
  "canonical_entries nds \<longleftrightarrow> list_all (\<lambda>(n, d). canonical_file_name n \<and> sha256_text d) nds"

lemma splitlines_text: "canonical_entries nds \<Longrightarrow> splitlines (checksum_text nds) = map checksum_line nds"
  by (induction nds) (auto simp: checksum_text_def canonical_entries_def splitlines_line checksum_line_plain)

lemma parse_lines_text:
  "canonical_entries nds \<Longrightarrow> distinct (map fst (parsed @ nds)) \<Longrightarrow>
    parse_checksum_lines parsed (map checksum_line nds) = Inr (parsed @ nds)"
proof (induction nds arbitrary: parsed)
  case (Cons nd nds)
  then show ?case by (cases nd) (auto simp: canonical_entries_def match_checksum_line_line image_iff)
qed simp

lemma checksum_text_last: "nds \<noteq> [] \<Longrightarrow> checksum_text nds \<noteq> [] \<and> last (checksum_text nds) = 10"
  by (induction nds rule: rev_induct) (auto simp: checksum_text_def)

lemma checksum_text_no_return: "canonical_entries nds \<Longrightarrow> 13 \<notin> set (checksum_text nds)"
  by (induction nds) (auto simp: checksum_text_def canonical_entries_def checksum_line_plain)

lemma parse_checksums_text:
  assumes "nds \<noteq> []" "canonical_entries nds" "distinct (map fst nds)" "sorted (map fst nds)"
  shows "parse_checksums (checksum_text nds) (fst ` set nds) = Inr nds"
  using assms checksum_text_last [OF assms(1)] parse_lines_text [of nds "[]"]
  by (simp add: parse_checksums_def checksum_text_no_return splitlines_text sorted_sort_id)

text \<open>The digest of a payload: of its bytes, or of a regular file that was opened and read to its end.\<close>

definition digested :: "pyenv \<Rightarrow> world \<Rightarrow> bytes + path \<Rightarrow> ustr \<Rightarrow> bool" where
  "digested E w payload d \<longleftrightarrow>
     (case payload of
        Inl b \<Rightarrow> d = sha256_hex E b
      | Inr path \<Rightarrow> \<exists>t file. fv_open (w t) path = Some file \<and> st_kind (op_state file) = Regular \<and> \<not> op_fails file
          \<and> d = sha256_hex E (op_bytes file))"

lemma sha256_distribution_Inr: "sha256_distribution E p w s = (Inr d, s') \<Longrightarrow> digested E w (Inr p) d"
  by (auto simp: sha256_distribution_def fbind_Inr ensure_eq_Inr digested_def split: option.splits)

lemma checksum_lines_text:
  "checksum_lines E ps w s = (Inr lines, s') \<Longrightarrow>
    \<exists>nds. lines = checksum_text nds \<and> list_all2 (\<lambda>(n, p) (n', d). n = n' \<and> digested E w p d) ps nds"
proof (induction ps arbitrary: s lines)
  case Nil
  then show ?case by (simp add: checksum_text_def)
next
  case (Cons np ps)
  obtain n p where np: "np = (n, p)" by fastforce
  from Cons.prems obtain d s1 rest where d: "(case p of Inl b \<Rightarrow> fret (sha256_hex E b) | Inr path \<Rightarrow> sha256_distribution E path) w s
      = (Inr d, s1)" and rest: "checksum_lines E ps w s1 = (Inr rest, s')" and lines: "lines = d @ [32, 32] @ n @ [10] @ rest"
    by (auto simp: np fbind_Inr)
  have "digested E w p d"
    using d by (cases p) (auto simp: digested_def[where payload = "Inl _"] intro: sha256_distribution_Inr)
  moreover from Cons.IH [OF rest] obtain nds where "rest = checksum_text nds"
    "list_all2 (\<lambda>(n, p) (n', d). n = n' \<and> digested E w p d) ps nds" by blast
  ultimately show ?case
    by (intro exI [of _ "(n, d) # nds"]) (simp add: np lines checksum_text_def checksum_line_def)
qed

lemma digested_text: "digested E w p d \<Longrightarrow> \<exists>b. d = sha256_hex E b"
  by (auto simp: digested_def split: sum.splits)

lemma digested_names:
  "list_all2 (\<lambda>(n, p) (n', d). n = n' \<and> digested E w p d) ps nds \<Longrightarrow> map fst nds = map fst ps
    \<and> (\<forall>(n, d) \<in> set nds. \<exists>b. d = sha256_hex E b)"
  by (induction ps nds rule: list_all2_induct) (auto dest: digested_text)

text \<open>C31: the checksum file that a preparation writes is one that the verifier parses. For payloads
  with distinct canonical names it reads back to exactly their names, sorted, each with the digest of
  its bytes, or of a regular file that was read to its end.\<close>

theorem prepared_checksums_parse:
  assumes "checksum_bytes E payloads w s = (Inr b, s')" and "payloads \<noteq> []" and "distinct (map fst payloads)"
    and "fst ` set payloads \<subseteq> Collect canonical_file_name" and "range (sha256_hex E) \<subseteq> Collect sha256_text"
  shows "\<exists>content digests. decode_ascii b = Some content
    \<and> parse_checksums content (fst ` set payloads) = Inr digests
    \<and> list_all2 (\<lambda>(n, p) (n', d). n = n' \<and> digested E w p d) (sort_key fst payloads) digests"
proof -
  from assms(1) obtain lines s1 where lines: "checksum_lines E (sort_key fst payloads) w s = (Inr lines, s1)"
    and b: "encode_ascii lines = Some b"
    by (auto simp: checksum_bytes_def fbind_Inr of_option_eq_Inr)
  from checksum_lines_text [OF lines] obtain nds where nds: "lines = checksum_text nds"
    and all: "list_all2 (\<lambda>(n, p) (n', d). n = n' \<and> digested E w p d) (sort_key fst payloads) nds" by blast
  note names = digested_names [OF all]
  have "set (map fst nds) = set (map fst (sort_key fst payloads))" using names by simp
  then have set: "fst ` set nds = fst ` set payloads" by simp
  have "canonical_file_name n \<and> sha256_text d" if e: "(n, d) \<in> set nds" for n d
  proof
    have "n \<in> fst ` set payloads" using imageI [OF e, of fst] by (simp add: set)
    then show "canonical_file_name n" using assms(4) by (meson CollectD subsetD)
    from names e obtain b where "d = sha256_hex E b" by blast
    then show "sha256_text d" using assms(5) by (metis CollectD rangeI subsetD)
  qed
  then have "canonical_entries nds" by (auto simp: canonical_entries_def list_all_iff)
  moreover have "nds \<noteq> []" using set assms(2) by auto
  moreover have "sorted (map fst nds)" "distinct (map fst nds)"
    using names assms(3) by (simp_all add: distinct_map)
  ultimately have "parse_checksums lines (fst ` set nds) = Inr nds" unfolding nds by (intro parse_checksums_text)
  moreover have "decode_ascii b = Some lines"
    using b by (auto simp: encode_ascii_def decode_ascii_def octets_ascii py_isascii_def split: if_splits)
  ultimately show ?thesis using all set by auto
qed

text \<open>Two payloads out of order.\<close>

definition sealing_env :: pyenv where
  "sealing_env = ascii_env\<lparr>sha256_hex := (\<lambda>b. replicate 64 48)\<rparr>"

definition sealing_payloads :: "(ustr \<times> (bytes + path)) list" where
  "sealing_payloads = [(u ''b.json'', Inl ''2''), (u ''a.json'', Inl ''1'')]"

lemma sealing_digests:
  "range (sha256_hex sealing_env) \<subseteq> Collect sha256_text" "canonical_file_name (u ''a.json'')" "canonical_file_name (u ''b.json'')"
  "\<exists>b. checksum_bytes sealing_env sealing_payloads w s = (Inr b, s)"
proof -
  show "range (sha256_hex sealing_env) \<subseteq> Collect sha256_text"
    by (auto simp: sealing_env_def sha256_text_def list_all_iff is_lower_hex_def is_dec_c_def)
  show "canonical_file_name (u ''a.json'')" "canonical_file_name (u ''b.json'')" by code_simp+
  have "sort_key fst sealing_payloads = [(u ''a.json'', Inl ''1''), (u ''b.json'', Inl ''2'')]" by code_simp
  then have "checksum_lines sealing_env (sort_key fst sealing_payloads) w s
      = (Inr (checksum_text [(u ''a.json'', replicate 64 48), (u ''b.json'', replicate 64 48)]), s)"
    by (simp add: fbind_def fret_def sealing_env_def checksum_text_def checksum_line_def)
  moreover have "encode_ascii (checksum_text [(u ''a.json'', replicate 64 48), (u ''b.json'', replicate 64 48)]) \<noteq> None"
    by code_simp
  ultimately show "\<exists>b. checksum_bytes sealing_env sealing_payloads w s = (Inr b, s)"
    by (auto simp: checksum_bytes_def fbind_Inr flift_def)
qed

theorem prepared_checksums_parse_witness:
  "\<exists>w s b s' content digests. checksum_bytes sealing_env sealing_payloads w s = (Inr b, s')
     \<and> decode_ascii b = Some content \<and> parse_checksums content (fst ` set sealing_payloads) = Inr digests"
proof -
  obtain w :: world and s :: world_state where True by blast
  from sealing_digests(4) obtain b where b: "checksum_bytes sealing_env sealing_payloads w s = (Inr b, s)" by blast
  from prepared_checksums_parse [OF b _ _ _ sealing_digests(1)] sealing_digests(2,3) b
  show ?thesis by (fastforce simp: sealing_payloads_def u_def)
qed

end
