(* ===== verification/Product_Guard.thy ===== *)
theory Product_Guard
  imports Release_Output Sbom_Manifest Sbom_Archive
begin

unbundle bit_operations_syntax

text \<open>
  \<open>scripts/ci/hourly_product_guard.py\<close>: the boundary of an autonomous change. A patch is captured
  from a workspace, or validated as text and applied to a fresh checkout, and the resulting tree is
  checked against an allowed set of paths and against bounds.

  Git and the file system are the world: every call is recorded with its answer, and the answer of
  a call may depend on all calls before it. Messages are kept without the quoted parts. The self
  test and the argument parser are not modelled.
\<close>

section \<open>Calls and their answers\<close>

text \<open>An argument of a command, or a prefix in front of a path.\<close>

datatype git_arg = Word ustr | At ustr path

record git_run =
  gr_args :: "git_arg list"
  gr_cwd :: "path option"
  gr_index :: "path option"          \<comment> \<open>\<open>GIT_INDEX_FILE\<close>\<close>

record completed =
  cp_returncode :: int
  cp_stdout :: bytes

datatype guard_event =
    Ran git_run "completed res"
  | Lstat path "file_state res"
  | Stat path "file_state res"
  | ReadBytes path "bytes res"
  | WroteBytes path bytes "unit res"
  | WroteText path ustr "unit res"
  | Appended path ustr "unit res"
  | Resolved path "path res"

record guard_world =
  gw_run :: "guard_event list \<Rightarrow> git_run \<Rightarrow> completed res"
  gw_lstat :: "guard_event list \<Rightarrow> path \<Rightarrow> file_state res"
  gw_stat :: "guard_event list \<Rightarrow> path \<Rightarrow> file_state res"
  gw_read :: "guard_event list \<Rightarrow> path \<Rightarrow> bytes res"
  gw_write :: "guard_event list \<Rightarrow> path \<Rightarrow> unit res"
  gw_resolve :: "guard_event list \<Rightarrow> path \<Rightarrow> path res"    \<comment> \<open>\<open>resolve()\<close>\<close>
  gw_decode :: "bytes \<Rightarrow> ustr option"                      \<comment> \<open>the text encoding of the locale\<close>
  gw_output :: "path option"                                \<comment> \<open>\<open>GITHUB_OUTPUT\<close>, unless unset or empty\<close>
  gw_env :: pyenv

datatype guard_error = BoundaryError string | CalledProcessError | Raised exn

type_synonym 'a guarded = "guard_error + 'a"

type_synonym 'a gsm = "guard_world \<Rightarrow> guard_event list \<Rightarrow> 'a guarded \<times> guard_event list"

definition gret :: "'a \<Rightarrow> 'a gsm" where
  "gret x = (\<lambda>W t. (Inr x, t))"

definition glift :: "'a guarded \<Rightarrow> 'a gsm" where
  "glift r = (\<lambda>W t. (r, t))"

definition gbind :: "'a gsm \<Rightarrow> ('a \<Rightarrow> 'b gsm) \<Rightarrow> 'b gsm" where
  "gbind m f = (\<lambda>W t. case m W t of (Inl e, t') \<Rightarrow> (Inl e, t') | (Inr x, t') \<Rightarrow> f x W t')"

definition raised :: "'a res \<Rightarrow> 'a guarded" where
  "raised r = (case r of Inl e \<Rightarrow> Inl (Raised e) | Inr x \<Rightarrow> Inr x)"

definition gcheck :: "bool \<Rightarrow> string \<Rightarrow> unit gsm" where
  "gcheck b message = glift (if b then Inr () else Inl (BoundaryError message))"

text \<open>A call that is answered and recorded.\<close>

definition gcall :: "(guard_world \<Rightarrow> guard_event list \<Rightarrow> 'a res) \<Rightarrow> ('a res \<Rightarrow> guard_event) \<Rightarrow> 'a gsm" where
  "gcall ask event = (\<lambda>W t. (raised (ask W t), t @ [event (ask W t)]))"

definition glstat :: "path \<Rightarrow> file_state gsm" where
  "glstat p = gcall (\<lambda>W t. gw_lstat W t p) (Lstat p)"

definition gstat :: "path \<Rightarrow> file_state gsm" where
  "gstat p = gcall (\<lambda>W t. gw_stat W t p) (Stat p)"

definition gread :: "path \<Rightarrow> bytes gsm" where
  "gread p = gcall (\<lambda>W t. gw_read W t p) (ReadBytes p)"

definition gresolve :: "path \<Rightarrow> path gsm" where
  "gresolve p = gcall (\<lambda>W t. gw_resolve W t p) (Resolved p)"

definition gwrite_bytes :: "path \<Rightarrow> bytes \<Rightarrow> unit gsm" where
  "gwrite_bytes p b = gcall (\<lambda>W t. gw_write W t p) (WroteBytes p b)"

definition gwrite_text :: "path \<Rightarrow> ustr \<Rightarrow> unit gsm" where
  "gwrite_text p s = gcall (\<lambda>W t. gw_write W t p) (WroteText p s)"

text \<open>\<open>Path.read_text(encoding="utf-8")\<close>.\<close>

definition gread_text :: "path \<Rightarrow> ustr gsm" where
  "gread_text p = gbind (gread p) (\<lambda>raw.
     case decode_utf8 raw of
       None \<Rightarrow> glift (Inl (Raised UnicodeDecodeError))
     | Some content \<Rightarrow> gret (universal_newlines content))"

definition run_command :: "git_run \<Rightarrow> bool \<Rightarrow> completed gsm" where
  "run_command run checked =
     gbind (gcall (\<lambda>W t. gw_run W t run) (Ran run)) (\<lambda>outcome.
     if checked \<and> cp_returncode outcome \<noteq> 0 then glift (Inl CalledProcessError) else gret outcome)"

text \<open>With \<open>text=True\<close> the output is decoded in the encoding of the locale, with universal newlines.\<close>

definition decode_output :: "bytes \<Rightarrow> ustr gsm" where
  "decode_output b = (\<lambda>W t. case gw_decode W b of
       None \<Rightarrow> (Inl (Raised UnicodeDecodeError), t)
     | Some s \<Rightarrow> (Inr (universal_newlines s), t))"

definition run_text :: "git_run \<Rightarrow> ustr gsm" where
  "run_text run = gbind (run_command run True) (\<lambda>outcome. decode_output (cp_stdout outcome))"

definition gstrip :: "ustr \<Rightarrow> ustr gsm" where
  "gstrip s = (\<lambda>W t. (Inr (py_strip (gw_env W) s), t))"

section \<open>Paths\<close>

definition ALLOWED_ROOTS :: "ustr list" where
  "ALLOWED_ROOTS = [u ''src/egressweave/'', u ''tests/'', u ''docs/'']"

definition ALLOWED_FILES :: "ustr set" where
  "ALLOWED_FILES = {u ''README.md'', u ''CHANGELOG.md''}"

definition MAX_FILES :: nat where "MAX_FILES = 10"
definition MAX_FILE_BYTES :: int where "MAX_FILE_BYTES = 524288"
definition MAX_TOTAL_BYTES :: int where "MAX_TOTAL_BYTES = 2000000"
definition MAX_PATCH_BYTES :: int where "MAX_PATCH_BYTES = 2000000"
definition MAX_CHANGED_LINES :: int where "MAX_CHANGED_LINES = 1000"

definition DIFF_SAFETY :: "git_arg list" where
  "DIFF_SAFETY = map Word [u ''--no-ext-diff'', u ''--no-textconv'', u ''--no-renames'']"

definition is_safe_path_c :: "int \<Rightarrow> bool" where
  "is_safe_path_c c \<longleftrightarrow> is_alnum_c c \<or> c = 95 \<or> c = 46 \<or> c = 45"

text \<open>Nonempty segments of these characters, separated by slashes.\<close>

definition is_safe_path :: "ustr \<Rightarrow> bool" where
  "is_safe_path p \<longleftrightarrow> list_all (\<lambda>segment. segment \<noteq> [] \<and> list_all is_safe_path_c segment) (py_split 47 p)"

definition path_allowed :: "ustr \<Rightarrow> bool" where
  "path_allowed p \<longleftrightarrow>
     is_safe_path p \<and> \<not> starts_with [47] p \<and> list_all (\<lambda>part. part \<notin> {[], [46], [46, 46]}) (posix_parts p)
     \<and> (p \<in> ALLOWED_FILES \<or> list_ex (\<lambda>dir. starts_with dir p) ALLOWED_ROOTS)"

text \<open>The \<open>/\<close> operator on a relative name, and \<open>with_suffix\<close>.\<close>

definition beneath :: "path \<Rightarrow> ustr \<Rightarrow> path" where
  "beneath dir name = dir @ posix_parts name"

definition name_stem :: "ustr \<Rightarrow> ustr" where
  "name_stem n =
     (let (stem, found, suffix) = py_rpartition 46 n in if found \<and> stem \<noteq> [] \<and> suffix \<noteq> [] then stem else n)"

definition with_suffix :: "path \<Rightarrow> ustr \<Rightarrow> path guarded" where
  "with_suffix p suffix =
     (if path_name p = [] then Inl (Raised (ValueError ''empty name''))
      else Inr (parent p @ [name_stem (path_name p) @ suffix]))"

section \<open>Patch text\<close>

text \<open>The two paths of a header: the second begins after the last \<open>b/\<close> that leaves both nonempty.\<close>

definition split_header :: "ustr \<Rightarrow> (ustr \<times> ustr) option" where
  "split_header rest =
     (let cuts = filter (\<lambda>i. 0 < i \<and> i + 3 < length rest \<and> take 3 (drop i rest) = u '' b/'') [0..<length rest] in
      if cuts = [] then None else Some (take (last cuts) rest, drop (last cuts + 3) rest))"

definition header_line :: "ustr \<Rightarrow> (ustr \<times> ustr) option" where
  "header_line line =
     (if starts_with (u ''diff --git a/'') line then split_header (drop (length (u ''diff --git a/'')) line) else None)"

definition diff_headers :: "ustr \<Rightarrow> (ustr \<times> ustr) list" where
  "diff_headers patch = List.map_filter header_line (py_split 10 patch)"

definition marker_line :: "ustr \<Rightarrow> (ustr \<times> ustr) option" where
  "marker_line line =
     (if (starts_with (u ''--- '') line \<or> starts_with (u ''+++ '') line) \<and> length line > 4
      then Some (take 3 line, drop 4 line) else None)"

definition file_markers :: "ustr \<Rightarrow> (ustr \<times> ustr) list" where
  "file_markers patch = List.map_filter marker_line (py_split 10 patch)"

definition is_octal_c :: "int \<Rightarrow> bool" where
  "is_octal_c c \<longleftrightarrow> 48 \<le> c \<and> c \<le> 55"

definition mode_line :: "ustr \<Rightarrow> ustr option" where
  "mode_line line =
     (let mode = drop (length (u ''new file mode '')) line in
      if starts_with (u ''new file mode '') line \<and> length mode = 6 \<and> list_all is_octal_c mode then Some mode else None)"

definition new_modes :: "ustr \<Rightarrow> ustr list" where
  "new_modes patch = List.map_filter mode_line (py_split 10 patch)"

fun occurs :: "ustr \<Rightarrow> ustr \<Rightarrow> bool" where
  "occurs token [] = (token = [])"
| "occurs token (c # s) = (starts_with token (c # s) \<or> occurs token s)"

definition FORBIDDEN :: "ustr list" where
  "FORBIDDEN = map u [''deleted file mode '', ''old mode '', ''new mode '', ''rename from '', ''rename to '',
     ''copy from '', ''copy to '', ''GIT binary patch'', ''Binary files '', ''new file mode 120000'']"

fun check_headers :: "ustr list \<Rightarrow> (ustr \<times> ustr) list \<Rightarrow> ustr list guarded" where
  "check_headers seen [] = Inr seen"
| "check_headers seen ((left, right) # headers) =
     (if left \<noteq> right \<or> \<not> path_allowed left \<or> left \<in> set seen
      then Inl (BoundaryError ''Patch contains an unsafe or duplicate path'')
      else check_headers (seen @ [left]) headers)"

definition marker_unsafe :: "ustr list \<Rightarrow> ustr \<times> ustr \<Rightarrow> bool" where
  "marker_unsafe seen = (\<lambda>(marker, path).
     path \<noteq> u ''/dev/null''
     \<and> (\<not> starts_with (if marker = u ''---'' then u ''a/'' else u ''b/'') path \<or> drop 2 path \<notin> set seen))"

definition validate_patch :: "ustr \<Rightarrow> ustr list guarded" where
  "validate_patch patch =
     (let headers = diff_headers patch in
      if headers = [] then Inl (BoundaryError ''Patch has no reviewable diff headers'')
      else if length headers > MAX_FILES then Inl (BoundaryError ''Patch touched too many files'')
      else
        (case check_headers [] headers of
           Inl e \<Rightarrow> Inl e
         | Inr seen \<Rightarrow>
             if list_ex (marker_unsafe seen) (file_markers patch) then Inl (BoundaryError ''Patch contains an unsafe file marker'')
             else if list_ex (\<lambda>token. occurs token patch) FORBIDDEN
             then Inl (BoundaryError ''Patch contains a forbidden deletion, rename, mode, link, or binary directive'')
             else if list_ex (\<lambda>mode. mode \<noteq> u ''100644'') (new_modes patch)
             then Inl (BoundaryError ''Patch contains a forbidden new-file mode'')
             else Inr (sort seen)))"

definition validate_patch_text :: "path \<Rightarrow> ustr list gsm" where
  "validate_patch_text patch_file =
     gbind (gstat patch_file) (\<lambda>st.
     gbind (gcheck (st_size st \<le> MAX_PATCH_BYTES) ''Patch exceeded the byte limit'') (\<lambda>_.
     gbind (gread_text patch_file) (\<lambda>patch.
     glift (validate_patch patch))))"

section \<open>The tree\<close>

definition git_command :: "path option \<Rightarrow> path option \<Rightarrow> git_arg list" where
  "git_command git_dir work_tree =
     [Word (u ''git''), Word (u ''--literal-pathspecs'')]
     @ (case git_dir of None \<Rightarrow> [] | Some d \<Rightarrow> [At (u ''--git-dir='') d])
     @ (case work_tree of None \<Rightarrow> [] | Some d \<Rightarrow> [At (u ''--work-tree='') d])"

text \<open>Which repository view the commands run in.\<close>

record git_view =
  gv_git :: "git_arg list"
  gv_cwd :: "path option"
  gv_index :: "path option"

definition view_run :: "git_view \<Rightarrow> git_arg list \<Rightarrow> git_run" where
  "view_run v args = \<lparr>gr_args = gv_git v @ args, gr_cwd = gv_cwd v, gr_index = gv_index v\<rparr>"

definition records :: "bytes \<Rightarrow> bytes list" where
  "records b = filter (\<lambda>part. part \<noteq> []) (py_split (CHR 0x00) b)"

definition nul_names :: "git_view \<Rightarrow> git_arg list \<Rightarrow> ustr list gsm" where
  "nul_names v args =
     gbind (run_command (view_run v (args @ [Word (u ''-z'')])) True) (\<lambda>outcome.
     case those (map decode_utf8 (records (cp_stdout outcome))) of
       None \<Rightarrow> glift (Inl (Raised UnicodeDecodeError))
     | Some names \<Rightarrow> gret names)"

definition changed_paths :: "git_view \<Rightarrow> (ustr list \<times> ustr list) gsm" where
  "changed_paths v =
     gbind (nul_names v ([Word (u ''diff'')] @ DIFF_SAFETY @ map Word [u ''--name-only'', u ''--diff-filter=ACMRTUXB''])) (\<lambda>names.
     gbind (nul_names v ([Word (u ''diff'')] @ DIFF_SAFETY @ map Word [u ''--name-only'', u ''--diff-filter=D''])) (\<lambda>deleted.
     gret (names, deleted)))"

text \<open>The permission bits \<open>0o111\<close>.\<close>

definition EXECUTABLE :: nat where "EXECUTABLE = 1 * 8 * 8 + 1 * 8 + 1"

definition check_changed_file :: "path \<Rightarrow> ustr \<Rightarrow> int gsm" where
  "check_changed_file workspace name =
     gbind (gcheck (path_allowed name) ''Autonomous maintenance crossed its path boundary'') (\<lambda>_.
     let path = beneath workspace name in
     gbind (glstat path) (\<lambda>st.
     gbind (gcheck (st_kind st = Regular) ''Autonomous maintenance created a non-regular file'') (\<lambda>_.
     gbind (gcheck (st_nlink st = 1) ''Autonomous maintenance created a hard link'') (\<lambda>_.
     gbind (gcheck (st_mode st AND EXECUTABLE = 0) ''Autonomous maintenance created an executable file'') (\<lambda>_.
     gbind (gcheck (st_size st \<le> MAX_FILE_BYTES) ''Autonomous maintenance exceeded the per-file limit'') (\<lambda>_.
     gbind (gread path) (\<lambda>content.
     gbind (gcheck (CHR 0x00 \<notin> set content) ''Autonomous maintenance created a binary file'') (\<lambda>_.
     gret (st_size st)))))))))"

fun check_changed_files :: "path \<Rightarrow> ustr list \<Rightarrow> int \<Rightarrow> int gsm" where
  "check_changed_files workspace [] total_bytes = gret total_bytes"
| "check_changed_files workspace (name # names) total_bytes =
     gbind (check_changed_file workspace name) (\<lambda>size_bytes.
     check_changed_files workspace names (total_bytes + size_bytes))"

text \<open>\<open>int\<close> of a byte string: white space around, a sign, and digits in groups separated by underscores.\<close>

definition is_byte_space :: "int \<Rightarrow> bool" where
  "is_byte_space c \<longleftrightarrow> c = 32 \<or> (9 \<le> c \<and> c \<le> 13)"

definition int_of_bytes :: "bytes \<Rightarrow> int res" where
  "int_of_bytes b =
     (let stripped = rev (dropWhile is_byte_space (rev (dropWhile is_byte_space (octets b))));
          negative = starts_with [45] stripped;
          groups = py_split 95 (if negative \<or> starts_with [43] stripped then tl stripped else stripped) in
      if list_all (\<lambda>g. g \<noteq> [] \<and> all_dec g) groups
      then ebind (py_int_dec (concat groups)) (\<lambda>n. Inr (if negative then - n else n))
      else Inl (ValueError ''invalid literal for int() with base 10''))"

text \<open>One record of \<open>--numstat\<close>: additions, deletions and a path, separated by tabs.\<close>

definition changed_lines_of :: "bytes \<Rightarrow> int guarded" where
  "changed_lines_of line =
     (case py_split (CHR 0x09) line of
        additions # deletions # _ # _ \<Rightarrow>
          if additions = ''-'' \<or> deletions = ''-'' then Inl (BoundaryError ''Autonomous maintenance produced a binary diff'')
          else raised (ebind (int_of_bytes additions) (\<lambda>a. ebind (int_of_bytes deletions) (\<lambda>d. Inr (a + d))))
      | _ \<Rightarrow> Inl (Raised (ValueError ''not enough values to unpack'')))"

fun count_changed_lines :: "bytes list \<Rightarrow> int \<Rightarrow> int guarded" where
  "count_changed_lines [] changed_lines = Inr changed_lines"
| "count_changed_lines (line # lines) changed_lines =
     (case changed_lines_of line of
        Inl e \<Rightarrow> Inl e
      | Inr n \<Rightarrow> count_changed_lines lines (changed_lines + n))"

text \<open>What follows the files: no mode change, a bounded number of changed lines, no white-space error.\<close>

definition check_diff :: "git_view \<Rightarrow> unit gsm" where
  "check_diff v =
     gbind (run_text (view_run v ([Word (u ''diff'')] @ DIFF_SAFETY @ [Word (u ''--summary'')]))) (\<lambda>summary.
     gbind (gcheck (\<not> occurs (u '' mode change '') summary) ''Autonomous maintenance must not change file modes'') (\<lambda>_.
     gbind (run_command (view_run v ([Word (u ''diff'')] @ DIFF_SAFETY @ map Word [u ''--numstat'', u ''-z''])) True) (\<lambda>numstat.
     gbind (glift (count_changed_lines (records (cp_stdout numstat)) 0)) (\<lambda>changed_lines.
     gbind (gcheck (changed_lines \<le> MAX_CHANGED_LINES) ''Autonomous maintenance exceeded the changed-line budget'') (\<lambda>_.
     gbind (run_command (view_run v (map Word [u ''diff'', u ''--no-ext-diff'', u ''--no-textconv'', u ''--check''])) True) (\<lambda>_.
     gret ()))))))"

definition validate_worktree_diff :: "path \<Rightarrow> git_view \<Rightarrow> ustr list gsm" where
  "validate_worktree_diff workspace v =
     gbind (changed_paths v) (\<lambda>(names, deleted).
     gbind (gcheck (deleted = []) ''Autonomous maintenance must not delete files'') (\<lambda>_.
     gbind (gcheck (names \<noteq> []) ''A dirty tree contained no reviewable text changes'') (\<lambda>_.
     gbind (gcheck (length names \<le> MAX_FILES) ''Autonomous maintenance touched too many files'') (\<lambda>_.
     gbind (check_changed_files workspace names 0) (\<lambda>total_bytes.
     gbind (gcheck (total_bytes \<le> MAX_TOTAL_BYTES) ''Autonomous maintenance exceeded the changed-file byte limit'') (\<lambda>_.
     gbind (check_diff v) (\<lambda>_.
     gret names)))))))"

section \<open>Commands\<close>

text \<open>The lines \<open>key=value\<close> appended to the outputs of the workflow step.\<close>

definition write_outputs :: "(ustr \<times> ustr) list \<Rightarrow> unit gsm" where
  "write_outputs entries = (\<lambda>W t.
     case gw_output W of
       None \<Rightarrow> (Inr (), t)
     | Some path \<Rightarrow>
         gcall (\<lambda>W t. gw_write W t path) (Appended path (concat (map (\<lambda>(key, v). key @ [61] @ v @ [10]) entries))) W t)"

definition prepare_diff_index :: "git_arg list \<Rightarrow> ustr \<Rightarrow> path \<Rightarrow> git_view gsm" where
  "prepare_diff_index git head index_file =
     (let v = \<lparr>gv_git = git, gv_cwd = None, gv_index = Some index_file\<rparr> in
      gbind (run_command (view_run v [Word (u ''read-tree''), Word head]) True) (\<lambda>_.
      gbind (run_command (view_run v (map Word [u ''ls-files'', u ''--others'', u ''--exclude-standard'', u ''-z''])) True) (\<lambda>outcome.
      let untracked = cp_stdout outcome in
      if untracked = [] then gret v
      else
        gbind (glift (with_suffix index_file (u ''.pathspec''))) (\<lambda>pathspec.
        gbind (gwrite_bytes pathspec untracked) (\<lambda>_.
        gbind (run_command (view_run v [Word (u ''add''), Word (u ''-N''), At (u ''--pathspec-from-file='') pathspec,
                                         Word (u ''--pathspec-file-nul'')]) True) (\<lambda>_.
        gret v))))))"

record capture_args =
  ca_workspace :: path
  ca_baseline :: path
  ca_base_sha_file :: path
  ca_patch_file :: path
  ca_stat_file :: path

definition plain_run :: "path option \<Rightarrow> git_arg list \<Rightarrow> git_run" where
  "plain_run cwd args = \<lparr>gr_args = args, gr_cwd = cwd, gr_index = None\<rparr>"

text \<open>The validated patch, read from Git again and written out.\<close>

definition write_capture :: "capture_args \<Rightarrow> path \<Rightarrow> git_view \<Rightarrow> ustr \<Rightarrow> int gsm" where
  "write_capture args workspace v expected_head =
     gbind (validate_worktree_diff workspace v) (\<lambda>_.
     gbind (run_command (view_run v ([Word (u ''diff'')] @ DIFF_SAFETY @ [Word (u ''--binary'')])) True) (\<lambda>outcome.
     gbind (run_text (view_run v ([Word (u ''diff'')] @ DIFF_SAFETY @ [Word (u ''--stat'')]))) (\<lambda>stat_text.
     let patch = cp_stdout outcome in
     gbind (gcheck (int (length patch) \<le> MAX_PATCH_BYTES) ''Autonomous maintenance exceeded the patch byte limit'') (\<lambda>_.
     gbind (gwrite_bytes (ca_patch_file args) patch) (\<lambda>_.
     gbind (gwrite_text (ca_stat_file args) stat_text) (\<lambda>_.
     gbind (write_outputs [(u ''changed'', u ''true''), (u ''base_sha'', expected_head)]) (\<lambda>_.
     gret 0)))))))"

definition capture :: "capture_args \<Rightarrow> int gsm" where
  "capture args =
     gbind (gresolve (ca_workspace args)) (\<lambda>workspace.
     gbind (gresolve (ca_baseline args)) (\<lambda>baseline.
     let baseline_git = child baseline (u ''.git'') in
     gbind (gread_text (ca_base_sha_file args)) (\<lambda>base_sha.
     gbind (gstrip base_sha) (\<lambda>expected_head.
     gbind (run_text (plain_run None
       [Word (u ''git''), At (u ''--git-dir='') baseline_git, Word (u ''rev-parse''), Word (u ''HEAD'')])) (\<lambda>head_text.
     gbind (gstrip head_text) (\<lambda>baseline_head.
     gbind (gcheck (baseline_head = expected_head) ''The immutable diff baseline changed during model execution'') (\<lambda>_.
     gbind (glift (with_suffix (ca_patch_file args) (u ''.index''))) (\<lambda>index_file.
     gbind (prepare_diff_index (git_command (Some baseline_git) (Some workspace)) expected_head index_file) (\<lambda>v.
     gbind (run_command (view_run v (map Word [u ''diff'', u ''--no-ext-diff'', u ''--no-textconv'', u ''--quiet''])) False) (\<lambda>outcome.
     if cp_returncode outcome = 0
     then gbind (write_outputs [(u ''changed'', u ''false''), (u ''base_sha'', expected_head)]) (\<lambda>_. gret 0)
     else if cp_returncode outcome \<noteq> 1
     then glift (Inl (BoundaryError ''Git could not determine whether the model changed the workspace''))
     else write_capture args workspace v expected_head))))))))))"

record apply_args =
  aa_workspace :: path
  aa_patch_file :: path
  aa_result_file :: path

text \<open>\<open>json.dumps\<close> of the two members with its default separators, and a line feed.\<close>

definition apply_result :: "ustr \<Rightarrow> ustr \<Rightarrow> ustr" where
  "apply_result base_sha digest =
     u ''{'' @ quote (u ''base_sha'') @ u '': '' @ quote base_sha @ u '', ''
     @ quote (u ''patch_sha256'') @ u '': '' @ quote digest @ u ''}'' @ [10]"

definition gsha256 :: "bytes \<Rightarrow> ustr gsm" where
  "gsha256 b = (\<lambda>W t. (Inr (sha256_hex (gw_env W) b), t))"

text \<open>After the patch is in the tree: the tree is validated, and the digest of the patch recorded.\<close>

definition record_result :: "apply_args \<Rightarrow> path \<Rightarrow> path \<Rightarrow> int gsm" where
  "record_result args workspace patch_file =
     gbind (run_text (plain_run (Some workspace) (map Word [u ''git'', u ''rev-parse'', u ''HEAD'']))) (\<lambda>head_text.
     gbind (gstrip head_text) (\<lambda>base_sha.
     gbind (glift (with_suffix (aa_result_file args) (u ''.index''))) (\<lambda>index_file.
     gbind (prepare_diff_index (git_command (Some (child workspace (u ''.git''))) (Some workspace)) base_sha index_file) (\<lambda>v.
     gbind (validate_worktree_diff workspace v) (\<lambda>_.
     gbind (gread patch_file) (\<lambda>patch.
     gbind (gsha256 patch) (\<lambda>digest.
     gbind (gwrite_text (aa_result_file args) (apply_result base_sha digest)) (\<lambda>_.
     gret 0))))))))"

definition apply_run :: "path \<Rightarrow> path \<Rightarrow> bool \<Rightarrow> git_run" where
  "apply_run workspace patch_file check_only =
     plain_run (Some workspace)
       ([Word (u ''git''), Word (u ''apply'')] @ (if check_only then [Word (u ''--check'')] else []) @ [At [] patch_file])"

definition apply_patch :: "apply_args \<Rightarrow> int gsm" where
  "apply_patch args =
     gbind (gresolve (aa_workspace args)) (\<lambda>workspace.
     gbind (gresolve (aa_patch_file args)) (\<lambda>patch_file.
     gbind (validate_patch_text patch_file) (\<lambda>_.
     gbind (run_command (apply_run workspace patch_file True) True) (\<lambda>_.
     gbind (run_command (apply_run workspace patch_file False) True) (\<lambda>_.
     record_result args workspace patch_file)))))"

text \<open>The errors that the command turns into exit code 1, with a message on the error stream.\<close>

fun rejected :: "guard_error \<Rightarrow> bool" where
  "rejected (BoundaryError _) = True"
| "rejected CalledProcessError = True"
| "rejected (Raised (OSError _)) = True"
| "rejected (Raised e) = is_ValueError e"

datatype guard_command = Capture capture_args | Apply apply_args

fun guard_handler :: "guard_command \<Rightarrow> int gsm" where
  "guard_handler (Capture args) = capture args"
| "guard_handler (Apply args) = apply_patch args"

definition guard_main :: "guard_command \<Rightarrow> int gsm" where
  "guard_main command = (\<lambda>W t.
     case guard_handler command W t of
       (Inl e, t') \<Rightarrow> (if rejected e then (Inl (Raised (SystemExit ''1'')), t') else (Inl e, t'))
     | r \<Rightarrow> r)"

end
