(* ===== verification/Guard_Rules.thy ===== *)
theory Guard_Rules
  imports Product_Guard Policy_Normalization
begin

text \<open>
  What the product guard establishes: which patch texts it accepts, what an accepted tree satisfies,
  and the order of the calls it makes, whatever Git and the file system answer.
\<close>

section \<open>Accepted patch texts\<close>

definition acceptable_patch :: "ustr \<Rightarrow> bool" where
  "acceptable_patch patch \<longleftrightarrow>
     (let paths = map fst (diff_headers patch) in
      paths \<noteq> [] \<and> length paths \<le> MAX_FILES \<and> distinct paths \<and> set paths \<subseteq> Collect path_allowed
      \<and> map snd (diff_headers patch) = paths
      \<and> set (file_markers patch) \<subseteq> UNIV \<times> {u ''/dev/null''}
          \<union> {u ''---''} \<times> (@) (u ''a/'') ` set paths \<union> {u ''+++''} \<times> (@) (u ''b/'') ` set paths
      \<and> filter (\<lambda>token. occurs token patch) FORBIDDEN = []
      \<and> set (new_modes patch) \<subseteq> {u ''100644''})"

lemma check_headers_Inr:
  "check_headers seen headers = Inr paths \<longleftrightarrow>
     paths = seen @ map fst headers \<and> map snd headers = map fst headers
     \<and> set (map fst headers) \<subseteq> Collect path_allowed \<and> distinct (map fst headers)
     \<and> set seen \<inter> set (map fst headers) = {}"
  by (induction seen headers rule: check_headers.induct) auto

lemma starts_with_iff: "starts_with p s \<longleftrightarrow> (\<exists>rest. s = p @ rest)"
  by (metis append_eq_conv_conj starts_with_def)

lemma in_map_filter: "y \<in> set (List.map_filter f xs) \<longleftrightarrow> (\<exists>x \<in> set xs. f x = Some y)"
  by (induction xs) (auto simp: List.map_filter_simps split: option.splits)

lemma marker_names:
  assumes "(m, p) \<in> set (file_markers patch)"
  shows "m = u ''---'' \<or> m = u ''+++''"
proof -
  from assms obtain line where "marker_line line = Some (m, p)" by (auto simp: file_markers_def in_map_filter)
  then show ?thesis
    by (auto simp: marker_line_def starts_with_iff u_def numeral_eq_Suc split: if_splits)
qed

lemma marker_safe:
  assumes "(m, p) \<in> set (file_markers patch)"
  shows "marker_unsafe seen (m, p) = False \<longleftrightarrow>
    (m, p) \<in> UNIV \<times> {u ''/dev/null''} \<union> {u ''---''} \<times> (@) (u ''a/'') ` set seen \<union> {u ''+++''} \<times> (@) (u ''b/'') ` set seen"
proof -
  have cut: "starts_with q p \<and> drop 2 p \<in> set seen \<longleftrightarrow> p \<in> (@) q ` set seen" if "length q = 2" for q
    using that by (auto simp: starts_with_iff)
  have ne: "u ''---'' \<noteq> u ''+++''" by (simp add: u_def)
  show ?thesis
    using marker_names [OF assms] ne cut [of "u ''a/''"] cut [of "u ''b/''"] by (auto simp: marker_unsafe_def u_def)
qed

lemma validate_patch_exact:
  "validate_patch patch = Inr paths \<longleftrightarrow> acceptable_patch patch \<and> paths = sort (map fst (diff_headers patch))"
proof -
  let ?paths = "map fst (diff_headers patch)"
  have markers: "\<not> list_ex (marker_unsafe ?paths) (file_markers patch) \<longleftrightarrow>
      set (file_markers patch) \<subseteq> UNIV \<times> {u ''/dev/null''}
          \<union> {u ''---''} \<times> (@) (u ''a/'') ` set ?paths \<union> {u ''+++''} \<times> (@) (u ''b/'') ` set ?paths"
    using marker_safe [of _ _ patch ?paths] unfolding list_ex_iff subset_eq by (metis prod.exhaust)
  have tokens: "\<not> list_ex (\<lambda>token. occurs token patch) FORBIDDEN \<longleftrightarrow> filter (\<lambda>token. occurs token patch) FORBIDDEN = []"
    by (auto simp: list_ex_iff filter_empty_conv)
  have modes: "\<not> list_ex (\<lambda>mode. mode \<noteq> u ''100644'') (new_modes patch) \<longleftrightarrow> set (new_modes patch) \<subseteq> {u ''100644''}"
    by (auto simp: list_ex_iff)
  show ?thesis
  proof (cases "check_headers [] (diff_headers patch)")
    case (Inl e)
    then have "\<not> acceptable_patch patch"
      using check_headers_Inr [of "[]" "diff_headers patch" ?paths] by (auto simp: acceptable_patch_def Let_def)
    with Inl show ?thesis by (simp add: validate_patch_def Let_def)
  next
    case (Inr seen)
    then have seen: "seen = ?paths" and ok: "map snd (diff_headers patch) = ?paths" "set ?paths \<subseteq> Collect path_allowed" "distinct ?paths"
      unfolding check_headers_Inr by simp_all
    have "acceptable_patch patch \<longleftrightarrow> diff_headers patch \<noteq> [] \<and> length (diff_headers patch) \<le> MAX_FILES
        \<and> \<not> list_ex (marker_unsafe ?paths) (file_markers patch) \<and> \<not> list_ex (\<lambda>token. occurs token patch) FORBIDDEN
        \<and> \<not> list_ex (\<lambda>mode. mode \<noteq> u ''100644'') (new_modes patch)"
      unfolding acceptable_patch_def Let_def markers tokens modes using ok by (simp only: length_map map_is_Nil_conv simp_thms)
    then show ?thesis unfolding validate_patch_def Let_def Inr seen sum.case by auto
  qed
qed

text \<open>A header that Git strips to a path, but that does not carry the two prefixes, is not seen at all:
  this text is accepted with the one path \<open>docs/a.md\<close>, although it creates another file.\<close>

definition unprefixed_patch :: ustr where
  "unprefixed_patch = py_join 10 (map u
     [''diff --git a/docs/a.md b/docs/a.md'', ''--- a/docs/a.md'', ''+++ b/docs/a.md'', ''@@ -1 +1 @@'', ''-a'', ''+b'',
      ''diff --git c/setup.py c/setup.py'', ''new file mode 100644''])"

lemma unprefixed_header_accepted: "validate_patch unprefixed_patch = Inr [u ''docs/a.md'']"
  by code_simp

text \<open>The test against the segment \<open>.\<close> never fires, since \<open>PurePosixPath\<close> removes such segments.\<close>

lemma dot_segment_allowed: "path_allowed (u ''docs/./a.md'')" "posix_parts (u ''docs/./a.md'') = posix_parts (u ''docs/a.md'')"
  by code_simp+

section \<open>Where allowed paths are\<close>

lemma py_split_app: "py_split c (s @ c # t) = py_split c s @ py_split c t"
  by (induction s) (auto split: list.splits)

lemma posix_parts_app: "posix_parts (a @ 47 # b) = posix_parts a @ posix_parts b"
  by (simp add: posix_parts_def py_split_app)

definition product_location :: "path \<Rightarrow> bool" where
  "product_location p \<longleftrightarrow> up \<notin> set p
     \<and> (p \<in> {[u ''README.md''], [u ''CHANGELOG.md'']}
        \<or> inside [u ''src'', u ''egressweave''] p \<or> inside [u ''tests''] p \<or> inside [u ''docs''] p)"

lemma path_allowed_location:
  assumes "path_allowed p"
  shows "product_location (posix_parts p)"
proof -
  have "up \<notin> set (posix_parts p)" using assms by (auto simp: path_allowed_def list_all_iff up_def u_def)
  moreover have files: "posix_parts (u ''README.md'') = [u ''README.md'']" "posix_parts (u ''CHANGELOG.md'') = [u ''CHANGELOG.md'']"
    by code_simp+
  have roots: "u ''src/egressweave/'' = u ''src/egressweave'' @ [47]" "u ''tests/'' = u ''tests'' @ [47]" "u ''docs/'' = u ''docs'' @ [47]"
    "posix_parts (u ''src/egressweave'') = [u ''src'', u ''egressweave'']" "posix_parts (u ''tests'') = [u ''tests'']"
    "posix_parts (u ''docs'') = [u ''docs'']" by code_simp+
  from assms consider "p \<in> ALLOWED_FILES" | dir rest where "dir \<in> set ALLOWED_ROOTS" "p = dir @ rest"
    by (auto simp: path_allowed_def list_ex_iff starts_with_iff)
  then have "posix_parts p \<in> {[u ''README.md''], [u ''CHANGELOG.md'']}
      \<or> inside [u ''src'', u ''egressweave''] (posix_parts p) \<or> inside [u ''tests''] (posix_parts p) \<or> inside [u ''docs''] (posix_parts p)"
  proof cases
    case 1
    with files show ?thesis by (auto simp: ALLOWED_FILES_def)
  next
    case 2
    then show ?thesis by (auto simp: ALLOWED_ROOTS_def roots posix_parts_app inside_def)
  qed
  ultimately show ?thesis by (simp add: product_location_def)
qed

section \<open>Traces\<close>

lemma gbind_run:
  "gbind m f W t = (r, t') \<longleftrightarrow>
     (\<exists>e. m W t = (Inl e, t') \<and> r = Inl e) \<or> (\<exists>x t1. m W t = (Inr x, t1) \<and> f x W t1 = (r, t'))"
  by (auto simp: gbind_def split: prod.splits sum.splits)

lemma gbind_Inr:
  "gbind m f W t = (Inr y, t') \<longleftrightarrow> (\<exists>x t1. m W t = (Inr x, t1) \<and> f x W t1 = (Inr y, t'))"
  by (auto simp: gbind_run)

lemma gcall_run: "gcall ask event W t = (r, t') \<longleftrightarrow> r = raised (ask W t) \<and> t' = t @ [event (ask W t)]"
  by (auto simp: gcall_def)

lemma raised_eq: "raised r = Inr x \<longleftrightarrow> r = Inr x" "Inr x = raised r \<longleftrightarrow> r = Inr x"
  by (auto simp: raised_def split: sum.splits)

lemma gcheck_Inr: "gcheck b m W t = (Inr x, t') \<longleftrightarrow> b \<and> t' = t"
  by (auto simp: gcheck_def glift_def)

lemmas guard_Inr = gbind_Inr gcheck_Inr glift_def gret_def gcall_run raised_eq

definition emits :: "guard_event set \<Rightarrow> 'a gsm \<Rightarrow> bool" where
  "emits A m \<longleftrightarrow> (\<forall>W t r t'. m W t = (r, t') \<longrightarrow> (\<exists>es. t' = t @ es \<and> set es \<subseteq> A))"

lemma emitsI: "(\<And>W t r t'. m W t = (r, t') \<Longrightarrow> \<exists>es. t' = t @ es \<and> set es \<subseteq> A) \<Longrightarrow> emits A m"
  by (simp add: emits_def)

lemma emitsE:
  assumes "emits A m" "m W t = (r, t')"
  obtains es where "t' = t @ es" "set es \<subseteq> A"
  using assms unfolding emits_def by blast

lemma emits_gbind [intro]:
  assumes "emits A m" "\<And>x. emits A (f x)"
  shows "emits A (gbind m f)"
proof (rule emitsI)
  fix W t r t' assume "gbind m f W t = (r, t')"
  then consider e where "m W t = (Inl e, t')" | x t1 where "m W t = (Inr x, t1)" "f x W t1 = (r, t')"
    by (auto simp: gbind_run)
  then show "\<exists>es. t' = t @ es \<and> set es \<subseteq> A"
  proof cases
    case 1
    with assms(1) show ?thesis by (blast elim: emitsE)
  next
    case 2
    from assms(1) 2(1) obtain es where "t1 = t @ es" "set es \<subseteq> A" by (rule emitsE)
    moreover from assms(2) 2(2) obtain es' where "t' = t1 @ es'" "set es' \<subseteq> A" by (rule emitsE)
    ultimately show ?thesis by (intro exI [of _ "es @ es'"]) auto
  qed
qed

lemma emits_basic:
  "emits A (gret x)" "emits A (glift r)" "emits A (gcheck b m)" "emits A (gstrip s)" "emits A (decode_output c)" "emits A (gsha256 c)"
  by (auto intro!: emitsI simp: gret_def glift_def gcheck_def gstrip_def decode_output_def gsha256_def split: option.splits)

lemma emits_gcall: "range event \<subseteq> A \<Longrightarrow> emits A (gcall ask event)"
  by (rule emitsI) (auto simp: gcall_run)

lemma emits_if: "emits A a \<Longrightarrow> emits A b \<Longrightarrow> emits A (if c then a else b)"
  by simp

lemma emits_option: "emits A a \<Longrightarrow> (\<And>x. emits A (f x)) \<Longrightarrow> emits A (case z of None \<Rightarrow> a | Some x \<Rightarrow> f x)"
  by (cases z) simp_all

lemma emits_pair: "(\<And>x y. emits A (f x y)) \<Longrightarrow> emits A (case z of (x, y) \<Rightarrow> f x y)"
  by (cases z) simp

section \<open>Accepted trees\<close>

text \<open>A changed file as it was inspected: its attributes and its content.\<close>

definition inspected :: "path \<Rightarrow> guard_event list \<Rightarrow> ustr \<Rightarrow> int \<Rightarrow> bool" where
  "inspected workspace es name size_bytes \<longleftrightarrow>
     (\<exists>st content. {Lstat (beneath workspace name) (Inr st), ReadBytes (beneath workspace name) (Inr content)} \<subseteq> set es
        \<and> st_kind st = Regular \<and> st_nlink st = 1 \<and> st_mode st AND EXECUTABLE = 0
        \<and> st_size st = size_bytes \<and> size_bytes \<le> MAX_FILE_BYTES \<and> CHR 0x00 \<notin> set content)"

definition ran_ok :: "git_view \<Rightarrow> git_arg list \<Rightarrow> guard_event list \<Rightarrow> bytes \<Rightarrow> bool" where
  "ran_ok v args es out \<longleftrightarrow>
     (\<exists>outcome. Ran (view_run v args) (Inr outcome) \<in> set es \<and> cp_returncode outcome = 0 \<and> cp_stdout outcome = out)"

definition names_run :: "ustr \<Rightarrow> git_arg list" where
  "names_run status = [Word (u ''diff'')] @ DIFF_SAFETY @ map Word [u ''--name-only'', u ''--diff-filter='' @ status, u ''-z'']"

definition tree_bounded :: "path \<Rightarrow> git_view \<Rightarrow> ustr list \<Rightarrow> guard_event list \<Rightarrow> bool" where
  "tree_bounded workspace v names es \<longleftrightarrow>
     names \<noteq> [] \<and> length names \<le> MAX_FILES \<and> set names \<subseteq> Collect path_allowed
     \<and> (\<exists>out. ran_ok v (names_run (u ''ACMRTUXB'')) es out \<and> those (map decode_utf8 (records out)) = Some names)
     \<and> (\<exists>out. ran_ok v (names_run (u ''D'')) es out \<and> records out = [])
     \<and> (\<exists>sizes. list_all2 (inspected workspace es) names sizes \<and> sum_list sizes \<le> MAX_TOTAL_BYTES)
     \<and> (\<exists>out n. ran_ok v ([Word (u ''diff'')] @ DIFF_SAFETY @ map Word [u ''--numstat'', u ''-z'']) es out
          \<and> count_changed_lines (records out) 0 = Inr n \<and> n \<le> MAX_CHANGED_LINES)
     \<and> (\<exists>out. ran_ok v (map Word [u ''diff'', u ''--no-ext-diff'', u ''--no-textconv'', u ''--check'']) es out)"

lemma inspected_mono: "inspected workspace es name n \<Longrightarrow> set es \<subseteq> set es' \<Longrightarrow> inspected workspace es' name n"
  unfolding inspected_def by (elim exE, rule exI, rule exI, blast)

lemma ran_ok_mono: "ran_ok v args es out \<Longrightarrow> set es \<subseteq> set es' \<Longrightarrow> ran_ok v args es' out"
  unfolding ran_ok_def by blast

lemma inspected_all_mono:
  "list_all2 (inspected workspace es) names sizes \<Longrightarrow> set es \<subseteq> set es' \<Longrightarrow> list_all2 (inspected workspace es') names sizes"
  by (erule list.rel_mono_strong) (rule inspected_mono)

lemma run_command_Inr:
  "run_command run checked W t = (Inr outcome, t') \<longleftrightarrow>
     gw_run W t run = Inr outcome \<and> (checked \<longrightarrow> cp_returncode outcome = 0) \<and> t' = t @ [Ran run (Inr outcome)]"
  by (auto simp: run_command_def guard_Inr split: if_splits)

lemma check_changed_file_Inr:
  assumes "check_changed_file workspace name W t = (Inr n, t')"
  shows "\<exists>es. t' = t @ es \<and> path_allowed name \<and> inspected workspace es name n"
  using assms by (auto simp: check_changed_file_def Let_def guard_Inr glstat_def gread_def inspected_def)

lemma check_changed_files_Inr:
  "check_changed_files workspace names n W t = (Inr m, t') \<Longrightarrow>
     \<exists>es sizes. t' = t @ es \<and> set names \<subseteq> Collect path_allowed \<and> list_all2 (inspected workspace es) names sizes
       \<and> m = n + sum_list sizes"
proof (induction workspace names n arbitrary: t rule: check_changed_files.induct)
  case (1 workspace n)
  then show ?case by (simp add: gret_def)
next
  case (2 workspace name names n)
  from "2.prems" obtain k t1 where a: "check_changed_file workspace name W t = (Inr k, t1)"
    and b: "check_changed_files workspace names (n + k) W t1 = (Inr m, t')" by (auto simp: gbind_Inr)
  from check_changed_file_Inr [OF a] obtain es where es: "t1 = t @ es" "path_allowed name" "inspected workspace es name k" by blast
  from "2.IH" [OF b] obtain es' sizes where es': "t' = t1 @ es'" "set names \<subseteq> Collect path_allowed"
    "list_all2 (inspected workspace es') names sizes" "m = n + k + sum_list sizes" by blast
  have "list_all2 (inspected workspace (es @ es')) (name # names) (k # sizes)"
    using inspected_mono [OF es(3), of "es @ es'"] inspected_all_mono [OF es'(3), of "es @ es'"] by simp
  with es es' show ?case by (intro exI [of _ "es @ es'"] exI [of _ "k # sizes"]) simp
qed

lemma nul_names_Inr:
  assumes "nul_names v args W t = (Inr names, t')"
  shows "\<exists>es out. t' = t @ es \<and> ran_ok v (args @ [Word (u ''-z'')]) es out \<and> those (map decode_utf8 (records out)) = Some names"
  using assms by (auto simp: nul_names_def guard_Inr run_command_Inr ran_ok_def split: option.splits)

lemma check_diff_Inr:
  assumes "check_diff v W t = (Inr (), t')"
  shows "\<exists>es. t' = t @ es
     \<and> (\<exists>out n. ran_ok v ([Word (u ''diff'')] @ DIFF_SAFETY @ map Word [u ''--numstat'', u ''-z'']) es out
          \<and> count_changed_lines (records out) 0 = Inr n \<and> n \<le> MAX_CHANGED_LINES)
     \<and> (\<exists>out. ran_ok v (map Word [u ''diff'', u ''--no-ext-diff'', u ''--no-textconv'', u ''--check'']) es out)"
proof -
  let ?numstat = "[Word (u ''diff'')] @ DIFF_SAFETY @ map Word [u ''--numstat'', u ''-z'']"
    and ?check = "map Word [u ''diff'', u ''--no-ext-diff'', u ''--no-textconv'', u ''--check'']"
  from assms obtain summary t1 o1 n o2 where a: "run_text (view_run v ([Word (u ''diff'')] @ DIFF_SAFETY @ [Word (u ''--summary'')])) W t
        = (Inr summary, t1)"
    and b: "cp_returncode o1 = 0" "count_changed_lines (records (cp_stdout o1)) 0 = Inr n" "n \<le> MAX_CHANGED_LINES"
    and c: "cp_returncode o2 = 0" "t' = t1 @ [Ran (view_run v ?numstat) (Inr o1), Ran (view_run v ?check) (Inr o2)]"
    by (auto simp: check_diff_def guard_Inr run_command_Inr)
  from a obtain es where "t1 = t @ es"
    by (auto simp: run_text_def gbind_Inr run_command_Inr decode_output_def split: option.splits)
  with b c show ?thesis
    by (intro exI [of _ "es @ [Ran (view_run v ?numstat) (Inr o1), Ran (view_run v ?check) (Inr o2)]"] conjI
        exI [of _ "cp_stdout o1"] exI [of _ n] exI [of _ "cp_stdout o2"]) (auto simp: ran_ok_def)
qed

lemma validate_worktree_Inr:
  assumes "validate_worktree_diff workspace v W t = (Inr names, t')"
  shows "\<exists>es. t' = t @ es \<and> tree_bounded workspace v names es"
proof -
  from assms obtain t1 t2 t3 total_bytes where a: "changed_paths v W t = (Inr (names, []), t1)"
    and n: "names \<noteq> []" "length names \<le> MAX_FILES"
    and b: "check_changed_files workspace names 0 W t1 = (Inr total_bytes, t2)" "total_bytes \<le> MAX_TOTAL_BYTES"
    and c: "check_diff v W t2 = (Inr (), t')"
    by (auto simp: validate_worktree_diff_def guard_Inr split: prod.splits)
  from a obtain t0 es0 es1 o0 o1 where d: "t0 = t @ es0" "ran_ok v (names_run (u ''ACMRTUXB'')) es0 o0"
      "those (map decode_utf8 (records o0)) = Some names"
      "t1 = t0 @ es1" "ran_ok v (names_run (u ''D'')) es1 o1" "those (map decode_utf8 (records o1)) = Some []"
    by (auto simp: changed_paths_def guard_Inr names_run_def u_def dest!: nul_names_Inr)
  have empty: "records o1 = []" using d(6) by (cases "records o1") (auto split: option.splits)
  from check_changed_files_Inr [OF b(1)] obtain es2 sizes where e: "t2 = t1 @ es2" "set names \<subseteq> Collect path_allowed"
    "list_all2 (inspected workspace es2) names sizes" "total_bytes = sum_list sizes" by auto
  from check_diff_Inr [OF c] obtain es3 o3 m o4 where f: "t' = t2 @ es3"
    "ran_ok v ([Word (u ''diff'')] @ DIFF_SAFETY @ map Word [u ''--numstat'', u ''-z'']) es3 o3"
    "count_changed_lines (records o3) 0 = Inr m" "m \<le> MAX_CHANGED_LINES"
    "ran_ok v (map Word [u ''diff'', u ''--no-ext-diff'', u ''--no-textconv'', u ''--check'']) es3 o4" by blast
  let ?es = "es0 @ es1 @ es2 @ es3"
  have sub: "set es0 \<subseteq> set ?es" "set es1 \<subseteq> set ?es" "set es2 \<subseteq> set ?es" "set es3 \<subseteq> set ?es" by auto
  have "tree_bounded workspace v names ?es"
    unfolding tree_bounded_def
    using n e(2) d(3) empty e(4) b(2) f(3,4) ran_ok_mono [OF d(2) sub(1)] ran_ok_mono [OF d(5) sub(2)]
      inspected_all_mono [OF e(3) sub(3)] ran_ok_mono [OF f(2) sub(4)] ran_ok_mono [OF f(5) sub(4)] by blast
  with d e f show ?thesis by (intro exI [of _ ?es]) simp
qed

text \<open>C36: a tree that the guard accepts has between one and ten changed files and no deleted one. Every
  changed file lies at an allowed place of the workspace and was seen as a regular file with a single
  link, without execute permission, within its bound and without null bytes; their sizes together and
  the changed lines that Git counts are within their bounds.\<close>

theorem worktree_bounded:
  assumes "validate_worktree_diff workspace v W t = (Inr names, t')"
  shows "\<exists>es. t' = t @ es \<and> tree_bounded workspace v names es \<and> posix_parts ` set names \<subseteq> Collect product_location"
proof -
  from validate_worktree_Inr [OF assms] obtain es where es: "t' = t @ es" "tree_bounded workspace v names es" by blast
  then have "posix_parts ` set names \<subseteq> Collect product_location"
    using path_allowed_location by (auto simp: tree_bounded_def)
  with es show ?thesis by blast
qed

text \<open>A world in which one line of the read-me has changed.\<close>

definition example_guard_world :: guard_world where
  "example_guard_world = \<lparr>
     gw_run = (\<lambda>_ run. Inr \<lparr>cp_returncode = 0, cp_stdout =
       if Word (u ''--numstat'') \<in> set (gr_args run) then ''1'' @ [CHR 0x09] @ ''1'' @ [CHR 0x09] @ ''README.md'' @ [CHR 0x00]
       else if Word (u ''--diff-filter=ACMRTUXB'') \<in> set (gr_args run) then ''README.md'' @ [CHR 0x00] else []\<rparr>),
     gw_lstat = (\<lambda>_ _. Inr \<lparr>st_kind = Regular, st_identity = (1, 2), st_size = 6, st_mode = 420, st_nlink = 1\<rparr>),
     gw_stat = (\<lambda>_ _. Inr \<lparr>st_kind = Regular, st_identity = (1, 2), st_size = 6, st_mode = 420, st_nlink = 1\<rparr>),
     gw_read = (\<lambda>_ _. Inr ''after''), gw_write = (\<lambda>_ _. Inr ()), gw_resolve = (\<lambda>_ p. Inr p),
     gw_decode = decode_ascii, gw_output = None, gw_env = ascii_env\<rparr>"

definition example_view :: git_view where
  "example_view = \<lparr>gv_git = git_command None None, gv_cwd = None, gv_index = None\<rparr>"

lemma example_tree:
  "fst (validate_worktree_diff [u ''w''] example_view example_guard_world []) = Inr [u ''README.md'']"
  by code_simp

theorem worktree_bounded_witness:
  "\<exists>es. tree_bounded [u ''w''] example_view [u ''README.md''] es"
proof -
  obtain t' where "validate_worktree_diff [u ''w''] example_view example_guard_world [] = (Inr [u ''README.md''], t')"
    using example_tree by (metis prod.collapse)
  from worktree_bounded [OF this] show ?thesis by blast
qed

section \<open>The order of the calls\<close>

text \<open>Observations of the file system, and all calls but the writing of a text file.\<close>

definition observations :: "guard_event set" where
  "observations = range (case_prod Stat) \<union> range (case_prod Lstat) \<union> range (case_prod ReadBytes) \<union> range (case_prod Resolved)"

definition no_text_written :: "guard_event set" where
  "no_text_written = {ev. case ev of WroteText _ _ _ \<Rightarrow> False | _ \<Rightarrow> True}"

lemma in_no_text: "ev \<in> no_text_written \<longleftrightarrow> (case ev of WroteText _ _ _ \<Rightarrow> False | _ \<Rightarrow> True)"
  by (simp add: no_text_written_def)

lemmas emits_rules = emits_gbind emits_basic emits_if emits_option emits_pair

lemma observing: "emits observations (gstat p)" "emits observations (gread p)" "emits observations (gresolve p)"
    "emits observations (gread_text p)" "emits observations (validate_patch_text p)"
proof -
  show c: "emits observations (gstat p)" "emits observations (gread p)" "emits observations (gresolve p)" for p
    unfolding gstat_def gread_def gresolve_def
    by (rule emits_gcall, force simp: observations_def)+
  show d: "emits observations (gread_text p)" for p unfolding gread_text_def by (intro emits_rules c)
  show "emits observations (validate_patch_text p)" unfolding validate_patch_text_def by (intro emits_rules c d)
qed

lemma textless_calls: "emits no_text_written (glstat p)" "emits no_text_written (gread p)" "emits no_text_written (gwrite_bytes p b)"
    "emits no_text_written (run_command run c)" "emits no_text_written (run_text run)"
proof -
  show "emits no_text_written (glstat p)" "emits no_text_written (gread p)" "emits no_text_written (gwrite_bytes p b)"
    unfolding glstat_def gread_def gwrite_bytes_def by (rule emits_gcall, auto simp: in_no_text)+
  show r: "emits no_text_written (run_command run c)" for c
    unfolding run_command_def by (intro emits_rules emits_gcall) (auto simp: in_no_text)
  show "emits no_text_written (run_text run)" unfolding run_text_def by (intro emits_rules r)
qed

lemma textless_files: "emits no_text_written (check_changed_files p names n)"
proof (induction p names n rule: check_changed_files.induct)
  case (1 p n)
  show ?case by (simp only: check_changed_files.simps emits_basic)
next
  case (2 p name names n)
  have "emits no_text_written (check_changed_file p name)"
    unfolding check_changed_file_def Let_def by (intro emits_rules textless_calls)
  then show ?case unfolding check_changed_files.simps by (intro emits_gbind 2)
qed

lemma textless_tree: "emits no_text_written (validate_worktree_diff p v)"
  unfolding validate_worktree_diff_def changed_paths_def nul_names_def check_diff_def
  by (intro emits_rules textless_calls textless_files)

lemma textless_index: "emits no_text_written (prepare_diff_index git h p)"
  unfolding prepare_diff_index_def Let_def by (intro emits_rules textless_calls)

text \<open>Runs that fail with harmless calls only, or end in a described way.\<close>

definition ends_in :: "guard_world \<Rightarrow> guard_event set \<Rightarrow> (guard_event list \<Rightarrow> 'a guarded \<Rightarrow> bool) \<Rightarrow> 'a gsm \<Rightarrow> bool" where
  "ends_in W A H m \<longleftrightarrow>
     (\<forall>t r t'. m W t = (r, t') \<longrightarrow> (\<exists>es. t' = t @ es \<and> ((\<exists>e. r = Inl e) \<and> set es \<subseteq> A \<or> H es r)))"

lemma ends_inI:
  "(\<And>t r t'. m W t = (r, t') \<Longrightarrow> \<exists>es. t' = t @ es \<and> ((\<exists>e. r = Inl e) \<and> set es \<subseteq> A \<or> H es r)) \<Longrightarrow> ends_in W A H m"
  by (simp add: ends_in_def)

lemma ends_in_gbind:
  assumes m: "emits A m"
    and f: "\<And>x t es. m W t = (Inr x, t @ es) \<Longrightarrow> set es \<subseteq> A \<Longrightarrow> ends_in W A (\<lambda>es'. H (es @ es')) (f x)"
  shows "ends_in W A H (gbind m f)"
proof (rule ends_inI)
  fix t r t' assume "gbind m f W t = (r, t')"
  then consider e where "m W t = (Inl e, t')" "r = Inl e" | x t1 where "m W t = (Inr x, t1)" "f x W t1 = (r, t')"
    by (auto simp: gbind_run)
  then show "\<exists>es. t' = t @ es \<and> ((\<exists>e. r = Inl e) \<and> set es \<subseteq> A \<or> H es r)"
  proof cases
    case 1
    from m 1(1) obtain es where "t' = t @ es" "set es \<subseteq> A" by (rule emitsE)
    with 1 show ?thesis by blast
  next
    case 2
    from m 2(1) obtain es where es: "t1 = t @ es" "set es \<subseteq> A" by (rule emitsE)
    from f [of t x es] 2 es have "ends_in W A (\<lambda>es'. H (es @ es')) (f x)" by simp
    with 2(2) obtain es' where "t' = t1 @ es'" "(\<exists>e. r = Inl e) \<and> set es' \<subseteq> A \<or> H (es @ es') r"
      unfolding ends_in_def by blast
    with es show ?thesis by (intro exI [of _ "es @ es'"]) auto
  qed
qed

text \<open>The last steps of an application: the tree was accepted, the patch read again, the result written.\<close>

definition result_recorded :: "apply_args \<Rightarrow> guard_world \<Rightarrow> path \<Rightarrow> path \<Rightarrow> guard_event list \<Rightarrow> int guarded \<Rightarrow> bool" where
  "result_recorded args W workspace patch_file es r \<longleftrightarrow>
     (\<exists>before v names patch base_sha answer.
        es = before @ [ReadBytes patch_file (Inr patch),
          WroteText (aa_result_file args) (apply_result base_sha (sha256_hex (gw_env W) patch)) answer]
        \<and> set before \<subseteq> no_text_written
        \<and> tree_bounded workspace v names before \<and> posix_parts ` set names \<subseteq> Collect product_location
        \<and> gv_git v = git_command (Some (child workspace (u ''.git''))) (Some workspace)
        \<and> r = (case answer of Inl e \<Rightarrow> Inl (Raised e) | Inr _ \<Rightarrow> Inr 0))"

lemma tree_bounded_mono: "tree_bounded workspace v names es \<Longrightarrow> set es \<subseteq> set es' \<Longrightarrow> tree_bounded workspace v names es'"
  unfolding tree_bounded_def by (elim conjE, intro conjI) (assumption | blast intro: ran_ok_mono inspected_all_mono)+

lemma prepare_diff_index_view:
  "prepare_diff_index git h p W t = (Inr v, t') \<Longrightarrow> gv_git v = git"
  by (auto simp: prepare_diff_index_def Let_def gbind_Inr gret_def split: if_splits)

lemma ends_in_write:
  assumes "\<And>answer. H [WroteText p content answer] (case answer of Inl e \<Rightarrow> Inl (Raised e) | Inr _ \<Rightarrow> Inr n)"
  shows "ends_in W A H (gbind (gwrite_text p content) (\<lambda>_. gret n))"
proof (rule ends_inI)
  fix t r t' assume "gbind (gwrite_text p content) (\<lambda>_. gret n) W t = (r, t')"
  then obtain answer where "t' = t @ [WroteText p content answer]" "r = (case answer of Inl e \<Rightarrow> Inl (Raised e) | Inr _ \<Rightarrow> Inr n)"
    by (auto simp: gbind_run gwrite_text_def gcall_run gret_def raised_def split: sum.splits)
  with assms show "\<exists>es. t' = t @ es \<and> ((\<exists>e. r = Inl e) \<and> set es \<subseteq> A \<or> H es r)" by blast
qed

lemma record_result_ends: "ends_in W no_text_written (result_recorded args W workspace patch_file) (record_result args workspace patch_file)"
  unfolding record_result_def
proof (intro ends_in_write ends_in_gbind emits_rules textless_calls textless_tree textless_index)
  fix head_text t0 es0 base_sha t1 es1 index_file t2 es2 v t3 es3 names t4 es4 patch t5 es5 digest t6 es6 answer
  assume a: "set es0 \<subseteq> no_text_written" "set es1 \<subseteq> no_text_written" "set es2 \<subseteq> no_text_written"
      "set es3 \<subseteq> no_text_written" "set es4 \<subseteq> no_text_written"
    and v: "prepare_diff_index (git_command (Some (child workspace (u ''.git''))) (Some workspace)) base_sha index_file W t3
        = (Inr v, t3 @ es3)"
    and tree: "validate_worktree_diff workspace v W t4 = (Inr names, t4 @ es4)"
    and p: "gread patch_file W t5 = (Inr patch, t5 @ es5)" and d: "gsha256 patch W t6 = (Inr digest, t6 @ es6)"
  from validate_worktree_Inr [OF tree] have tb: "tree_bounded workspace v names es4" by auto
  then have loc: "posix_parts ` set names \<subseteq> Collect product_location"
    using path_allowed_location by (auto simp: tree_bounded_def)
  from p have es5: "es5 = [ReadBytes patch_file (Inr patch)]" by (auto simp: gread_def gcall_run raised_eq)
  from d have es6: "es6 = []" "digest = sha256_hex (gw_env W) patch" by (auto simp: gsha256_def)
  let ?before = "es0 @ es1 @ es2 @ es3 @ es4"
  show "result_recorded args W workspace patch_file (es0 @ es1 @ es2 @ es3 @ es4 @ es5 @ es6 @
      [WroteText (aa_result_file args) (apply_result base_sha digest) answer])
      (case answer of Inl e \<Rightarrow> Inl (Raised e) | Inr _ \<Rightarrow> Inr 0)"
    unfolding result_recorded_def es5 es6
    by (rule exI [of _ ?before], intro exI conjI)
      (use a loc prepare_diff_index_view [OF v] tree_bounded_mono [OF tb, of ?before] in auto)
qed

lemma gread_text_Inr:
  "gread_text p W t = (Inr c, t') \<longleftrightarrow>
     (\<exists>raw content. gw_read W t p = Inr raw \<and> decode_utf8 raw = Some content \<and> c = universal_newlines content
        \<and> t' = t @ [ReadBytes p (Inr raw)])"
proof
  assume "gread_text p W t = (Inr c, t')"
  then show "\<exists>raw content. gw_read W t p = Inr raw \<and> decode_utf8 raw = Some content \<and> c = universal_newlines content
        \<and> t' = t @ [ReadBytes p (Inr raw)]"
    by (auto simp: gread_text_def gread_def guard_Inr split: option.splits)
qed (auto simp: gread_text_def gread_def gbind_def gcall_def raised_def gret_def)

definition patch_accepted :: "path \<Rightarrow> guard_event list \<Rightarrow> bool" where
  "patch_accepted patch_file es \<longleftrightarrow>
     (\<exists>st raw content. {Stat patch_file (Inr st), ReadBytes patch_file (Inr raw)} \<subseteq> set es \<and> st_size st \<le> MAX_PATCH_BYTES
        \<and> decode_utf8 raw = Some content \<and> acceptable_patch (universal_newlines content))"

lemma validate_patch_Inr: "validate_patch patch = Inr paths \<Longrightarrow> acceptable_patch patch"
  by (simp add: validate_patch_exact)

lemma validate_patch_text_Inr:
  assumes "validate_patch_text patch_file W t = (Inr paths, t @ es)"
  shows "patch_accepted patch_file es"
  using assms
  by (auto simp: validate_patch_text_def gstat_def guard_Inr gread_text_Inr patch_accepted_def dest!: validate_patch_Inr)


text \<open>What Git and the tree see after the patch text was accepted.\<close>

definition applied_in_order :: "apply_args \<Rightarrow> guard_world \<Rightarrow> guard_event list \<Rightarrow> int guarded \<Rightarrow> bool" where
  "applied_in_order args W es r \<longleftrightarrow>
     (\<exists>looks workspace patch_file check rest.
        es = looks @ Ran (apply_run workspace patch_file True) check # rest
        \<and> set looks \<subseteq> observations \<and> patch_accepted patch_file looks
        \<and> ((\<exists>e. r = Inl e) \<and> rest = []
           \<or> (\<exists>c applied after. check = Inr c \<and> cp_returncode c = 0
                \<and> rest = Ran (apply_run workspace patch_file False) applied # after
                \<and> ((\<exists>e. r = Inl e) \<and> set after \<subseteq> no_text_written \<or> result_recorded args W workspace patch_file after r))))"

lemma run_command_cases:
  assumes "run_command run True W t = (r, t')"
  obtains answer where "t' = t @ [Ran run answer]" "(\<exists>e. r = Inl e) \<or> (\<exists>c. answer = Inr c \<and> r = Inr c \<and> cp_returncode c = 0)"
  using assms by (auto simp: run_command_def gbind_run gcall_run glift_def gret_def raised_def split: sum.splits if_splits)

lemma apply_runs:
  assumes "gbind (run_command (apply_run workspace patch_file True) True) (\<lambda>_.
      gbind (run_command (apply_run workspace patch_file False) True) (\<lambda>_. record_result args workspace patch_file)) W t = (r, t')"
  obtains check rest where "t' = t @ Ran (apply_run workspace patch_file True) check # rest"
    "(\<exists>e. r = Inl e) \<and> rest = [] \<or> (\<exists>c applied after. check = Inr c \<and> cp_returncode c = 0
        \<and> rest = Ran (apply_run workspace patch_file False) applied # after
        \<and> ((\<exists>e. r = Inl e) \<and> set after \<subseteq> no_text_written \<or> result_recorded args W workspace patch_file after r))"
proof -
  obtain r1 t1 where a: "run_command (apply_run workspace patch_file True) True W t = (r1, t1)" by fastforce
  from a obtain check where c: "t1 = t @ [Ran (apply_run workspace patch_file True) check]"
    "(\<exists>e. r1 = Inl e) \<or> (\<exists>c. check = Inr c \<and> r1 = Inr c \<and> cp_returncode c = 0)" by (rule run_command_cases)
  show thesis
  proof (cases r1)
    case Inl
    with assms a have "(\<exists>e. r = Inl e) \<and> t' = t1" by (auto simp: gbind_run)
    with c that [of check "[]"] show thesis by auto
  next
    case (Inr x)
    obtain r2 t2 where b: "run_command (apply_run workspace patch_file False) True W t1 = (r2, t2)" by fastforce
    from b obtain applied where d: "t2 = t1 @ [Ran (apply_run workspace patch_file False) applied]" by (rule run_command_cases)
    from assms a Inr have run: "gbind (run_command (apply_run workspace patch_file False) True)
        (\<lambda>_. record_result args workspace patch_file) W t1 = (r, t')" by (auto simp: gbind_run)
    show thesis
    proof (cases r2)
      case Inl
      with run b have "(\<exists>e. r = Inl e) \<and> t' = t2" by (auto simp: gbind_run)
      with c d Inr that [of check "[Ran (apply_run workspace patch_file False) applied]"] show thesis by auto
    next
      case (Inr y)
      with run b have "record_result args workspace patch_file W t2 = (r, t')" by (auto simp: gbind_run)
      with record_result_ends obtain after where "t' = t2 @ after"
        "(\<exists>e. r = Inl e) \<and> set after \<subseteq> no_text_written \<or> result_recorded args W workspace patch_file after r"
        unfolding ends_in_def by blast
      with c d \<open>r1 = Inr x\<close> that [of check "Ran (apply_run workspace patch_file False) applied # after"] show thesis by auto
    qed
  qed
qed

text \<open>C33: whatever Git and the file system answer, applying a patch only looks at files until the patch
  text was accepted. Then Git checks the patch, and applies it only if the check succeeded; and the
  result is only written, with the digest of the patch as it was read again, after the changed tree was
  accepted.\<close>

theorem patch_applied_in_order:
  "case apply_patch args W t of (r, t') \<Rightarrow>
     \<exists>es. t' = t @ es \<and> ((\<exists>e. r = Inl e) \<and> set es \<subseteq> observations \<or> applied_in_order args W es r)"
proof -
  have "ends_in W observations (applied_in_order args W) (apply_patch args)"
    unfolding apply_patch_def
  proof ((rule ends_in_gbind, rule observing)+)
    fix workspace t0 es0 patch_file t1 es1 paths t2 es2
    assume sub: "set es0 \<subseteq> observations" "set es1 \<subseteq> observations" "set es2 \<subseteq> observations"
      and "validate_patch_text patch_file W t2 = (Inr paths, t2 @ es2)"
    then have "patch_accepted patch_file es2" by (intro validate_patch_text_Inr)
    then have acc: "patch_accepted patch_file (es0 @ es1 @ es2)"
      unfolding patch_accepted_def by (elim exE, intro exI) auto
    show "ends_in W observations (\<lambda>es'. applied_in_order args W (es0 @ es1 @ es2 @ es'))
       (gbind (run_command (apply_run workspace patch_file True) True) (\<lambda>_.
        gbind (run_command (apply_run workspace patch_file False) True) (\<lambda>_. record_result args workspace patch_file)))"
    proof (rule ends_inI)
      fix t r t'
      assume "gbind (run_command (apply_run workspace patch_file True) True) (\<lambda>_.
        gbind (run_command (apply_run workspace patch_file False) True) (\<lambda>_. record_result args workspace patch_file)) W t = (r, t')"
      then obtain check rest where shape: "t' = t @ Ran (apply_run workspace patch_file True) check # rest"
        "(\<exists>e. r = Inl e) \<and> rest = [] \<or> (\<exists>c applied after. check = Inr c \<and> cp_returncode c = 0
            \<and> rest = Ran (apply_run workspace patch_file False) applied # after
            \<and> ((\<exists>e. r = Inl e) \<and> set after \<subseteq> no_text_written \<or> result_recorded args W workspace patch_file after r))"
        by (rule apply_runs)
      have "applied_in_order args W ((es0 @ es1 @ es2) @ Ran (apply_run workspace patch_file True) check # rest) r"
        unfolding applied_in_order_def
        by (rule exI [of _ "es0 @ es1 @ es2"], rule exI [of _ workspace], rule exI [of _ patch_file], rule exI [of _ check],
            rule exI [of _ rest], intro conjI) (use acc sub shape(2) in auto)
      with shape(1) show "\<exists>es. t' = t @ es \<and> ((\<exists>e. r = Inl e) \<and> set es \<subseteq> observations
          \<or> applied_in_order args W (es0 @ es1 @ es2 @ es) r)" by auto
    qed
  qed
  then show ?thesis unfolding ends_in_def by (auto split: prod.splits)
qed

section \<open>Capturing\<close>

text \<open>All calls but those that publish the result of a capture: its statistics and the step outputs.\<close>

definition unpublished :: "guard_event set" where
  "unpublished = {ev. case ev of WroteText _ _ _ \<Rightarrow> False | Appended _ _ _ \<Rightarrow> False | _ \<Rightarrow> True}"

lemma unpublished_calls: "emits unpublished (glstat p)" "emits unpublished (gread p)" "emits unpublished (gwrite_bytes p b)"
    "emits unpublished (run_command run c)" "emits unpublished (run_text run)" "emits unpublished (gresolve p)"
    "emits unpublished (gread_text p)"
proof -
  show a: "emits unpublished (glstat p)" "emits unpublished (gread p)" "emits unpublished (gwrite_bytes p b)" "emits unpublished (gresolve p)"
    unfolding glstat_def gread_def gwrite_bytes_def gresolve_def by (rule emits_gcall, auto simp: unpublished_def)+
  show r: "emits unpublished (run_command run c)" for c
    unfolding run_command_def by (intro emits_rules emits_gcall) (auto simp: unpublished_def)
  show "emits unpublished (run_text run)" unfolding run_text_def by (intro emits_rules r)
  show "emits unpublished (gread_text p)" unfolding gread_text_def by (intro emits_rules a)
qed

lemma unpublished_files: "emits unpublished (check_changed_files p names n)"
proof (induction p names n rule: check_changed_files.induct)
  case (1 p n)
  show ?case by (simp only: check_changed_files.simps emits_basic)
next
  case (2 p name names n)
  have "emits unpublished (check_changed_file p name)"
    unfolding check_changed_file_def Let_def by (intro emits_rules unpublished_calls)
  then show ?case unfolding check_changed_files.simps by (intro emits_gbind 2)
qed

lemma unpublished_tree: "emits unpublished (validate_worktree_diff p v)"
  unfolding validate_worktree_diff_def changed_paths_def nul_names_def check_diff_def
  by (intro emits_rules unpublished_calls unpublished_files)

lemma unpublished_index: "emits unpublished (prepare_diff_index git h p)"
  unfolding prepare_diff_index_def Let_def by (intro emits_rules unpublished_calls)

definition output_line :: "bool \<Rightarrow> ustr \<Rightarrow> ustr" where
  "output_line changed head = u ''changed'' @ [61] @ u (if changed then ''true'' else ''false'') @ [10] @ u ''base_sha'' @ [61] @ head @ [10]"

definition appended :: "ustr \<Rightarrow> guard_event set" where
  "appended content = {ev. \<exists>p answer. ev = Appended p content answer}"

text \<open>The published outcomes: nothing has changed, or a patch of an accepted tree was written before.\<close>

definition unchanged_capture :: "git_view \<Rightarrow> ustr \<Rightarrow> guard_event list \<Rightarrow> guard_event list \<Rightarrow> bool" where
  "unchanged_capture v head before after \<longleftrightarrow>
     (\<exists>out. ran_ok v (map Word [u ''diff'', u ''--no-ext-diff'', u ''--no-textconv'', u ''--quiet'']) before out)
     \<and> set after \<subseteq> appended (output_line False head)"

definition written_capture :: "capture_args \<Rightarrow> path \<Rightarrow> git_view \<Rightarrow> ustr \<Rightarrow> guard_event list \<Rightarrow> guard_event list \<Rightarrow> bool" where
  "written_capture args workspace v head before after \<longleftrightarrow>
     (\<exists>names patch stat_text. tree_bounded workspace v names before \<and> posix_parts ` set names \<subseteq> Collect product_location
        \<and> ran_ok v ([Word (u ''diff'')] @ DIFF_SAFETY @ [Word (u ''--binary'')]) before patch
        \<and> int (length patch) \<le> MAX_PATCH_BYTES \<and> WroteBytes (ca_patch_file args) patch (Inr ()) \<in> set before
        \<and> set after \<subseteq> range (WroteText (ca_stat_file args) stat_text) \<union> appended (output_line True head))"

text \<open>The commit that the base file names, which is the head of the baseline.\<close>

definition baseline_head_is :: "capture_args \<Rightarrow> guard_world \<Rightarrow> path \<Rightarrow> ustr \<Rightarrow> guard_event list \<Rightarrow> bool" where
  "baseline_head_is args W baseline head es \<longleftrightarrow>
     (\<exists>raw content outcome text_out.
        {ReadBytes (ca_base_sha_file args) (Inr raw),
         Ran (plain_run None [Word (u ''git''), At (u ''--git-dir='') (child baseline (u ''.git'')), Word (u ''rev-parse''), Word (u ''HEAD'')])
           (Inr outcome)} \<subseteq> set es
        \<and> decode_utf8 raw = Some content \<and> head = py_strip (gw_env W) (universal_newlines content)
        \<and> cp_returncode outcome = 0 \<and> gw_decode W (cp_stdout outcome) = Some text_out
        \<and> head = py_strip (gw_env W) (universal_newlines text_out))"

definition captured :: "capture_args \<Rightarrow> guard_world \<Rightarrow> guard_event list \<Rightarrow> bool" where
  "captured args W es \<longleftrightarrow>
     (\<exists>before after workspace baseline v head.
        es = before @ after \<and> set before \<subseteq> unpublished \<and> baseline_head_is args W baseline head before
        \<and> gv_git v = git_command (Some (child baseline (u ''.git''))) (Some workspace)
        \<and> (unchanged_capture v head before after \<or> written_capture args workspace v head before after))"

lemma ends_in_published:
  assumes "emits B m" "\<And>es r. set es \<subseteq> B \<Longrightarrow> H es r"
  shows "ends_in W A H m"
proof (rule ends_inI)
  fix t r t' assume "m W t = (r, t')"
  with assms(1) obtain es where "t' = t @ es" "set es \<subseteq> B" by (rule emitsE)
  with assms(2) show "\<exists>es. t' = t @ es \<and> ((\<exists>e. r = Inl e) \<and> set es \<subseteq> A \<or> H es r)" by auto
qed

lemma output_lines:
  "concat (map (\<lambda>(key, v). key @ [61] @ v @ [10]) [(u ''changed'', u ''true''), (u ''base_sha'', head)]) = output_line True head"
  "concat (map (\<lambda>(key, v). key @ [61] @ v @ [10]) [(u ''changed'', u ''false''), (u ''base_sha'', head)]) = output_line False head"
  by (simp_all only: output_line_def list.map prod.case concat.simps append_assoc append_Nil2 if_True if_False)

lemma write_outputs_emits:
  assumes "appended (concat (map (\<lambda>(key, v). key @ [61] @ v @ [10]) entries)) \<subseteq> B"
  shows "emits B (write_outputs entries)"
proof (rule emitsI)
  fix W t r t' assume "write_outputs entries W t = (r, t')"
  then have "\<exists>es. t' = t @ es \<and> set es \<subseteq> appended (concat (map (\<lambda>(key, v). key @ [61] @ v @ [10]) entries))"
    by (auto simp: write_outputs_def gcall_run appended_def simp del: append.simps split: option.splits)
  with assms show "\<exists>es. t' = t @ es \<and> set es \<subseteq> B" by blast
qed

lemma gwrite_text_emits: "range (WroteText f s) \<subseteq> B \<Longrightarrow> emits B (gwrite_text f s)"
  unfolding gwrite_text_def by (rule emits_gcall)

lemma write_capture_ends:
  "ends_in W unpublished (\<lambda>es _. \<exists>before after. es = before @ after \<and> set before \<subseteq> unpublished
     \<and> written_capture args workspace v head before after) (write_capture args workspace v head)"
  unfolding write_capture_def Let_def
proof ((rule ends_in_gbind, (rule unpublished_tree unpublished_calls emits_basic))+)
  fix names t0 es0 outcome t1 es1 stat_text t2 es2 x3 t3 es3 x4 t4 es4
  assume sub: "set es0 \<subseteq> unpublished" "set es1 \<subseteq> unpublished" "set es2 \<subseteq> unpublished" "set es3 \<subseteq> unpublished" "set es4 \<subseteq> unpublished"
    and tree: "validate_worktree_diff workspace v W t0 = (Inr names, t0 @ es0)"
    and bin: "run_command (view_run v ([Word (u ''diff'')] @ DIFF_SAFETY @ [Word (u ''--binary'')])) True W t1 = (Inr outcome, t1 @ es1)"
    and small: "gcheck (int (length (cp_stdout outcome)) \<le> MAX_PATCH_BYTES) ''Autonomous maintenance exceeded the patch byte limit'' W t3 = (Inr x3, t3 @ es3)"
    and wr: "gwrite_bytes (ca_patch_file args) (cp_stdout outcome) W t4 = (Inr x4, t4 @ es4)"
  let ?before = "es0 @ es1 @ es2 @ es3 @ es4"
  from validate_worktree_Inr [OF tree] have tb: "tree_bounded workspace v names es0" by auto
  then have loc: "posix_parts ` set names \<subseteq> Collect product_location"
    using path_allowed_location by (auto simp: tree_bounded_def)
  from bin have b: "ran_ok v ([Word (u ''diff'')] @ DIFF_SAFETY @ [Word (u ''--binary'')]) es1 (cp_stdout outcome)"
    by (auto simp: run_command_Inr ran_ok_def)
  from wr have w: "WroteBytes (ca_patch_file args) (cp_stdout outcome) (Inr ()) \<in> set es4"
    by (auto simp: gwrite_bytes_def gcall_run raised_eq)
  have written: "written_capture args workspace v head ?before after"
    if "set after \<subseteq> range (WroteText (ca_stat_file args) stat_text) \<union> appended (output_line True head)" for after
    unfolding written_capture_def
    by (rule exI [of _ names], rule exI [of _ "cp_stdout outcome"], rule exI [of _ stat_text], intro conjI)
      (use tree_bounded_mono [OF tb, of ?before] loc ran_ok_mono [OF b, of ?before] small w that in \<open>auto simp: gcheck_Inr\<close>)
  show "ends_in W unpublished (\<lambda>es' _. \<exists>before after. es0 @ es1 @ es2 @ es3 @ es4 @ es' = before @ after \<and> set before \<subseteq> unpublished
       \<and> written_capture args workspace v head before after)
     (gbind (gwrite_text (ca_stat_file args) stat_text) (\<lambda>_.
      gbind (write_outputs [(u ''changed'', u ''true''), (u ''base_sha'', head)]) (\<lambda>_. gret 0)))"
  proof (rule ends_in_published)
    show "emits (range (WroteText (ca_stat_file args) stat_text) \<union> appended (output_line True head))
      (gbind (gwrite_text (ca_stat_file args) stat_text) (\<lambda>_.
       gbind (write_outputs [(u ''changed'', u ''true''), (u ''base_sha'', head)]) (\<lambda>_. gret 0)))"
      by (intro emits_gbind gwrite_text_emits write_outputs_emits emits_basic) (simp_all only: output_lines Un_upper1 Un_upper2)
  next
    fix es r assume "set es \<subseteq> range (WroteText (ca_stat_file args) stat_text) \<union> appended (output_line True head)"
    with written sub show "\<exists>before after. es0 @ es1 @ es2 @ es3 @ es4 @ es = before @ after \<and> set before \<subseteq> unpublished
       \<and> written_capture args workspace v head before after"
      by (intro exI [of _ ?before] exI [of _ es]) auto
  qed
qed

lemma ran_ok_quiet:
  "run_command (view_run v args) checked W t = (Inr outcome, t @ es) \<Longrightarrow> cp_returncode outcome = 0 \<Longrightarrow> ran_ok v args es (cp_stdout outcome)"
  by (auto simp: run_command_Inr ran_ok_def)

lemma tree_and_publish:
  assumes w: "written_capture args workspace v head before after" and sub: "set before \<subseteq> set before'"
  shows "written_capture args workspace v head before' after"
proof -
  from w obtain names patch stat_text where "tree_bounded workspace v names before" "posix_parts ` set names \<subseteq> Collect product_location"
    "ran_ok v ([Word (u ''diff'')] @ DIFF_SAFETY @ [Word (u ''--binary'')]) before patch" "int (length patch) \<le> MAX_PATCH_BYTES"
    "WroteBytes (ca_patch_file args) patch (Inr ()) \<in> set before"
    "set after \<subseteq> range (WroteText (ca_stat_file args) stat_text) \<union> appended (output_line True head)"
    unfolding written_capture_def by blast
  with sub tree_bounded_mono [of workspace v names before before'] ran_ok_mono [of v _ before patch before']
  show ?thesis unfolding written_capture_def by blast
qed

lemma baseline_head_steps:
  assumes "gread_text (ca_base_sha_file args) W t2 = (Inr base_sha, t2 @ es2)" "gstrip base_sha W t3 = (Inr expected, t3 @ es3)"
    "run_text (plain_run None [Word (u ''git''), At (u ''--git-dir='') (child baseline (u ''.git'')), Word (u ''rev-parse''), Word (u ''HEAD'')])
        W t4 = (Inr head_text, t4 @ es4)" "gstrip head_text W t5 = (Inr expected, t5 @ es5)"
  shows "baseline_head_is args W baseline expected (es2 @ es4)"
  using assms
  by (auto simp: baseline_head_is_def gread_text_Inr gstrip_def run_text_def gbind_Inr run_command_Inr decode_output_def
      split: option.splits)

lemma ends_in_fail: "ends_in W A H (glift (Inl e))"
  by (rule ends_inI) (auto simp: glift_def)

lemma capture_decided:
  assumes sub: "set es \<subseteq> unpublished" and bh: "baseline_head_is args W baseline head es"
    and view: "gv_git v = git_command (Some (child baseline (u ''.git''))) (Some workspace)"
    and quiet: "cp_returncode outcome = 0 \<Longrightarrow>
      ran_ok v (map Word [u ''diff'', u ''--no-ext-diff'', u ''--no-textconv'', u ''--quiet'']) es (cp_stdout outcome)"
  shows "ends_in W unpublished (\<lambda>es' _. captured args W (es @ es'))
     (if cp_returncode outcome = 0
      then gbind (write_outputs [(u ''changed'', u ''false''), (u ''base_sha'', head)]) (\<lambda>_. gret (0 :: int))
      else if cp_returncode outcome \<noteq> 1
      then glift (Inl (BoundaryError ''Git could not determine whether the model changed the workspace''))
      else write_capture args workspace v head)"
proof -
  have final: "captured args W (es @ before @ after)"
    if "set before \<subseteq> unpublished" "unchanged_capture v head (es @ before) after
        \<or> written_capture args workspace v head (es @ before) after" for before after
    unfolding captured_def
  proof (rule exI [of _ "es @ before"], rule exI [of _ after], rule exI [of _ workspace], rule exI [of _ baseline], rule exI [of _ v],
      rule exI [of _ head], intro conjI)
    show "baseline_head_is args W baseline head (es @ before)"
      using bh unfolding baseline_head_is_def by (elim exE, intro exI) auto
  qed (use sub view that in auto)
  have unchanged: "ends_in W unpublished (\<lambda>es' _. captured args W (es @ es'))
      (gbind (write_outputs [(u ''changed'', u ''false''), (u ''base_sha'', head)]) (\<lambda>_. gret (0 :: int)))" if "cp_returncode outcome = 0"
  proof (rule ends_in_published)
    show "emits (appended (output_line False head))
        (gbind (write_outputs [(u ''changed'', u ''false''), (u ''base_sha'', head)]) (\<lambda>_. gret (0 :: int)))"
      by (intro emits_gbind write_outputs_emits emits_basic) (simp_all only: output_lines subset_refl)
  next
    fix after r assume "set after \<subseteq> appended (output_line False head)"
    with quiet [OF that] have "unchanged_capture v head es after" unfolding unchanged_capture_def by blast
    with final [of "[]" after] show "captured args W (es @ after)" by simp
  qed
  have "captured args W (es @ before @ after)"
    if "set before \<subseteq> unpublished" "written_capture args workspace v head before after" for before after
    using final [of before after] that tree_and_publish [OF that(2), of "es @ before"] by simp
  then have "ends_in W unpublished (\<lambda>es' _. captured args W (es @ es')) (write_capture args workspace v head)"
    using write_capture_ends [of W args workspace v head] unfolding ends_in_def by blast
  with unchanged show ?thesis by (simp add: ends_in_fail)
qed


section \<open>Runs that succeed\<close>

text \<open>In the example world a patch of the documentation is applied, and a change is captured.\<close>

definition example_patch :: bytes where
  "example_patch = concat (map (\<lambda>line. line @ [CHR 0x0A])
     [''diff --git a/docs/a.md b/docs/a.md'', ''--- a/docs/a.md'', ''+++ b/docs/a.md'', ''@@ -1 +1 @@'', ''-a'', ''+b''])"

definition example_apply :: apply_args where
  "example_apply = \<lparr>aa_workspace = [u ''w''], aa_patch_file = [u ''p.patch''], aa_result_file = [u ''r.json'']\<rparr>"

definition example_apply_world :: guard_world where
  "example_apply_world = example_guard_world\<lparr>gw_read := (\<lambda>_ p. Inr (if p = [u ''p.patch''] then example_patch else ''after''))\<rparr>"

lemma example_applied: "fst (guard_main (Apply example_apply) example_apply_world []) = Inr 0"
  by code_simp

definition example_capture :: capture_args where
  "example_capture = \<lparr>ca_workspace = [u ''w''], ca_baseline = [u ''b''], ca_base_sha_file = [u ''s''],
     ca_patch_file = [u ''p.patch''], ca_stat_file = [u ''p.stat'']\<rparr>"

definition example_capture_world :: guard_world where
  "example_capture_world = example_guard_world\<lparr>
     gw_run := (\<lambda>t run. if Word (u ''--quiet'') \<in> set (gr_args run) then Inr \<lparr>cp_returncode = 1, cp_stdout = []\<rparr>
       else if Word (u ''rev-parse'') \<in> set (gr_args run) then Inr \<lparr>cp_returncode = 0, cp_stdout = ''after'' @ [CHR 0x0A]\<rparr>
       else gw_run example_guard_world t run)\<rparr>"

lemma example_captured:
  "fst (guard_main (Capture example_capture) example_capture_world []) = Inr 0"
  "WroteBytes [u ''p.patch''] [] (Inr ()) \<in> set (snd (guard_main (Capture example_capture) example_capture_world []))"
  by code_simp+

end
