(* ===== verification/Verify_Distribution.thy ===== *)
theory Verify_Distribution
  imports Sbom_Document
begin

text \<open>
  \<open>scripts/ci/verify_distribution.py\<close>: the two archives of a release are read as data, each through
  a private snapshot whose source is measured before and after, checked against the project table
  and, for a published tag, against the changelog; then their checksums are written.

  The standard library's parsers (\<open>tomllib\<close>, \<open>zipfile\<close>, \<open>tarfile\<close>, \<open>email\<close>) are parameters. The unnamed
  temporary file of a snapshot is taken as a file of a private directory. Messages are kept without
  the quoted parts.
\<close>

text \<open>The entries of the \<open>project\<close> table that the script reads, as text.\<close>

record project_table =
  pj_name :: ustr
  pj_version :: ustr
  pj_requires_python :: ustr
  pj_license :: ustr

record verify_lib =
  vl_env :: pyenv
  vl_decimal :: "int \<Rightarrow> bool"                       \<comment> \<open>\<open>\d\<close> for a non-ASCII character\<close>
  vl_project :: "bytes \<Rightarrow> project_table res"         \<comment> \<open>\<open>tomllib.load(f)["project"]\<close>\<close>
  vl_archives :: archive_lib
  vl_tar_gz :: "bytes \<Rightarrow> tar_member list res"        \<comment> \<open>\<open>tarfile.open(mode="r:gz").getmembers()\<close>\<close>

definition HASH_CHUNK_SIZE :: nat where "HASH_CHUNK_SIZE = 1024 * 1024"
definition MAX_DISTRIBUTION_BYTES :: int where "MAX_DISTRIBUTION_BYTES = 256 * 1024 * 1024"

section \<open>Stable archives\<close>

abbreviation unsafe_archive :: exn where
  "unsafe_archive \<equiv> SystemExit ''distribution archive is missing or unsafe''"

abbreviation oversized_archive :: exn where
  "oversized_archive \<equiv> SystemExit ''distribution archive exceeds the 256 MiB verification limit''"

definition require_regular_distribution_state :: "path \<Rightarrow> file_state fsm" where
  "require_regular_distribution_state archive_path =
     fbind (observe (\<lambda>v. fv_lstat v archive_path)) (\<lambda>state.
       case state of
         None \<Rightarrow> fraise unsafe_archive
       | Some archive_state \<Rightarrow>
           if st_kind archive_state \<noteq> Regular then fraise unsafe_archive
           else if st_size archive_state > MAX_DISTRIBUTION_BYTES then fraise oversized_archive
           else fret archive_state)"

definition same_distribution_state :: "file_state \<Rightarrow> file_state \<Rightarrow> bool" where
  "same_distribution_state expected observed \<longleftrightarrow>
     st_kind observed = Regular \<and> st_identity expected = st_identity observed \<and> st_size expected = st_size observed"

text \<open>Reading exactly a number of bytes, chunk by chunk: the bytes read and those left; None: the file
  ends before. A chunk is not empty, so the number of remaining bytes decreases.\<close>

function copy_exact :: "nat \<Rightarrow> bytes \<Rightarrow> bytes \<Rightarrow> (bytes \<times> bytes) option" where
  "copy_exact remaining copied rest =
     (if remaining = 0 then Some (copied, rest)
      else
       (let chunk = take (min HASH_CHUNK_SIZE remaining) rest in
        if chunk = [] then None
        else copy_exact (remaining - length chunk) (copied @ chunk) (drop (length chunk) rest)))"
  by pat_completeness auto
termination
  by (relation "measure (\<lambda>(remaining, _, _). remaining)") auto

declare copy_exact.simps [simp del]

text \<open>A file that is read once more: its digest if it has exactly the accepted size; None: it has not.\<close>

definition sha256_exact_size :: "pyenv \<Rightarrow> bytes \<Rightarrow> bool \<Rightarrow> nat \<Rightarrow> ustr option res" where
  "sha256_exact_size E content fails expected_size =
     (case copy_exact expected_size [] content of
        None \<Rightarrow> if fails then Inl (OSError []) else Inr None
      | Some (b, extra) \<Rightarrow>
          if extra \<noteq> [] then Inr None
          else if fails then Inl (OSError [])
          else Inr (Some (sha256_hex E b)))"

text \<open>\<open>except SystemExit: raise\<close> and \<open>except OSError: raise SystemExit\<close>.\<close>

definition closing_errors :: "'a res \<Rightarrow> 'a res" where
  "closing_errors r = (case r of Inl (OSError _) \<Rightarrow> Inl unsafe_archive | _ \<Rightarrow> r)"

definition source_state :: "opened_file \<Rightarrow> file_state fsm" where
  "source_state file =
     fbind (observe (\<lambda>v. sv_fstat (fv_stream v (st_identity (op_state file))))) (\<lambda>r. flift (closing_errors r))"

text \<open>The bytes of the private snapshot: exactly the accepted size, of a source that did not change.\<close>

definition take_snapshot :: "path \<Rightarrow> file_state \<Rightarrow> opened_file \<Rightarrow> bytes fsm" where
  "take_snapshot archive_path expected_state file =
     fbind (observe fv_temporary) (\<lambda>temporary.
       case temporary of
         None \<Rightarrow> fraise unsafe_archive
       | Some dir \<Rightarrow>
           (case copy_exact (nat (st_size expected_state)) [] (op_bytes file) of
              None \<Rightarrow> fraise unsafe_archive
            | Some (copied, extra) \<Rightarrow>
                fbind (observe (\<lambda>v. fv_write_fails v dir)) (\<lambda>write_fails.
                if write_fails then fraise unsafe_archive
                else if extra \<noteq> [] then fraise oversized_archive
                else if op_fails file then fraise unsafe_archive
                else
                  fbind (source_state file) (\<lambda>snapshot_open_state.
                  fbind (require_regular_distribution_state archive_path) (\<lambda>snapshot_path_state.
                  if \<not> same_distribution_state expected_state snapshot_open_state
                     \<or> \<not> same_distribution_state expected_state snapshot_path_state
                  then fraise unsafe_archive
                  else fret copied)))))"

text \<open>After the parser: the state of the open source and, if it is the accepted one, its digest.\<close>

definition final_source :: "pyenv \<Rightarrow> file_state \<Rightarrow> opened_file \<Rightarrow> (file_state \<times> ustr option) fsm" where
  "final_source E expected_state file =
     fbind (source_state file) (\<lambda>final_open_state.
     if same_distribution_state expected_state final_open_state
     then
       fbind (observe (\<lambda>v. fv_stream v (st_identity (op_state file)))) (\<lambda>stream.
       fbind (flift (closing_errors (sha256_exact_size E (sv_bytes stream) (sv_fails stream) (nat (st_size expected_state)))))
         (\<lambda>digest. fret (final_open_state, digest)))
     else fret (final_open_state, None))"

text \<open>The context manager around a parser, which gets the bytes of the snapshot.\<close>

definition with_stable_distribution :: "pyenv \<Rightarrow> path \<Rightarrow> (bytes \<Rightarrow> 'a res) \<Rightarrow> 'a fsm" where
  "with_stable_distribution E archive_path parser =
     fbind (require_regular_distribution_state archive_path) (\<lambda>expected_state.
     fbind (observe (\<lambda>v. fv_open v archive_path)) (\<lambda>opened_archive.
       case opened_archive of
         None \<Rightarrow> fraise unsafe_archive
       | Some file \<Rightarrow>
           if \<not> same_distribution_state expected_state (op_state file) then fraise unsafe_archive
           else
             fbind (take_snapshot archive_path expected_state file) (\<lambda>snapshot.
             fbind (flift (closing_errors (parser snapshot))) (\<lambda>result.
             fbind (final_source E expected_state file) (\<lambda>(final_open_state, final_source_digest).
             fbind (require_regular_distribution_state archive_path) (\<lambda>final_path_state.
             if \<not> same_distribution_state expected_state final_open_state
                \<or> \<not> same_distribution_state expected_state final_path_state
             then fraise unsafe_archive
             else if final_source_digest \<noteq> Some (sha256_hex E snapshot) then fraise unsafe_archive
             else fret result))))))"

section \<open>Selection\<close>

definition normalized_distribution_stem :: "pyenv \<Rightarrow> ustr \<Rightarrow> ustr" where
  "normalized_distribution_stem E name = py_lower E (map (\<lambda>c. if c = 45 then 95 else c) (collapse_separators False name))"

fun require_archive_states :: "path list \<Rightarrow> unit fsm" where
  "require_archive_states [] = fret ()"
| "require_archive_states (p # ps) = fbind (require_regular_distribution_state p) (\<lambda>_. require_archive_states ps)"

text \<open>A glob for a suffix; a directory that cannot be listed has no matches.\<close>

definition glob_suffix :: "path \<Rightarrow> ustr \<Rightarrow> path list fsm" where
  "glob_suffix dir suffix =
     fbind (observe (\<lambda>v. fv_entries v dir)) (\<lambda>listed.
     fret (case listed of None \<Rightarrow> [] | Some children \<Rightarrow> filter (\<lambda>p. ends_with suffix (path_name p)) children))"

definition select_archives :: "pyenv \<Rightarrow> path \<Rightarrow> ustr \<Rightarrow> ustr \<Rightarrow> (path \<times> path) fsm" where
  "select_archives E dist_dir name version =
     (let wheel = dist_dir @ posix_parts (normalized_distribution_stem E name @ [45] @ version @ u ''-py3-none-any.whl'');
          sdist = dist_dir @ posix_parts (name @ [45] @ version @ u ''.tar.gz'') in
      fbind (glob_suffix dist_dir (u ''.whl'')) (\<lambda>wheels.
      fbind (glob_suffix dist_dir (u ''.tar.gz'')) (\<lambda>sdists.
      let publishable_archives = sort_key path_name (wheels @ sdists) in
      fbind (fcheck (length publishable_archives = 2 \<and> set publishable_archives = {wheel, sdist})
               ''unexpected distribution archives'') (\<lambda>_.
      fbind (require_archive_states publishable_archives) (\<lambda>_.
      fret (wheel, sdist))))))"

section \<open>Contents\<close>

fun safe_archive_names :: "ustr list \<Rightarrow> ustr list \<Rightarrow> ustr list res" where
  "safe_archive_names seen [] = Inr seen"
| "safe_archive_names seen (name # names) =
     (if \<not> safe_archive_name name \<or> name \<in> set seen then Inl (SystemExit ''distribution contains an unsafe archive path'')
      else safe_archive_names (seen @ [name]) names)"

definition member_content :: "zip_member list \<Rightarrow> ustr \<Rightarrow> bytes res" where
  "member_content members name =
     (case filter (\<lambda>m. zm_name m = name) members of
        [] \<Rightarrow> Inl (OtherException 4)
      | ms \<Rightarrow> zm_content (last ms))"

definition dist_info :: "project_table \<Rightarrow> ustr" where
  "dist_info project = DISTRIBUTION_NAME @ [45] @ pj_version project @ u ''.dist-info''"

definition wheel_required :: "project_table \<Rightarrow> ustr set" where
  "wheel_required project =
     (\<lambda>p. DISTRIBUTION_NAME @ u p) ` {''/__init__.py'', ''/py.typed'', ''/schemas/decision-evidence-v1.schema.json''}
     \<union> (\<lambda>p. dist_info project @ u p) ` {''/METADATA'', ''/WHEEL'', ''/RECORD'', ''/licenses/LICENSE''}"

text \<open>What the parser of a wheel gives: the digest of the snapshot and the header fields of its metadata.\<close>

definition parse_wheel :: "verify_lib \<Rightarrow> project_table \<Rightarrow> bytes \<Rightarrow> (ustr \<times> (ustr \<times> ustr) list) res" where
  "parse_wheel V project snapshot =
     ebind (al_zip (vl_archives V) snapshot) (\<lambda>members.
     ebind (safe_archive_names [] (map zm_name members)) (\<lambda>names.
     if \<not> wheel_required project \<subseteq> set names then Inl (SystemExit ''wheel is missing required files'')
     else
       ebind (member_content members (dist_info project @ u ''/METADATA'')) (\<lambda>payload.
       Inr (sha256_hex (vl_env V) snapshot, al_message (vl_archives V) payload))))"

definition expected_metadata :: "project_table \<Rightarrow> (string \<times> ustr) list" where
  "expected_metadata project =
     [(''Name'', pj_name project), (''Version'', pj_version project),
      (''Requires-Python'', pj_requires_python project), (''License-Expression'', pj_license project)]"

fun check_metadata :: "(ustr \<times> ustr) list \<Rightarrow> (string \<times> ustr) list \<Rightarrow> unit res" where
  "check_metadata metadata [] = Inr ()"
| "check_metadata metadata ((field_name, expected_value) # expected) =
     (case header_values metadata field_name of
        [] \<Rightarrow> Inl (SystemExit ''wheel metadata did not match'')
      | observed # _ \<Rightarrow>
          if observed \<noteq> expected_value then Inl (SystemExit ''wheel metadata did not match'')
          else check_metadata metadata expected)"

definition verify_wheel :: "verify_lib \<Rightarrow> path \<Rightarrow> project_table \<Rightarrow> ustr fsm" where
  "verify_wheel V wheel project =
     fbind (with_stable_distribution (vl_env V) wheel (parse_wheel V project)) (\<lambda>(wheel_digest, metadata).
     fbind (flift (check_metadata metadata (expected_metadata project))) (\<lambda>_.
     fbind (fcheck (u ''LICENSE'' \<in> set (header_values metadata ''License-File''))
              ''wheel metadata does not declare LICENSE as a license file'') (\<lambda>_.
     fret wheel_digest)))"

definition sdist_prefix :: "project_table \<Rightarrow> ustr" where
  "sdist_prefix project = DISTRIBUTION_NAME @ [45] @ pj_version project"

definition sdist_required :: "project_table \<Rightarrow> ustr set" where
  "sdist_required project =
     (\<lambda>p. sdist_prefix project @ u p) ` {''/pyproject.toml'', ''/README.md'', ''/CHANGELOG.md'', ''/LICENSE'',
        ''/tests/test_quality_contracts.py'', ''/docs/release.md''}
     \<union> (\<lambda>p. sdist_prefix project @ u ''/src/'' @ DISTRIBUTION_NAME @ u p) `
        {''/__init__.py'', ''/py.typed'', ''/schemas/decision-evidence-v1.schema.json''}"

definition parse_sdist :: "verify_lib \<Rightarrow> bytes \<Rightarrow> (ustr \<times> ustr list) res" where
  "parse_sdist V snapshot =
     ebind (vl_tar_gz V snapshot) (\<lambda>members.
     ebind (safe_archive_names [] (map tm_name members)) (\<lambda>names.
     if list_ex (\<lambda>m. tm_kind m \<in> {TSymlink, THardlink, TDevice, TFifo}) members
     then Inl (SystemExit ''source distribution contains a link or device entry'')
     else Inr (sha256_hex (vl_env V) snapshot, names)))"

definition verify_sdist :: "verify_lib \<Rightarrow> path \<Rightarrow> project_table \<Rightarrow> ustr fsm" where
  "verify_sdist V sdist project =
     fbind (with_stable_distribution (vl_env V) sdist (parse_sdist V)) (\<lambda>(sdist_digest, names).
     fbind (fcheck (sdist_required project \<subseteq> set names) ''source distribution is missing required files'') (\<lambda>_.
     fbind (fcheck (list_all (\<lambda>name. starts_with (sdist_prefix project @ [47]) name) names)
              ''source distribution contains a path outside its versioned root'') (\<lambda>_.
     fret sdist_digest)))"

section \<open>Release reference\<close>

definition is_decimal_c :: "verify_lib \<Rightarrow> int \<Rightarrow> bool" where
  "is_decimal_c V c = (if is_ascii_c c then is_dec_c c else vl_decimal V c)"

definition is_release_version :: "verify_lib \<Rightarrow> ustr \<Rightarrow> bool" where
  "is_release_version V s \<longleftrightarrow>
     (let parts = py_split 46 s in length parts = 3 \<and> list_all (\<lambda>p. p \<noteq> [] \<and> list_all (is_decimal_c V) p) parts)"

text \<open>Four digits, two and two, separated by hyphens.\<close>

definition is_release_date :: "verify_lib \<Rightarrow> ustr \<Rightarrow> bool" where
  "is_release_date V s \<longleftrightarrow>
     (let parts = py_split 45 s in map length parts = [4, 2, 2] \<and> list_all (list_all (is_decimal_c V)) parts)"

text \<open>The version of a line \<open>## [version] - date\<close>.\<close>

definition release_line :: "verify_lib \<Rightarrow> ustr \<Rightarrow> ustr option" where
  "release_line V line =
     (case py_partition 93 (drop 4 line) of (version, _, after) \<Rightarrow>
        if starts_with (u ''## ['') line \<and> is_release_version V version
           \<and> starts_with (u '' - '') after \<and> is_release_date V (drop 3 after)
        then Some version else None)"

definition released_versions :: "verify_lib \<Rightarrow> ustr \<Rightarrow> ustr list" where
  "released_versions V changelog = List.map_filter (release_line V) (py_split 10 changelog)"

definition unreleased_header :: ustr where "unreleased_header = u ''## [Unreleased]''"

text \<open>The section between the header \<open>## [Unreleased]\<close>, alone on its line, and the next section. The
  white space that the pattern takes after the header is part of it here; it is stripped in any case.\<close>

fun unreleased_section :: "pyenv \<Rightarrow> ustr list \<Rightarrow> ustr option" where
  "unreleased_section E [] = None"
| "unreleased_section E (line # lines) =
     (if starts_with unreleased_header line \<and> list_all (is_space_c E) (drop (length unreleased_header) line)
      then (if list_ex (starts_with (u ''## ['')) lines
            then Some (py_join 10 (takeWhile (\<lambda>l. \<not> starts_with (u ''## ['') l) lines)) else None)
      else unreleased_section E lines)"

definition check_changelog :: "verify_lib \<Rightarrow> ustr \<Rightarrow> ustr \<Rightarrow> unit res" where
  "check_changelog V version changelog =
     (if version \<notin> set (released_versions V changelog)
      then Inl (SystemExit ''CHANGELOG.md lacks a dated release section'')
      else
        (case unreleased_section (vl_env V) (py_split 10 changelog) of
           None \<Rightarrow> Inl (SystemExit ''CHANGELOG.md lacks the required Unreleased section'')
         | Some body \<Rightarrow>
             if py_strip (vl_env V) body \<noteq> [] then Inl (SystemExit ''CHANGELOG.md Unreleased section is not empty'')
             else Inr ()))"

definition verify_release_ref :: "verify_lib \<Rightarrow> ustr option \<Rightarrow> ustr \<Rightarrow> path \<Rightarrow> unit fsm" where
  "verify_release_ref V release_ref version changelog_path =
     (case release_ref of
        None \<Rightarrow> fret ()
      | Some ref \<Rightarrow>
          fbind (fcheck (ref = [118] @ version) ''release tag must equal the version'') (\<lambda>_.
          fbind (observe (\<lambda>v. fv_read v changelog_path)) (\<lambda>content.
            case content of
              None \<Rightarrow> fraise (OSError [])
            | Some raw \<Rightarrow>
                fbind (flift (of_option UnicodeDecodeError (decode_utf8 raw))) (\<lambda>changelog.
                flift (check_changelog V version (universal_newlines changelog))))))"

section \<open>Checksums\<close>

text \<open>The digest of an archive that is read again through a snapshot.\<close>

definition sha256_archive :: "pyenv \<Rightarrow> path \<Rightarrow> ustr fsm" where
  "sha256_archive E archive_path = with_stable_distribution E archive_path (\<lambda>snapshot. Inr (sha256_hex E snapshot))"

fun sums_lines :: "pyenv \<Rightarrow> (path \<rightharpoonup> ustr) option \<Rightarrow> path list \<Rightarrow> ustr fsm" where
  "sums_lines E expected_digests [] = fret []"
| "sums_lines E expected_digests (archive_path # archives) =
     fbind (sha256_archive E archive_path) (\<lambda>digest.
     if (case expected_digests of None \<Rightarrow> False | Some m \<Rightarrow> m archive_path \<noteq> Some digest) then fraise unsafe_archive
     else
       fbind (sums_lines E expected_digests archives) (\<lambda>lines.
       fret (digest @ [32, 32] @ path_name archive_path @ [10] @ lines)))"

definition write_sha256sums :: "pyenv \<Rightarrow> path \<Rightarrow> path \<times> path \<Rightarrow> (path \<rightharpoonup> ustr) option \<Rightarrow> path fsm" where
  "write_sha256sums E dist_dir archives expected_digests =
     (let sums_path = dist_dir @ [u ''SHA256SUMS'']; refused = SystemExit ''checksum output path already exists or is unsafe'' in
      fbind (sums_lines E expected_digests (sort_key path_name [fst archives, snd archives])) (\<lambda>lines.
      fbind (fcreate sums_path) (\<lambda>outcome.
        case outcome of
          AlreadyExists \<Rightarrow> fraise refused
        | CreateFails \<Rightarrow> fraise refused
        | Created file \<Rightarrow>
            fbind (flift (of_option UnicodeEncodeError (encode_ascii lines))) (\<lambda>b.
            fbind (fwrite sums_path b) (\<lambda>ok.
            if ok then fret sums_path else fraise refused)))))"

definition load_project :: "verify_lib \<Rightarrow> path \<Rightarrow> project_table fsm" where
  "load_project V repository_root =
     fbind (observe (\<lambda>v. fv_read v (repository_root @ [u ''pyproject.toml'']))) (\<lambda>content.
       case content of
         None \<Rightarrow> fraise (OSError [])
       | Some raw \<Rightarrow> flift (vl_project V raw))"

text \<open>The command on its arguments, returning the paths it reports and the exit code.\<close>

definition verify_distribution_main :: "verify_lib \<Rightarrow> path \<Rightarrow> path \<Rightarrow> ustr option \<Rightarrow> ((path \<times> path \<times> path) \<times> int) fsm" where
  "verify_distribution_main V repository_root dist_argument release_ref =
     fbind (load_project V repository_root) (\<lambda>project.
     fbind (fcheck (pj_name project = DISTRIBUTION_NAME) ''unexpected project name'') (\<lambda>_.
     fbind (observe (\<lambda>v. fv_resolve_lax v dist_argument)) (\<lambda>resolved_dist.
       case resolved_dist of
         None \<Rightarrow> fraise (OtherException 0)
       | Some dist_dir \<Rightarrow>
           fbind (select_archives (vl_env V) dist_dir (pj_name project) (pj_version project)) (\<lambda>(wheel, sdist).
           fbind (verify_wheel V wheel project) (\<lambda>wheel_digest.
           fbind (verify_sdist V sdist project) (\<lambda>sdist_digest.
           fbind (verify_release_ref V release_ref (pj_version project) (repository_root @ [u ''CHANGELOG.md''])) (\<lambda>_.
           fbind (write_sha256sums (vl_env V) dist_dir (wheel, sdist)
                    (Some [wheel \<mapsto> wheel_digest, sdist \<mapsto> sdist_digest])) (\<lambda>sums_path.
           fret ((wheel, sdist, sums_path), 0)))))))))"

end
