(* ===== verification/Distribution_Rules.thy ===== *)
theory Distribution_Rules
  imports Verify_Distribution Output_Rules Policy_Normalization
begin

text \<open>
  What the verifier of the release distributions establishes: an archive is accepted as bytes that
  its source had before and has again after the parser, and the checksums are written, for exactly
  these bytes, after everything else was verified.
\<close>

section \<open>Stable archives\<close>

lemma copy_exact_eq:
  "copy_exact n copied rest = (if n \<le> length rest then Some (copied @ take n rest, drop n rest) else None)"
proof (induction n copied rest rule: copy_exact.induct)
  case (1 n copied rest)
  let ?chunk = "take (min HASH_CHUNK_SIZE n) rest"
  show ?case
  proof (cases "n = 0 \<or> rest = []")
    case True
    then show ?thesis by (subst copy_exact.simps) auto
  next
    case False
    then have ne: "?chunk \<noteq> []" by (simp add: HASH_CHUNK_SIZE_def)
    have m: "n \<noteq> 0" using False by simp
    let ?k = "length ?chunk"
    have split: "length c \<le> n \<Longrightarrow> (if n - length c \<le> length t then Some ((copied @ c) @ take (n - length c) t, drop (n - length c) t) else None)
        = (if n \<le> length (c @ t) then Some (copied @ take n (c @ t), drop n (c @ t)) else None)" for c t :: bytes
      by auto
    have "copy_exact n copied rest = copy_exact (n - ?k) (copied @ ?chunk) (drop ?k rest)"
      using copy_exact.simps [of n copied rest] unfolding Let_def if_not_P [OF m] if_not_P [OF ne] .
    also have "\<dots> = (if n - ?k \<le> length (drop ?k rest)
        then Some ((copied @ ?chunk) @ take (n - ?k) (drop ?k rest), drop (n - ?k) (drop ?k rest)) else None)"
      by (rule 1) (use False ne in auto)
    also have "\<dots> = (if n \<le> length (?chunk @ drop ?k rest)
        then Some (copied @ take n (?chunk @ drop ?k rest), drop n (?chunk @ drop ?k rest)) else None)"
      by (rule split) simp
    also have "?chunk @ drop ?k rest = rest" by (metis append_eq_conv_conj append_take_drop_id)
    finally show ?thesis .
  qed
qed

text \<open>An archive that had some bytes when it was opened, is the same file of the same size at the end,
  and then again has exactly as many bytes with the same digest.\<close>

definition stable_archive :: "pyenv \<Rightarrow> world \<Rightarrow> path \<Rightarrow> bytes \<Rightarrow> bool" where
  "stable_archive E w archive b \<longleftrightarrow>
     (\<exists>t0 t1 t2 st f again st'. t0 < t1 \<and> t1 < t2
        \<and> fv_lstat (w t0) archive = Some st \<and> st_kind st = Regular \<and> st_size st \<le> MAX_DISTRIBUTION_BYTES
        \<and> fv_open (w (Suc t0)) archive = Some f \<and> same_distribution_state st (op_state f)
        \<and> op_bytes f = b \<and> length b = nat (st_size st)
        \<and> sv_bytes (fv_stream (w t1) (st_identity st)) = again \<and> length again = length b
        \<and> sha256_hex E again = sha256_hex E b
        \<and> fv_lstat (w t2) archive = Some st' \<and> same_distribution_state st st')"

lemma closing_errors_Inr: "closing_errors r = Inr x \<longleftrightarrow> r = Inr x"
  by (auto simp: closing_errors_def split: sum.splits exn.splits)

lemma regular_state_Inr:
  "require_regular_distribution_state p w s = (Inr st, s') \<longleftrightarrow>
     fv_lstat (w (clock s)) p = Some st \<and> st_kind st = Regular \<and> st_size st \<le> MAX_DISTRIBUTION_BYTES \<and> s' = s\<lparr>clock := Suc (clock s)\<rparr>"
  by (auto simp: require_regular_distribution_state_def fbind_Inr split: option.splits if_splits)

lemma source_state_Inr: "source_state f w s = (Inr st, s') \<Longrightarrow> s' = s\<lparr>clock := Suc (clock s)\<rparr>"
  by (auto simp: source_state_def fbind_Inr)

lemma take_snapshot_Inr:
  assumes "take_snapshot p st f w s = (Inr b, s')"
  shows "op_bytes f = b \<and> length b = nat (st_size st) \<and> clock s < clock s'"
  using assms
  by (auto simp: take_snapshot_def fbind_Inr regular_state_Inr copy_exact_eq split: option.splits if_splits dest!: source_state_Inr)

lemma final_source_Inr:
  assumes "final_source E st f w s = (Inr (final, Some digest), s')"
  shows "\<exists>t. clock s < t \<and> t < clock s' \<and> length (sv_bytes (fv_stream (w t) (st_identity (op_state f)))) = nat (st_size st)
    \<and> sha256_hex E (sv_bytes (fv_stream (w t) (st_identity (op_state f)))) = digest"
  using assms
  by (auto simp: final_source_def fbind_Inr closing_errors_Inr sha256_exact_size_def copy_exact_eq split: option.splits if_splits
      dest!: source_state_Inr)

lemma with_stable_Inr:
  assumes "with_stable_distribution E p parser w s = (Inr x, s')"
  shows "\<exists>b. stable_archive E w p b \<and> parser b = Inr x"
proof -
  from assms obtain st f b s1 s2 final digest s3 st' where
    st: "fv_lstat (w (clock s)) p = Some st" "st_kind st = Regular" "st_size st \<le> MAX_DISTRIBUTION_BYTES"
    and opn: "fv_open (w (Suc (clock s))) p = Some f" "same_distribution_state st (op_state f)"
    and b: "take_snapshot p st f w (s\<lparr>clock := Suc (Suc (clock s))\<rparr>) = (Inr b, s1)"
    and parser: "parser b = Inr x"
    and final: "final_source E st f w s1 = (Inr (final, Some (sha256_hex E b)), s2)"
    and st': "fv_lstat (w (clock s2)) p = Some st'" "same_distribution_state st st'"
    by (auto simp: with_stable_distribution_def fbind_Inr regular_state_Inr closing_errors_Inr split: option.splits if_splits prod.splits)
  from take_snapshot_Inr [OF b] have sb: "op_bytes f = b" "length b = nat (st_size st)" "Suc (Suc (clock s)) < clock s1" by auto
  from final_source_Inr [OF final] obtain t where t: "clock s1 < t" "t < clock s2"
    "length (sv_bytes (fv_stream (w t) (st_identity (op_state f)))) = nat (st_size st)"
    "sha256_hex E (sv_bytes (fv_stream (w t) (st_identity (op_state f)))) = sha256_hex E b" by blast
  from opn(2) have "st_identity (op_state f) = st_identity st" by (simp add: same_distribution_state_def)
  with st opn sb t st' have "stable_archive E w p b"
    unfolding stable_archive_def
    by (intro exI [of _ "clock s"] exI [of _ t] exI [of _ "clock s2"] exI [of _ st] exI [of _ f] exI [of _ st'] exI) auto
  with parser show ?thesis by blast
qed

section \<open>Contents\<close>

lemma safe_archive_names_Inr:
  "safe_archive_names seen names = Inr all \<longleftrightarrow>
     all = seen @ names \<and> distinct names \<and> set seen \<inter> set names = {} \<and> list_all safe_archive_name names"
  by (induction seen names rule: safe_archive_names.induct) auto

text \<open>Two names of one file are not seen as duplicates: \<open>PurePosixPath\<close> removes empty segments before
  they are inspected.\<close>

lemma alias_names_accepted:
  "safe_archive_names [] [u ''egressweave/a.py'', u ''egressweave//a.py''] = Inr [u ''egressweave/a.py'', u ''egressweave//a.py'']"
  "posix_parts (u ''egressweave/a.py'') = posix_parts (u ''egressweave//a.py'')"
  by code_simp+

definition wheel_accepted :: "verify_lib \<Rightarrow> project_table \<Rightarrow> bytes \<Rightarrow> bool" where
  "wheel_accepted V project b \<longleftrightarrow>
     (\<exists>members payload. al_zip (vl_archives V) b = Inr members
        \<and> distinct (map zm_name members) \<and> zm_name ` set members \<subseteq> Collect safe_archive_name
        \<and> wheel_required project \<subseteq> zm_name ` set members
        \<and> member_content members (dist_info project @ u ''/METADATA'') = Inr payload
        \<and> list_all (\<lambda>(field_name, expected). \<exists>more. header_values (al_message (vl_archives V) payload) field_name = expected # more)
            (expected_metadata project)
        \<and> u ''LICENSE'' \<in> set (header_values (al_message (vl_archives V) payload) ''License-File''))"

definition sdist_accepted :: "verify_lib \<Rightarrow> project_table \<Rightarrow> bytes \<Rightarrow> bool" where
  "sdist_accepted V project b \<longleftrightarrow>
     (\<exists>members. vl_tar_gz V b = Inr members
        \<and> distinct (map tm_name members) \<and> tm_name ` set members \<subseteq> Collect safe_archive_name
        \<and> tm_kind ` set members \<subseteq> {TFile, TDirectory, TOther}
        \<and> sdist_required project \<subseteq> tm_name ` set members
        \<and> tm_name ` set members \<subseteq> {name. starts_with (sdist_prefix project @ [47]) name})"

lemma check_metadata_Inr:
  "check_metadata metadata expected = Inr x \<longleftrightarrow>
     list_all (\<lambda>(field_name, v). \<exists>more. header_values metadata field_name = v # more) expected"
  by (induction metadata expected rule: check_metadata.induct) (auto split: list.splits)

lemma verify_wheel_Inr:
  assumes "verify_wheel V p project w s = (Inr digest, s')"
  shows "\<exists>b. stable_archive (vl_env V) w p b \<and> wheel_accepted V project b \<and> digest = sha256_hex (vl_env V) b"
proof -
  from assms obtain metadata s1 where
    stable: "with_stable_distribution (vl_env V) p (parse_wheel V project) w s = (Inr (digest, metadata), s1)"
    and meta: "check_metadata metadata (expected_metadata project) = Inr ()" "u ''LICENSE'' \<in> set (header_values metadata ''License-File'')"
    by (auto simp: verify_wheel_def fbind_Inr ensure_eq_Inr split: prod.splits)
  from with_stable_Inr [OF stable] obtain b where b: "stable_archive (vl_env V) w p b" "parse_wheel V project b = Inr (digest, metadata)"
    by blast
  from b(2) meta have "wheel_accepted V project b \<and> digest = sha256_hex (vl_env V) b"
    unfolding check_metadata_Inr wheel_accepted_def
    by (auto simp: parse_wheel_def ebind_eq_Inr safe_archive_names_Inr list_all_iff split: if_splits)
  with b(1) show ?thesis by blast
qed

lemma tar_kind_plain: "k \<notin> {TSymlink, THardlink, TDevice, TFifo} \<Longrightarrow> k \<in> {TFile, TDirectory, TOther}"
  by (cases k) auto

lemma verify_sdist_Inr:
  assumes "verify_sdist V p project w s = (Inr digest, s')"
  shows "\<exists>b. stable_archive (vl_env V) w p b \<and> sdist_accepted V project b \<and> digest = sha256_hex (vl_env V) b"
proof -
  from assms obtain names s1 where
    stable: "with_stable_distribution (vl_env V) p (parse_sdist V) w s = (Inr (digest, names), s1)"
    and names: "sdist_required project \<subseteq> set names" "list_all (\<lambda>name. starts_with (sdist_prefix project @ [47]) name) names"
    by (auto simp: verify_sdist_def fbind_Inr ensure_eq_Inr split: prod.splits)
  from with_stable_Inr [OF stable] obtain b where b: "stable_archive (vl_env V) w p b" "parse_sdist V b = Inr (digest, names)" by blast
  from b(2) obtain members where m: "vl_tar_gz V b = Inr members" "names = map tm_name members" "distinct names"
    "list_all safe_archive_name names" "\<not> list_ex (\<lambda>m. tm_kind m \<in> {TSymlink, THardlink, TDevice, TFifo}) members"
    "digest = sha256_hex (vl_env V) b"
    by (auto simp: parse_sdist_def ebind_eq_Inr safe_archive_names_Inr split: if_splits)
  have "tm_kind ` set members \<subseteq> {TFile, TDirectory, TOther}"
    using m(5) tar_kind_plain by (auto simp only: list_ex_iff)
  with m names have "sdist_accepted V project b"
    unfolding sdist_accepted_def by (intro exI [of _ members]) (auto simp: list_all_iff)
  with b(1) m(6) show ?thesis by blast
qed

section \<open>Checksums\<close>

text \<open>The lines for digests by path.\<close>

definition sums_text :: "(path \<Rightarrow> ustr) \<Rightarrow> path list \<Rightarrow> ustr" where
  "sums_text digest archives = concat (map (\<lambda>p. digest p @ [32, 32] @ path_name p @ [10]) archives)"

lemma sums_lines_Inr:
  "sums_lines E (Some m) ps w s = (Inr lines, s') \<Longrightarrow>
     lines = sums_text (\<lambda>p. the (m p)) ps \<and> (\<forall>p \<in> set ps. \<exists>b. stable_archive E w p b \<and> m p = Some (sha256_hex E b))"
proof (induction ps arbitrary: s lines)
  case Nil
  then show ?case by (simp add: sums_text_def)
next
  case (Cons p ps)
  from Cons.prems obtain digest s1 rest where a: "sha256_archive E p w s = (Inr digest, s1)" "m p = Some digest"
    and rest: "sums_lines E (Some m) ps w s1 = (Inr rest, s')" and lines: "lines = digest @ [32, 32] @ path_name p @ [10] @ rest"
    by (auto simp: fbind_Inr split: if_splits)
  from with_stable_Inr [OF a(1) [unfolded sha256_archive_def]] obtain b where "stable_archive E w p b" "digest = sha256_hex E b" by auto
  with Cons.IH [OF rest] a(2) lines show ?case by (auto simp: sums_text_def)
qed

section \<open>The command\<close>

lemma quiet_archive [quiet_rules]:
  "quiet (require_regular_distribution_state p)" "quiet (source_state f)" "quiet (take_snapshot p st f)"
  "quiet (final_source E st f)" "quiet (with_stable_distribution E p parser)" "quiet (glob_suffix p suffix)"
  unfolding require_regular_distribution_state_def source_state_def take_snapshot_def final_source_def
    with_stable_distribution_def glob_suffix_def by (intro quiet_rules)+

lemma quiet_archive_states [quiet_rules]: "quiet (require_archive_states ps)"
  by (induction ps) (simp_all only: require_archive_states.simps, (intro quiet_rules | assumption)+)

lemma quiet_verification [quiet_rules]:
  "quiet (select_archives E p name version)" "quiet (verify_wheel V p project)" "quiet (verify_sdist V p project)"
  "quiet (verify_release_ref V ref version p)" "quiet (load_project V p)" "quiet (sha256_archive E p)"
  unfolding select_archives_def verify_wheel_def verify_sdist_def verify_release_ref_def load_project_def sha256_archive_def Let_def
  by (intro quiet_rules)+

lemma quiet_sums [quiet_rules]: "quiet (sums_lines E m ps)"
  by (induction ps) (simp_all only: sums_lines.simps, (intro quiet_rules | assumption)+)

text \<open>Runs that fail without writing, or end in a described way.\<close>

abbreviation finishes :: "world \<Rightarrow> ((path \<times> bytes) list \<Rightarrow> 'a res \<Rightarrow> (path \<times> bytes) list \<Rightarrow> bool) \<Rightarrow> 'a fsm \<Rightarrow> bool" where
  "finishes w H m \<equiv> prepares w {} (\<lambda>s r s'. H (written s) r (written s')) m"

text \<open>The checksum file is created, and then written with the encoded lines.\<close>

definition sums_written :: "path \<Rightarrow> ustr \<Rightarrow> 'a \<Rightarrow> (path \<times> bytes) list \<Rightarrow> 'a res \<Rightarrow> (path \<times> bytes) list \<Rightarrow> bool" where
  "sums_written target lines result ws r ws' \<longleftrightarrow>
     ws' = ws @ [(target, [])] \<and> (\<exists>e. r = Inl e)
     \<or> (\<exists>b. encode_ascii lines = Some b \<and> ws' = ws @ [(target, []), (target, b)] \<and> (r = Inr result \<or> (\<exists>e. r = Inl e)))"

lemma write_sums_finishes:
  assumes "\<And>lines s s1. sums_lines E m (sort_key path_name [fst archives, snd archives]) w s = (Inr lines, s1) \<Longrightarrow> P lines"
  shows "finishes w (\<lambda>ws r ws'. \<exists>lines. P lines \<and> sums_written (dir @ [u ''SHA256SUMS'']) lines (k (dir @ [u ''SHA256SUMS''])) ws r ws')
     (fbind (write_sha256sums E dir archives m) (\<lambda>target. fret (k target)))"
proof (rule prepares_end)
  fix s r s'
  assume run: "fbind (write_sha256sums E dir archives m) (\<lambda>target. fret (k target)) w s = (r, s')"
  let ?p = "dir @ [u ''SHA256SUMS'']"
  define ps where "ps = sort_key path_name [fst archives, snd archives]"
  note run = run [unfolded write_sha256sums_def Let_def, folded ps_def]
  obtain r1 s1 where a: "sums_lines E m ps w s = (r1, s1)" by fastforce
  note q = quietD [OF quiet_sums a]
  show "(\<exists>e. r = Inl e) \<and> written s' = written s
      \<or> (\<exists>lines. P lines \<and> sums_written ?p lines (k ?p) (written s) r (written s'))"
  proof (cases r1)
    case Inl
    with run a q show ?thesis by (auto simp: fbind_def)
  next
    case (Inr lines)
    with a have p: "P lines" using assms by (simp only: ps_def)
    have "(\<exists>e. r = Inl e) \<and> written s' = written s \<or> sums_written ?p lines (k ?p) (written s) r (written s')"
      using run a Inr q
      by (auto simp: fbind_def fcreate_def fwrite_def sums_written_def of_option_def
          split: created.splits option.splits if_splits prod.splits)
    with p show ?thesis by blast
  qed
qed

text \<open>The tag of a published release: it names the version, and the changelog has a dated section for
  it and nothing unreleased.\<close>

definition release_bound :: "verify_lib \<Rightarrow> world \<Rightarrow> path \<Rightarrow> ustr \<Rightarrow> ustr option \<Rightarrow> bool" where
  "release_bound V w changelog_path version release_ref \<longleftrightarrow>
     release_ref = None
     \<or> (\<exists>t raw content body. release_ref = Some ([118] @ version) \<and> fv_read (w t) changelog_path = Some raw
          \<and> decode_utf8 raw = Some content
          \<and> version \<in> set (released_versions V (universal_newlines content))
          \<and> unreleased_section (vl_env V) (py_split 10 (universal_newlines content)) = Some body
          \<and> py_strip (vl_env V) body = [])"

lemma check_changelog_Inr:
  "check_changelog V version changelog = Inr x \<longleftrightarrow>
     version \<in> set (released_versions V changelog)
     \<and> (\<exists>body. unreleased_section (vl_env V) (py_split 10 changelog) = Some body \<and> py_strip (vl_env V) body = [])"
  by (auto simp: check_changelog_def split: option.splits)

lemma verify_release_ref_Inr:
  assumes "verify_release_ref V release_ref version p w s = (Inr x, s')"
  shows "release_bound V w p version release_ref"
  using assms
  by (auto simp: verify_release_ref_def release_bound_def fbind_Inr ensure_eq_Inr of_option_eq_Inr check_changelog_Inr
      split: option.splits)

text \<open>How a run ends that gets as far as the checksums.\<close>

definition checksums_outcome :: "verify_lib \<Rightarrow> world \<Rightarrow> path \<Rightarrow> ustr option \<Rightarrow> (path \<times> bytes) list
    \<Rightarrow> ((path \<times> path \<times> path) \<times> int) res \<Rightarrow> (path \<times> bytes) list \<Rightarrow> bool" where
  "checksums_outcome V w root_dir release_ref ws r ws' \<longleftrightarrow>
     (\<exists>project dir wheel sdist bw bs. pj_name project = DISTRIBUTION_NAME
        \<and> stable_archive (vl_env V) w wheel bw \<and> wheel_accepted V project bw
        \<and> stable_archive (vl_env V) w sdist bs \<and> sdist_accepted V project bs
        \<and> release_bound V w (root_dir @ [u ''CHANGELOG.md'']) (pj_version project) release_ref
        \<and> sums_written (dir @ [u ''SHA256SUMS''])
            (sums_text (\<lambda>p. the ([wheel \<mapsto> sha256_hex (vl_env V) bw, sdist \<mapsto> sha256_hex (vl_env V) bs] p))
              (sort_key path_name [wheel, sdist]))
            ((wheel, sdist, dir @ [u ''SHA256SUMS'']), 0) ws r ws')"

lemma checksums_written_outcome:
  assumes "pj_name project = DISTRIBUTION_NAME"
    and wheel: "verify_wheel V wheel project w s8 = (Inr wheel_digest, s9)"
    and sdist: "verify_sdist V sdist project w s10 = (Inr sdist_digest, s11)"
    and ref: "verify_release_ref V release_ref (pj_version project) (root_dir @ [u ''CHANGELOG.md'']) w s12 = (Inr y, s13)"
  shows "finishes w (checksums_outcome V w root_dir release_ref)
     (fbind (write_sha256sums (vl_env V) dir (wheel, sdist) (Some [wheel \<mapsto> wheel_digest, sdist \<mapsto> sdist_digest]))
        (\<lambda>sums_path. fret ((wheel, sdist, sums_path), 0)))"
proof (rule prepares_mono [OF write_sums_finishes
      [where P = "\<lambda>lines. lines = sums_text (\<lambda>p. the ([wheel \<mapsto> wheel_digest, sdist \<mapsto> sdist_digest] p))
         (sort_key path_name [wheel, sdist])" and k = "\<lambda>t. ((wheel, sdist, t), 0 :: int)"]])
  fix lines t t1
  assume "sums_lines (vl_env V) (Some [wheel \<mapsto> wheel_digest, sdist \<mapsto> sdist_digest])
      (sort_key path_name [fst (wheel, sdist), snd (wheel, sdist)]) w t = (Inr lines, t1)"
  from sums_lines_Inr [OF this] show "lines = sums_text (\<lambda>p. the ([wheel \<mapsto> wheel_digest, sdist \<mapsto> sdist_digest] p))
      (sort_key path_name [wheel, sdist])" by (simp only: fst_conv snd_conv)
next
  from verify_wheel_Inr [OF wheel] obtain bw where
    "stable_archive (vl_env V) w wheel bw" "wheel_accepted V project bw" "wheel_digest = sha256_hex (vl_env V) bw" by blast
  moreover from verify_sdist_Inr [OF sdist] obtain bs where
    "stable_archive (vl_env V) w sdist bs" "sdist_accepted V project bs" "sdist_digest = sha256_hex (vl_env V) bs" by blast
  moreover note assms(1) verify_release_ref_Inr [OF ref]
  moreover fix s :: world_state and r and s' :: world_state
  assume "\<exists>lines. lines = sums_text (\<lambda>p. the ([wheel \<mapsto> wheel_digest, sdist \<mapsto> sdist_digest] p)) (sort_key path_name [wheel, sdist])
      \<and> sums_written (dir @ [u ''SHA256SUMS'']) lines ((wheel, sdist, dir @ [u ''SHA256SUMS'']), 0 :: int) (written s) r (written s')"
  ultimately show "checksums_outcome V w root_dir release_ref (written s) r (written s')" unfolding checksums_outcome_def by blast
qed


section \<open>Archives that do not change\<close>

definition unchanging_archive :: "file_view \<Rightarrow> path \<Rightarrow> bytes \<Rightarrow> bool" where
  "unchanging_archive v archive b \<longleftrightarrow>
     (\<exists>st dir stream. fv_lstat v archive = Some st \<and> st_kind st = Regular \<and> st_size st = int (length b) \<and> st_size st \<le> MAX_DISTRIBUTION_BYTES
        \<and> fv_open v archive = Some \<lparr>op_state = st, op_bytes = b, op_fails = False\<rparr>
        \<and> fv_temporary v = Some dir \<and> \<not> fv_write_fails v dir
        \<and> fv_stream v (st_identity st) = stream \<and> sv_fstat stream = Inr st \<and> sv_bytes stream = b \<and> \<not> sv_fails stream)"

text \<open>What a parser returns for an archive that does not change is returned.\<close>

lemma unchanging_archive_parsed:
  assumes "unchanging_archive v archive b" "parser b = Inr x"
  shows "with_stable_distribution E archive parser (\<lambda>_. v) s = (Inr x, s\<lparr>clock := clock s + 9\<rparr>)"
proof -
  from assms obtain st dir stream where v: "fv_lstat v archive = Some st" "st_kind st = Regular" "st_size st = int (length b)"
      "int (length b) \<le> MAX_DISTRIBUTION_BYTES" "fv_open v archive = Some \<lparr>op_state = st, op_bytes = b, op_fails = False\<rparr>"
      "fv_temporary v = Some dir" "\<not> fv_write_fails v dir" "fv_stream v (st_identity st) = stream" "sv_fstat stream = Inr st"
      "sv_bytes stream = b" "\<not> sv_fails stream"
    unfolding unchanging_archive_def by auto
  have same: "same_distribution_state st st" using v(2) by (simp add: same_distribution_state_def)
  have state: "require_regular_distribution_state archive (\<lambda>_. v) t = (Inr st, t\<lparr>clock := Suc (clock t)\<rparr>)" for t
    using v(1-4) by (simp add: regular_state_Inr)
  have source: "source_state \<lparr>op_state = st, op_bytes = b, op_fails = False\<rparr> (\<lambda>_. v) t = (Inr st, t\<lparr>clock := Suc (clock t)\<rparr>)" for t
    using v(8,9) by (simp add: source_state_def fbind_def observe_def flift_def closing_errors_def)
  have snapshot: "take_snapshot archive st \<lparr>op_state = st, op_bytes = b, op_fails = False\<rparr> (\<lambda>_. v) t = (Inr b, t\<lparr>clock := clock t + 4\<rparr>)" for t
    using v(3,6,7) by (simp add: take_snapshot_def fbind_def observe_def copy_exact_eq source state same fret_def)
  have final: "final_source E st \<lparr>op_state = st, op_bytes = b, op_fails = False\<rparr> (\<lambda>_. v) t
      = (Inr (st, Some (sha256_hex E b)), t\<lparr>clock := clock t + 2\<rparr>)" for t
    using v(3,8,10,11) by (simp add: final_source_def fbind_def observe_def flift_def fret_def source same sha256_exact_size_def
        copy_exact_eq closing_errors_def)
  show ?thesis
    using assms(2)
    by (simp add: with_stable_distribution_def fbind_def observe_def flift_def fret_def state v(5) same snapshot final closing_errors_def)
qed

section \<open>A run that succeeds\<close>

text \<open>Two archives of version 1.0.0, a changelog with its section, and the tag of the release.\<close>

definition example_project :: project_table where
  "example_project = \<lparr>pj_name = u ''egressweave'', pj_version = u ''1.0.0'', pj_requires_python = u ''>=3.11'', pj_license = u ''MIT''\<rparr>"

definition example_members :: "zip_member list" where
  "example_members = map (\<lambda>name. \<lparr>zm_name = u name, zm_size = 1, zm_content = Inr ''m''\<rparr>)
     [''egressweave/__init__.py'', ''egressweave/py.typed'', ''egressweave/schemas/decision-evidence-v1.schema.json'',
      ''egressweave-1.0.0.dist-info/METADATA'', ''egressweave-1.0.0.dist-info/WHEEL'', ''egressweave-1.0.0.dist-info/RECORD'',
      ''egressweave-1.0.0.dist-info/licenses/LICENSE'']"

definition example_tar_members :: "tar_member list" where
  "example_tar_members = map (\<lambda>name. \<lparr>tm_name = u (''egressweave-1.0.0/'' @ name), tm_kind = TFile, tm_sparse = False, tm_size = 1,
       tm_content = Some ''m''\<rparr>)
     [''pyproject.toml'', ''README.md'', ''CHANGELOG.md'', ''LICENSE'', ''tests/test_quality_contracts.py'', ''docs/release.md'',
      ''src/egressweave/__init__.py'', ''src/egressweave/py.typed'', ''src/egressweave/schemas/decision-evidence-v1.schema.json'']"

definition example_verify_lib :: verify_lib where
  "example_verify_lib = \<lparr>vl_env = ascii_env\<lparr>sha256_hex := octets\<rparr>, vl_decimal = (\<lambda>_. False), vl_project = (\<lambda>_. Inr example_project),
     vl_archives = \<lparr>al_gunzip = (\<lambda>b. (b, False)), al_zip = (\<lambda>_. Inr example_members), al_tar = (\<lambda>_. ([], None)),
       al_message = (\<lambda>_. [(u ''Name'', u ''egressweave''), (u ''Version'', u ''1.0.0''), (u ''Requires-Python'', u ''>=3.11''),
         (u ''License-Expression'', u ''MIT''), (u ''License-File'', u ''LICENSE'')])\<rparr>,
     vl_tar_gz = (\<lambda>_. Inr example_tar_members)\<rparr>"

definition example_dist :: path where "example_dist = [u ''dist'']"
definition example_wheel_file :: path where "example_wheel_file = example_dist @ [u ''egressweave-1.0.0-py3-none-any.whl'']"
definition example_sdist_file :: path where "example_sdist_file = example_dist @ [u ''egressweave-1.0.0.tar.gz'']"

definition example_changelog :: bytes where
  "example_changelog = concat (map (\<lambda>line. line @ [CHR 0x0A]) [''## [Unreleased]'', [], ''## [1.0.0] - 2026-01-02'', ''- First.''])"

definition example_archive_state :: "path \<Rightarrow> file_state" where
  "example_archive_state p = \<lparr>st_kind = Regular, st_identity = (1, if p = example_wheel_file then 1 else 2), st_size = 1, st_mode = 420, st_nlink = 1\<rparr>"

definition example_archive_bytes :: "path \<Rightarrow> bytes" where
  "example_archive_bytes p = (if p = example_wheel_file then ''w'' else ''s'')"

definition example_file_view :: file_view where
  "example_file_view = \<lparr>
     fv_open = (\<lambda>p. Some \<lparr>op_state = example_archive_state p, op_bytes = example_archive_bytes p, op_fails = False\<rparr>),
     fv_lstat = (\<lambda>p. Some (example_archive_state p)), fv_stat = (\<lambda>p. Some (example_archive_state p)),
     fv_read = (\<lambda>p. Some example_changelog),
     fv_stream = (\<lambda>i. let p = if i = (1, 1) then example_wheel_file else example_sdist_file in
       \<lparr>sv_fileno = Inr (VInt 3), sv_fstat = Inr (example_archive_state p), sv_tell = Inr (VInt 0), sv_read = (\<lambda>n. Inr (VBytes [])),
        sv_seek = (\<lambda>n. Inr (VInt n)), sv_bytes = example_archive_bytes p, sv_fails = False\<rparr>),
     fv_is_dir = (\<lambda>p. p = example_dist), fv_is_file = (\<lambda>p. p \<noteq> example_dist), fv_is_symlink = (\<lambda>p. False),
     fv_resolve = Some, fv_resolve_lax = Some, fv_entries = (\<lambda>p. Some [example_wheel_file, example_sdist_file]),
     fv_mkdir = (\<lambda>p. True), fv_create = (\<lambda>p. Created \<lparr>op_state = example_archive_state p, op_bytes = [], op_fails = False\<rparr>),
     fv_temporary = Some [u ''t''], fv_write_fails = (\<lambda>p. False)\<rparr>"

lemma example_unchanging:
  "unchanging_archive example_file_view example_wheel_file ''w''" "unchanging_archive example_file_view example_sdist_file ''s''"
proof -
  have "example_sdist_file \<noteq> example_wheel_file" by code_simp
  then show "unchanging_archive example_file_view example_wheel_file ''w''" "unchanging_archive example_file_view example_sdist_file ''s''"
    by (simp_all add: unchanging_archive_def example_file_view_def example_archive_state_def example_archive_bytes_def
        MAX_DISTRIBUTION_BYTES_def)
qed

lemma example_parsed:
  "parse_wheel example_verify_lib example_project ''w''
     = Inr ([119], al_message (vl_archives example_verify_lib) [])"
  "parse_sdist example_verify_lib ''s'' = Inr ([115], map tm_name example_tar_members)"
  "check_metadata (al_message (vl_archives example_verify_lib) []) (expected_metadata example_project) = Inr ()"
  "u ''LICENSE'' \<in> set (header_values (al_message (vl_archives example_verify_lib) []) ''License-File'')"
  "sdist_required example_project \<subseteq> set (map tm_name example_tar_members)"
  "list_all (\<lambda>name. starts_with (sdist_prefix example_project @ [47]) name) (map tm_name example_tar_members)"
  "decode_utf8 example_changelog = Some (u example_changelog)" "universal_newlines (u example_changelog) = u example_changelog"
  "check_changelog example_verify_lib (u ''1.0.0'') (u example_changelog) = Inr ()"
  by code_simp+

lemma example_selected:
  "select_archives (vl_env example_verify_lib) example_dist (u ''egressweave'') (u ''1.0.0'') (\<lambda>_. example_file_view) s
     = (Inr (example_wheel_file, example_sdist_file), s\<lparr>clock := clock s + 4\<rparr>)"
proof -
  have names: "example_dist @ posix_parts (normalized_distribution_stem (vl_env example_verify_lib) (u ''egressweave'') @ [45] @ u ''1.0.0'' @ u ''-py3-none-any.whl'')
      = example_wheel_file" "example_dist @ posix_parts (u ''egressweave'' @ [45] @ u ''1.0.0'' @ u ''.tar.gz'') = example_sdist_file"
    by code_simp+
  have globs: "filter (\<lambda>p. ends_with (u ''.whl'') (path_name p)) [example_wheel_file, example_sdist_file] = [example_wheel_file]"
    "filter (\<lambda>p. ends_with (u ''.tar.gz'') (path_name p)) [example_wheel_file, example_sdist_file] = [example_sdist_file]"
    "sort_key path_name ([example_wheel_file] @ [example_sdist_file]) = [example_wheel_file, example_sdist_file]"
    by code_simp+
  have glob: "glob_suffix example_dist suffix (\<lambda>_. example_file_view) t
      = (Inr (filter (\<lambda>p. ends_with suffix (path_name p)) [example_wheel_file, example_sdist_file]), t\<lparr>clock := Suc (clock t)\<rparr>)" for suffix t
    by (simp add: glob_suffix_def fbind_def observe_def fret_def example_file_view_def del: filter.simps)
  have state: "require_regular_distribution_state p (\<lambda>_. example_file_view) t = (Inr (example_archive_state p), t\<lparr>clock := Suc (clock t)\<rparr>)" for p t
    by (simp add: regular_state_Inr example_file_view_def example_archive_state_def MAX_DISTRIBUTION_BYTES_def)
  show ?thesis
    unfolding select_archives_def Let_def names
    by (simp add: fbind_def glob globs [simplified] fcheck_def flift_def ensure_def state fret_def insert_commute)
qed

lemma example_archives_verified:
  "verify_wheel example_verify_lib example_wheel_file example_project (\<lambda>_. example_file_view) s = (Inr [119], s\<lparr>clock := clock s + 9\<rparr>)"
  "verify_sdist example_verify_lib example_sdist_file example_project (\<lambda>_. example_file_view) s = (Inr [115], s\<lparr>clock := clock s + 9\<rparr>)"
  using example_parsed(3-6)
  by (simp_all add: verify_wheel_def verify_sdist_def fbind_def flift_def fcheck_def ensure_def fret_def
      unchanging_archive_parsed [where parser = "parse_wheel example_verify_lib example_project", OF example_unchanging(1) example_parsed(1)]
      unchanging_archive_parsed [where parser = "parse_sdist example_verify_lib", OF example_unchanging(2) example_parsed(2)]
      del: list.map set_map)

lemma example_summed:
  "sha256_archive (vl_env example_verify_lib) example_wheel_file (\<lambda>_. example_file_view) s = (Inr [119], s\<lparr>clock := clock s + 9\<rparr>)"
  "sha256_archive (vl_env example_verify_lib) example_sdist_file (\<lambda>_. example_file_view) s = (Inr [115], s\<lparr>clock := clock s + 9\<rparr>)"
proof -
  have digests: "sha256_hex (vl_env example_verify_lib) ''w'' = [119]" "sha256_hex (vl_env example_verify_lib) ''s'' = [115]" by code_simp+
  show "sha256_archive (vl_env example_verify_lib) example_wheel_file (\<lambda>_. example_file_view) s = (Inr [119], s\<lparr>clock := clock s + 9\<rparr>)"
    unfolding sha256_archive_def by (rule unchanging_archive_parsed [OF example_unchanging(1)]) (simp add: digests)
  show "sha256_archive (vl_env example_verify_lib) example_sdist_file (\<lambda>_. example_file_view) s = (Inr [115], s\<lparr>clock := clock s + 9\<rparr>)"
    unfolding sha256_archive_def by (rule unchanging_archive_parsed [OF example_unchanging(2)]) (simp add: digests)
qed

lemma example_distribution_verified:
  "verify_distribution_main example_verify_lib [] example_dist (Some (u ''v1.0.0'')) (\<lambda>_. example_file_view) \<lparr>clock = 0, written = []\<rparr>
   = (Inr ((example_wheel_file, example_sdist_file, example_dist @ [u ''SHA256SUMS'']), 0), \<lparr>clock = 45, written =
       [(example_dist @ [u ''SHA256SUMS''], []),
        (example_dist @ [u ''SHA256SUMS''], ''w  egressweave-1.0.0-py3-none-any.whl'' @ [CHR 0x0A] @ ''s  egressweave-1.0.0.tar.gz'' @ [CHR 0x0A])]\<rparr>)"
proof -
  let ?lines = "[119] @ [32, 32] @ path_name example_wheel_file @ [10] @ [115] @ [32, 32] @ path_name example_sdist_file @ [10]"
  have facts: "example_sdist_file \<noteq> example_wheel_file" "sort_key path_name [example_wheel_file, example_sdist_file] = [example_wheel_file, example_sdist_file]"
    "encode_ascii ?lines = Some (''w  egressweave-1.0.0-py3-none-any.whl'' @ [CHR 0x0A] @ ''s  egressweave-1.0.0.tar.gz'' @ [CHR 0x0A])"
    "u ''v1.0.0'' = [118] @ u ''1.0.0''" "pj_name example_project = u ''egressweave''"
    "pj_version example_project = u ''1.0.0''" by code_simp+
  have view: "vl_project example_verify_lib = (\<lambda>_. Inr example_project)" "fv_read example_file_view = (\<lambda>p. Some example_changelog)"
    "fv_resolve_lax example_file_view = Some" "fv_write_fails example_file_view = (\<lambda>p. False)"
    "fv_create example_file_view = (\<lambda>p. Created \<lparr>op_state = example_archive_state p, op_bytes = [], op_fails = False\<rparr>)"
    by (simp_all add: example_verify_lib_def example_file_view_def)
  have lines: "sums_lines (vl_env example_verify_lib) (Some [example_wheel_file \<mapsto> [119], example_sdist_file \<mapsto> [115]])
      (sort_key path_name [example_wheel_file, example_sdist_file]) (\<lambda>_. example_file_view) t = (Inr ?lines, t\<lparr>clock := clock t + 18\<rparr>)" for t
    unfolding facts(2) using facts(1) by (simp add: fbind_def fret_def example_summed)
  have ref: "verify_release_ref example_verify_lib (Some (u ''v1.0.0'')) (u ''1.0.0'') p (\<lambda>_. example_file_view) t
      = (Inr (), t\<lparr>clock := Suc (clock t)\<rparr>)" for p t
    using example_parsed(7-9)
    by (simp add: verify_release_ref_def fbind_def fcheck_def flift_def ensure_def observe_def view facts(4) of_option_def)
  have wrote: "write_sha256sums (vl_env example_verify_lib) example_dist (example_wheel_file, example_sdist_file)
      (Some [example_wheel_file \<mapsto> [119], example_sdist_file \<mapsto> [115]]) (\<lambda>_. example_file_view) t
    = (Inr (example_dist @ [u ''SHA256SUMS'']), t\<lparr>clock := clock t + 20, written := written t @ [(example_dist @ [u ''SHA256SUMS''], []),
        (example_dist @ [u ''SHA256SUMS''], ''w  egressweave-1.0.0-py3-none-any.whl'' @ [CHR 0x0A] @ ''s  egressweave-1.0.0.tar.gz'' @ [CHR 0x0A])]\<rparr>)" for t
    unfolding write_sha256sums_def Let_def fst_conv snd_conv facts(2)
    by (simp add: fbind_def lines [unfolded facts(2)] fcreate_def fwrite_def flift_def fret_def view facts(3) of_option_def
        del: append.simps sums_lines.simps)
  show ?thesis
    unfolding verify_distribution_main_def
    by (simp add: fbind_def load_project_def fcheck_def flift_def ensure_def observe_def fret_def view facts(5,6) DISTRIBUTION_NAME_def example_selected
        example_archives_verified ref wrote)
qed

end
